(* ===== verification/Prelude.thy ===== *)
theory Prelude
  imports Complex_Main "HOL-Library.Multiset"
begin

text \<open>
  Shared vocabulary of the development: results that may fail, tables of rows with an
  integer primary key, and the facts about them that every component uses.

  A service method of the program either returns or throws. It is modelled by a value of
  \<open>'e + 'a\<close>, with \<open>Inl\<close> for what is thrown; \<open>bindR\<close> is the sequencing of awaited calls,
  \<open>foldR\<close> the \<open>for \<dots> of\<close> loop whose body may throw.
\<close>

section \<open>Results\<close>

named_theorems result_simps "evaluation and inversion of results"
named_theorems inv_intros "what keeps the invariants of the components"

definition bindR :: "'e + 'a \<Rightarrow> ('a \<Rightarrow> 'e + 'b) \<Rightarrow> 'e + 'b" where
  "bindR m f = (case m of Inl e \<Rightarrow> Inl e | Inr x \<Rightarrow> f x)"

lemma bindR_simps [simp, result_simps]:
  "bindR (Inl e) f = Inl e"
  "bindR (Inr x) f = f x"
  by (simp_all add: bindR_def)

lemma bindR_Inr_iff: "bindR m f = Inr y \<longleftrightarrow> (\<exists>x. m = Inr x \<and> f x = Inr y)"
  by (cases m) simp_all

lemma bindR_Inl_iff: "bindR m f = Inl e \<longleftrightarrow> m = Inl e \<or> (\<exists>x. m = Inr x \<and> f x = Inl e)"
  by (cases m) simp_all

lemma bindR_InrE:
  assumes "bindR m f = Inr y"
  obtains x where "m = Inr x" and "f x = Inr y"
  using assms by (auto simp: bindR_Inr_iff)

lemma bindR_assoc: "bindR (bindR m f) g = bindR m (\<lambda>x. bindR (f x) g)"
  by (cases m) simp_all

lemma bindR_cong [cong]:
  assumes "m = m'" and "\<And>x. m' = Inr x \<Longrightarrow> f x = f' x"
  shows "bindR m f = bindR m' f'"
  using assms by (cases m') simp_all

fun is_ok :: "'e + 'a \<Rightarrow> bool" where
  "is_ok (Inr x) = True"
| "is_ok (Inl e) = False"

lemma is_ok_iff: "is_ok m \<longleftrightarrow> (\<exists>x. m = Inr x)"
  by (cases m) simp_all

text \<open>The loop \<open>for (const x of xs) { s = await f(x, s) }\<close>: the first error ends it.\<close>

fun foldR :: "('x \<Rightarrow> 's \<Rightarrow> 'e + 's) \<Rightarrow> 'x list \<Rightarrow> 's \<Rightarrow> 'e + 's" where
  "foldR f [] s = Inr s"
| "foldR f (x # xs) s = bindR (f x s) (foldR f xs)"

text \<open>Rows of a query whose condition may fail, and \<open>EXISTS\<close>, which stops at the first row that holds.\<close>

fun filterR :: "('x \<Rightarrow> 'e + bool) \<Rightarrow> 'x list \<Rightarrow> 'e + 'x list" where
  "filterR p [] = Inr []"
| "filterR p (x # xs) = bindR (p x) (\<lambda>b. bindR (filterR p xs) (\<lambda>ys. Inr (if b then x # ys else ys)))"

fun existsR :: "('x \<Rightarrow> 'e + bool) \<Rightarrow> 'x list \<Rightarrow> 'e + bool" where
  "existsR p [] = Inr False"
| "existsR p (x # xs) = bindR (p x) (\<lambda>b. if b then Inr True else existsR p xs)"

lemma filterR_total: "(\<And>x. x \<in> set xs \<Longrightarrow> p x = Inr (q x)) \<Longrightarrow> filterR p xs = Inr (filter q xs)"
  by (induction xs) auto

lemma existsR_total: "(\<And>x. x \<in> set xs \<Longrightarrow> p x = Inr (q x)) \<Longrightarrow> existsR p xs = Inr (\<exists>x \<in> set xs. q x)"
  by (induction xs) auto

lemma foldR_append: "foldR f (xs @ ys) s = bindR (foldR f xs s) (foldR f ys)"
  by (induction xs arbitrary: s) (simp_all add: bindR_assoc)

lemma foldR_invariant:
  assumes "foldR f xs s = Inr s'" and "I s"
    and "\<And>x s s'. x \<in> set xs \<Longrightarrow> I s \<Longrightarrow> f x s = Inr s' \<Longrightarrow> I s'"
  shows "I s'"
  using assms
proof (induction xs arbitrary: s)
  case Nil
  then show ?case by simp
next
  case (Cons x xs)
  from Cons.prems(1) obtain s1 where s1: "f x s = Inr s1" "foldR f xs s1 = Inr s'"
    by (auto simp: bindR_Inr_iff)
  have "I s1" using Cons.prems(2,3) s1(1) by (metis list.set_intros(1))
  then show ?case by (rule Cons.IH [OF s1(2)]) (use Cons.prems(3) in auto)
qed

text \<open>A quantity that every round of the loop shifts by a known amount.\<close>

lemma foldR_measure:
  fixes m :: "'s \<Rightarrow> int"
  assumes "foldR f xs s = Inr s'" and "I s"
    and "\<And>x s s'. x \<in> set xs \<Longrightarrow> I s \<Longrightarrow> f x s = Inr s' \<Longrightarrow> I s' \<and> m s' = m s + d x"
  shows "I s' \<and> m s' = m s + sum_list (map d xs)"
  using assms
proof (induction xs arbitrary: s)
  case Nil
  then show ?case by simp
next
  case (Cons x xs)
  from Cons.prems(1) obtain s1 where s1: "f x s = Inr s1" "foldR f xs s1 = Inr s'"
    by (auto simp: bindR_Inr_iff)
  have "I s1 \<and> m s1 = m s + d x" using Cons.prems(2,3) s1(1) by (metis list.set_intros(1))
  moreover from this have "I s' \<and> m s' = m s1 + sum_list (map d xs)"
    by (intro Cons.IH [OF s1(2)]) (use Cons.prems(3) in auto)
  ultimately show ?case by simp
qed

lemma foldR_total:
  assumes "I s" and "\<And>x s. x \<in> set xs \<Longrightarrow> I s \<Longrightarrow> \<exists>s'. f x s = Inr s' \<and> I s'"
  shows "\<exists>s'. foldR f xs s = Inr s' \<and> I s'"
  using assms
proof (induction xs arbitrary: s)
  case Nil
  then show ?case by simp
next
  case (Cons x xs)
  then obtain s1 where s1: "f x s = Inr s1" "I s1" by (meson list.set_intros(1))
  then show ?case using Cons.IH [OF s1(2)] Cons.prems(2) by simp
qed

section \<open>Tables\<close>

text \<open>
  A table is the list of its rows. \<open>sum_where\<close> is \<open>COALESCE(SUM(q), 0)\<close> under a
  \<open>WHERE\<close>, \<open>update_where\<close> an \<open>UPDATE\<close>.
\<close>

definition sum_where :: "('r \<Rightarrow> bool) \<Rightarrow> ('r \<Rightarrow> int) \<Rightarrow> 'r list \<Rightarrow> int" where
  "sum_where P q rs = sum_list (map q (filter P rs))"

definition count_where :: "('r \<Rightarrow> bool) \<Rightarrow> 'r list \<Rightarrow> nat" where
  "count_where P rs = length (filter P rs)"

definition update_where :: "('r \<Rightarrow> bool) \<Rightarrow> ('r \<Rightarrow> 'r) \<Rightarrow> 'r list \<Rightarrow> 'r list" where
  "update_where P f rs = map (\<lambda>r. if P r then f r else r) rs"

lemma sum_where_Nil [simp]: "sum_where P q [] = 0"
  by (simp add: sum_where_def)

lemma sum_where_Cons [simp]:
  "sum_where P q (r # rs) = (if P r then q r else 0) + sum_where P q rs"
  by (simp add: sum_where_def)

lemma sum_where_append [simp]: "sum_where P q (rs @ rs') = sum_where P q rs + sum_where P q rs'"
  by (simp add: sum_where_def)

lemma sum_where_cong:
  assumes "\<And>r. r \<in> set rs \<Longrightarrow> P r = P' r" and "\<And>r. r \<in> set rs \<Longrightarrow> P r \<Longrightarrow> q r = q' r"
  shows "sum_where P q rs = sum_where P' q' rs"
  using assms by (induction rs) auto

lemma sum_where_none: "(\<And>r. r \<in> set rs \<Longrightarrow> \<not> P r) \<Longrightarrow> sum_where P q rs = 0"
  by (induction rs) auto

lemma sum_where_nonneg: "(\<And>r. r \<in> set rs \<Longrightarrow> P r \<Longrightarrow> 0 \<le> q r) \<Longrightarrow> 0 \<le> sum_where P q rs"
proof (induction rs)
  case (Cons a rs)
  then have "0 \<le> sum_where P q rs" and "P a \<Longrightarrow> 0 \<le> q a" by auto
  then show ?case by auto
qed simp

lemma sum_where_le_member:
  assumes "r \<in> set rs" and "P r" and "\<And>r. r \<in> set rs \<Longrightarrow> P r \<Longrightarrow> 0 \<le> q r"
  shows "q r \<le> sum_where P q rs"
  using assms
proof (induction rs)
  case Nil
  then show ?case by simp
next
  case (Cons a rs)
  have nn: "0 \<le> sum_where P q rs" using Cons.prems(3) by (intro sum_where_nonneg) auto
  show ?case
  proof (cases "r = a")
    case True
    then show ?thesis using nn Cons.prems(2) by simp
  next
    case False
    with Cons have "q r \<le> sum_where P q rs" by simp
    moreover have "P a \<Longrightarrow> 0 \<le> q a" using Cons.prems(3) by simp
    ultimately show ?thesis by auto
  qed
qed

lemma sum_where_filter [simp]: "sum_where P q (filter Q rs) = sum_where (\<lambda>r. P r \<and> Q r) q rs"
  by (induction rs) auto

lemma find_Some_iff_mem:
  assumes "find P rs = Some r"
  shows "r \<in> set rs \<and> P r"
  using assms by (auto simp: find_Some_iff)

lemma find_key_Some:
  assumes "find (\<lambda>r. key r = k) rs = Some r"
  shows "key r = k" and "r \<in> set rs"
  using find_Some_iff_mem [OF assms] by simp_all

lemma set_update_where: "set (update_where P f rs) = {f r | r. r \<in> set rs \<and> P r} \<union> {r \<in> set rs. \<not> P r}"
  by (auto simp: update_where_def)

lemma update_where_Nil [simp]: "update_where P f [] = []"
  by (simp add: update_where_def)

lemma update_where_Cons [simp]:
  "update_where P f (r # rs) = (if P r then f r else r) # update_where P f rs"
  by (simp add: update_where_def)

lemma map_update_where: "(\<And>r. P r \<Longrightarrow> g (f r) = g r) \<Longrightarrow> map g (update_where P f rs) = map g rs"
  by (induction rs) auto

lemma update_where_keep: "r \<in> set rs \<Longrightarrow> \<not> P r \<Longrightarrow> r \<in> set (update_where P f rs)"
  by (force simp: update_where_def)

lemma length_update_where [simp]: "length (update_where P f rs) = length rs"
  by (simp add: update_where_def)

lemma update_where_none: "(\<And>r. r \<in> set rs \<Longrightarrow> \<not> P r) \<Longrightarrow> update_where P f rs = rs"
  by (induction rs) simp_all

lemma count_where_none: "(\<And>r. r \<in> set rs \<Longrightarrow> \<not> P r) \<Longrightarrow> count_where P rs = 0"
  by (simp add: count_where_def filter_empty_conv)

lemma count_where_pos_iff: "0 < count_where P rs \<longleftrightarrow> (\<exists>r \<in> set rs. P r)"
  by (auto simp: count_where_def filter_empty_conv)

lemma update_where_mem: "r \<in> set rs \<Longrightarrow> P r \<Longrightarrow> f r \<in> set (update_where P f rs)"
  by (auto simp: set_update_where)

section \<open>Rows with a quantity\<close>

text \<open>
  What the program does to stock is add to a quantity of the row with a given id
  (\<open>increment\<close>, \<open>decrement\<close> of an \<open>UPDATE ... WHERE id = k\<close>). The interface: a row has a
  key that the addition keeps and a quantity that the addition shifts. Its consequences for
  sums over the table are proved once; the tables of the model interpret it.
\<close>

locale qty_row =
  fixes key :: "'r \<Rightarrow> int" and qty :: "'r \<Rightarrow> int" and add :: "int \<Rightarrow> 'r \<Rightarrow> 'r"
  assumes key_add: "key (add d r) = key r"
    and qty_add: "qty (add d r) = qty r + d"
begin

lemma keys_add: "map key (update_where (\<lambda>r. key r = k) (add d) rs) = map key rs"
  by (rule map_update_where) (rule key_add)

lemma sum_absent:
  "k \<notin> set (map key rs) \<Longrightarrow>
    sum_where P qty (update_where (\<lambda>r. key r = k) (add d) rs) = sum_where P qty rs"
  by (induction rs) auto

lemma sum_add:
  assumes "distinct (map key rs)" and "r \<in> set rs" and "P (add d r) = P r"
  shows "sum_where P qty (update_where (\<lambda>x. key x = key r) (add d) rs)
    = sum_where P qty rs + (if P r then d else 0)"
  using assms
proof (induction rs)
  case Nil
  then show ?case by simp
next
  case (Cons a rs)
  show ?case
  proof (cases "r = a")
    case True
    with Cons.prems have "sum_where P qty (update_where (\<lambda>x. key x = key r) (add d) rs) = sum_where P qty rs"
      by (intro sum_absent) simp
    then show ?thesis using True Cons.prems(3) by (simp add: qty_add)
  next
    case False
    with Cons.prems have "r \<in> set rs" and "key a \<noteq> key r" by force+
    then show ?thesis using Cons by simp
  qed
qed

lemma find_add_other:
  "k' \<noteq> k \<Longrightarrow>
    find (\<lambda>r. key r = k') (update_where (\<lambda>r. key r = k) (add d) rs) = find (\<lambda>r. key r = k') rs"
  by (induction rs) (auto simp: key_add)

lemma find_add_same:
  "distinct (map key rs) \<Longrightarrow>
    find (\<lambda>r. key r = k) (update_where (\<lambda>r. key r = k) (add d) rs)
      = map_option (add d) (find (\<lambda>r. key r = k) rs)"
  by (induction rs) (auto simp: key_add)

end

lemma find_key_unique:
  assumes "distinct (map key rs)" and "r \<in> set rs" and "key r = k"
  shows "find (\<lambda>r. key r = k) rs = Some r"
  using assms
proof (induction rs)
  case Nil
  then show ?case by simp
next
  case (Cons a rs)
  then show ?case by (cases "r = a") force+
qed

section \<open>Text\<close>

text \<open>
  Texts are Isabelle strings; \<open>js_trim\<close> is \<open>String.prototype.trim\<close> on the characters a
  string can hold (code units below 256: tab, line feed, vertical tab, form feed, carriage
  return, space and the no-break space are the white space among them).
\<close>

definition js_space :: "char \<Rightarrow> bool" where
  "js_space c \<longleftrightarrow> (of_char c :: nat) \<in> {9, 10, 11, 12, 13, 32, 160}"

definition js_trim :: "string \<Rightarrow> string" where
  "js_trim s = rev (dropWhile js_space (rev (dropWhile js_space s)))"

lemma js_trim_empty_iff: "js_trim s = [] \<longleftrightarrow> (\<forall>c \<in> set s. js_space c)"
proof -
  have "js_trim s = [] \<longleftrightarrow> (\<forall>c \<in> set (dropWhile js_space s). js_space c)"
    by (simp add: js_trim_def)
  also have "\<dots> \<longleftrightarrow> (\<forall>c \<in> set s. js_space c)"
    by (induction s) auto
  finally show ?thesis .
qed

end
