(* ===== verification/Contracts.thy ===== *)
theory Contracts
  imports Prelude
begin

text \<open>
  What \<open>packages/contracts\<close> shares between the services: the enumerations, the error catalog
  (framework, approval and inventory domains; the message texts are presentation only and are
  left out), the exception with its filtering of details, and JSON values.
\<close>

section \<open>Error catalog\<close>

datatype error_type =
    BUSINESS | VALIDATION | AUTHENTICATION | AUTHORIZATION | CONFLICT
  | RATE_LIMIT | TIMEOUT | DEPENDENCY | SYSTEM

datatype business_domain =
    ACCOUNT | PERMISSION | APPROVAL | ASSET | INVENTORY
  | HR | FINANCE | EXPORT | BACKUP | INTEGRATION

text \<open>The codes of the finance and export domains are grouped under one constructor each.\<close>

datatype finance_error =
    PROJECT_KEY_CONFLICT | DATA_REVISION_STALE | IMPORT_FILE_TOO_LARGE
   | IMPORT_ROW_LIMIT_EXCEEDED | IMPORT_ARCHIVE_LIMIT_EXCEEDED | IMPORT_FORMULA_NOT_ALLOWED
   | IMPORT_YEAR_REQUIRED_FOR_NEW | IMPORT_YEAR_AMBIGUOUS | IMPORT_PREVIEW_STALE
   | IMPORT_PROJECT_DELETED | DICT_SEMANTIC_LOCKED | UNCLASSIFIED_NAME_CONFLICT
   | CELL_FIELD_NOT_ALLOWED | IMPORT_SHEET_INVALID | IMPORT_CONFIRM_MISMATCH
   | EXPORT_SCOPE_INVALID

datatype export_error =
    ROW_LIMIT_EXCEEDED | EXPORT_ALREADY_RUNNING | EXPORT_TIMEOUT | IMPORT_ALREADY_RUNNING
   | IMPORT_TIMEOUT

datatype error_code =
    UNAUTHORIZED | SESSION_EXPIRED | FORBIDDEN | RESOURCE_NOT_FOUND | VALIDATION_FAILED
  | PAYLOAD_TOO_LARGE | CONFLICT | IDEMPOTENCY_KEY_REUSED | RATE_LIMITED | REQUEST_TIMEOUT
  | DEPENDENCY_UNAVAILABLE | SYSTEM_MAINTENANCE | DISK_SPACE_CRITICAL | SYSTEM_NOT_OPEN
  | INTERNAL_ERROR
  | STATUS_CONFLICT | SCOPE_NOT_COVERED | PENDING_LIMIT_REACHED | STATUS_NOT_ALLOWED
  | REJECT_REASON_REQUIRED | APPLICANT_DEACTIVATED
  | INSUFFICIENT_STOCK | INSUFFICIENT_QUOTA | STOCK_CONFLICT | ITEM_DUPLICATED
  | CONSUMABLE_REFERENCED | UNIT_LOCKED | BATCH_CORRECTION_FORBIDDEN | LOCATION_HAS_CHILDREN
  | LOCATION_INVALID_TARGET | CONSUMABLE_DISABLED | LOCATION_REFERENCED
  | BORROW_ALREADY_SETTLED | SETTLEMENT_COVERAGE_INCOMPLETE | DISPOSAL_FORBIDDEN
  | RECIPIENT_INVALID
  | OVERTIME_OVERLAP | OVERTIME_DATE_OUT_OF_WINDOW | MULTI_DEPARTMENT_APPLY_FORBIDDEN
  | POSITION_DEPARTMENT_MISMATCH | POSITION_APPLY_STALE | DEPARTMENT_HAS_CHILDREN
  | ORGANIZATION_CYCLE | ORGANIZATION_VERSION_CONFLICT | OVERTIME_BATCH_REJECTED
  | OVERTIME_EMPLOYEE_NOT_ACTIVE | POSITION_APPLY_TARGET_UNAVAILABLE | RESTORE_TARGET_STALE
  | ASSET_STATUS_INVALID | MAINTENANCE_ACTIVE_EXISTS | ASSET_REFERENCED
  | ASSIGNEE_DEPARTMENT_MISMATCH | QR_INVALID | QR_REVOKED | ASSET_TRANSFER_NO_CHANGE
  | ASSET_IMAGE_INVALID | HOLIDAY_API_UNAVAILABLE
  | Finance finance_error | Export export_error

record error_entry =
  ecode :: error_code
  etype :: error_type
  edomain :: "business_domain option"
  ehttp :: nat
  edetailsFields :: "string list option"

fun HTTP_STATUS_BY_TYPE :: "error_type \<Rightarrow> nat list" where
  "HTTP_STATUS_BY_TYPE BUSINESS = [404, 409, 422]"
| "HTTP_STATUS_BY_TYPE VALIDATION = [400, 413]"
| "HTTP_STATUS_BY_TYPE AUTHENTICATION = [401]"
| "HTTP_STATUS_BY_TYPE AUTHORIZATION = [403, 404]"
| "HTTP_STATUS_BY_TYPE error_type.CONFLICT = [409]"
| "HTTP_STATUS_BY_TYPE RATE_LIMIT = [429]"
| "HTTP_STATUS_BY_TYPE TIMEOUT = [503]"
| "HTTP_STATUS_BY_TYPE DEPENDENCY = [503]"
| "HTTP_STATUS_BY_TYPE SYSTEM = [500]"

definition frameworkErrors :: "error_entry list" where
  "frameworkErrors =
    [\<lparr>ecode = UNAUTHORIZED, etype = AUTHENTICATION, edomain = None, ehttp = 401, edetailsFields = None\<rparr>,
     \<lparr>ecode = SESSION_EXPIRED, etype = AUTHENTICATION, edomain = None, ehttp = 401, edetailsFields = None\<rparr>,
     \<lparr>ecode = FORBIDDEN, etype = AUTHORIZATION, edomain = None, ehttp = 403, edetailsFields = None\<rparr>,
     \<lparr>ecode = RESOURCE_NOT_FOUND, etype = AUTHORIZATION, edomain = None, ehttp = 404, edetailsFields = None\<rparr>,
     \<lparr>ecode = VALIDATION_FAILED, etype = VALIDATION, edomain = None, ehttp = 400,
        edetailsFields = Some [''fields'']\<rparr>,
     \<lparr>ecode = PAYLOAD_TOO_LARGE, etype = VALIDATION, edomain = None, ehttp = 413, edetailsFields = None\<rparr>,
     \<lparr>ecode = error_code.CONFLICT, etype = error_type.CONFLICT, edomain = None, ehttp = 409,
        edetailsFields = None\<rparr>,
     \<lparr>ecode = IDEMPOTENCY_KEY_REUSED, etype = error_type.CONFLICT, edomain = None, ehttp = 409,
        edetailsFields = None\<rparr>,
     \<lparr>ecode = RATE_LIMITED, etype = RATE_LIMIT, edomain = None, ehttp = 429, edetailsFields = None\<rparr>,
     \<lparr>ecode = REQUEST_TIMEOUT, etype = TIMEOUT, edomain = None, ehttp = 503, edetailsFields = None\<rparr>,
     \<lparr>ecode = DEPENDENCY_UNAVAILABLE, etype = DEPENDENCY, edomain = None, ehttp = 503,
        edetailsFields = Some [''target'']\<rparr>,
     \<lparr>ecode = SYSTEM_MAINTENANCE, etype = DEPENDENCY, edomain = None, ehttp = 503, edetailsFields = None\<rparr>,
     \<lparr>ecode = DISK_SPACE_CRITICAL, etype = DEPENDENCY, edomain = None, ehttp = 503, edetailsFields = None\<rparr>,
     \<lparr>ecode = SYSTEM_NOT_OPEN, etype = DEPENDENCY, edomain = None, ehttp = 503,
        edetailsFields = Some [''system'']\<rparr>,
     \<lparr>ecode = INTERNAL_ERROR, etype = SYSTEM, edomain = None, ehttp = 500, edetailsFields = None\<rparr>]"

definition approvalErrors :: "error_entry list" where
  "approvalErrors =
    [\<lparr>ecode = STATUS_CONFLICT, etype = error_type.CONFLICT, edomain = Some APPROVAL, ehttp = 409,
        edetailsFields = None\<rparr>,
     \<lparr>ecode = SCOPE_NOT_COVERED, etype = BUSINESS, edomain = Some APPROVAL, ehttp = 422, edetailsFields = None\<rparr>,
     \<lparr>ecode = PENDING_LIMIT_REACHED, etype = error_type.CONFLICT, edomain = Some APPROVAL, ehttp = 409,
        edetailsFields = None\<rparr>,
     \<lparr>ecode = STATUS_NOT_ALLOWED, etype = BUSINESS, edomain = Some APPROVAL, ehttp = 422, edetailsFields = None\<rparr>,
     \<lparr>ecode = REJECT_REASON_REQUIRED, etype = VALIDATION, edomain = Some APPROVAL, ehttp = 400,
        edetailsFields = None\<rparr>,
     \<lparr>ecode = APPLICANT_DEACTIVATED, etype = BUSINESS, edomain = Some APPROVAL, ehttp = 422,
        edetailsFields = None\<rparr>]"

definition inventoryErrors :: "error_entry list" where
  "inventoryErrors =
    [\<lparr>ecode = INSUFFICIENT_STOCK, etype = BUSINESS, edomain = Some INVENTORY, ehttp = 422,
        edetailsFields = Some [''currentStock'', ''limit'']\<rparr>,
     \<lparr>ecode = INSUFFICIENT_QUOTA, etype = BUSINESS, edomain = Some INVENTORY, ehttp = 422, edetailsFields = None\<rparr>,
     \<lparr>ecode = STOCK_CONFLICT, etype = error_type.CONFLICT, edomain = Some INVENTORY, ehttp = 409,
        edetailsFields = None\<rparr>,
     \<lparr>ecode = ITEM_DUPLICATED, etype = VALIDATION, edomain = Some INVENTORY, ehttp = 400, edetailsFields = None\<rparr>,
     \<lparr>ecode = CONSUMABLE_REFERENCED, etype = BUSINESS, edomain = Some INVENTORY, ehttp = 422,
        edetailsFields = None\<rparr>,
     \<lparr>ecode = UNIT_LOCKED, etype = BUSINESS, edomain = Some INVENTORY, ehttp = 422, edetailsFields = None\<rparr>,
     \<lparr>ecode = BATCH_CORRECTION_FORBIDDEN, etype = BUSINESS, edomain = Some INVENTORY, ehttp = 422,
        edetailsFields = None\<rparr>,
     \<lparr>ecode = LOCATION_HAS_CHILDREN, etype = BUSINESS, edomain = Some INVENTORY, ehttp = 422,
        edetailsFields = None\<rparr>,
     \<lparr>ecode = LOCATION_INVALID_TARGET, etype = BUSINESS, edomain = Some INVENTORY, ehttp = 422,
        edetailsFields = None\<rparr>,
     \<lparr>ecode = CONSUMABLE_DISABLED, etype = BUSINESS, edomain = Some INVENTORY, ehttp = 422,
        edetailsFields = None\<rparr>,
     \<lparr>ecode = LOCATION_REFERENCED, etype = BUSINESS, edomain = Some INVENTORY, ehttp = 422,
        edetailsFields = None\<rparr>,
     \<lparr>ecode = BORROW_ALREADY_SETTLED, etype = BUSINESS, edomain = Some INVENTORY, ehttp = 422,
        edetailsFields = None\<rparr>,
     \<lparr>ecode = SETTLEMENT_COVERAGE_INCOMPLETE, etype = BUSINESS, edomain = Some INVENTORY, ehttp = 422,
        edetailsFields = None\<rparr>,
     \<lparr>ecode = DISPOSAL_FORBIDDEN, etype = error_type.CONFLICT, edomain = Some INVENTORY, ehttp = 409,
        edetailsFields = None\<rparr>,
     \<lparr>ecode = RECIPIENT_INVALID, etype = VALIDATION, edomain = Some INVENTORY, ehttp = 400,
        edetailsFields = None\<rparr>]"

definition hrErrors :: "error_entry list" where
  "hrErrors =
    [\<lparr>ecode = OVERTIME_OVERLAP, etype = BUSINESS, edomain = Some HR, ehttp = 422,
        edetailsFields = None\<rparr>,
     \<lparr>ecode = OVERTIME_DATE_OUT_OF_WINDOW, etype = BUSINESS, edomain = Some HR, ehttp = 422,
        edetailsFields = None\<rparr>,
     \<lparr>ecode = MULTI_DEPARTMENT_APPLY_FORBIDDEN, etype = BUSINESS, edomain = Some HR, ehttp = 422,
        edetailsFields = None\<rparr>,
     \<lparr>ecode = POSITION_DEPARTMENT_MISMATCH, etype = BUSINESS, edomain = Some HR, ehttp = 422,
        edetailsFields = None\<rparr>,
     \<lparr>ecode = POSITION_APPLY_STALE, etype = BUSINESS, edomain = Some HR, ehttp = 422,
        edetailsFields = None\<rparr>,
     \<lparr>ecode = DEPARTMENT_HAS_CHILDREN, etype = BUSINESS, edomain = Some HR, ehttp = 422,
        edetailsFields = None\<rparr>,
     \<lparr>ecode = ORGANIZATION_CYCLE, etype = BUSINESS, edomain = Some HR, ehttp = 422,
        edetailsFields = None\<rparr>,
     \<lparr>ecode = ORGANIZATION_VERSION_CONFLICT, etype = error_type.CONFLICT, edomain = Some HR, ehttp = 409,
        edetailsFields = None\<rparr>,
     \<lparr>ecode = OVERTIME_BATCH_REJECTED, etype = BUSINESS, edomain = Some HR, ehttp = 422,
        edetailsFields = Some [''failures'']\<rparr>,
     \<lparr>ecode = OVERTIME_EMPLOYEE_NOT_ACTIVE, etype = BUSINESS, edomain = Some HR, ehttp = 422,
        edetailsFields = None\<rparr>,
     \<lparr>ecode = POSITION_APPLY_TARGET_UNAVAILABLE, etype = BUSINESS, edomain = Some HR, ehttp = 422,
        edetailsFields = None\<rparr>,
     \<lparr>ecode = RESTORE_TARGET_STALE, etype = error_type.CONFLICT, edomain = Some HR, ehttp = 409,
        edetailsFields = None\<rparr>]"

definition assetErrors :: "error_entry list" where
  "assetErrors =
    [\<lparr>ecode = ASSET_STATUS_INVALID, etype = BUSINESS, edomain = Some ASSET, ehttp = 422,
        edetailsFields = None\<rparr>,
     \<lparr>ecode = MAINTENANCE_ACTIVE_EXISTS, etype = error_type.CONFLICT, edomain = Some ASSET, ehttp = 409,
        edetailsFields = None\<rparr>,
     \<lparr>ecode = ASSET_REFERENCED, etype = BUSINESS, edomain = Some ASSET, ehttp = 422,
        edetailsFields = None\<rparr>,
     \<lparr>ecode = ASSIGNEE_DEPARTMENT_MISMATCH, etype = BUSINESS, edomain = Some ASSET, ehttp = 422,
        edetailsFields = None\<rparr>,
     \<lparr>ecode = QR_INVALID, etype = BUSINESS, edomain = Some ASSET, ehttp = 404,
        edetailsFields = None\<rparr>,
     \<lparr>ecode = QR_REVOKED, etype = BUSINESS, edomain = Some ASSET, ehttp = 422,
        edetailsFields = None\<rparr>,
     \<lparr>ecode = ASSET_TRANSFER_NO_CHANGE, etype = BUSINESS, edomain = Some ASSET, ehttp = 422,
        edetailsFields = None\<rparr>,
     \<lparr>ecode = ASSET_IMAGE_INVALID, etype = VALIDATION, edomain = Some ASSET, ehttp = 400,
        edetailsFields = None\<rparr>]"

definition financeErrors :: "error_entry list" where
  "financeErrors =
    [\<lparr>ecode = Finance PROJECT_KEY_CONFLICT, etype = error_type.CONFLICT, edomain = Some FINANCE, ehttp = 409,
        edetailsFields = None\<rparr>,
     \<lparr>ecode = Finance DATA_REVISION_STALE, etype = error_type.CONFLICT, edomain = Some FINANCE, ehttp = 409,
        edetailsFields = None\<rparr>,
     \<lparr>ecode = Finance IMPORT_FILE_TOO_LARGE, etype = VALIDATION, edomain = Some FINANCE, ehttp = 413,
        edetailsFields = None\<rparr>,
     \<lparr>ecode = Finance IMPORT_ROW_LIMIT_EXCEEDED, etype = VALIDATION, edomain = Some FINANCE, ehttp = 400,
        edetailsFields = None\<rparr>,
     \<lparr>ecode = Finance IMPORT_ARCHIVE_LIMIT_EXCEEDED, etype = VALIDATION, edomain = Some FINANCE, ehttp = 400,
        edetailsFields = None\<rparr>,
     \<lparr>ecode = Finance IMPORT_FORMULA_NOT_ALLOWED, etype = VALIDATION, edomain = Some FINANCE, ehttp = 400,
        edetailsFields = None\<rparr>,
     \<lparr>ecode = Finance IMPORT_YEAR_REQUIRED_FOR_NEW, etype = VALIDATION, edomain = Some FINANCE, ehttp = 400,
        edetailsFields = None\<rparr>,
     \<lparr>ecode = Finance IMPORT_YEAR_AMBIGUOUS, etype = error_type.CONFLICT, edomain = Some FINANCE, ehttp = 409,
        edetailsFields = None\<rparr>,
     \<lparr>ecode = Finance IMPORT_PREVIEW_STALE, etype = error_type.CONFLICT, edomain = Some FINANCE, ehttp = 409,
        edetailsFields = None\<rparr>,
     \<lparr>ecode = Finance IMPORT_PROJECT_DELETED, etype = error_type.CONFLICT, edomain = Some FINANCE, ehttp = 409,
        edetailsFields = None\<rparr>,
     \<lparr>ecode = Finance DICT_SEMANTIC_LOCKED, etype = error_type.CONFLICT, edomain = Some FINANCE, ehttp = 409,
        edetailsFields = None\<rparr>,
     \<lparr>ecode = Finance UNCLASSIFIED_NAME_CONFLICT, etype = VALIDATION, edomain = Some FINANCE, ehttp = 400,
        edetailsFields = None\<rparr>,
     \<lparr>ecode = Finance CELL_FIELD_NOT_ALLOWED, etype = VALIDATION, edomain = Some FINANCE, ehttp = 400,
        edetailsFields = None\<rparr>,
     \<lparr>ecode = Finance IMPORT_SHEET_INVALID, etype = VALIDATION, edomain = Some FINANCE, ehttp = 400,
        edetailsFields = None\<rparr>,
     \<lparr>ecode = Finance IMPORT_CONFIRM_MISMATCH, etype = VALIDATION, edomain = Some FINANCE, ehttp = 400,
        edetailsFields = None\<rparr>,
     \<lparr>ecode = Finance EXPORT_SCOPE_INVALID, etype = VALIDATION, edomain = Some FINANCE, ehttp = 400,
        edetailsFields = None\<rparr>]"

definition exportErrors :: "error_entry list" where
  "exportErrors =
    [\<lparr>ecode = Export ROW_LIMIT_EXCEEDED, etype = BUSINESS, edomain = Some EXPORT, ehttp = 422,
        edetailsFields = Some [''actualRows'', ''limit'']\<rparr>,
     \<lparr>ecode = Export EXPORT_ALREADY_RUNNING, etype = RATE_LIMIT, edomain = Some EXPORT, ehttp = 429,
        edetailsFields = None\<rparr>,
     \<lparr>ecode = Export EXPORT_TIMEOUT, etype = TIMEOUT, edomain = Some EXPORT, ehttp = 503,
        edetailsFields = None\<rparr>,
     \<lparr>ecode = Export IMPORT_ALREADY_RUNNING, etype = RATE_LIMIT, edomain = Some EXPORT, ehttp = 429,
        edetailsFields = None\<rparr>,
     \<lparr>ecode = Export IMPORT_TIMEOUT, etype = TIMEOUT, edomain = Some EXPORT, ehttp = 503,
        edetailsFields = None\<rparr>]"

text \<open>
  \<open>ERROR_CATALOG\<close> restricted to the seven modelled domains, and \<open>getErrorEntry\<close> over it; the
  tables of the other domains are a parameter (\<open>others\<close>).
\<close>

fun ERROR_CATALOG :: "(business_domain \<Rightarrow> error_entry list) \<Rightarrow> business_domain option \<Rightarrow> error_entry list" where
  "ERROR_CATALOG others None = frameworkErrors"
| "ERROR_CATALOG others (Some APPROVAL) = approvalErrors"
| "ERROR_CATALOG others (Some INVENTORY) = inventoryErrors"
| "ERROR_CATALOG others (Some HR) = hrErrors"
| "ERROR_CATALOG others (Some ASSET) = assetErrors"
| "ERROR_CATALOG others (Some FINANCE) = financeErrors"
| "ERROR_CATALOG others (Some EXPORT) = exportErrors"
| "ERROR_CATALOG others (Some d) = others d"

definition getErrorEntry ::
    "(business_domain \<Rightarrow> error_entry list) \<Rightarrow> error_type \<Rightarrow> business_domain option \<Rightarrow> error_code
      \<Rightarrow> error_entry option" where
  "getErrorEntry others t d c = find (\<lambda>e. etype e = t \<and> ecode e = c) (ERROR_CATALOG others d)"

text \<open>
  \<open>filterDetails\<close>: an object is the list of its own enumerable entries in order; the result is
  \<open>None\<close> where the code returns \<open>undefined\<close>.
\<close>

definition filterDetails :: "error_entry \<Rightarrow> (string \<times> 'v) list option \<Rightarrow> (string \<times> 'v) list option" where
  "filterDetails e details =
     (case (edetailsFields e, details) of
        (Some flds, Some ds) \<Rightarrow>
          (let filtered = filter (\<lambda>(k, v). k \<in> set flds) ds
           in if filtered = [] then None else Some filtered)
      | _ \<Rightarrow> None)"

text \<open>
  What an operation can throw: a business exception, the two errors of the database client that
  the code inspects or lets through (a violated unique index, with the columns it names; a
  violated CHECK; an \<open>update\<close> of a row that is not there), or a plain \<open>Error\<close>.
\<close>

datatype err =
    Biz error_code
  | UniqueViolation "string list"
  | CheckViolation
  | ForeignKeyViolation
  | RecordNotFound
  | PlainError

section \<open>Enumerations\<close>

datatype data_scope = SELF | DEPARTMENT | COMPANY

datatype approval_status = DRAFT | PENDING | APPROVED | REJECTED | CANCELLED

datatype process_action = APPROVE | REJECT | CANCEL | AUTO_CANCEL

datatype approval_action = SUBMIT | CANCEL | APPROVE | REJECT | AUTO_CANCEL

datatype cancel_source = USER | ACCOUNT_DEACTIVATED | OVERDUE

section \<open>JSON values\<close>

text \<open>
  A value of type \<open>unknown\<close>: JSON, and beside it \<open>undefined\<close> and the numbers that are not finite.
\<close>

datatype json =
    JUndef | JNull | JBool bool | JNum rat | JNonFinite | JStr string
  | JArr "json list" | JObj "(string \<times> json) list"

definition jget :: "string \<Rightarrow> (string \<times> json) list \<Rightarrow> json" where
  "jget k ps = (case map_of ps k of None \<Rightarrow> JUndef | Some v \<Rightarrow> v)"

definition nullish :: "json \<Rightarrow> bool" where
  "nullish v \<longleftrightarrow> v = JNull \<or> v = JUndef"

text \<open>
  What a JSON column gets from \<open>v ?? Prisma.JsonNull\<close>. In the rows of the tables SQL's NULL is
  \<open>JUndef\<close> and the JSON value \<open>null\<close> is \<open>JNull\<close>; a client reads both as null.
\<close>

definition or_json_null :: "json \<Rightarrow> json" where
  "or_json_null v = (if nullish v then JNull else v)"

section \<open>Facts\<close>

text \<open>Every entry of the catalog carries an HTTP status that its type admits.\<close>

definition entry_ok :: "error_entry \<Rightarrow> bool" where
  "entry_ok e \<longleftrightarrow> ehttp e \<in> set (HTTP_STATUS_BY_TYPE (etype e))"

lemma catalog_entries_ok:
  assumes "\<And>d'. list_all entry_ok (others d')"
  shows "list_all entry_ok (ERROR_CATALOG others d)"
  using assms
  by (induction others d rule: ERROR_CATALOG.induct)
    (simp_all add: frameworkErrors_def approvalErrors_def inventoryErrors_def hrErrors_def assetErrors_def financeErrors_def
      exportErrors_def entry_ok_def)

lemma filterDetails_None:
  "edetailsFields e = None \<Longrightarrow> filterDetails e ds = None"
  by (simp add: filterDetails_def)

lemma filterDetails_Some:
  assumes "filterDetails e ds = Some out"
  shows "\<exists>flds all. edetailsFields e = Some flds \<and> ds = Some all \<and> out \<noteq> []
    \<and> out = filter (\<lambda>(k, v). k \<in> set flds) all"
  using assms by (auto simp: filterDetails_def Let_def split: option.splits if_splits)

end
