(* ===== verification/TaskOutbox.thy ===== *)
theory TaskOutbox
  imports Contracts
begin

text \<open>
  The background task table of \<open>packages/tasks\<close>: every SQL statement of \<open>outbox.ts\<close> and
  \<open>status-transitions.ts\<close> is a function on the list of rows, with the outcome the caller sees.
  Times are milliseconds. A comparison with a NULL column is not true, which the model writes
  as a comparison of options.
\<close>

section \<open>Rows\<close>

datatype task_status = PENDING_ENQUEUE | QUEUED | RUNNING | SUCCEEDED | FAILED | CANCELLED

datatype initiator_type = USER_INITIATED | SCHEDULER

record task_row =
  t_uuid :: string
  t_type :: string
  t_module :: string
  t_initiatorId :: "int option"
  t_initiatorType :: initiator_type
  t_ref :: "json option"
  t_status :: task_status
  t_progress :: int
  t_startedAt :: "int option"
  t_finishedAt :: "int option"
  t_attempts :: int
  t_nextRetryAt :: "int option"
  t_timeoutAt :: "int option"
  t_leaseOwner :: "string option"
  t_leaseExpiresAt :: "int option"
  t_lastError :: "string option"
  t_createdAt :: int

record create_input =
  ci_uuid :: string
  ci_type :: string
  ci_module :: string
  ci_initiatorId :: "int option"
  ci_initiatorType :: initiator_type
  ci_ref :: "json option"

section \<open>Constants\<close>

definition TASK_TYPES :: "string list" where
  "TASK_TYPES =
     [''ACCOUNT_LIFECYCLE'', ''SCHEDULED_BACKUP'', ''IMMEDIATE_BACKUP'', ''RESTORE_DELIVERY'',
      ''EMERGENCY_BACKUP'', ''UNASSOCIATED_IMAGE_CLEANUP'', ''APPROVAL_TIMEOUT_SCAN'',
      ''LOG_RETENTION_CLEANUP'']"

definition SAFELY_REPLAYABLE_TASK_TYPES :: "string list" where
  "SAFELY_REPLAYABLE_TASK_TYPES =
     [''ACCOUNT_LIFECYCLE'', ''SCHEDULED_BACKUP'', ''IMMEDIATE_BACKUP'', ''EMERGENCY_BACKUP'',
      ''UNASSOCIATED_IMAGE_CLEANUP'', ''APPROVAL_TIMEOUT_SCAN'', ''RESTORE_DELIVERY'',
      ''LOG_RETENTION_CLEANUP'']"

definition TASK_ENQUEUE_LEASE_SECONDS :: int where "TASK_ENQUEUE_LEASE_SECONDS = 120"
definition TASK_RUNNING_LEASE_SECONDS :: int where "TASK_RUNNING_LEASE_SECONDS = 600"
definition TASK_MAX_ATTEMPTS :: int where "TASK_MAX_ATTEMPTS = 10"
definition TASK_ENQUEUE_BACKOFF_BASE_SECONDS :: int where "TASK_ENQUEUE_BACKOFF_BASE_SECONDS = 30"
definition TASK_ENQUEUE_BATCH_SIZE :: nat where "TASK_ENQUEUE_BATCH_SIZE = 50"
definition STALLED_QUEUED_REQUEUE_MINUTES :: int where "STALLED_QUEUED_REQUEUE_MINUTES = 10"

definition TERMINAL_TASK_STATUSES :: "task_status list" where
  "TERMINAL_TASK_STATUSES = [SUCCEEDED, FAILED, CANCELLED]"

definition isTerminalTaskStatus :: "task_status \<Rightarrow> bool" where
  "isTerminalTaskStatus s = (s \<in> set TERMINAL_TASK_STATUSES)"

text \<open>\<open>30 * 2 ** min(attempts, 8)\<close>; an exponent below zero gives a fraction of the base.\<close>

definition computeEnqueueBackoffSeconds :: "int \<Rightarrow> rat" where
  "computeEnqueueBackoffSeconds attempts =
     (let capped = min attempts 8
      in of_int TASK_ENQUEUE_BACKOFF_BASE_SECONDS * (2 powi capped))"

section \<open>Writing tasks\<close>

definition new_task :: "create_input \<Rightarrow> int \<Rightarrow> int \<Rightarrow> task_row" where
  "new_task i now dbnow =
     \<lparr>t_uuid = ci_uuid i, t_type = ci_type i, t_module = ci_module i, t_initiatorId = ci_initiatorId i,
      t_initiatorType = ci_initiatorType i, t_ref = ci_ref i, t_status = PENDING_ENQUEUE, t_progress = 0,
      t_startedAt = None, t_finishedAt = None, t_attempts = 0, t_nextRetryAt = Some now,
      t_timeoutAt = None, t_leaseOwner = None, t_leaseExpiresAt = None, t_lastError = None,
      t_createdAt = dbnow\<rparr>"

text \<open>\<open>INSERT ... ON CONFLICT (task_uuid) DO NOTHING RETURNING\<close>: whether a row was created.\<close>

definition insertPendingTaskSql ::
    "create_input \<Rightarrow> int \<Rightarrow> int \<Rightarrow> task_row list \<Rightarrow> bool \<times> task_row list" where
  "insertPendingTaskSql i now dbnow ts =
     (if \<exists>t \<in> set ts. t_uuid t = ci_uuid i then (False, ts) else (True, ts @ [new_task i now dbnow]))"

text \<open>
  The Prisma writer: the unique index on \<open>task_uuid\<close> makes \<open>create\<close> throw P2002, which counts
  as an idempotent hit; any other error of the client (\<open>fault\<close>) is thrown on.
\<close>

definition createPending ::
    "err option \<Rightarrow> create_input \<Rightarrow> int \<Rightarrow> int \<Rightarrow> task_row list \<Rightarrow> err + (bool \<times> task_row list)" where
  "createPending fault i now dbnow ts =
     (let created = (case fault of
            Some e \<Rightarrow> Inl e
          | None \<Rightarrow> if \<exists>t \<in> set ts. t_uuid t = ci_uuid i then Inl (UniqueViolation [''task_uuid''])
                    else Inr (ts @ [new_task i now dbnow]))
      in case created of
           Inr ts' \<Rightarrow> Inr (True, ts')
         | Inl (UniqueViolation cols) \<Rightarrow> Inr (False, ts)
         | Inl e \<Rightarrow> Inl e)"

definition loadTaskByUuid :: "string \<Rightarrow> task_row list \<Rightarrow> task_row option" where
  "loadTaskByUuid u ts = find (\<lambda>t. t_uuid t = u) ts"

section \<open>Delivery\<close>

definition null_or_le :: "int option \<Rightarrow> int \<Rightarrow> bool" where
  "null_or_le c now = (case c of None \<Rightarrow> True | Some x \<Rightarrow> x \<le> now)"

definition some_le :: "int option \<Rightarrow> int \<Rightarrow> bool" where
  "some_le c now = (case c of None \<Rightarrow> False | Some x \<Rightarrow> x \<le> now)"

definition claimable :: "string list \<Rightarrow> int \<Rightarrow> task_row \<Rightarrow> bool" where
  "claimable replayable now t \<longleftrightarrow>
     (t_status t = PENDING_ENQUEUE \<and> null_or_le (t_nextRetryAt t) now \<and> null_or_le (t_leaseExpiresAt t) now)
   \<or> (t_status t \<in> {QUEUED, RUNNING} \<and> some_le (t_leaseExpiresAt t) now \<and> t_type t \<in> set replayable)
   \<or> (t_status t = QUEUED \<and> t_leaseExpiresAt t = None
        \<and> t_createdAt t \<le> now - STALLED_QUEUED_REQUEUE_MINUTES * 60 * 1000 \<and> t_type t \<in> set replayable)"

text \<open>
  \<open>FOR UPDATE SKIP LOCKED\<close>: rows that another transaction holds (\<open>locked\<close>) are passed over.
\<close>

definition claimOutboxBatch ::
    "string \<Rightarrow> string list \<Rightarrow> string set \<Rightarrow> int \<Rightarrow> nat \<Rightarrow> task_row list
      \<Rightarrow> (string \<times> string \<times> task_status) list \<times> task_row list" where
  "claimOutboxBatch owner replayable locked now batchSize ts =
     (let candidates = take batchSize (sort_key t_createdAt
            (filter (\<lambda>t. claimable replayable now t \<and> t_uuid t \<notin> locked) ts));
          us = set (map t_uuid candidates)
      in (map (\<lambda>t. (t_uuid t, t_type t, t_status t)) candidates,
          update_where (\<lambda>t. t_uuid t \<in> us)
            (\<lambda>t. t\<lparr>t_leaseOwner := Some owner,
                    t_leaseExpiresAt := Some (now + TASK_ENQUEUE_LEASE_SECONDS * 1000)\<rparr>) ts))"

text \<open>An \<open>UPDATE\<close> of the task with a guard, and whether its row count was positive.\<close>

definition guarded_update ::
    "(task_row \<Rightarrow> bool) \<Rightarrow> (task_row \<Rightarrow> task_row) \<Rightarrow> task_row list \<Rightarrow> bool \<times> task_row list" where
  "guarded_update P f ts = (0 < count_where P ts, update_where P f ts)"

definition markQueued :: "string \<Rightarrow> string \<Rightarrow> task_row list \<Rightarrow> bool \<times> task_row list" where
  "markQueued u owner =
     guarded_update
       (\<lambda>t. t_uuid t = u \<and> t_status t \<in> {PENDING_ENQUEUE, QUEUED, RUNNING} \<and> t_leaseOwner t = Some owner)
       (\<lambda>t. t\<lparr>t_status := QUEUED, t_leaseOwner := None, t_leaseExpiresAt := None,
               t_nextRetryAt := None, t_lastError := None\<rparr>)"

definition releaseEnqueueLease ::
    "string \<Rightarrow> string \<Rightarrow> int \<Rightarrow> string \<Rightarrow> int \<Rightarrow> task_row list \<Rightarrow> bool \<times> task_row list" where
  "releaseEnqueueLease u owner attempts lastError now =
     (let backoffSeconds = computeEnqueueBackoffSeconds attempts;
          nextRetryAt = \<lfloor>of_int now + backoffSeconds * 1000\<rfloor>
      in guarded_update
        (\<lambda>t. t_uuid t = u \<and> t_status t = PENDING_ENQUEUE \<and> t_leaseOwner t = Some owner)
        (\<lambda>t. t\<lparr>t_leaseOwner := None, t_leaseExpiresAt := None, t_attempts := t_attempts t + 1,
                t_nextRetryAt := Some nextRetryAt, t_lastError := Some (take 2000 lastError)\<rparr>))"

section \<open>Execution\<close>

definition claimRunning :: "string \<Rightarrow> string \<Rightarrow> int \<Rightarrow> task_row list \<Rightarrow> bool \<times> task_row list" where
  "claimRunning u owner now =
     (let leaseExpiresAt = now + TASK_RUNNING_LEASE_SECONDS * 1000;
          timeoutAt = now + TASK_RUNNING_LEASE_SECONDS * 2 * 1000
      in guarded_update
        (\<lambda>t. t_uuid t = u \<and> t_status t \<in> {QUEUED, RUNNING}
             \<and> (t_status t = QUEUED \<or> t_leaseExpiresAt t = None \<or> some_le (t_leaseExpiresAt t) now
                \<or> t_leaseOwner t = Some owner))
        (\<lambda>t. t\<lparr>t_status := RUNNING, t_leaseOwner := Some owner, t_leaseExpiresAt := Some leaseExpiresAt,
                t_startedAt := Some (case t_startedAt t of Some s \<Rightarrow> s | None \<Rightarrow> now),
                t_attempts := (if t_status t = QUEUED then t_attempts t + 1 else t_attempts t),
                t_timeoutAt := Some timeoutAt\<rparr>))"

definition renewRunningLease :: "string \<Rightarrow> string \<Rightarrow> int \<Rightarrow> task_row list \<Rightarrow> bool \<times> task_row list" where
  "renewRunningLease u owner now =
     (let leaseExpiresAt = now + TASK_RUNNING_LEASE_SECONDS * 1000;
          timeoutAt = now + TASK_RUNNING_LEASE_SECONDS * 2 * 1000
      in guarded_update
        (\<lambda>t. t_uuid t = u \<and> t_status t = RUNNING \<and> t_leaseOwner t = Some owner)
        (\<lambda>t. t\<lparr>t_leaseExpiresAt := Some leaseExpiresAt, t_timeoutAt := Some timeoutAt\<rparr>))"

text \<open>The number of rows the timeout made FAILED. The stored text is an opaque constant.\<close>

definition timeout_message :: string where
  "timeout_message = ''timeout_at''"

definition failTimedOutTasks :: "int \<Rightarrow> task_row list \<Rightarrow> nat \<times> task_row list" where
  "failTimedOutTasks now ts =
     (let P = (\<lambda>t. t_status t = RUNNING \<and> some_le (t_timeoutAt t) now)
      in (count_where P ts,
          update_where P
            (\<lambda>t. t\<lparr>t_status := FAILED, t_finishedAt := Some now, t_lastError := Some timeout_message,
                    t_leaseOwner := None, t_leaseExpiresAt := None\<rparr>) ts))"

definition markSucceeded :: "string \<Rightarrow> string \<Rightarrow> int \<Rightarrow> task_row list \<Rightarrow> bool \<times> task_row list" where
  "markSucceeded u owner now =
     guarded_update
       (\<lambda>t. t_uuid t = u \<and> t_status t = RUNNING \<and> t_leaseOwner t = Some owner)
       (\<lambda>t. t\<lparr>t_status := SUCCEEDED, t_finishedAt := Some now, t_progress := 100,
               t_leaseOwner := None, t_leaseExpiresAt := None, t_lastError := None\<rparr>)"

definition markFailed ::
    "string \<Rightarrow> string \<Rightarrow> string \<Rightarrow> int \<Rightarrow> task_row list \<Rightarrow> bool \<times> task_row list" where
  "markFailed u owner lastError now =
     guarded_update
       (\<lambda>t. t_uuid t = u \<and> t_status t = RUNNING \<and> t_leaseOwner t = Some owner)
       (\<lambda>t. t\<lparr>t_status := FAILED, t_finishedAt := Some now,
               t_leaseOwner := None, t_leaseExpiresAt := None, t_lastError := Some (take 2000 lastError)\<rparr>)"

definition markCancelled :: "string \<Rightarrow> string option \<Rightarrow> int \<Rightarrow> task_row list \<Rightarrow> bool \<times> task_row list" where
  "markCancelled u owner now =
     guarded_update
       (\<lambda>t. t_uuid t = u \<and> t_status t \<notin> {SUCCEEDED, FAILED, CANCELLED}
            \<and> (owner = None \<or> t_leaseOwner t = owner))
       (\<lambda>t. t\<lparr>t_status := CANCELLED, t_finishedAt := Some now,
               t_leaseOwner := None, t_leaseExpiresAt := None\<rparr>)"

section \<open>Stable task ids\<close>

text \<open>
  \<open>createHash('sha256').update(key).digest('hex')\<close> is the parameter \<open>hex\<close>; a missing position
  of the string reads as the empty string, \<open>parseInt\<close> of it as not a number, whose bitwise
  reading is 0.
\<close>

definition hex_value :: "char \<Rightarrow> nat" where
  "hex_value c =
     (let n = of_char c in
      if 48 \<le> n \<and> n \<le> 57 then n - 48
      else if 97 \<le> n \<and> n \<le> 102 then n - 87
      else if 65 \<le> n \<and> n \<le> 70 then n - 55 else 0)"

definition slice :: "nat \<Rightarrow> nat \<Rightarrow> string \<Rightarrow> string" where
  "slice a b s = drop a (take b s)"

definition variant_nibble :: "string \<Rightarrow> nat" where
  "variant_nibble hex = (if 16 < length hex then hex_value (hex ! 16) mod 4 else 0) + 8"

definition hex_digit :: "nat \<Rightarrow> string" where
  "hex_digit n = [''0123456789abcdef'' ! n]"

definition stableTaskUuid :: "(string \<Rightarrow> string) \<Rightarrow> string \<Rightarrow> string" where
  "stableTaskUuid sha256hex businessKey =
     (let hex = sha256hex businessKey
      in slice 0 8 hex @ ''-'' @ slice 8 12 hex @ ''-5'' @ slice 13 16 hex @ ''-''
         @ hex_digit (variant_nibble hex) @ slice 17 20 hex @ ''-'' @ slice 20 32 hex)"

end
