(* ===== verification/TaskLease.thy ===== *)
theory TaskLease
  imports TaskOutbox
begin

text \<open>
  The task table as a state machine: the operations of \<open>TaskOutbox\<close> issued by schedulers and
  workers in any order at times that never go back, its reachable tables, and what a lease
  guarantees while it has not expired.
\<close>

section \<open>Operations and runs\<close>

datatype task_op =
    OpInsert create_input int
  | OpClaimBatch string "string list" "string set" nat
  | OpMarkQueued string string
  | OpRelease string string int string
  | OpClaim string string
  | OpRenew string string
  | OpFailTimedOut
  | OpSucceed string string
  | OpFail string string string
  | OpCancel string "string option"

fun exec_op :: "task_op \<Rightarrow> int \<Rightarrow> task_row list \<Rightarrow> task_row list" where
  "exec_op (OpInsert i dbnow) now ts = snd (insertPendingTaskSql i now dbnow ts)"
| "exec_op (OpClaimBatch s replayable locked n) now ts = snd (claimOutboxBatch s replayable locked now n ts)"
| "exec_op (OpMarkQueued u s) now ts = snd (markQueued u s ts)"
| "exec_op (OpRelease u s n msg) now ts = snd (releaseEnqueueLease u s n msg now ts)"
| "exec_op (OpClaim u w) now ts = snd (claimRunning u w now ts)"
| "exec_op (OpRenew u w) now ts = snd (renewRunningLease u w now ts)"
| "exec_op OpFailTimedOut now ts = snd (failTimedOutTasks now ts)"
| "exec_op (OpSucceed u w) now ts = snd (markSucceeded u w now ts)"
| "exec_op (OpFail u w msg) now ts = snd (markFailed u w msg now ts)"
| "exec_op (OpCancel u ow) now ts = snd (markCancelled u ow now ts)"

text \<open>The identities \<open>WorkerRuntimeService\<close> gives its scheduler and its worker.\<close>

definition is_scheduler_id :: "string \<Rightarrow> bool" where
  "is_scheduler_id s \<longleftrightarrow> take 10 s = ''scheduler:''"

definition is_worker_id :: "string \<Rightarrow> bool" where
  "is_worker_id s \<longleftrightarrow> take 7 s = ''worker:''"

fun op_wf :: "task_op \<Rightarrow> bool" where
  "op_wf (OpClaimBatch s _ _ _) = is_scheduler_id s"
| "op_wf (OpMarkQueued _ s) = is_scheduler_id s"
| "op_wf (OpRelease _ s _ _) = is_scheduler_id s"
| "op_wf (OpClaim _ w) = is_worker_id w"
| "op_wf (OpRenew _ w) = is_worker_id w"
| "op_wf (OpSucceed _ w) = is_worker_id w"
| "op_wf (OpFail _ w _) = is_worker_id w"
| "op_wf _ = True"

text \<open>Operations a worker issues in its own name.\<close>

fun issued_by :: "string \<Rightarrow> task_op \<Rightarrow> bool" where
  "issued_by w (OpClaim _ w') = (w' = w)"
| "issued_by w (OpRenew _ w') = (w' = w)"
| "issued_by w (OpSucceed _ w') = (w' = w)"
| "issued_by w (OpFail _ w' _) = (w' = w)"
| "issued_by w _ = False"

text \<open>What a cancellation at time \<open>now\<close> makes of a row.\<close>

definition cancelled_row :: "int \<Rightarrow> task_row \<Rightarrow> task_row" where
  "cancelled_row now t = t\<lparr>t_status := CANCELLED, t_finishedAt := Some now,
     t_leaseOwner := None, t_leaseExpiresAt := None\<rparr>"

fun exec_ops :: "(int \<times> task_op) list \<Rightarrow> task_row list \<Rightarrow> task_row list" where
  "exec_ops [] ts = ts"
| "exec_ops ((now, p) # ps) ts = exec_ops ps (exec_op p now ts)"

inductive task_reach :: "int \<Rightarrow> task_row list \<Rightarrow> bool" where
  start: "task_reach now []"
| step: "task_reach now ts \<Longrightarrow> now \<le> now' \<Longrightarrow> op_wf p \<Longrightarrow> task_reach now' (exec_op p now' ts)"

section \<open>Rows through an operation\<close>

lemma guarded_update_keep: "r \<in> set ts \<Longrightarrow> \<not> P r \<Longrightarrow> r \<in> set (snd (guarded_update P f ts))"
  by (simp add: guarded_update_def update_where_keep)

lemma update_where_all:
  "(\<And>r. r \<in> set ts \<Longrightarrow> I r) \<Longrightarrow> (\<And>r. r \<in> set ts \<Longrightarrow> I r \<Longrightarrow> P r \<Longrightarrow> I (f r)) \<Longrightarrow>
    r \<in> set (update_where P f ts) \<Longrightarrow> I r"
  by (auto simp: update_where_def)

lemma claim_candidates:
  assumes "t \<in> set ts" and "distinct (map t_uuid ts)"
    and "t_uuid t \<in> set (map t_uuid (take n (sort_key t_createdAt
          (filter (\<lambda>t. claimable replayable now t \<and> t_uuid t \<notin> locked) ts))))"
  shows "claimable replayable now t"
proof -
  from assms(3) obtain t' where "t' \<in> set ts" "claimable replayable now t'" "t_uuid t' = t_uuid t"
    by (auto dest!: in_set_takeD)
  then show ?thesis using assms(1,2) by (metis distinct_map inj_onD)
qed

lemma claimOutboxBatch_keep:
  assumes "t \<in> set ts" and "distinct (map t_uuid ts)" and "\<not> claimable replayable now t"
  shows "t \<in> set (snd (claimOutboxBatch s replayable locked now n ts))"
proof -
  have "t_uuid t \<notin> set (map t_uuid (take n (sort_key t_createdAt
      (filter (\<lambda>t. claimable replayable now t \<and> t_uuid t \<notin> locked) ts))))"
    using claim_candidates [OF assms(1,2)] assms(3) by blast
  with assms(1) show ?thesis
    by (simp add: claimOutboxBatch_def Let_def) (rule update_where_keep, simp_all)
qed

text \<open>Ids stay distinct.\<close>

lemma exec_op_uuids:
  assumes "distinct (map t_uuid ts)"
  shows "distinct (map t_uuid (exec_op p now ts))"
  using assms
  by (cases p)
    (auto simp: insertPendingTaskSql_def new_task_def claimOutboxBatch_def Let_def markQueued_def
      releaseEnqueueLease_def claimRunning_def renewRunningLease_def failTimedOutTasks_def
      markSucceeded_def markFailed_def markCancelled_def guarded_update_def map_update_where)

lemma task_reach_uuids: "task_reach now ts \<Longrightarrow> distinct (map t_uuid ts)"
  by (induction rule: task_reach.induct) (simp_all add: exec_op_uuids)

section \<open>Terminal tasks stay as they are\<close>

lemma exec_op_terminal:
  assumes "r \<in> set ts" and "distinct (map t_uuid ts)" and "isTerminalTaskStatus (t_status r)"
  shows "r \<in> set (exec_op p now ts)"
proof -
  have st: "t_status r \<in> {SUCCEEDED, FAILED, CANCELLED}"
    using assms(3) by (simp add: isTerminalTaskStatus_def TERMINAL_TASK_STATUSES_def)
  then have nc: "\<not> claimable replayable now r" for replayable
    by (auto simp: claimable_def)
  show ?thesis using assms(1,2) st nc
    by (cases p)
      (auto simp: insertPendingTaskSql_def markQueued_def releaseEnqueueLease_def claimRunning_def
        renewRunningLease_def failTimedOutTasks_def markSucceeded_def markFailed_def markCancelled_def
        Let_def intro!: guarded_update_keep update_where_keep claimOutboxBatch_keep)
qed

lemma exec_ops_terminal:
  assumes "r \<in> set ts" and "distinct (map t_uuid ts)" and "isTerminalTaskStatus (t_status r)"
  shows "r \<in> set (exec_ops ps ts)"
  using assms
proof (induction ps ts rule: exec_ops.induct)
  case (2 now p ps ts)
  then show ?case using exec_op_terminal exec_op_uuids by simp
qed simp

section \<open>What a lease guarantees\<close>

text \<open>
  A running task in the name of a worker has a lease that ends before its timeout. The
  scheduler's own delivery lease need not.
\<close>

definition lease_wf :: "task_row \<Rightarrow> bool" where
  "lease_wf t \<longleftrightarrow> (\<forall>w. t_status t = RUNNING \<and> t_leaseOwner t = Some w \<and> is_worker_id w \<longrightarrow>
     (\<exists>e x. t_leaseExpiresAt t = Some e \<and> t_timeoutAt t = Some x \<and> e \<le> x))"

definition tasks_inv :: "task_row list \<Rightarrow> bool" where
  "tasks_inv ts \<longleftrightarrow> distinct (map t_uuid ts) \<and> (\<forall>t \<in> set ts. lease_wf t)"

lemma scheduler_not_worker: "is_scheduler_id s \<Longrightarrow> \<not> is_worker_id s"
proof
  assume "is_scheduler_id s" and "is_worker_id s"
  then have "take 7 (take 10 s) = ''schedul''" and "take 7 s = ''worker:''"
    by (simp_all add: is_scheduler_id_def is_worker_id_def)
  then show False by simp
qed

lemma lease_wf_guarded:
  assumes "\<And>t. t \<in> set ts \<Longrightarrow> lease_wf t" and "\<And>t. lease_wf t \<Longrightarrow> P t \<Longrightarrow> lease_wf (f t)"
    and "t \<in> set (snd (guarded_update P f ts))"
  shows "lease_wf t"
  using assms by (auto simp: guarded_update_def intro: update_where_all)

lemma exec_op_lease_wf:
  assumes wf: "op_wf p" and all: "\<And>t. t \<in> set ts \<Longrightarrow> lease_wf t"
    and t: "t \<in> set (exec_op p now ts)"
  shows "lease_wf t"
proof (cases p)
  case (OpInsert i dbnow)
  with t all show ?thesis
    by (auto simp: insertPendingTaskSql_def new_task_def lease_wf_def split: if_splits)
next
  case (OpClaimBatch s replayable locked n)
  with wf have s: "\<not> is_worker_id s" by (simp add: scheduler_not_worker)
  show ?thesis
    by (rule update_where_all [OF all _ t [unfolded OpClaimBatch exec_op.simps claimOutboxBatch_def
            Let_def snd_conv]])
      (use s in \<open>simp_all add: lease_wf_def\<close>)
next
  case (OpMarkQueued u s)
  show ?thesis
    by (rule lease_wf_guarded [OF all _ t [unfolded OpMarkQueued exec_op.simps markQueued_def Let_def]])
      (auto simp: lease_wf_def)
next
  case (OpRelease u s n msg)
  show ?thesis
    by (rule lease_wf_guarded [OF all _ t [unfolded OpRelease exec_op.simps releaseEnqueueLease_def Let_def]])
      (auto simp: lease_wf_def)
next
  case (OpClaim u w)
  show ?thesis
    by (rule lease_wf_guarded [OF all _ t [unfolded OpClaim exec_op.simps claimRunning_def Let_def]])
      (auto simp: lease_wf_def TASK_RUNNING_LEASE_SECONDS_def)
next
  case (OpRenew u w)
  show ?thesis
    by (rule lease_wf_guarded [OF all _ t [unfolded OpRenew exec_op.simps renewRunningLease_def Let_def]])
      (auto simp: lease_wf_def TASK_RUNNING_LEASE_SECONDS_def)
next
  case OpFailTimedOut
  show ?thesis
    by (rule update_where_all [OF all _ t [unfolded OpFailTimedOut exec_op.simps failTimedOutTasks_def
            Let_def snd_conv]])
      (simp_all add: lease_wf_def)
next
  case (OpSucceed u w)
  show ?thesis
    by (rule lease_wf_guarded [OF all _ t [unfolded OpSucceed exec_op.simps markSucceeded_def Let_def]])
      (auto simp: lease_wf_def)
next
  case (OpFail u w msg)
  show ?thesis
    by (rule lease_wf_guarded [OF all _ t [unfolded OpFail exec_op.simps markFailed_def Let_def]])
      (auto simp: lease_wf_def)
next
  case (OpCancel u ow)
  show ?thesis
    by (rule lease_wf_guarded [OF all _ t [unfolded OpCancel exec_op.simps markCancelled_def Let_def]])
      (auto simp: lease_wf_def)
qed

lemma exec_op_inv: "op_wf p \<Longrightarrow> tasks_inv ts \<Longrightarrow> tasks_inv (exec_op p now ts)"
  by (simp add: tasks_inv_def exec_op_uuids) (meson exec_op_lease_wf)

lemma task_reach_inv: "task_reach now ts \<Longrightarrow> tasks_inv ts"
  by (induction rule: task_reach.induct) (simp_all add: tasks_inv_def exec_op_inv [unfolded tasks_inv_def])

definition holds_lease :: "string \<Rightarrow> int \<Rightarrow> task_row \<Rightarrow> bool" where
  "holds_lease w now t \<longleftrightarrow> t_status t = RUNNING \<and> t_leaseOwner t = Some w \<and> is_worker_id w
     \<and> (\<exists>e. t_leaseExpiresAt t = Some e \<and> now < e)"

lemma held_not_claimable: "holds_lease w now t \<Longrightarrow> \<not> claimable replayable now t"
  by (auto simp: holds_lease_def claimable_def some_le_def)

lemma held_not_timed_out:
  "holds_lease w now t \<Longrightarrow> lease_wf t \<Longrightarrow> \<not> some_le (t_timeoutAt t) now"
  by (force simp: holds_lease_def lease_wf_def some_le_def)

lemma exec_op_held:
  assumes inv: "tasks_inv ts" and t: "t \<in> set ts" and held: "holds_lease w now t"
    and wf: "op_wf p" and other: "\<not> issued_by w p"
  shows "t \<in> set (exec_op p now ts)
    \<or> (\<exists>ow. p = OpCancel (t_uuid t) ow \<and> (ow = None \<or> ow = Some w)
        \<and> cancelled_row now t \<in> set (exec_op p now ts))"
proof -
  have dist: "distinct (map t_uuid ts)" and lwf: "lease_wf t"
    using inv t by (simp_all add: tasks_inv_def)
  have st: "t_status t = RUNNING" "t_leaseOwner t = Some w" "is_worker_id w"
    and lease: "\<not> some_le (t_leaseExpiresAt t) now" "t_leaseExpiresAt t \<noteq> None"
    using held by (auto simp: holds_lease_def some_le_def)
  note facts = held_not_claimable [OF held] held_not_timed_out [OF held lwf] st lease
  show ?thesis
  proof (cases "\<exists>u ow. p = OpCancel u ow")
    case True
    then obtain u ow where p: "p = OpCancel u ow" by blast
    show ?thesis
    proof (cases "u = t_uuid t \<and> (ow = None \<or> ow = Some w)")
      case True
      then have "cancelled_row now t \<in> set (exec_op p now ts)"
        using t st by (auto simp: p markCancelled_def guarded_update_def cancelled_row_def intro!: update_where_mem)
      then show ?thesis using True p by blast
    next
      case False
      then have "t \<in> set (exec_op p now ts)"
        using t st by (auto simp: p markCancelled_def intro!: guarded_update_keep)
      then show ?thesis ..
    qed
  next
    case False
    then have "t \<in> set (exec_op p now ts)" using t dist facts wf other scheduler_not_worker
      by (cases p)
        (auto simp: insertPendingTaskSql_def markQueued_def releaseEnqueueLease_def claimRunning_def
          renewRunningLease_def failTimedOutTasks_def markSucceeded_def markFailed_def Let_def
          intro!: guarded_update_keep update_where_keep claimOutboxBatch_keep)
    then show ?thesis ..
  qed
qed

lemma exec_ops_held:
  assumes "tasks_inv ts" and "t \<in> set ts" and "holds_lease w fin t"
    and "\<And>now p. (now, p) \<in> set ps \<Longrightarrow> now \<le> fin \<and> op_wf p \<and> \<not> issued_by w p"
  shows "t \<in> set (exec_ops ps ts)
    \<or> (\<exists>now ow. (now, OpCancel (t_uuid t) ow) \<in> set ps \<and> (ow = None \<or> ow = Some w)
        \<and> cancelled_row now t \<in> set (exec_ops ps ts))"
  using assms
proof (induction ps ts rule: exec_ops.induct)
  case (2 now p ps ts)
  have now: "now \<le> fin" and p: "op_wf p" "\<not> issued_by w p"
    using "2.prems"(4) [of now p] by auto
  have inv: "tasks_inv (exec_op p now ts)" using exec_op_inv p(1) "2.prems"(1) by blast
  have "holds_lease w now t" using "2.prems"(3) now by (auto simp: holds_lease_def)
  from exec_op_held [OF "2.prems"(1,2) this p] show ?case
  proof
    assume "t \<in> set (exec_op p now ts)"
    from "2.IH" [OF inv this "2.prems"(3)] "2.prems"(4) show ?thesis by fastforce
  next
    assume "\<exists>ow. p = OpCancel (t_uuid t) ow \<and> (ow = None \<or> ow = Some w)
        \<and> cancelled_row now t \<in> set (exec_op p now ts)"
    then obtain ow where c: "p = OpCancel (t_uuid t) ow" "ow = None \<or> ow = Some w"
        "cancelled_row now t \<in> set (exec_op p now ts)" by blast
    have "cancelled_row now t \<in> set (exec_ops ps (exec_op p now ts))"
      using exec_ops_terminal [OF c(3)] inv
      by (simp add: tasks_inv_def cancelled_row_def isTerminalTaskStatus_def TERMINAL_TASK_STATUSES_def)
    then show ?thesis using c(1,2) by auto
  qed
qed simp

text \<open>Another worker's attempt to take the task is refused and changes nothing.\<close>

lemma claimRunning_refused:
  assumes "distinct (map t_uuid ts)" and "t \<in> set ts" and "holds_lease w now t" and "w' \<noteq> w"
  shows "claimRunning (t_uuid t) w' now ts = (False, ts)"
proof -
  let ?P = "\<lambda>x. t_uuid x = t_uuid t \<and> t_status x \<in> {QUEUED, RUNNING}
     \<and> (t_status x = QUEUED \<or> t_leaseExpiresAt x = None \<or> some_le (t_leaseExpiresAt x) now
        \<or> t_leaseOwner x = Some w')"
  have none: "\<not> ?P x" if "x \<in> set ts" for x
  proof -
    have "t_uuid x = t_uuid t \<Longrightarrow> x = t" using that assms(1,2) by (metis distinct_map inj_onD)
    then show ?thesis using assms(3,4) by (auto simp: holds_lease_def some_le_def)
  qed
  then have "count_where ?P ts = 0" and "update_where ?P f ts = ts" for f
    by (intro count_where_none update_where_none; blast)+
  then show ?thesis by (simp add: claimRunning_def guarded_update_def)
qed

section \<open>Recovery of a task whose worker is gone\<close>

lemma claimOutboxBatch_hit:
  assumes "t \<in> set ts" and "claimable replayable now t"
    and "count_where (claimable replayable now) ts \<le> n"
  shows "(t_uuid t, t_type t, t_status t) \<in> set (fst (claimOutboxBatch s replayable {} now n ts))"
    and "t\<lparr>t_leaseOwner := Some s, t_leaseExpiresAt := Some (now + TASK_ENQUEUE_LEASE_SECONDS * 1000)\<rparr>
      \<in> set (snd (claimOutboxBatch s replayable {} now n ts))"
proof -
  let ?c = "sort_key t_createdAt (filter (claimable replayable now) ts)"
  have all: "take n ?c = ?c" using assms(3) by (simp add: count_where_def)
  have mem: "t \<in> set ?c" using assms(1,2) by simp
  show "(t_uuid t, t_type t, t_status t) \<in> set (fst (claimOutboxBatch s replayable {} now n ts))"
    using mem by (force simp: claimOutboxBatch_def Let_def all)
  show "t\<lparr>t_leaseOwner := Some s, t_leaseExpiresAt := Some (now + TASK_ENQUEUE_LEASE_SECONDS * 1000)\<rparr>
      \<in> set (snd (claimOutboxBatch s replayable {} now n ts))"
    using mem assms(1) by (simp add: claimOutboxBatch_def Let_def all) (rule update_where_mem, auto)
qed

lemma markQueued_hit:
  assumes "t \<in> set ts" and "t_status t \<in> {PENDING_ENQUEUE, QUEUED, RUNNING}" and "t_leaseOwner t = Some s"
  shows "fst (markQueued (t_uuid t) s ts)"
    and "t\<lparr>t_status := QUEUED, t_leaseOwner := None, t_leaseExpiresAt := None,
          t_nextRetryAt := None, t_lastError := None\<rparr> \<in> set (snd (markQueued (t_uuid t) s ts))"
  using assms
  by (auto simp: markQueued_def guarded_update_def count_where_pos_iff intro!: update_where_mem)

lemma claimRunning_queued:
  assumes "t \<in> set ts" and "t_status t = QUEUED" and "is_worker_id w"
  shows "fst (claimRunning (t_uuid t) w now ts)"
    and "\<exists>t' \<in> set (snd (claimRunning (t_uuid t) w now ts)).
      t_uuid t' = t_uuid t \<and> holds_lease w now t' \<and> t_attempts t' = t_attempts t + 1"
proof -
  show "fst (claimRunning (t_uuid t) w now ts)"
    using assms by (auto simp: claimRunning_def Let_def guarded_update_def count_where_pos_iff)
  let ?t' = "t\<lparr>t_status := RUNNING, t_leaseOwner := Some w,
    t_leaseExpiresAt := Some (now + TASK_RUNNING_LEASE_SECONDS * 1000),
    t_startedAt := Some (case t_startedAt t of Some s \<Rightarrow> s | None \<Rightarrow> now),
    t_attempts := t_attempts t + 1,
    t_timeoutAt := Some (now + TASK_RUNNING_LEASE_SECONDS * 2 * 1000)\<rparr>"
  have "?t' \<in> set (snd (claimRunning (t_uuid t) w now ts))"
    using assms(1,2)
    by (simp add: claimRunning_def Let_def guarded_update_def set_update_where) (intro disjI1 exI [of _ t], simp)
  moreover have "holds_lease w now ?t'"
    using assms(3) by (simp add: holds_lease_def TASK_RUNNING_LEASE_SECONDS_def)
  ultimately show "\<exists>t' \<in> set (snd (claimRunning (t_uuid t) w now ts)).
      t_uuid t' = t_uuid t \<and> holds_lease w now t' \<and> t_attempts t' = t_attempts t + 1"
    by (intro bexI [of _ ?t']) simp_all
qed

section \<open>Backoff\<close>

lemma backoff_bounds:
  assumes "0 \<le> n"
  shows "30 \<le> computeEnqueueBackoffSeconds n" and "computeEnqueueBackoffSeconds n \<le> 7680"
proof -
  have m: "0 \<le> min n 8" "min n 8 \<le> 8" using assms by simp_all
  have "(2::rat) powi 0 \<le> 2 powi (min n 8)" by (rule power_int_increasing) (use m in auto)
  moreover have "(2::rat) powi (min n 8) \<le> 2 powi 8" by (rule power_int_increasing) (use m in auto)
  ultimately show "30 \<le> computeEnqueueBackoffSeconds n" and "computeEnqueueBackoffSeconds n \<le> 7680"
    by (simp_all add: computeEnqueueBackoffSeconds_def TASK_ENQUEUE_BACKOFF_BASE_SECONDS_def Let_def)
qed

end
