(* ===== verification/JsDate.thy ===== *)
theory JsDate
  imports Prelude
begin

text \<open>
  The parts of \<open>Date\<close>, \<open>Intl\<close> and \<open>String\<close> the modelled code uses: the proleptic Gregorian
  calendar of the UTC getters (a time is milliseconds since the epoch), decimal printing and
  \<open>padStart\<close>.
\<close>

section \<open>Decimal text\<close>

fun nat_str :: "nat \<Rightarrow> string" where
  "nat_str n = (if n < 10 then [char_of (48 + n)] else nat_str (n div 10) @ [char_of (48 + n mod 10)])"

declare nat_str.simps [simp del]

definition int_str :: "int \<Rightarrow> string" where
  "int_str n = (if n < 0 then ''-'' @ nat_str (nat (- n)) else nat_str (nat n))"

text \<open>The same text computed on integers, for evaluation.\<close>

function digit_str :: "int \<Rightarrow> string" where
  "digit_str n = (if n < 10 then [char_of (48 + nat n)] else digit_str (n div 10) @ [char_of (48 + nat (n mod 10))])"
  by auto
termination by (relation "measure nat") (auto simp: nat_less_eq_zless)

declare digit_str.simps [simp del]

lemma digit_str_eq: "0 \<le> n \<Longrightarrow> digit_str n = nat_str (nat n)"
proof (induction n rule: digit_str.induct)
  case (1 n)
  show ?case
  proof (cases "n < 10")
    case True
    then have "nat n < 10" by simp
    then show ?thesis using True by (simp add: digit_str.simps [of n] nat_str.simps [of "nat n"])
  next
    case False
    then have "nat n div 10 = nat (n div 10)" "nat n mod 10 = nat (n mod 10)"
      by (simp_all add: nat_div_distrib nat_mod_distrib)
    moreover have "\<not> nat n < 10" "0 \<le> n div 10" using False by simp_all
    ultimately show ?thesis using False 1 by (simp add: digit_str.simps [of n] nat_str.simps [of "nat n"])
  qed
qed

lemma int_str_code [code]: "int_str n = (if n < 0 then ''-'' @ digit_str (- n) else digit_str n)"
  by (simp add: int_str_def digit_str_eq)

definition padStart :: "nat \<Rightarrow> char \<Rightarrow> string \<Rightarrow> string" where
  "padStart n c s = replicate (n - length s) c @ s"

section \<open>Calendar\<close>

definition DAY_MILLIS :: int where "DAY_MILLIS = 86400000"

definition BEIJING_OFFSET :: int where "BEIJING_OFFSET = 8 * 60 * 60 * 1000"

text \<open>Year, month and day of a day number, counted from the epoch.\<close>

definition civil_from_days :: "int \<Rightarrow> int \<times> int \<times> int" where
  "civil_from_days n =
     (let z = n + 719468;
          era = z div 146097;
          doe = z - era * 146097;
          yoe = (doe - doe div 1460 + doe div 36524 - doe div 146096) div 365;
          doy = doe - (365 * yoe + yoe div 4 - yoe div 100);
          mp = (5 * doy + 2) div 153;
          d = doy - (153 * mp + 2) div 5 + 1;
          m = (if mp < 10 then mp + 3 else mp - 9);
          y = yoe + era * 400
      in (if m \<le> 2 then y + 1 else y, m, d))"

definition utc_date :: "int \<Rightarrow> int \<times> int \<times> int" where
  "utc_date ms = civil_from_days (ms div DAY_MILLIS)"

definition utc_hour :: "int \<Rightarrow> int" where "utc_hour ms = ms div 3600000 mod 24"
definition utc_minute :: "int \<Rightarrow> int" where "utc_minute ms = ms div 60000 mod 60"
definition utc_second :: "int \<Rightarrow> int" where "utc_second ms = ms div 1000 mod 60"
definition utc_milli :: "int \<Rightarrow> int" where "utc_milli ms = ms mod 1000"

lemma utc_ranges:
  "0 \<le> utc_hour ms \<and> utc_hour ms < 24" "0 \<le> utc_minute ms \<and> utc_minute ms < 60"
  "0 \<le> utc_second ms \<and> utc_second ms < 60" "0 \<le> utc_milli ms \<and> utc_milli ms < 1000"
  by (simp_all add: utc_hour_def utc_minute_def utc_second_def utc_milli_def)

text \<open>The clock fields determine the time of day.\<close>

lemma utc_fields_inject:
  assumes "ms div DAY_MILLIS = ms' div DAY_MILLIS" and "utc_hour ms = utc_hour ms'"
    and "utc_minute ms = utc_minute ms'" and "utc_second ms = utc_second ms'"
    and "utc_milli ms = utc_milli ms'"
  shows "ms = ms'"
proof -
  have d: "ms div 3600000 div 24 = ms' div 3600000 div 24"
    using assms(1) by (simp add: DAY_MILLIS_def flip: zdiv_zmult2_eq)
  have h: "ms div 3600000 = ms' div 3600000"
    using d assms(2) by (metis utc_hour_def div_mult_mod_eq)
  then have "ms div 60000 div 60 = ms' div 60000 div 60" by (simp flip: zdiv_zmult2_eq)
  then have m: "ms div 60000 = ms' div 60000"
    using assms(3) by (metis utc_minute_def div_mult_mod_eq)
  then have "ms div 1000 div 60 = ms' div 1000 div 60" by (simp flip: zdiv_zmult2_eq)
  then have "ms div 1000 = ms' div 1000"
    using assms(4) by (metis utc_second_def div_mult_mod_eq)
  then show ?thesis using assms(5) by (metis utc_milli_def div_mult_mod_eq)
qed

lemma civil_epoch: "civil_from_days 0 = (1970, 1, 1)" and "civil_from_days 20674 = (2026, 8, 9)"
  and "civil_from_days 19782 = (2024, 2, 29)" and "civil_from_days (- 1) = (1969, 12, 31)"
  by code_simp+

section \<open>Decimal text is injective\<close>

fun str_val :: "nat \<Rightarrow> string \<Rightarrow> nat" where
  "str_val a [] = a"
| "str_val a (c # cs) = str_val (10 * a + (of_char c - 48)) cs"

lemma str_val_append: "str_val a (s @ t) = str_val (str_val a s) t"
  by (induction s arbitrary: a) simp_all

lemma of_char_digit: "n < 10 \<Longrightarrow> (of_char (char_of (48 + n) :: char) :: nat) = 48 + n"
  by simp

lemma str_val_nat_str: "str_val 0 (nat_str n) = n"
proof (induction n rule: nat_str.induct)
  case (1 n)
  show ?case
  proof (cases "n < 10")
    case True
    then show ?thesis by (simp add: nat_str.simps [of n] of_char_digit)
  next
    case False
    then show ?thesis
      using 1 by (simp add: nat_str.simps [of n] str_val_append of_char_digit)
  qed
qed

lemma nat_str_inject: "nat_str m = nat_str n \<longleftrightarrow> m = n"
  by (metis str_val_nat_str)

lemma str_val_zeros: "str_val 0 (replicate k (CHR ''0'') @ s) = str_val 0 s"
  by (induction k) simp_all

lemma padStart_zero_val: "str_val 0 (padStart k (CHR ''0'') (nat_str n)) = n"
  by (simp add: padStart_def str_val_zeros str_val_nat_str)

lemma length_nat_str:
  assumes "n < 10 ^ k" and "0 < k"
  shows "length (nat_str n) \<le> k"
  using assms
proof (induction n arbitrary: k rule: nat_str.induct)
  case (1 n)
  show ?case
  proof (cases "n < 10")
    case True
    then show ?thesis using "1.prems"(2) by (simp add: nat_str.simps [of n])
  next
    case False
    with "1.prems" have k: "1 < k" by (cases "k = 1") auto
    then obtain j where j: "k = Suc j" "0 < j" by (cases k) auto
    have "n div 10 < 10 ^ j" using "1.prems"(1) j(1) by (simp add: less_mult_imp_div_less mult.commute)
    then have "length (nat_str (n div 10)) \<le> j" using "1.IH" False j(2) by simp
    then show ?thesis using False j(1) by (simp add: nat_str.simps [of n])
  qed
qed

lemma length_padStart_nat:
  assumes "n < 10 ^ k" and "0 < k"
  shows "length (padStart k c (nat_str n)) = k"
  using length_nat_str [OF assms] by (simp add: padStart_def)

end
