(* ===== verification/TaskScheduler.thy ===== *)
theory TaskScheduler
  imports TaskLease JsDate
begin

text \<open>
  The outbox scheduler and the task worker of \<open>apps/worker\<close>. The queue (BullMQ), the disk probe,
  the maintenance flag and SHA-256 are arguments; a call of the queue gives an error message or
  its result. \<open>h24\<close> is the hour cycle the runtime resolves for \<open>hour12: false\<close>: with it midnight
  prints as 24.
\<close>

section \<open>Beijing time\<close>

definition beijingDateString :: "int \<Rightarrow> string" where
  "beijingDateString now =
     (let (y, m, d) = utc_date (now + BEIJING_OFFSET)
      in int_str y @ ''-'' @ padStart 2 (CHR ''0'') (int_str m) @ ''-'' @ padStart 2 (CHR ''0'') (int_str d))"

definition beijingHour :: "bool \<Rightarrow> int \<Rightarrow> int" where
  "beijingHour h24 now =
     (let h = utc_hour (now + BEIJING_OFFSET) in if h24 \<and> h = 0 then 24 else h)"

definition isPastScheduledBackupBoundary :: "bool \<Rightarrow> int \<Rightarrow> bool" where
  "isPastScheduledBackupBoundary h24 now = (beijingHour h24 now \<ge> 2)"

section \<open>Daily tasks\<close>

record scheduler =
  lastScheduledBackupCycleDate :: "string option"
  lastImageCleanupCycleDate :: "string option"
  lastApprovalTimeoutCycleDate :: "string option"
  lastLogCleanupCycleId :: "int option"
  sch_running :: bool
  sch_tasks :: "task_row list"

definition scheduled_input :: "(string \<Rightarrow> string) \<Rightarrow> string \<Rightarrow> string \<Rightarrow> json \<Rightarrow> create_input" where
  "scheduled_input sha ty key ref =
     \<lparr>ci_uuid = stableTaskUuid sha (ty @ '':'' @ key), ci_type = ty, ci_module = ''backstage'',
      ci_initiatorId = None, ci_initiatorType = SCHEDULER, ci_ref = Some ref\<rparr>"

definition ensureDailyScheduledBackup ::
    "bool \<Rightarrow> (string \<Rightarrow> string) \<Rightarrow> bool \<Rightarrow> int \<Rightarrow> scheduler \<Rightarrow> scheduler" where
  "ensureDailyScheduledBackup h24 sha diskCritical now s =
     (if \<not> isPastScheduledBackupBoundary h24 now then s
      else let cycleDate = beijingDateString now in
        if lastScheduledBackupCycleDate s = Some cycleDate then s
        else if diskCritical then s
        else s\<lparr>sch_tasks := snd (insertPendingTaskSql
                 (scheduled_input sha ''SCHEDULED_BACKUP'' cycleDate (JObj [(''cycleDate'', JStr cycleDate)]))
                 now now (sch_tasks s)),
               lastScheduledBackupCycleDate := Some cycleDate\<rparr>)"

definition ensureDailyImageCleanup :: "bool \<Rightarrow> (string \<Rightarrow> string) \<Rightarrow> int \<Rightarrow> scheduler \<Rightarrow> scheduler" where
  "ensureDailyImageCleanup h24 sha now s =
     (if beijingHour h24 now < 3 then s
      else let cycleDate = beijingDateString now in
        if lastImageCleanupCycleDate s = Some cycleDate then s
        else s\<lparr>sch_tasks := snd (insertPendingTaskSql
                 (scheduled_input sha ''UNASSOCIATED_IMAGE_CLEANUP'' cycleDate
                   (JObj [(''cycleDate'', JStr cycleDate)])) now now (sch_tasks s)),
               lastImageCleanupCycleDate := Some cycleDate\<rparr>)"

definition ensureDailyApprovalTimeoutScan :: "bool \<Rightarrow> (string \<Rightarrow> string) \<Rightarrow> int \<Rightarrow> scheduler \<Rightarrow> scheduler" where
  "ensureDailyApprovalTimeoutScan h24 sha now s =
     (if beijingHour h24 now < 4 then s
      else let cycleDate = beijingDateString now in
        if lastApprovalTimeoutCycleDate s = Some cycleDate then s
        else s\<lparr>sch_tasks := snd (insertPendingTaskSql
                 (scheduled_input sha ''APPROVAL_TIMEOUT_SCAN'' cycleDate
                   (JObj [(''cycleDate'', JStr cycleDate)])) now now (sch_tasks s)),
               lastApprovalTimeoutCycleDate := Some cycleDate\<rparr>)"

text \<open>
  The setting is the first row of the query, if any, read by \<open>Number\<close>: \<open>None\<close> for no row,
  \<open>Some None\<close> for a value that is no finite number.
\<close>

definition ensurePeriodicLogCleanup ::
    "(string \<Rightarrow> string) \<Rightarrow> rat option option \<Rightarrow> int \<Rightarrow> scheduler \<Rightarrow> scheduler" where
  "ensurePeriodicLogCleanup sha setting now s =
     (case (case setting of Some v \<Rightarrow> v | None \<Rightarrow> Some 24) of
        None \<Rightarrow> s
      | Some intervalHours \<Rightarrow>
          if intervalHours \<le> 0 then s
          else let intervalMs = intervalHours * 60 * 60 * 1000;
                   cycleId = \<lfloor>of_int now / intervalMs\<rfloor>
               in if lastLogCleanupCycleId s = Some cycleId then s
                  else s\<lparr>sch_tasks := snd (insertPendingTaskSql
                           (scheduled_input sha ''LOG_RETENTION_CLEANUP'' (int_str cycleId)
                             (JObj [(''cycleId'', JNum (of_int cycleId))])) now now (sch_tasks s)),
                         lastLogCleanupCycleId := Some cycleId\<rparr>)"

section \<open>Delivery\<close>

text \<open>What the scheduler hands to the queue: the task id and the attempts of the job.\<close>

type_synonym delivery = "string \<times> int"

definition job_attempts :: "string \<Rightarrow> int" where
  "job_attempts ty = (if ty = ''RESTORE_DELIVERY'' then 3 else TASK_MAX_ATTEMPTS)"

definition locked_message :: "string \<Rightarrow> string" where
  "locked_message u = ''job locked taskUuid='' @ u"

definition deliver_row ::
    "(string \<Rightarrow> string + nat) \<Rightarrow> (string \<Rightarrow> string + unit) \<Rightarrow> string \<Rightarrow> int
      \<Rightarrow> string \<times> string \<times> task_status \<Rightarrow> delivery list \<times> task_row list \<Rightarrow> delivery list \<times> task_row list" where
  "deliver_row rem add schedulerId now row st =
     (let (u, ty, status) = row; (sent, ts) = st;
          removed = (if status \<noteq> PENDING_ENQUEUE
                     then bindR (rem u) (\<lambda>n. if n = 0 then Inl (locked_message u) else Inr ())
                     else Inr ())
      in case bindR removed (\<lambda>x. add u) of
           Inr x \<Rightarrow> (sent @ [(u, job_attempts ty)], snd (markQueued u schedulerId ts))
         | Inl message \<Rightarrow> (sent, snd (releaseEnqueueLease u schedulerId 0 message now ts)))"

definition shouldPauseForMaintenance :: "string + bool \<Rightarrow> bool" where
  "shouldPauseForMaintenance readState = (case readState of Inr b \<Rightarrow> b | Inl e \<Rightarrow> True)"

text \<open>What a tick does before it claims a batch: the daily and periodic tasks, then the timeouts.\<close>

definition before_claim ::
    "bool \<Rightarrow> (string \<Rightarrow> string) \<Rightarrow> bool \<Rightarrow> rat option option \<Rightarrow> int \<Rightarrow> scheduler \<Rightarrow> scheduler" where
  "before_claim h24 sha diskCritical logSetting now s =
     (let s1 = ensureDailyScheduledBackup h24 sha diskCritical now s;
          s2 = ensureDailyImageCleanup h24 sha now s1;
          s3 = ensureDailyApprovalTimeoutScan h24 sha now s2;
          s4 = ensurePeriodicLogCleanup sha logSetting now s3
      in s4\<lparr>sch_tasks := snd (failTimedOutTasks now (sch_tasks s4))\<rparr>)"

definition tick ::
    "bool \<Rightarrow> (string \<Rightarrow> string) \<Rightarrow> (string \<Rightarrow> string + nat) \<Rightarrow> (string \<Rightarrow> string + unit) \<Rightarrow> string
      \<Rightarrow> string + bool \<Rightarrow> bool \<Rightarrow> rat option option \<Rightarrow> string set \<Rightarrow> int \<Rightarrow> scheduler
      \<Rightarrow> delivery list \<times> scheduler" where
  "tick h24 sha rem add schedulerId maintenance diskCritical logSetting locked now s =
     (if sch_running s then ([], s)
      else if shouldPauseForMaintenance maintenance then ([], s\<lparr>sch_running := False\<rparr>)
      else let s1 = before_claim h24 sha diskCritical logSetting now s;
               (batch, ts1) = claimOutboxBatch schedulerId SAFELY_REPLAYABLE_TASK_TYPES locked now
                                TASK_ENQUEUE_BATCH_SIZE (sch_tasks s1);
               (sent, ts2) = fold (deliver_row rem add schedulerId now) batch ([], ts1)
           in (sent, s1\<lparr>sch_tasks := ts2, sch_running := False\<rparr>))"

section \<open>The worker\<close>

text \<open>
  \<open>handleJob\<close>: what the processor and everyone else do to the table between the claim and the end
  of the processing is \<open>during\<close>; the processing itself gives an error message or not. The result is
  what the job reports to the queue, an error making the queue retry.
\<close>

definition handleJob ::
    "string \<Rightarrow> int \<Rightarrow> (task_row list \<Rightarrow> task_row list) \<Rightarrow> string + unit \<Rightarrow> int \<Rightarrow> int option \<Rightarrow> int
      \<Rightarrow> string \<Rightarrow> task_row list \<Rightarrow> (string + unit) \<times> task_row list" where
  "handleJob owner now during outcome later attemptsOpt attemptsMade u ts =
     (case loadTaskByUuid u ts of
        None \<Rightarrow> (Inr (), ts)
      | Some task \<Rightarrow>
          if isTerminalTaskStatus (t_status task) then (Inr (), ts)
          else let (claimed, ts1) = claimRunning u owner now ts in
            if \<not> claimed then (Inl ''LeaseNotClaimableError'', ts1)
            else let ts2 = during ts1 in
              case outcome of
                Inr x \<Rightarrow> (Inr (), snd (markSucceeded u owner later ts2))
              | Inl message \<Rightarrow>
                  let attempts = (case attemptsOpt of Some a \<Rightarrow> a | None \<Rightarrow> TASK_MAX_ATTEMPTS);
                      isFinal = (attemptsMade + 1 \<ge> attempts)
                  in (Inl message, if isFinal then snd (markFailed u owner message later ts2) else ts2))"

section \<open>Facts\<close>

lemma insertPending_uuid:
  "\<exists>t \<in> set (snd (insertPendingTaskSql i now dbnow ts)). t_uuid t = ci_uuid i"
  by (auto simp: insertPendingTaskSql_def new_task_def)

lemma insertPending_again:
  "snd (insertPendingTaskSql i now' dbnow' (snd (insertPendingTaskSql i now dbnow ts)))
    = snd (insertPendingTaskSql i now dbnow ts)"
  using insertPending_uuid [of i now dbnow ts] by (simp add: insertPendingTaskSql_def)

lemma insertPending_only:
  "set (snd (insertPendingTaskSql i now dbnow ts)) \<subseteq> insert (new_task i now dbnow) (set ts)"
  by (auto simp: insertPendingTaskSql_def)

text \<open>A second scheduler, or the same one after a restart, adds nothing on the same day.\<close>

lemma ensureDailyScheduledBackup_again:
  assumes "isPastScheduledBackupBoundary h24 now" and "\<not> diskCritical"
    and "lastScheduledBackupCycleDate s = None"
    and "isPastScheduledBackupBoundary h24 now'" and "beijingDateString now' = beijingDateString now"
    and "sch_tasks s' = sch_tasks (ensureDailyScheduledBackup h24 sha diskCritical now s)"
  shows "sch_tasks (ensureDailyScheduledBackup h24 sha diskCritical' now' s') = sch_tasks s'"
  using assms by (simp add: ensureDailyScheduledBackup_def Let_def insertPendingTaskSql_def new_task_def scheduled_input_def)

lemma markQueued_uuids: "map t_uuid (snd (markQueued u s ts)) = map t_uuid ts"
  by (simp add: markQueued_def guarded_update_def map_update_where)

lemma insertPending_distinct:
  "distinct (map t_uuid ts) \<Longrightarrow> distinct (map t_uuid (snd (insertPendingTaskSql i now dbnow ts)))"
  using exec_op_uuids [of ts "OpInsert i dbnow" now] by simp

lemma before_claim_distinct:
  assumes "distinct (map t_uuid (sch_tasks s))"
  shows "distinct (map t_uuid (sch_tasks (before_claim h24 sha dc setting now s)))"
proof -
  let ?s4 = "ensurePeriodicLogCleanup sha setting now (ensureDailyApprovalTimeoutScan h24 sha now
    (ensureDailyImageCleanup h24 sha now (ensureDailyScheduledBackup h24 sha dc now s)))"
  have step: "distinct (map t_uuid (sch_tasks (ensureDailyScheduledBackup h24 sha dc now s)))"
    "distinct (map t_uuid (sch_tasks (ensureDailyImageCleanup h24 sha now s)))"
    "distinct (map t_uuid (sch_tasks (ensureDailyApprovalTimeoutScan h24 sha now s)))"
    "distinct (map t_uuid (sch_tasks (ensurePeriodicLogCleanup sha setting now s)))"
    if "distinct (map t_uuid (sch_tasks s))" for s
    using that insertPending_distinct
    by (simp_all add: ensureDailyScheduledBackup_def ensureDailyImageCleanup_def
        ensureDailyApprovalTimeoutScan_def ensurePeriodicLogCleanup_def Let_def split: option.split)
  have "distinct (map t_uuid (sch_tasks ?s4))" using assms by (intro step)
  then show ?thesis
    using exec_op_uuids [of _ OpFailTimedOut now] by (simp add: before_claim_def Let_def)
qed

text \<open>
  Whether the queue takes a row of the batch: the left-over job of a row that is not pending was
  removed, and the new one was added. The batch sends exactly the rows the queue takes, and each of
  them is queued afterwards.
\<close>

fun queue_takes :: "(string \<Rightarrow> string + nat) \<Rightarrow> (string \<Rightarrow> string + unit) \<Rightarrow> string \<times> string \<times> task_status \<Rightarrow> bool" where
  "queue_takes rem add (u, ty, st) \<longleftrightarrow> (st \<noteq> PENDING_ENQUEUE \<longrightarrow> (\<exists>k. rem u = Inr (Suc k))) \<and> add u = Inr ()"

lemma deliver_row_eq:
  "deliver_row rem add sid now (u, ty, st) (sent, ts) =
    (case bindR (if st \<noteq> PENDING_ENQUEUE
                 then bindR (rem u) (\<lambda>n. if n = 0 then Inl (locked_message u) else Inr ()) else Inr ())
        (\<lambda>x. add u) of
       Inr x \<Rightarrow> (sent @ [(u, job_attempts ty)], snd (markQueued u sid ts))
     | Inl message \<Rightarrow> (sent, snd (releaseEnqueueLease u sid 0 message now ts)))"
  by (simp only: deliver_row_def prod.case Let_def)

lemma queue_takes_iff:
  "queue_takes rem add (u, ty, st) \<longleftrightarrow>
    bindR (if st \<noteq> PENDING_ENQUEUE
           then bindR (rem u) (\<lambda>n. if n = 0 then Inl (locked_message u) else Inr ()) else Inr ())
      (\<lambda>x. add u) = Inr ()"
  by (auto simp: bindR_Inr_iff gr0_conv_Suc split: if_splits)

lemma deliver_row_sent:
  "fst (deliver_row rem add sid now (u, ty, st) (sent, ts))
    = (if queue_takes rem add (u, ty, st) then sent @ [(u, job_attempts ty)] else sent)"
  unfolding deliver_row_eq queue_takes_iff by (split sum.split) simp

lemma deliver_row_taken:
  "queue_takes rem add (u, ty, st) \<Longrightarrow>
    snd (deliver_row rem add sid now (u, ty, st) (sent, ts)) = snd (markQueued u sid ts)"
  by (simp only: deliver_row_eq queue_takes_iff sum.case snd_conv)

lemma deliver_fold_sent:
  "fst (fold (deliver_row rem add sid now) batch s)
    = fst s @ map (\<lambda>(u, ty, st). (u, job_attempts ty)) (filter (queue_takes rem add) batch)"
proof (induction batch arbitrary: s)
  case (Cons row batch)
  obtain u ty st where row: "row = (u, ty, st)" by (cases row)
  show ?case
    using Cons.IH [of "deliver_row rem add sid now row s"] deliver_row_sent [of rem add sid now u ty st "fst s" "snd s"]
    by (simp add: row)
qed simp

lemma deliver_row_keep:
  "r \<in> set ts \<Longrightarrow> t_uuid r \<noteq> fst row \<Longrightarrow> r \<in> set (snd (deliver_row rem add sid now row (sent, ts)))"
  by (cases row)
    (auto simp: deliver_row_def markQueued_def releaseEnqueueLease_def Let_def intro: guarded_update_keep split: sum.splits)

lemma deliver_fold_keep:
  "r \<in> set (snd st) \<Longrightarrow> t_uuid r \<notin> fst ` set batch \<Longrightarrow> r \<in> set (snd (fold (deliver_row rem add sid now) batch st))"
proof (induction batch arbitrary: st)
  case (Cons row batch)
  then show ?case using deliver_row_keep [of r "snd st" row rem add sid now "fst st"] by simp
qed simp

lemma deliver_fold_queued:
  assumes "distinct (map fst batch)" and "(t_uuid t, ty, t_status t) \<in> set batch"
    and "queue_takes rem add (t_uuid t, ty, t_status t)"
    and "t \<in> set (snd st)" and "t_leaseOwner t = Some sid"
    and "t_status t \<in> {PENDING_ENQUEUE, QUEUED, RUNNING}"
  shows "t\<lparr>t_status := QUEUED, t_leaseOwner := None, t_leaseExpiresAt := None,
      t_nextRetryAt := None, t_lastError := None\<rparr> \<in> set (snd (fold (deliver_row rem add sid now) batch st))"
  using assms
proof (induction batch arbitrary: st)
  case (Cons row batch)
  show ?case
  proof (cases "fst row = t_uuid t")
    case True
    then have row: "row = (t_uuid t, ty, t_status t)" and new: "t_uuid t \<notin> fst ` set batch"
      using Cons.prems(1,2) by (force, auto)
    have "t\<lparr>t_status := QUEUED, t_leaseOwner := None, t_leaseExpiresAt := None,
        t_nextRetryAt := None, t_lastError := None\<rparr> \<in> set (snd (deliver_row rem add sid now row st))"
      using markQueued_hit(2) [OF Cons.prems(4,6,5)] Cons.prems(3)
        deliver_row_taken [of rem add "t_uuid t" ty "t_status t" sid now "fst st" "snd st"] by (simp add: row)
    from deliver_fold_keep [OF this] new show ?thesis by simp
  next
    case False
    then have "t \<in> set (snd (deliver_row rem add sid now row st))"
      using deliver_row_keep [of t "snd st" row rem add sid now "fst st"] Cons.prems(4) by simp
    then show ?thesis using Cons.IH [of "deliver_row rem add sid now row st"] Cons.prems False by auto
  qed
qed simp

lemma claimOutboxBatch_row:
  assumes "(u, ty, st) \<in> set (fst (claimOutboxBatch sid replayable locked now n ts))"
  obtains t where "t \<in> set ts" "t_uuid t = u" "t_type t = ty" "t_status t = st"
    "claimable replayable now t" "u \<notin> locked"
    "t\<lparr>t_leaseOwner := Some sid, t_leaseExpiresAt := Some (now + TASK_ENQUEUE_LEASE_SECONDS * 1000)\<rparr>
      \<in> set (snd (claimOutboxBatch sid replayable locked now n ts))"
proof -
  let ?c = "take n (sort_key t_createdAt (filter (\<lambda>t. claimable replayable now t \<and> t_uuid t \<notin> locked) ts))"
  from assms obtain t where t: "t \<in> set ?c" "t_uuid t = u" "t_type t = ty" "t_status t = st"
    by (auto simp: claimOutboxBatch_def Let_def)
  from t(1) have m: "t \<in> set ts" "claimable replayable now t" "t_uuid t \<notin> locked" by (auto dest: in_set_takeD)
  have "t\<lparr>t_leaseOwner := Some sid, t_leaseExpiresAt := Some (now + TASK_ENQUEUE_LEASE_SECONDS * 1000)\<rparr>
      \<in> set (snd (claimOutboxBatch sid replayable locked now n ts))"
    using m(1) t(1) by (simp add: claimOutboxBatch_def Let_def) (rule update_where_mem, auto)
  with m t show ?thesis using that by blast
qed

lemma claimOutboxBatch_distinct:
  assumes "distinct (map t_uuid ts)"
  shows "distinct (map fst (fst (claimOutboxBatch sid replayable locked now n ts)))"
proof -
  let ?c = "filter (\<lambda>t. claimable replayable now t \<and> t_uuid t \<notin> locked) ts"
  have "mset (map t_uuid (sort_key t_createdAt ?c)) = mset (map t_uuid ?c)" by simp
  then have "distinct (map t_uuid (sort_key t_createdAt ?c))"
    using assms by (metis distinct_map_filter mset_eq_imp_distinct_iff)
  then show ?thesis by (simp add: claimOutboxBatch_def Let_def take_map [symmetric] comp_def distinct_take)
qed

lemma deliver_failed_pending:
  assumes "t \<in> set ts" and "t_status t = PENDING_ENQUEUE" and "t_leaseOwner t = Some sid"
    and "add (t_uuid t) = Inl msg"
    and "deliver_row rem add sid now (t_uuid t, t_type t, PENDING_ENQUEUE) (sent, ts) = (sent', ts')"
  shows "sent' = sent" and "\<exists>t' \<in> set ts'. t_uuid t' = t_uuid t \<and> t_status t' = PENDING_ENQUEUE
    \<and> t_attempts t' = t_attempts t + 1 \<and> t_nextRetryAt t' = Some (now + 30000)"
proof -
  let ?t' = "t\<lparr>t_leaseOwner := None, t_leaseExpiresAt := None, t_attempts := t_attempts t + 1,
    t_nextRetryAt := Some (now + 30000), t_lastError := Some (take 2000 msg)\<rparr>"
  have r: "(sent', ts') = (sent, snd (releaseEnqueueLease (t_uuid t) sid 0 msg now ts))"
    using assms(4,5) by (simp add: deliver_row_def)
  have next_retry: "\<lfloor>computeEnqueueBackoffSeconds 0 * 1000\<rfloor> = 30000"
    by (simp add: computeEnqueueBackoffSeconds_def TASK_ENQUEUE_BACKOFF_BASE_SECONDS_def)
  have "?t' \<in> set ts'"
    using r assms(1-3)
    by (simp add: releaseEnqueueLease_def Let_def guarded_update_def next_retry set_update_where)
      (intro disjI1 exI [of _ t], simp)
  then show "sent' = sent" and "\<exists>t' \<in> set ts'. t_uuid t' = t_uuid t \<and> t_status t' = PENDING_ENQUEUE
    \<and> t_attempts t' = t_attempts t + 1 \<and> t_nextRetryAt t' = Some (now + 30000)"
    using r assms(2) by (auto intro!: bexI [of _ ?t'])
qed

text \<open>A worker that lost its lease while processing changes nothing when it ends.\<close>

lemma handleJob_lost_lease:
  assumes "\<And>t. t \<in> set (during (snd (claimRunning u owner now ts))) \<Longrightarrow> t_uuid t = u \<Longrightarrow>
      t_leaseOwner t \<noteq> Some owner"
    and "loadTaskByUuid u ts = Some task" and "\<not> isTerminalTaskStatus (t_status task)"
    and "fst (claimRunning u owner now ts)"
  shows "snd (handleJob owner now during outcome later att made u ts)
    = during (snd (claimRunning u owner now ts))"
proof -
  let ?ts = "during (snd (claimRunning u owner now ts))"
  have "snd (markSucceeded u owner later ?ts) = ?ts" and "snd (markFailed u owner msg later ?ts) = ?ts" for msg
    using assms(1) by (auto simp: markSucceeded_def markFailed_def guarded_update_def intro!: update_where_none)
  then show ?thesis using assms(2-4)
    by (auto simp: handleJob_def Let_def case_prod_beta split: sum.splits)
qed

end
