(* ===== verification/ApprovalKernel.thy ===== *)
theory ApprovalKernel
  imports Contracts
begin

text \<open>
  The approval kernel of \<open>packages/approval\<close>: the status machine (\<open>state-machine.ts\<close>), the
  scope check of an approver (\<open>scope.ts\<close>), the mapping of unique-index conflicts
  (\<open>pending-limit.ts\<close>) and the head of a request with its conditional update.
\<close>

section \<open>State machine\<close>

record resolved_transition =
  rt_status :: approval_status
  rt_action :: approval_action
  rt_cancelSource :: "cancel_source option"
  rt_requiresOpinion :: bool

definition TERMINAL_APPROVAL_STATUSES :: "approval_status list" where
  "TERMINAL_APPROVAL_STATUSES = [APPROVED, REJECTED, CANCELLED]"

definition isTerminalApprovalStatus :: "approval_status \<Rightarrow> bool" where
  "isTerminalApprovalStatus s = (s \<in> set TERMINAL_APPROVAL_STATUSES)"

definition assertTransitionAllowed :: "approval_status \<Rightarrow> approval_status \<Rightarrow> err + unit" where
  "assertTransitionAllowed from to =
     (let allowed = (from = DRAFT \<and> to = PENDING)
            \<or> (from = PENDING \<and> (to = APPROVED \<or> to = REJECTED \<or> to = CANCELLED))
      in if \<not> allowed then Inl (Biz STATUS_NOT_ALLOWED) else Inr ())"

fun resolveProcessTransition ::
    "process_action \<Rightarrow> cancel_source option \<Rightarrow> err + resolved_transition" where
  "resolveProcessTransition process_action.APPROVE src =
     Inr \<lparr>rt_status = APPROVED, rt_action = approval_action.APPROVE, rt_cancelSource = None,
       rt_requiresOpinion = False\<rparr>"
| "resolveProcessTransition process_action.REJECT src =
     Inr \<lparr>rt_status = REJECTED, rt_action = approval_action.REJECT, rt_cancelSource = None,
       rt_requiresOpinion = True\<rparr>"
| "resolveProcessTransition process_action.CANCEL src =
     Inr \<lparr>rt_status = CANCELLED, rt_action = approval_action.CANCEL,
       rt_cancelSource = Some (if src = Some ACCOUNT_DEACTIVATED then ACCOUNT_DEACTIVATED else USER),
       rt_requiresOpinion = False\<rparr>"
| "resolveProcessTransition process_action.AUTO_CANCEL src =
     (if src \<noteq> Some OVERDUE \<and> src \<noteq> Some ACCOUNT_DEACTIVATED then Inl (Biz STATUS_NOT_ALLOWED)
      else Inr \<lparr>rt_status = CANCELLED, rt_action = approval_action.AUTO_CANCEL,
        rt_cancelSource = src, rt_requiresOpinion = False\<rparr>)"

definition assertOpinionIfRequired :: "bool \<Rightarrow> string option \<Rightarrow> err + unit" where
  "assertOpinionIfRequired requiresOpinion opinion =
     (if \<not> requiresOpinion then Inr ()
      else case opinion of
          None \<Rightarrow> Inl (Biz REJECT_REASON_REQUIRED)
        | Some s \<Rightarrow> if length (js_trim s) = 0 then Inl (Biz REJECT_REASON_REQUIRED) else Inr ())"

definition throwIfTransitionLost :: "nat \<Rightarrow> err + unit" where
  "throwIfTransitionLost updatedCount =
     (if updatedCount = 0 then Inl (Biz STATUS_CONFLICT) else Inr ())"

definition assertPending :: "approval_status \<Rightarrow> err + unit" where
  "assertPending s = (if s \<noteq> PENDING then Inl (Biz STATUS_NOT_ALLOWED) else Inr ())"

section \<open>Scope of an approver\<close>

datatype approver_scope = CompanyScope | DepartmentScope "rat set"

definition ASSET_COMPANY_ONLY_REQUEST_TYPES :: "string list" where
  "ASSET_COMPANY_ONLY_REQUEST_TYPES = [''STOCK_IN'', ''STOCK_CHANGE'']"

definition toApproverScope :: "data_scope option \<Rightarrow> rat set \<Rightarrow> approver_scope" where
  "toApproverScope dataScope departmentIds =
     (if dataScope = None \<or> dataScope = Some COMPANY then CompanyScope
      else DepartmentScope departmentIds)"

definition isCompanyOnlyRequestType :: "string \<Rightarrow> bool" where
  "isCompanyOnlyRequestType t = (t \<in> set ASSET_COMPANY_ONLY_REQUEST_TYPES)"

text \<open>\<open>None\<close> for the objects is \<open>undefined\<close>.\<close>

definition resolveObjectDepartmentIds ::
    "rat option list option \<Rightarrow> rat option \<Rightarrow> rat option list" where
  "resolveObjectDepartmentIds objects applicantDepartmentId =
     (case objects of
        Some os \<Rightarrow> if length os > 0 then os else [applicantDepartmentId]
      | None \<Rightarrow> [applicantDepartmentId])"

fun allCovered :: "rat set \<Rightarrow> rat option list \<Rightarrow> bool" where
  "allCovered ids [] = True"
| "allCovered ids (d # ds) =
     (case d of None \<Rightarrow> False | Some i \<Rightarrow> if i \<notin> ids then False else allCovered ids ds)"

definition scopeCoversAll :: "approver_scope \<Rightarrow> rat option list \<Rightarrow> string option \<Rightarrow> bool" where
  "scopeCoversAll scope ds requestType =
     (if (case requestType of None \<Rightarrow> False | Some t \<Rightarrow> isCompanyOnlyRequestType t) \<and> scope \<noteq> CompanyScope
      then False
      else case scope of
          CompanyScope \<Rightarrow> True
        | DepartmentScope ids \<Rightarrow> if length ds = 0 then False else allCovered ids ds)"

definition assertScopeCoversAll :: "approver_scope \<Rightarrow> rat option list \<Rightarrow> string option \<Rightarrow> err + unit" where
  "assertScopeCoversAll scope ds requestType =
     (if \<not> scopeCoversAll scope ds requestType then Inl (Biz SCOPE_NOT_COVERED) else Inr ())"

fun extractDepartmentIdFromSnapshot :: "json \<Rightarrow> rat option" where
  "extractDepartmentIdFromSnapshot (JNum n) = Some n"
| "extractDepartmentIdFromSnapshot (JObj ps) =
     (let i = (if nullish (jget ''id'' ps) then jget ''departmentId'' ps else jget ''id'' ps)
      in case i of JNum n \<Rightarrow> Some n | _ \<Rightarrow> None)"
| "extractDepartmentIdFromSnapshot _ = None"

definition extractDepartmentIdsFromSnapshot :: "json \<Rightarrow> rat option list" where
  "extractDepartmentIdsFromSnapshot snapshot =
     (let xs = (case snapshot of JArr es \<Rightarrow> es | _ \<Rightarrow> [snapshot])
      in map extractDepartmentIdFromSnapshot xs)"

section \<open>Unique-index conflicts of a submission\<close>

definition isPrismaUniqueViolation :: "err \<Rightarrow> bool" where
  "isPrismaUniqueViolation e = (case e of UniqueViolation cols \<Rightarrow> True | _ \<Rightarrow> False)"

definition uniqueTargetColumns :: "err \<Rightarrow> string list" where
  "uniqueTargetColumns e = (case e of UniqueViolation cols \<Rightarrow> cols | _ \<Rightarrow> [])"

text \<open>\<open>mapPendingLimitError\<close> always throws; the model gives what it throws.\<close>

definition mapPendingLimitError :: "err \<Rightarrow> err" where
  "mapPendingLimitError e =
     (case e of
        Biz c \<Rightarrow> Biz c
      | _ \<Rightarrow> if isPrismaUniqueViolation e \<and> ''application_no'' \<notin> set (uniqueTargetColumns e)
             then Biz PENDING_LIMIT_REACHED else e)"

definition withPendingLimitMapping :: "(err + 'a) \<Rightarrow> err + 'a" where
  "withPendingLimitMapping run = (case run of Inl e \<Rightarrow> Inl (mapPendingLimitError e) | Inr x \<Rightarrow> Inr x)"

section \<open>Heads of requests\<close>

text \<open>
  The columns of \<open>approval_requests\<close> that the kernel and its timeout scan read or write; the
  asset schema extends the record. Times are milliseconds since the epoch.
\<close>

record approval_head =
  ah_id :: int
  ah_status :: approval_status
  ah_version :: int
  ah_requestType :: string
  ah_applicantId :: int
  ah_proxyId :: "int option"
  ah_departmentSnapshot :: json
  ah_submittedAt :: "int option"
  ah_cancelledAt :: "int option"
  ah_cancelSource :: "cancel_source option"
  ah_updatedAt :: int

record action_row =
  ac_requestId :: int
  ac_action :: approval_action
  ac_actorId :: int
  ac_actorName :: string
  ac_opinion :: "string option"
  ac_cancelSource :: "cancel_source option"
  ac_createdAt :: int

text \<open>The two approval tables of a module schema; a schema extends them with its business tables.\<close>

record 'h schema_db =
  sd_heads :: "'h approval_head_scheme list"
  sd_acts :: "action_row list"

text \<open>
  The conditional update every transition is written through:
  \<open>UPDATE ... WHERE id = i AND status = 'PENDING' AND version = v\<close>, with the number of rows hit.
\<close>

definition pending_at :: "int \<Rightarrow> int \<Rightarrow> 'a approval_head_scheme \<Rightarrow> bool" where
  "pending_at i v h \<longleftrightarrow> ah_id h = i \<and> ah_status h = PENDING \<and> ah_version h = v"

definition cas_head ::
    "int \<Rightarrow> int \<Rightarrow> ('a approval_head_scheme \<Rightarrow> 'a approval_head_scheme) \<Rightarrow>
      'a approval_head_scheme list \<Rightarrow> nat \<times> 'a approval_head_scheme list" where
  "cas_head i v f hs =
     (count_where (pending_at i v) hs,
      update_where (pending_at i v) (\<lambda>h. (f h)\<lparr>ah_version := ah_version h + 1\<rparr>) hs)"

section \<open>Facts about the machine\<close>

lemma assertTransitionAllowed_iff:
  "assertTransitionAllowed from to = Inr () \<longleftrightarrow>
    from = DRAFT \<and> to = PENDING \<or> from = PENDING \<and> isTerminalApprovalStatus to"
  by (auto simp: assertTransitionAllowed_def isTerminalApprovalStatus_def
      TERMINAL_APPROVAL_STATUSES_def Let_def)

lemma resolveProcessTransition_terminal:
  "resolveProcessTransition a src = Inr t \<Longrightarrow> isTerminalApprovalStatus (rt_status t)"
  by (cases a) (auto simp: isTerminalApprovalStatus_def TERMINAL_APPROVAL_STATUSES_def split: if_splits)

lemma resolveProcessTransition_error:
  "(\<exists>e. resolveProcessTransition a src = Inl e) \<longleftrightarrow>
    a = process_action.AUTO_CANCEL \<and> src \<notin> {Some OVERDUE, Some ACCOUNT_DEACTIVATED}"
  by (cases a) auto

lemma assertOpinionIfRequired_iff:
  "assertOpinionIfRequired req opinion = Inr () \<longleftrightarrow>
    (req \<longrightarrow> (\<exists>s. opinion = Some s \<and> (\<exists>c \<in> set s. \<not> js_space c)))"
  by (auto simp: assertOpinionIfRequired_def js_trim_empty_iff split: option.splits if_splits)

section \<open>Facts about scopes\<close>

lemma allCovered_iff: "allCovered ids ds \<longleftrightarrow> (\<forall>d \<in> set ds. \<exists>i \<in> ids. d = Some i)"
  by (induction ds) (auto split: option.splits)

lemma scopeCoversAll_department:
  "scopeCoversAll (DepartmentScope ids) ds t \<longleftrightarrow>
    ds \<noteq> [] \<and> set ds \<subseteq> Some ` ids \<and> \<not> (\<exists>t'. t = Some t' \<and> isCompanyOnlyRequestType t')"
  by (auto simp: scopeCoversAll_def allCovered_iff split: option.splits)

lemma scopeCoversAll_company [simp]: "scopeCoversAll CompanyScope ds t"
  by (simp add: scopeCoversAll_def)

lemma scopeCoversAll_mono:
  "ids \<subseteq> ids' \<Longrightarrow> scopeCoversAll (DepartmentScope ids) ds t \<Longrightarrow> scopeCoversAll (DepartmentScope ids') ds t"
  by (simp add: scopeCoversAll_department) (meson image_mono order_trans)

section \<open>Facts about the conditional update\<close>

lemma cas_head_once: "count_where (pending_at i v) (snd (cas_head i v f hs)) = 0"
proof (induction hs)
  case (Cons h hs)
  then show ?case by (simp add: cas_head_def count_where_def pending_at_def)
qed (simp add: cas_head_def count_where_def)

lemma count_pending_at:
  assumes "distinct (map ah_id hs)"
  shows "count_where (pending_at i v) hs = (if \<exists>h \<in> set hs. pending_at i v h then 1 else 0)"
  using assms
proof (induction hs)
  case (Cons h hs)
  show ?case
  proof (cases "pending_at i v h")
    case True
    then have "\<not> pending_at i v h'" if "h' \<in> set hs" for h'
      using that Cons.prems True by (auto simp: pending_at_def) (metis imageI)
    then have "filter (pending_at i v) hs = []" by (simp add: filter_empty_conv)
    with True show ?thesis by (simp add: count_where_def)
  next
    case False
    with Cons show ?thesis by (simp add: count_where_def)
  qed
qed (simp add: count_where_def)

lemma cas_head_miss:
  assumes "count_where (pending_at i v) hs = 0"
  shows "cas_head i v f hs = (0, hs)"
proof -
  have "update_where (pending_at i v) g hs = hs" for g
    using assms by (induction hs) (simp_all add: count_where_def split: if_splits)
  with assms show ?thesis by (simp add: cas_head_def)
qed

lemma cas_head_ids:
  assumes "\<And>h. ah_id (f h) = ah_id h"
  shows "map ah_id (snd (cas_head i v f hs)) = map ah_id hs"
  using assms by (simp add: cas_head_def map_update_where)

text \<open>
  A race: several handlers have read the head at version \<open>v\<close> and each runs its conditional
  update, in some order. The result lists the row counts they see.
\<close>

fun race ::
    "int \<Rightarrow> int \<Rightarrow> ('a approval_head_scheme \<Rightarrow> 'a approval_head_scheme) list \<Rightarrow>
      'a approval_head_scheme list \<Rightarrow> nat list \<times> 'a approval_head_scheme list" where
  "race i v [] hs = ([], hs)"
| "race i v (f # fs) hs =
     (let (n, hs1) = cas_head i v f hs; (ns, hs2) = race i v fs hs1 in (n # ns, hs2))"

lemma race_lost:
  assumes "count_where (pending_at i v) hs = 0"
  shows "race i v fs hs = (replicate (length fs) 0, hs)"
  using assms by (induction fs) (simp_all add: cas_head_miss)

lemma race_first:
  "race i v (f # fs) hs =
    (count_where (pending_at i v) hs # replicate (length fs) 0, snd (cas_head i v f hs))"
  using race_lost [OF cas_head_once, of i v fs f hs]
  by (simp add: case_prod_beta Let_def) (simp add: cas_head_def)

end
