(* ===== verification/ApprovalTimeout.thy ===== *)
theory ApprovalTimeout
  imports ApprovalKernel
begin

text \<open>
  The timeout scan of \<open>packages/approval/src/timeout.ts\<close>. A schema is its two approval tables
  extended by its business tables; a statement that fails inside a hook leaves its partial
  effects behind unless the client wraps the row in a transaction, so a hook returns its
  outcome together with the state it leaves.
\<close>

datatype approval_schema = Backstage | Hr | Asset

definition APPROVAL_SCHEMAS :: "approval_schema list" where
  "APPROVAL_SCHEMAS = [Backstage, Hr, Asset]"

definition APPROVAL_TIMEOUT_BATCH_SIZE :: nat where
  "APPROVAL_TIMEOUT_BATCH_SIZE = 200"

definition DAY_MS :: int where
  "DAY_MS = 24 * 60 * 60 * 1000"

text \<open>A number that may fail to be finite is a \<open>rat option\<close>.\<close>

definition overdueCutoff :: "int \<Rightarrow> rat option \<Rightarrow> int" where
  "overdueCutoff now timeoutDays =
     (let days = (case timeoutDays of Some d \<Rightarrow> if d \<ge> 1 then \<lfloor>d\<rfloor> else 30 | None \<Rightarrow> 30)
      in now - days * DAY_MS)"

record overdue_row =
  or_id :: int
  or_version :: int
  or_requestType :: string

definition is_overdue :: "int \<Rightarrow> 'h approval_head_scheme \<Rightarrow> bool" where
  "is_overdue cutoff h \<longleftrightarrow> ah_status h = PENDING
     \<and> (case ah_submittedAt h of None \<Rightarrow> False | Some t \<Rightarrow> t < cutoff)"

definition submitted_key :: "'h approval_head_scheme \<Rightarrow> int" where
  "submitted_key h = (case ah_submittedAt h of None \<Rightarrow> 0 | Some t \<Rightarrow> t)"

definition row_of :: "'h approval_head_scheme \<Rightarrow> overdue_row" where
  "row_of h = \<lparr>or_id = ah_id h, or_version = ah_version h, or_requestType = ah_requestType h\<rparr>"

definition listOverduePending :: "int \<Rightarrow> nat \<Rightarrow> ('h, 'b) schema_db_scheme \<Rightarrow> overdue_row list" where
  "listOverduePending cutoff limit db =
     map row_of (take limit (sort_key submitted_key (filter (is_overdue cutoff) (sd_heads db))))"

definition cancelled_overdue :: "int \<Rightarrow> 'h approval_head_scheme \<Rightarrow> 'h approval_head_scheme" where
  "cancelled_overdue now h =
     h\<lparr>ah_status := CANCELLED, ah_cancelledAt := Some now, ah_cancelSource := Some OVERDUE,
       ah_updatedAt := now\<rparr>"

definition auto_cancel_action :: "int \<Rightarrow> overdue_row \<Rightarrow> action_row" where
  "auto_cancel_action now r =
     \<lparr>ac_requestId = or_id r, ac_action = approval_action.AUTO_CANCEL, ac_actorId = 0,
      ac_actorName = ''system'', ac_opinion = None, ac_cancelSource = Some OVERDUE, ac_createdAt = now\<rparr>"

type_synonym ('h, 'b) cancel_hook =
  "overdue_row \<Rightarrow> int \<Rightarrow> ('h, 'b) schema_db_scheme \<Rightarrow> (err + unit) \<times> ('h, 'b) schema_db_scheme"

definition no_hook :: "('h, 'b) cancel_hook" where
  "no_hook r now db = (Inr (), db)"

definition cancel_row ::
    "('h, 'b) cancel_hook \<Rightarrow> int \<Rightarrow> overdue_row \<Rightarrow> ('h, 'b) schema_db_scheme
      \<Rightarrow> (err + bool) \<times> ('h, 'b) schema_db_scheme" where
  "cancel_row hook now r db =
     (let (n, hs) = cas_head (or_id r) (or_version r) (cancelled_overdue now) (sd_heads db)
      in if n = 0 then (Inr False, db)
         else
           (case hook r now (db\<lparr>sd_heads := hs, sd_acts := sd_acts db @ [auto_cancel_action now r]\<rparr>) of
              (Inl e, db') \<Rightarrow> (Inl e, db')
            | (Inr u, db') \<Rightarrow> (Inr True, db')))"

text \<open>\<open>has_tx\<close>: the client implements \<open>transaction\<close>, which rolls back when the body throws.\<close>

definition autoCancelOverdueRow ::
    "bool \<Rightarrow> ('h, 'b) cancel_hook \<Rightarrow> int \<Rightarrow> overdue_row \<Rightarrow> ('h, 'b) schema_db_scheme
      \<Rightarrow> (err + bool) \<times> ('h, 'b) schema_db_scheme" where
  "autoCancelOverdueRow has_tx hook now r db =
     (case cancel_row hook now r db of
        (Inl e, db') \<Rightarrow> (Inl e, if has_tx then db else db')
      | (Inr ok, db') \<Rightarrow> (Inr ok, db'))"

fun scan_rows ::
    "bool \<Rightarrow> ('h, 'b) cancel_hook \<Rightarrow> int \<Rightarrow> overdue_row list \<Rightarrow> nat \<Rightarrow> ('h, 'b) schema_db_scheme
      \<Rightarrow> (err + nat) \<times> ('h, 'b) schema_db_scheme" where
  "scan_rows has_tx hook now [] cancelled db = (Inr cancelled, db)"
| "scan_rows has_tx hook now (r # rs) cancelled db =
     (case autoCancelOverdueRow has_tx hook now r db of
        (Inl e, db') \<Rightarrow> (Inl e, db')
      | (Inr ok, db') \<Rightarrow> scan_rows has_tx hook now rs (if ok then cancelled + 1 else cancelled) db')"

fun scan_schemas ::
    "bool \<Rightarrow> (approval_schema \<Rightarrow> ('h, 'b) cancel_hook) \<Rightarrow> int \<Rightarrow> int \<Rightarrow> approval_schema list
      \<Rightarrow> (approval_schema \<Rightarrow> nat) \<Rightarrow> (approval_schema \<Rightarrow> ('h, 'b) schema_db_scheme)
      \<Rightarrow> (err + (approval_schema \<Rightarrow> nat)) \<times> (approval_schema \<Rightarrow> ('h, 'b) schema_db_scheme)" where
  "scan_schemas has_tx hooks now cutoff [] result st = (Inr result, st)"
| "scan_schemas has_tx hooks now cutoff (s # ss) result st =
     (case scan_rows has_tx (hooks s) now
             (listOverduePending cutoff APPROVAL_TIMEOUT_BATCH_SIZE (st s)) 0 (st s) of
        (Inl e, db') \<Rightarrow> (Inl e, st(s := db'))
      | (Inr cancelled, db') \<Rightarrow>
          scan_schemas has_tx hooks now cutoff ss (result(s := cancelled)) (st(s := db')))"

definition scanAndAutoCancelOverdue ::
    "bool \<Rightarrow> (approval_schema \<Rightarrow> ('h, 'b) cancel_hook) \<Rightarrow> rat option \<Rightarrow> int
      \<Rightarrow> (approval_schema \<Rightarrow> ('h, 'b) schema_db_scheme)
      \<Rightarrow> (err + (approval_schema \<Rightarrow> nat)) \<times> (approval_schema \<Rightarrow> ('h, 'b) schema_db_scheme)" where
  "scanAndAutoCancelOverdue has_tx hooks timeoutDays now st =
     scan_schemas has_tx hooks now (overdueCutoff now timeoutDays) APPROVAL_SCHEMAS (\<lambda>s. 0) st"

section \<open>Facts\<close>

lemma overdueCutoff_bounds: "overdueCutoff now d \<le> now - DAY_MS"
proof -
  have "d' \<ge> 1 \<Longrightarrow> 1 \<le> \<lfloor>d'\<rfloor>" for d' :: rat by linarith
  then have "(1::int) \<le> (case d of Some d \<Rightarrow> if d \<ge> 1 then \<lfloor>d\<rfloor> else 30 | None \<Rightarrow> 30)"
    by (simp split: option.splits)
  then show ?thesis by (simp add: overdueCutoff_def Let_def DAY_MS_def)
qed

lemma listOverduePending_mem:
  assumes "r \<in> set (listOverduePending cutoff n db)"
  obtains h where "h \<in> set (sd_heads db)" "is_overdue cutoff h" "r = row_of h"
  using assms by (auto simp: listOverduePending_def dest!: in_set_takeD)

lemma listOverduePending_distinct:
  assumes "distinct (map ah_id (sd_heads db))"
  shows "distinct (map or_id (listOverduePending cutoff n db))"
proof -
  let ?s = "sort_key submitted_key (filter (is_overdue cutoff) (sd_heads db))"
  have "mset (map ah_id ?s) = mset (map ah_id (filter (is_overdue cutoff) (sd_heads db)))"
    by simp
  moreover have "distinct (map ah_id (filter (is_overdue cutoff) (sd_heads db)))"
    using assms by (rule distinct_map_filter)
  ultimately have "distinct (map ah_id ?s)" using mset_eq_imp_distinct_iff by blast
  moreover have "map or_id (listOverduePending cutoff n db) = take n (map ah_id ?s)"
    by (simp add: listOverduePending_def take_map row_of_def comp_def)
  ultimately show ?thesis by (simp add: distinct_take)
qed

text \<open>What cancelling the rows with ids in \<open>K\<close> does to the heads.\<close>

definition cancel_ids :: "int \<Rightarrow> int set \<Rightarrow> 'h approval_head_scheme list \<Rightarrow> 'h approval_head_scheme list" where
  "cancel_ids now K hs =
     map (\<lambda>h. if ah_id h \<in> K then (cancelled_overdue now h)\<lparr>ah_version := ah_version h + 1\<rparr> else h) hs"

lemma cancel_ids_empty [simp]: "cancel_ids now {} hs = hs"
  by (simp add: cancel_ids_def)

lemma cancel_ids_keys [simp]: "map ah_id (cancel_ids now K hs) = map ah_id hs"
  by (simp add: cancel_ids_def cancelled_overdue_def comp_def if_distrib)

lemma cancel_ids_other:
  "h \<in> set hs \<Longrightarrow> ah_id h \<notin> K \<Longrightarrow> h \<in> set (cancel_ids now K hs)"
  by (auto simp: cancel_ids_def)

lemma cas_head_cancel:
  assumes "distinct (map ah_id hs)" and "h \<in> set hs" and "pending_at i v h"
  shows "cas_head i v (cancelled_overdue now) hs = (1, cancel_ids now {i} hs)"
proof -
  have "h' \<in> set hs \<Longrightarrow> pending_at i v h' \<longleftrightarrow> ah_id h' = i" for h'
    using assms by (metis pending_at_def distinct_map inj_onD)
  then have "update_where (pending_at i v)
      (\<lambda>h. (cancelled_overdue now h)\<lparr>ah_version := ah_version h + 1\<rparr>) hs = cancel_ids now {i} hs"
    by (simp add: update_where_def cancel_ids_def)
  moreover have "count_where (pending_at i v) hs = 1"
    using assms by (auto simp: count_pending_at)
  ultimately show ?thesis by (simp add: cas_head_def)
qed

text \<open>
  The interface of a hook: it releases what the business holds for the request and leaves the
  approval tables alone.
\<close>

locale release_hook =
  fixes hook :: "('h, 'b) cancel_hook"
  assumes hook_frame:
    "hook r now db = (res, db') \<Longrightarrow> sd_heads db' = sd_heads db \<and> sd_acts db' = sd_acts db"
begin

lemma cancel_row_hit:
  assumes "distinct (map ah_id (sd_heads db))" and "h \<in> set (sd_heads db)"
    and "pending_at (or_id r) (or_version r) h" and "cancel_row hook now r db = (res, db')"
  shows "sd_heads db' = cancel_ids now {or_id r} (sd_heads db)"
    and "sd_acts db' = sd_acts db @ [auto_cancel_action now r]"
    and "\<And>ok. res = Inr ok \<Longrightarrow> ok"
proof -
  let ?db1 = "db\<lparr>sd_heads := cancel_ids now {or_id r} (sd_heads db),
    sd_acts := sd_acts db @ [auto_cancel_action now r]\<rparr>"
  obtain hr db2 where hk: "hook r now ?db1 = (hr, db2)" by (cases "hook r now ?db1")
  have db': "db' = db2" and res: "res = (case hr of Inl e \<Rightarrow> Inl e | Inr u \<Rightarrow> Inr True)"
    using assms(4) by (simp_all add: cancel_row_def cas_head_cancel [OF assms(1-3)] hk split: sum.splits)
  from hook_frame [OF hk] db'
  show "sd_heads db' = cancel_ids now {or_id r} (sd_heads db)"
    and "sd_acts db' = sd_acts db @ [auto_cancel_action now r]" by simp_all
  show "\<And>ok. res = Inr ok \<Longrightarrow> ok" using res by (simp split: sum.splits)
qed

lemma auto_cancel_hit:
  assumes "distinct (map ah_id (sd_heads db))" and "h \<in> set (sd_heads db)"
    and "pending_at (or_id r) (or_version r) h"
    and "autoCancelOverdueRow True hook now r db = (res, db')"
  shows "(\<exists>e. res = Inl e \<and> db' = db)
    \<or> (res = Inr True \<and> sd_heads db' = cancel_ids now {or_id r} (sd_heads db)
        \<and> sd_acts db' = sd_acts db @ [auto_cancel_action now r])"
proof (cases "cancel_row hook now r db")
  case (Pair r1 db1)
  note hit = cancel_row_hit [OF assms(1-3) Pair]
  show ?thesis using assms(4) Pair hit
    by (auto simp: autoCancelOverdueRow_def split: sum.splits)
qed

text \<open>
  The loop over the rows of a schema: whatever happens in the hooks, exactly a prefix of the
  rows is cancelled, all of them when the loop returns.
\<close>

lemma scan_rows_prefix:
  assumes "distinct (map ah_id (sd_heads db))" and "distinct (map or_id rs)"
    and "\<And>r. r \<in> set rs \<Longrightarrow> \<exists>h \<in> set (sd_heads db). pending_at (or_id r) (or_version r) h"
    and "scan_rows True hook now rs c db = (res, db')"
  shows "\<exists>k \<le> length rs.
      sd_heads db' = cancel_ids now (or_id ` set (take k rs)) (sd_heads db)
    \<and> sd_acts db' = sd_acts db @ map (auto_cancel_action now) (take k rs)
    \<and> (\<forall>n. res = Inr n \<longrightarrow> k = length rs \<and> n = c + k)"
  using assms
proof (induction rs arbitrary: c db)
  case Nil
  then show ?case by auto
next
  case (Cons r rs)
  obtain h where h: "h \<in> set (sd_heads db)" "pending_at (or_id r) (or_version r) h"
    using Cons.prems(3) [of r] by auto
  obtain r1 db1 where step: "autoCancelOverdueRow True hook now r db = (r1, db1)"
    by (cases "autoCancelOverdueRow True hook now r db")
  from auto_cancel_hit [OF Cons.prems(1) h step] show ?case
  proof (elim disjE exE conjE)
    fix e
    assume "r1 = Inl e" and "db1 = db"
    with Cons.prems(4) step have "res = Inl e" and "db' = db" by simp_all
    then show ?thesis by (intro exI [of _ 0]) simp
  next
    assume r1: "r1 = Inr True" and hs: "sd_heads db1 = cancel_ids now {or_id r} (sd_heads db)"
      and acs: "sd_acts db1 = sd_acts db @ [auto_cancel_action now r]"
    have "\<exists>h \<in> set (sd_heads db1). pending_at (or_id x) (or_version x) h" if "x \<in> set rs" for x
    proof -
      from Cons.prems(3) [of x] that obtain g
        where g: "g \<in> set (sd_heads db)" "pending_at (or_id x) (or_version x) g" by auto
      have "or_id x \<noteq> or_id r" using that Cons.prems(2) by (auto simp: image_iff)
      then have "g \<in> set (sd_heads db1)"
        using g by (simp add: hs cancel_ids_other pending_at_def)
      with g(2) show ?thesis by blast
    qed
    moreover have "scan_rows True hook now rs (c + 1) db1 = (res, db')"
      using Cons.prems(4) step r1 by simp
    ultimately obtain k where k: "k \<le> length rs"
        "sd_heads db' = cancel_ids now (or_id ` set (take k rs)) (sd_heads db1)"
        "sd_acts db' = sd_acts db1 @ map (auto_cancel_action now) (take k rs)"
        "\<forall>n. res = Inr n \<longrightarrow> k = length rs \<and> n = c + 1 + k"
      using Cons.IH [of db1 "c + 1"] Cons.prems(1,2) by (auto simp: hs)
    have "or_id r \<notin> or_id ` set (take k rs)"
      using Cons.prems(2) by (auto dest: in_set_takeD)
    then have "sd_heads db' = cancel_ids now (or_id ` set (take (Suc k) (r # rs))) (sd_heads db)"
      by (auto simp: k(2) hs cancel_ids_def cancelled_overdue_def)
    with k acs show ?thesis by (intro exI [of _ "Suc k"]) auto
  qed
qed

end

lemma no_hook_frame: "release_hook (no_hook :: ('h, 'b) cancel_hook)"
  by (unfold_locales) (simp_all add: no_hook_def)

interpretation nohk: release_hook no_hook
  by (rule no_hook_frame)

end
