(* ===== verification/AssetDb.thy ===== *)
theory AssetDb
  imports ApprovalTimeout
begin

text \<open>
  The tables of the asset schema (\<open>apps/asset\<close>): its approval tables extended by the tables of
  stock, borrowing, quotas and logs. A transaction is a function from the database to an error,
  which rolls back, or to its result and the new database; transactions run one after the other
  (they lock the rows they touch). A primary key is drawn from the sequence of its table.

  The statements the services issue on these tables come first: an insertion fails on a unique
  index, a change of a row on its \<open>CHECK\<close> or on the range of an \<open>integer\<close> column, an \<open>update\<close> of
  the client on a missing row.
\<close>

section \<open>Rows\<close>

datatype flow_type = STOCK_IN | ISSUE | DEDUCTION | RETURN | TRANSFER_OUT | TRANSFER_IN | CORRECTION
datatype flow_direction = IN | OUT
datatype record_type = PERSONAL | AGENT
datatype consumable_type = DISPOSABLE | REUSABLE
datatype quota_cycle = MONTH | QUARTER | YEAR
datatype quota_type = DISPOSABLE_CYCLE | REUSABLE_HOLDING
datatype quota_status = RESERVED | CONSUMED | RELEASED
datatype write_off_type = LOST | DAMAGED
datatype settle_method = RETURN | WRITE_OFF
datatype dict_status = ACTIVE | DISABLED
datatype log_action = CREATE | UPDATE | DELETE | EXPORT | QUERY

record approval_request = approval_head +
  ar_applicationNo :: string
  ar_applicantName :: string
  ar_proxyName :: "string option"
  ar_refRequestId :: "int option"
  ar_remark :: "string option"
  ar_cancelledBy :: "int option"
  ar_processorId :: "int option"
  ar_processorName :: "string option"
  ar_processedAt :: "int option"
  ar_opinion :: "string option"
  ar_createdBy :: "int option"

record consumable_row =
  co_id :: int
  co_name :: string
  co_type :: consumable_type
  co_quotaCycle :: "quota_cycle option"
  co_quotaLimit :: "int option"
  co_returnDays :: "int option"
  co_maxHolding :: "int option"
  co_status :: dict_status

record warehouse_row =
  wh_id :: int
  wh_parentId :: "int option"
  wh_name :: string
  wh_status :: dict_status

record dict_row =
  di_id :: int
  di_type :: string
  di_name :: string
  di_status :: dict_status

record item_row =
  it_id :: int
  it_consumableId :: int
  it_spec :: string
  it_warehouseId :: "int option"
  it_warehouseName :: string
  it_warehousePath :: string
  it_bookQty :: int
  it_reservedQty :: int

record batch_row =
  ba_id :: int
  ba_itemId :: int
  ba_sourceBatchId :: "int option"
  ba_consumableId :: int
  ba_consumableName :: string
  ba_spec :: string
  ba_warehouseName :: string
  ba_warehousePath :: string
  ba_supplierId :: "int option"
  ba_supplierName :: "string option"
  ba_brandId :: "int option"
  ba_brandName :: "string option"
  ba_unitPrice :: "rat option"
  ba_remark :: "string option"
  ba_receivedAt :: int
  ba_remainingQty :: int
  ba_updatedBy :: "int option"

record flow_row =
  fl_id :: int
  fl_type :: flow_type
  fl_direction :: flow_direction
  fl_itemId :: int
  fl_batchId :: "int option"
  fl_consumableName :: string
  fl_spec :: string
  fl_warehouseName :: string
  fl_warehousePath :: string
  fl_qty :: int
  fl_bookBefore :: int
  fl_bookAfter :: int
  fl_refType :: string
  fl_refId :: int
  fl_operatorId :: int
  fl_operatorName :: string

record borrow_row =
  br_id :: int
  br_type :: record_type
  br_userId :: "int option"
  br_userName :: "string option"
  br_departmentSnapshot :: json
  br_agentRequestId :: "int option"
  br_requestId :: int
  br_itemId :: int
  br_consumableName :: string
  br_spec :: string
  br_warehouseName :: string
  br_warehousePath :: string
  br_qty :: int
  br_borrowedAt :: int
  br_dueAt :: int
  br_returnedQty :: int
  br_writtenOffQty :: int

record alloc_row =
  al_id :: int
  al_recordId :: int
  al_batchId :: int
  al_issuedQty :: int
  al_returnedQty :: int

text \<open>Lines of requests.\<close>

record request_item =
  ri_id :: int
  ri_requestId :: int
  ri_itemId :: int
  ri_consumableName :: string
  ri_spec :: string
  ri_warehouseName :: string
  ri_warehousePath :: string
  ri_qty :: int
  ri_purpose :: "string option"

record stock_in_item =
  sn_id :: int
  sn_requestId :: int
  sn_consumableId :: int
  sn_consumableName :: string
  sn_supplierId :: "int option"
  sn_supplierName :: "string option"
  sn_brandId :: "int option"
  sn_brandName :: "string option"
  sn_spec :: string
  sn_warehouseId :: int
  sn_warehouseName :: string
  sn_warehousePath :: string
  sn_qty :: int
  sn_unitPrice :: "rat option"
  sn_receivedAt :: int

record change_item =
  ch_id :: int
  ch_requestId :: int
  ch_itemId :: int
  ch_consumableName :: string
  ch_spec :: string
  ch_warehouseName :: string
  ch_warehousePath :: string
  ch_changeTypeId :: "int option"
  ch_changeTypeName :: "string option"
  ch_reason :: string
  ch_qty :: int
  ch_changedAt :: int

record action_item =
  ai_id :: int
  ai_requestId :: int
  ai_recordId :: int
  ai_qty :: int
  ai_writeOffType :: "write_off_type option"
  ai_reason :: "string option"

record settlement_item =
  si_id :: int
  si_requestId :: int
  si_recordId :: int
  si_qty :: int
  si_method :: settle_method
  si_writeOffType :: "write_off_type option"
  si_reason :: "string option"

record recipient_row =
  rc_id :: int
  rc_requestId :: int
  rc_userId :: int
  rc_userName :: string
  rc_departmentSnapshot :: json

record quota_row =
  qo_id :: int
  qo_userId :: int
  qo_consumableId :: int
  qo_consumableName :: string
  qo_type :: quota_type
  qo_cycle :: "quota_cycle option"
  qo_cycleKey :: "string option"
  qo_requestId :: int
  qo_qty :: int
  qo_status :: quota_status

record transfer_row =
  tr_id :: int
  tr_fromItemId :: int
  tr_toItemId :: int
  tr_fromWarehouseName :: string
  tr_fromWarehousePath :: string
  tr_toWarehouseName :: string
  tr_toWarehousePath :: string
  tr_qty :: int
  tr_remark :: "string option"
  tr_operatorId :: int
  tr_operatorName :: string

record transfer_item =
  ti_id :: int
  ti_transferId :: int
  ti_sourceBatchId :: int
  ti_targetBatchId :: int
  ti_qty :: int

text \<open>A disposal names its kind: goods brought back, written off, or an agent's list settled.\<close>

datatype disposal_type = DISPOSE_RETURN | DISPOSE_WRITE_OFF | AGENT_SETTLE

record disposal_row =
  dp_id :: int
  dp_type :: disposal_type
  dp_recordId :: "int option"
  dp_agentRequestId :: "int option"
  dp_userId :: "int option"
  dp_userName :: "string option"
  dp_departmentSnapshot :: json
  dp_itemId :: int
  dp_consumableName :: string
  dp_spec :: string
  dp_warehouseName :: string
  dp_warehousePath :: string
  dp_qty :: int
  dp_writeOffType :: "write_off_type option"
  dp_reason :: "string option"
  dp_processorId :: int
  dp_processorName :: string
  dp_flowRefs :: "int list option"

text \<open>The fields of a batch a correction keeps, before and after.\<close>

record correction_view =
  cv_supplierId :: "int option"
  cv_supplierName :: "string option"
  cv_brandId :: "int option"
  cv_brandName :: "string option"
  cv_unitPrice :: "rat option"
  cv_remark :: "string option"
  cv_spec :: string
  cv_warehouseId :: "int option"
  cv_warehouseName :: string

record correction_row =
  cr_id :: int
  cr_batchId :: int
  cr_before :: correction_view
  cr_after :: correction_view
  cr_reason :: string
  cr_operatorId :: int
  cr_operatorName :: string

record log_row =
  lo_operatorId :: "int option"
  lo_operatorName :: "string option"
  lo_system :: string
  lo_feature :: string
  lo_action :: log_action
  lo_summary :: string
  lo_scope :: "string option"
  lo_key :: "string option"
  lo_fingerprint :: "string option"
  lo_result :: json

datatype table_name =
    TRequests | TItems | TBatches | TFlows | TBorrows | TAllocs | TRequestItems | TStockInItems
  | TChangeItems | TActionItems | TSettlementItems | TRecipients | TQuotas | TTransfers | TTransferItems
  | TDisposals | TCorrections

record asset_db = "(unit approval_request_ext) schema_db" +
  db_items :: "item_row list"
  db_batches :: "batch_row list"
  db_flows :: "flow_row list"
  db_borrows :: "borrow_row list"
  db_allocs :: "alloc_row list"
  db_requestItems :: "request_item list"
  db_stockInItems :: "stock_in_item list"
  db_changeItems :: "change_item list"
  db_actionItems :: "action_item list"
  db_settlementItems :: "settlement_item list"
  db_recipients :: "recipient_row list"
  db_quotas :: "quota_row list"
  db_transfers :: "transfer_row list"
  db_transferItems :: "transfer_item list"
  db_disposals :: "disposal_row list"
  db_corrections :: "correction_row list"
  db_consumables :: "consumable_row list"
  db_warehouses :: "warehouse_row list"
  db_dict :: "dict_row list"
  db_logs :: "log_row list"
  db_seq :: "table_name \<Rightarrow> int"

type_synonym operator = "int \<times> string"

section \<open>Statements\<close>

definition nextval :: "table_name \<Rightarrow> asset_db \<Rightarrow> int \<times> asset_db" where
  "nextval t db = (db_seq db t, db\<lparr>db_seq := (db_seq db)(t := db_seq db t + 1)\<rparr>)"

definition int4 :: "int \<Rightarrow> bool" where
  "int4 n \<longleftrightarrow> - 2147483648 \<le> n \<and> n \<le> 2147483647"

definition sql_update :: "('r \<Rightarrow> bool) \<Rightarrow> ('r \<Rightarrow> bool) \<Rightarrow> ('r \<Rightarrow> 'r) \<Rightarrow> 'r list \<Rightarrow> err + 'r list" where
  "sql_update ok P f rs =
     (if \<exists>r \<in> set rs. P r \<and> \<not> ok (f r) then Inl CheckViolation else Inr (update_where P f rs))"

definition update_row ::
    "('r \<Rightarrow> int) \<Rightarrow> ('r \<Rightarrow> bool) \<Rightarrow> int \<Rightarrow> ('r \<Rightarrow> 'r) \<Rightarrow> 'r list \<Rightarrow> err + 'r list" where
  "update_row key ok k f rs =
     (if \<exists>r \<in> set rs. key r = k then sql_update ok (\<lambda>r. key r = k) f rs else Inl RecordNotFound)"

definition insert_row :: "('r \<Rightarrow> bool) \<Rightarrow> ('r \<Rightarrow> 'r \<Rightarrow> bool) \<Rightarrow> string list \<Rightarrow> 'r \<Rightarrow> 'r list \<Rightarrow> err + 'r list" where
  "insert_row ok clash cols r rs =
     (if \<not> ok r then Inl CheckViolation
      else if \<exists>r' \<in> set rs. clash r r' then Inl (UniqueViolation cols)
      else Inr (rs @ [r]))"

lemma update_row_Inr_iff:
  "update_row key ok k f rs = Inr rs' \<longleftrightarrow>
    (\<exists>r \<in> set rs. key r = k) \<and> (\<forall>r \<in> set rs. key r = k \<longrightarrow> ok (f r)) \<and> rs' = update_where (\<lambda>r. key r = k) f rs"
  by (auto simp: update_row_def sql_update_def)

lemma insert_row_Inr_iff:
  "insert_row ok clash cols r rs = Inr rs' \<longleftrightarrow>
    ok r \<and> (\<forall>r' \<in> set rs. \<not> clash r r') \<and> rs' = rs @ [r]"
  by (auto simp: insert_row_def)

subsection \<open>Items\<close>

definition item_ok :: "item_row \<Rightarrow> bool" where
  "item_ok i \<longleftrightarrow> 0 \<le> it_bookQty i \<and> 0 \<le> it_reservedQty i \<and> it_reservedQty i \<le> it_bookQty i
     \<and> int4 (it_bookQty i) \<and> int4 (it_reservedQty i)"

definition item_add :: "int \<Rightarrow> int \<Rightarrow> item_row \<Rightarrow> item_row" where
  "item_add b r i = i\<lparr>it_bookQty := it_bookQty i + b, it_reservedQty := it_reservedQty i + r\<rparr>"

text \<open>\<open>inventoryItem.update\<close> with increments of both quantities.\<close>

definition addItem :: "int \<Rightarrow> int \<Rightarrow> int \<Rightarrow> asset_db \<Rightarrow> err + asset_db" where
  "addItem k b r db =
     bindR (update_row it_id item_ok k (item_add b r) (db_items db)) (\<lambda>is. Inr (db\<lparr>db_items := is\<rparr>))"

text \<open>\<open>inventoryItem.updateMany\<close> that lowers a reservation, guarded by \<open>reservedQty >= q\<close>.\<close>

definition releaseReserved :: "int \<Rightarrow> int \<Rightarrow> asset_db \<Rightarrow> err + asset_db" where
  "releaseReserved k q db =
     bindR (sql_update item_ok (\<lambda>i. it_id i = k \<and> q \<le> it_reservedQty i) (item_add 0 (- q)) (db_items db))
       (\<lambda>is. Inr (db\<lparr>db_items := is\<rparr>))"

text \<open>The unique key of an item is its consumable, its specification and \<open>COALESCE(warehouse_id, 0)\<close>.\<close>

definition item_clash :: "item_row \<Rightarrow> item_row \<Rightarrow> bool" where
  "item_clash i i' \<longleftrightarrow> it_consumableId i = it_consumableId i' \<and> it_spec i = it_spec i'
     \<and> (case it_warehouseId i of None \<Rightarrow> 0 | Some w \<Rightarrow> w) = (case it_warehouseId i' of None \<Rightarrow> 0 | Some w \<Rightarrow> w)"

text \<open>The foreign key to the consumable is checked after the row is in.\<close>

definition insertItem :: "item_row \<Rightarrow> asset_db \<Rightarrow> err + (int \<times> asset_db)" where
  "insertItem i db =
     (let (k, db1) = nextval TItems db
      in bindR (insert_row item_ok item_clash [''consumable_id'', ''spec''] (i\<lparr>it_id := k\<rparr>) (db_items db1))
           (\<lambda>is. if \<exists>c \<in> set (db_consumables db). co_id c = it_consumableId i
                 then Inr (k, db1\<lparr>db_items := is\<rparr>) else Inl ForeignKeyViolation))"

subsection \<open>Batches\<close>

definition batch_ok :: "batch_row \<Rightarrow> bool" where
  "batch_ok b \<longleftrightarrow> 0 \<le> ba_remainingQty b \<and> int4 (ba_remainingQty b)"

definition batch_add :: "int \<Rightarrow> batch_row \<Rightarrow> batch_row" where
  "batch_add d b = b\<lparr>ba_remainingQty := ba_remainingQty b + d\<rparr>"

definition addBatch :: "int \<Rightarrow> int \<Rightarrow> asset_db \<Rightarrow> err + asset_db" where
  "addBatch k d db =
     bindR (update_row ba_id batch_ok k (batch_add d) (db_batches db)) (\<lambda>bs. Inr (db\<lparr>db_batches := bs\<rparr>))"

definition insertBatch :: "batch_row \<Rightarrow> asset_db \<Rightarrow> err + (int \<times> asset_db)" where
  "insertBatch b db =
     (let (k, db1) = nextval TBatches db
      in bindR (insert_row batch_ok (\<lambda>b b'. False) [] (b\<lparr>ba_id := k\<rparr>) (db_batches db1))
           (\<lambda>bs. Inr (k, db1\<lparr>db_batches := bs\<rparr>)))"

subsection \<open>Flows\<close>

definition flow_ok :: "flow_row \<Rightarrow> bool" where
  "flow_ok f \<longleftrightarrow> 0 < fl_qty f \<and> 0 \<le> fl_bookBefore f \<and> 0 \<le> fl_bookAfter f
     \<and> int4 (fl_qty f) \<and> int4 (fl_bookBefore f) \<and> int4 (fl_bookAfter f)"

definition insertFlow :: "flow_row \<Rightarrow> asset_db \<Rightarrow> err + (int \<times> asset_db)" where
  "insertFlow f db =
     (let (k, db1) = nextval TFlows db
      in bindR (insert_row flow_ok (\<lambda>f f'. False) [] (f\<lparr>fl_id := k\<rparr>) (db_flows db1))
           (\<lambda>fs. Inr (k, db1\<lparr>db_flows := fs\<rparr>)))"

subsection \<open>Borrow records and their batches\<close>

definition borrow_ok :: "borrow_row \<Rightarrow> bool" where
  "borrow_ok b \<longleftrightarrow> 0 < br_qty b \<and> br_returnedQty b + br_writtenOffQty b \<le> br_qty b
     \<and> int4 (br_qty b) \<and> int4 (br_returnedQty b) \<and> int4 (br_writtenOffQty b)"

definition borrow_add :: "int \<Rightarrow> int \<Rightarrow> borrow_row \<Rightarrow> borrow_row" where
  "borrow_add r w b =
     b\<lparr>br_returnedQty := br_returnedQty b + r, br_writtenOffQty := br_writtenOffQty b + w\<rparr>"

definition addBorrow :: "int \<Rightarrow> int \<Rightarrow> int \<Rightarrow> asset_db \<Rightarrow> err + asset_db" where
  "addBorrow k r w db =
     bindR (update_row br_id borrow_ok k (borrow_add r w) (db_borrows db)) (\<lambda>bs. Inr (db\<lparr>db_borrows := bs\<rparr>))"

definition insertBorrow :: "borrow_row \<Rightarrow> asset_db \<Rightarrow> err + (int \<times> asset_db)" where
  "insertBorrow b db =
     (let (k, db1) = nextval TBorrows db
      in bindR (insert_row borrow_ok (\<lambda>b b'. False) [] (b\<lparr>br_id := k\<rparr>) (db_borrows db1))
           (\<lambda>bs. Inr (k, db1\<lparr>db_borrows := bs\<rparr>)))"

definition alloc_ok :: "alloc_row \<Rightarrow> bool" where
  "alloc_ok a \<longleftrightarrow> 0 < al_issuedQty a \<and> 0 \<le> al_returnedQty a \<and> al_returnedQty a \<le> al_issuedQty a
     \<and> int4 (al_issuedQty a) \<and> int4 (al_returnedQty a)"

definition alloc_add :: "int \<Rightarrow> alloc_row \<Rightarrow> alloc_row" where
  "alloc_add d a = a\<lparr>al_returnedQty := al_returnedQty a + d\<rparr>"

definition addAlloc :: "int \<Rightarrow> int \<Rightarrow> asset_db \<Rightarrow> err + asset_db" where
  "addAlloc k d db =
     bindR (update_row al_id alloc_ok k (alloc_add d) (db_allocs db)) (\<lambda>as. Inr (db\<lparr>db_allocs := as\<rparr>))"

definition insertAlloc :: "alloc_row \<Rightarrow> asset_db \<Rightarrow> err + asset_db" where
  "insertAlloc a db =
     (let (k, db1) = nextval TAllocs db
      in bindR (insert_row alloc_ok
             (\<lambda>a a'. al_recordId a = al_recordId a' \<and> al_batchId a = al_batchId a')
             [''borrow_record_id'', ''batch_id''] (a\<lparr>al_id := k\<rparr>) (db_allocs db1))
           (\<lambda>as. Inr (db1\<lparr>db_allocs := as\<rparr>)))"

section \<open>Quantities of an item\<close>

text \<open>
  The book and reserved quantities of the item with id \<open>k\<close> and the stock its batches hold, 0 for
  an item that does not exist.
\<close>

definition book :: "asset_db \<Rightarrow> int \<Rightarrow> int" where
  "book db k = sum_where (\<lambda>i. it_id i = k) it_bookQty (db_items db)"

definition reserved :: "asset_db \<Rightarrow> int \<Rightarrow> int" where
  "reserved db k = sum_where (\<lambda>i. it_id i = k) it_reservedQty (db_items db)"

definition stock :: "asset_db \<Rightarrow> int \<Rightarrow> int" where
  "stock db k = sum_where (\<lambda>b. ba_itemId b = k) ba_remainingQty (db_batches db)"

text \<open>A table with its sequence: keys are distinct and below the next value.\<close>

definition keyed :: "('r \<Rightarrow> int) \<Rightarrow> table_name \<Rightarrow> 'r list \<Rightarrow> asset_db \<Rightarrow> bool" where
  "keyed key t rs db \<longleftrightarrow> distinct (map key rs) \<and> (\<forall>r \<in> set rs. key r < db_seq db t)"

interpretation items_book: qty_row it_id it_bookQty "\<lambda>d. item_add d e" for e
  by unfold_locales (simp_all add: item_add_def)

interpretation items_reserved: qty_row it_id it_reservedQty "\<lambda>d. item_add e d" for e
  by unfold_locales (simp_all add: item_add_def)

interpretation batches_rem: qty_row ba_id ba_remainingQty batch_add
  by unfold_locales (simp_all add: batch_add_def)

interpretation allocs_ret: qty_row al_id al_returnedQty alloc_add
  by unfold_locales (simp_all add: alloc_add_def)

interpretation borrows_ret: qty_row br_id br_returnedQty "\<lambda>d. borrow_add d e" for e
  by unfold_locales (simp_all add: borrow_add_def)

interpretation borrows_off: qty_row br_id br_writtenOffQty "\<lambda>d. borrow_add e d" for e
  by unfold_locales (simp_all add: borrow_add_def)

text \<open>What a successful statement does to the quantities.\<close>

lemma sum_key:
  assumes "distinct (map key rs)" and "r \<in> set rs" and "key r = k"
  shows "sum_where (\<lambda>r. key r = k) q rs = q r"
  using assms
proof (induction rs)
  case (Cons a rs)
  show ?case
  proof (cases "r = a")
    case True
    then have "sum_where (\<lambda>r. key r = k) q rs = 0"
      using Cons.prems by (intro sum_where_none) (simp, metis imageI)
    with True Cons.prems show ?thesis by simp
  next
    case False
    with Cons show ?thesis by auto
  qed
qed simp

lemma sum_key_absent: "\<not> (\<exists>r \<in> set rs. key r = k) \<Longrightarrow> sum_where (\<lambda>r. key r = k) q rs = 0"
  by (intro sum_where_none) auto

lemma addItem_Inr_iff:
  "addItem k b r db = Inr db' \<longleftrightarrow>
    (\<exists>i \<in> set (db_items db). it_id i = k) \<and> (\<forall>i \<in> set (db_items db). it_id i = k \<longrightarrow> item_ok (item_add b r i))
    \<and> db' = db\<lparr>db_items := update_where (\<lambda>i. it_id i = k) (item_add b r) (db_items db)\<rparr>"
  by (auto simp: addItem_def bindR_Inr_iff update_row_Inr_iff)

lemma addItem_quantities:
  assumes "addItem k b r db = Inr db'" and "distinct (map it_id (db_items db))"
  shows "book db' = (book db)(k := book db k + b)"
    and "reserved db' = (reserved db)(k := reserved db k + r)"
    and "map it_id (db_items db') = map it_id (db_items db)"
proof -
  obtain i where i: "i \<in> set (db_items db)" "it_id i = k"
    and db': "db' = db\<lparr>db_items := update_where (\<lambda>i. it_id i = k) (item_add b r) (db_items db)\<rparr>"
    using assms(1) by (auto simp: addItem_Inr_iff)
  show "book db' = (book db)(k := book db k + b)"
    using items_book.sum_add [OF assms(2) i(1), of "\<lambda>i. it_id i = _" b r] i(2)
    by (auto simp: fun_eq_iff book_def db' item_add_def)
  show "reserved db' = (reserved db)(k := reserved db k + r)"
    using items_reserved.sum_add [OF assms(2) i(1), of "\<lambda>i. it_id i = _" b r] i(2)
    by (auto simp: fun_eq_iff reserved_def db' item_add_def)
  show "map it_id (db_items db') = map it_id (db_items db)"
    by (simp add: db' items_book.keys_add)
qed

lemma addBatch_Inr_iff:
  "addBatch k d db = Inr db' \<longleftrightarrow>
    (\<exists>b \<in> set (db_batches db). ba_id b = k) \<and> (\<forall>b \<in> set (db_batches db). ba_id b = k \<longrightarrow> batch_ok (batch_add d b))
    \<and> db' = db\<lparr>db_batches := update_where (\<lambda>b. ba_id b = k) (batch_add d) (db_batches db)\<rparr>"
  by (auto simp: addBatch_def bindR_Inr_iff update_row_Inr_iff)

lemma addBatch_stock:
  assumes "addBatch k d db = Inr db'" and "distinct (map ba_id (db_batches db))"
    and "b \<in> set (db_batches db)" and "ba_id b = k"
  shows "stock db' = (stock db)(ba_itemId b := stock db (ba_itemId b) + d)"
proof -
  have db': "db' = db\<lparr>db_batches := update_where (\<lambda>b. ba_id b = k) (batch_add d) (db_batches db)\<rparr>"
    using assms(1) by (simp add: addBatch_Inr_iff)
  show ?thesis
    using batches_rem.sum_add [OF assms(2,3), of "\<lambda>b. ba_itemId b = _" d] assms(4)
    by (auto simp: fun_eq_iff stock_def db' batch_add_def)
qed

end
