(* ===== verification/InventoryCore.thy ===== *)
theory InventoryCore
  imports AssetDb "HOL-Library.Product_Lexorder"
begin

text \<open>
  The inventory kernel of \<open>apps/asset/src/shared/inventory-core.ts\<close>: locking items, allocating
  batches first in first out, writing flows, removing empty items, resolving a warehouse and
  finding or creating an item; then the invariant of stock and what each routine does to it.
\<close>

section \<open>Operations\<close>

record item_lock =
  lk_id :: int
  lk_consumableId :: int
  lk_consumableName :: string
  lk_spec :: string
  lk_warehouseId :: "int option"
  lk_warehouseName :: string
  lk_warehousePath :: string
  lk_bookQty :: int
  lk_reservedQty :: int

text \<open>An allocation is a batch id with a quantity.\<close>

type_synonym batch_allocation = "int \<times> int"

record flow_input =
  fi_type :: flow_type
  fi_direction :: flow_direction
  fi_item :: item_lock
  fi_batchId :: "int option"
  fi_qty :: int
  fi_bookBefore :: int
  fi_bookAfter :: int
  fi_refType :: string
  fi_refId :: int
  fi_operator :: operator

definition lock_row :: "item_row \<Rightarrow> consumable_row \<Rightarrow> item_lock" where
  "lock_row i c =
     \<lparr>lk_id = it_id i, lk_consumableId = it_consumableId i, lk_consumableName = co_name c,
      lk_spec = it_spec i, lk_warehouseId = it_warehouseId i, lk_warehouseName = it_warehouseName i,
      lk_warehousePath = it_warehousePath i, lk_bookQty = it_bookQty i, lk_reservedQty = it_reservedQty i\<rparr>"

definition lockInventoryItems :: "int list \<Rightarrow> asset_db \<Rightarrow> item_lock list" where
  "lockInventoryItems ids db =
     (let unique = sort (remdups ids)
      in if unique = [] then []
         else concat (map (\<lambda>i. map (lock_row i) (filter (\<lambda>c. co_id c = it_consumableId i) (db_consumables db)))
                (sort_key it_id (filter (\<lambda>i. it_id i \<in> set unique) (db_items db)))))"

text \<open>The rows of the query: \<open>ORDER BY received_at ASC, id ASC\<close>.\<close>

definition fifo_rows :: "int \<Rightarrow> asset_db \<Rightarrow> batch_row list" where
  "fifo_rows itemId db =
     sort_key (\<lambda>b. (ba_receivedAt b, ba_id b))
       (filter (\<lambda>b. ba_itemId b = itemId \<and> ba_remainingQty b > 0) (db_batches db))"

definition takeBatch :: "int \<Rightarrow> int \<Rightarrow> asset_db \<Rightarrow> err + asset_db" where
  "takeBatch k taken db =
     bindR (sql_update batch_ok (\<lambda>b. ba_id b = k) (batch_add (- taken)) (db_batches db))
       (\<lambda>bs. Inr (db\<lparr>db_batches := bs\<rparr>))"

fun fifo_loop ::
    "batch_row list \<Rightarrow> int \<Rightarrow> batch_allocation list \<Rightarrow> asset_db
      \<Rightarrow> err + (batch_allocation list \<times> int \<times> asset_db)" where
  "fifo_loop [] remaining allocations db = Inr (allocations, remaining, db)"
| "fifo_loop (row # rows) remaining allocations db =
     (if remaining \<le> 0 then Inr (allocations, remaining, db)
      else let taken = min (ba_remainingQty row) remaining in
        bindR (takeBatch (ba_id row) taken db)
          (\<lambda>db'. fifo_loop rows (remaining - taken) (allocations @ [(ba_id row, taken)]) db'))"

definition allocateFifoBatches :: "int \<Rightarrow> int \<Rightarrow> asset_db \<Rightarrow> err + (batch_allocation list \<times> asset_db)" where
  "allocateFifoBatches itemId qty db =
     bindR (fifo_loop (fifo_rows itemId db) qty [] db)
       (\<lambda>(allocations, remaining, db').
          if remaining > 0 then Inl (Biz INSUFFICIENT_STOCK) else Inr (allocations, db'))"

definition writeStockFlow :: "flow_input \<Rightarrow> asset_db \<Rightarrow> err + (int \<times> asset_db)" where
  "writeStockFlow flow db =
     insertFlow
       \<lparr>fl_id = 0, fl_type = fi_type flow, fl_direction = fi_direction flow, fl_itemId = lk_id (fi_item flow),
        fl_batchId = fi_batchId flow, fl_consumableName = lk_consumableName (fi_item flow),
        fl_spec = lk_spec (fi_item flow), fl_warehouseName = lk_warehouseName (fi_item flow),
        fl_warehousePath = lk_warehousePath (fi_item flow), fl_qty = fi_qty flow,
        fl_bookBefore = fi_bookBefore flow, fl_bookAfter = fi_bookAfter flow,
        fl_refType = fi_refType flow, fl_refId = fi_refId flow,
        fl_operatorId = fst (fi_operator flow), fl_operatorName = snd (fi_operator flow)\<rparr> db"

text \<open>What a record still has out.\<close>

definition br_open :: "borrow_row \<Rightarrow> int" where
  "br_open b = br_qty b - br_returnedQty b - br_writtenOffQty b"

definition removable :: "int \<Rightarrow> asset_db \<Rightarrow> item_row \<Rightarrow> bool" where
  "removable itemId db i \<longleftrightarrow> it_id i = itemId \<and> it_bookQty i = 0 \<and> it_reservedQty i = 0
     \<and> \<not> (\<exists>b \<in> set (db_borrows db). br_itemId b = it_id i \<and> br_qty b > br_returnedQty b + br_writtenOffQty b)"

definition cleanupEmptyItem :: "int \<Rightarrow> asset_db \<Rightarrow> asset_db" where
  "cleanupEmptyItem itemId db = db\<lparr>db_items := filter (\<lambda>i. \<not> removable itemId db i) (db_items db)\<rparr>"

record warehouse_path =
  wp_id :: int
  wp_name :: string
  wp_path :: string

text \<open>The loop over the ancestors: \<open>fuel\<close> rounds are left of its 64, \<open>atStart\<close> in the first.\<close>

fun path_loop ::
    "nat \<Rightarrow> bool \<Rightarrow> int option \<Rightarrow> string list \<Rightarrow> warehouse_row list \<Rightarrow> string list option" where
  "path_loop 0 atStart current names ws = Some names"
| "path_loop (Suc fuel) atStart None names ws = Some names"
| "path_loop (Suc fuel) atStart (Some target) names ws =
     (case find (\<lambda>w. wh_id w = target) ws of
        None \<Rightarrow> None
      | Some w \<Rightarrow>
          if atStart \<and> wh_status w \<noteq> ACTIVE then None
          else path_loop fuel False (wh_parentId w) (wh_name w # names) ws)"

fun join_path :: "string list \<Rightarrow> string" where
  "join_path [] = []"
| "join_path [s] = s"
| "join_path (s # t # ts) = s @ ''/'' @ join_path (t # ts)"

definition loadWarehouseWithPath :: "int option \<Rightarrow> asset_db \<Rightarrow> warehouse_path option" where
  "loadWarehouseWithPath warehouseId db =
     (case warehouseId of
        None \<Rightarrow> None
      | Some w \<Rightarrow>
          (case path_loop 64 True (Some w) [] (db_warehouses db) of
             None \<Rightarrow> None
           | Some names \<Rightarrow>
               Some \<lparr>wp_id = w, wp_name = (if names = [] then [] else List.last names),
                     wp_path = join_path names\<rparr>))"

record item_key =
  ik_consumableId :: int
  ik_spec :: string
  ik_warehouseId :: "int option"
  ik_warehouseName :: string
  ik_warehousePath :: string

definition item_at :: "item_key \<Rightarrow> item_row \<Rightarrow> bool" where
  "item_at k i \<longleftrightarrow> it_consumableId i = ik_consumableId k \<and> it_spec i = ik_spec k
     \<and> it_warehouseId i = ik_warehouseId k"

text \<open>
  In a run of one transaction after the other, the second query of the handler reads what the
  first one read; it finds nothing and the violation is thrown on.
\<close>

definition lockOrCreateItem :: "item_key \<Rightarrow> asset_db \<Rightarrow> err + ((int \<times> int) \<times> asset_db)" where
  "lockOrCreateItem k db =
     (case find (item_at k) (db_items db) of
        Some i \<Rightarrow> Inr ((it_id i, it_bookQty i), db)
      | None \<Rightarrow>
          (case insertItem
              \<lparr>it_id = 0, it_consumableId = ik_consumableId k, it_spec = ik_spec k,
               it_warehouseId = ik_warehouseId k, it_warehouseName = ik_warehouseName k,
               it_warehousePath = ik_warehousePath k, it_bookQty = 0, it_reservedQty = 0\<rparr> db of
             Inr (i, db') \<Rightarrow> Inr ((i, 0), db')
           | Inl e \<Rightarrow>
               if isPrismaUniqueViolation e
               then (case find (item_at k) (db_items db) of
                       Some i \<Rightarrow> Inr ((it_id i, it_bookQty i), db)
                     | None \<Rightarrow> Inl e)
               else Inl e))"

section \<open>First in, first out\<close>

text \<open>What the loop takes from the rows, as a function of the rows alone.\<close>

fun fifo_plan :: "batch_row list \<Rightarrow> int \<Rightarrow> batch_allocation list" where
  "fifo_plan [] q = []"
| "fifo_plan (row # rows) q =
     (if q \<le> 0 then []
      else (ba_id row, min (ba_remainingQty row) q) # fifo_plan rows (q - min (ba_remainingQty row) q))"

definition allocated :: "batch_allocation list \<Rightarrow> int" where
  "allocated as = sum_list (map snd as)"

definition allocated_from :: "batch_allocation list \<Rightarrow> int \<Rightarrow> int" where
  "allocated_from as i = sum_list (map snd (filter (\<lambda>a. fst a = i) as))"

definition drain :: "batch_allocation list \<Rightarrow> batch_row list \<Rightarrow> batch_row list" where
  "drain as bs = map (\<lambda>b. batch_add (- allocated_from as (ba_id b)) b) bs"

lemma allocated_simps [simp]: "allocated [] = 0" "allocated (a # as) = snd a + allocated as"
  by (simp_all add: allocated_def)

lemma allocated_from_simps [simp]:
  "allocated_from [] i = 0"
  "allocated_from (a # as) i = (if fst a = i then snd a else 0) + allocated_from as i"
  by (simp_all add: allocated_from_def)

lemma batch_add_simps [simp]:
  "batch_add 0 b = b" "batch_add d (batch_add e b) = batch_add (e + d) b"
  "ba_id (batch_add d b) = ba_id b" "ba_itemId (batch_add d b) = ba_itemId b"
  "ba_remainingQty (batch_add d b) = ba_remainingQty b + d"
  by (simp_all add: batch_add_def)

lemma drain_Nil [simp]: "drain [] bs = bs"
  by (simp add: drain_def)

lemma drain_Cons:
  "drain ((i, t) # as) bs = drain as (update_where (\<lambda>b. ba_id b = i) (batch_add (- t)) bs)"
  by (induction bs) (auto simp: drain_def)

lemma drain_keys [simp]: "map ba_id (drain as bs) = map ba_id bs"
  by (simp add: drain_def comp_def)

lemma fifo_plan_sum:
  assumes "\<And>r. r \<in> set rows \<Longrightarrow> 0 < ba_remainingQty r" and "0 \<le> q"
  shows "allocated (fifo_plan rows q) = min q (sum_list (map ba_remainingQty rows))"
  using assms
proof (induction rows arbitrary: q)
  case (Cons r rows)
  have r: "0 < ba_remainingQty r" using Cons.prems by simp
  have nn: "0 \<le> sum_list (map ba_remainingQty rows)"
    using Cons.prems(1) by (intro sum_list_nonneg) force
  show ?case
  proof (cases "q = 0")
    case True
    then show ?thesis using r nn by simp
  next
    case False
    then show ?thesis
      using Cons.IH [of "q - min (ba_remainingQty r) q"] Cons.prems r nn by (auto simp: min_def)
  qed
qed simp

lemma fifo_plan_pos:
  assumes "\<And>r. r \<in> set rows \<Longrightarrow> 0 < ba_remainingQty r" and "a \<in> set (fifo_plan rows q)"
  shows "0 < snd a" and "fst a \<in> ba_id ` set rows"
  using assms
  by (induction rows arbitrary: q) (auto split: if_splits)

lemma fifo_plan_ids: "\<exists>n. map fst (fifo_plan rows q) = map ba_id (take n rows)"
proof (induction rows arbitrary: q)
  case (Cons r rows)
  show ?case
  proof (cases "q \<le> 0")
    case True
    then show ?thesis by (intro exI [of _ 0]) simp
  next
    case False
    obtain n where "map fst (fifo_plan rows (q - min (ba_remainingQty r) q)) = map ba_id (take n rows)"
      using Cons.IH by blast
    with False show ?thesis by (intro exI [of _ "Suc n"]) simp
  qed
qed simp

lemma fifo_plan_distinct: "distinct (map ba_id rows) \<Longrightarrow> distinct (map fst (fifo_plan rows q))"
  using fifo_plan_ids [of rows q] by (metis distinct_take take_map)

text \<open>Every batch but the last is drained before the next one is touched.\<close>

lemma fifo_plan_greedy:
  "Suc j < length (fifo_plan rows q) \<Longrightarrow> snd (fifo_plan rows q ! j) = ba_remainingQty (rows ! j)"
proof (induction rows arbitrary: q j)
  case (Cons r rows)
  show ?case
  proof (cases j)
    case 0
    have "0 < length (fifo_plan rows (q - min (ba_remainingQty r) q))"
      using Cons.prems 0 by (auto split: if_splits)
    then have "\<not> q - min (ba_remainingQty r) q \<le> 0" by (cases rows) auto
    then show ?thesis using Cons.prems 0 by (auto split: if_splits)
  next
    case (Suc j')
    then show ?thesis using Cons.prems Cons.IH [of j' "q - min (ba_remainingQty r) q"]
      by (auto split: if_splits)
  qed
qed simp

lemma allocated_from_absent: "i \<notin> fst ` set as \<Longrightarrow> allocated_from as i = 0"
  by (induction as) auto

lemma sum_drain:
  assumes "distinct (map ba_id bs)" and "distinct (map fst as)"
    and "\<And>a. a \<in> set as \<Longrightarrow> \<exists>b \<in> set bs. ba_id b = fst a \<and> ba_itemId b = k"
  shows "sum_where (\<lambda>b. ba_itemId b = j) ba_remainingQty (drain as bs)
    = sum_where (\<lambda>b. ba_itemId b = j) ba_remainingQty bs - (if j = k then allocated as else 0)"
  using assms
proof (induction as arbitrary: bs)
  case (Cons a as)
  obtain i t where a: "a = (i, t)" by (cases a)
  let ?bs = "update_where (\<lambda>b. ba_id b = i) (batch_add (- t)) bs"
  obtain b where b: "b \<in> set bs" "ba_id b = i" "ba_itemId b = k" using Cons.prems(3) [of a] a by auto
  have "\<exists>b \<in> set ?bs. ba_id b = fst x \<and> ba_itemId b = k" if "x \<in> set as" for x
  proof -
    from that Cons.prems(3) [of x]
    obtain c where c: "c \<in> set bs" "ba_id c = fst x" "ba_itemId c = k" by auto
    moreover have "fst x \<noteq> i" using Cons.prems(2) that a by auto
    ultimately show ?thesis by (intro bexI [of _ c]) (auto simp: set_update_where)
  qed
  then have "sum_where (\<lambda>b. ba_itemId b = j) ba_remainingQty (drain as ?bs)
    = sum_where (\<lambda>b. ba_itemId b = j) ba_remainingQty ?bs - (if j = k then allocated as else 0)"
    using Cons.prems by (intro Cons.IH) (auto simp: batches_rem.keys_add)
  moreover have "sum_where (\<lambda>b. ba_itemId b = j) ba_remainingQty ?bs
    = sum_where (\<lambda>b. ba_itemId b = j) ba_remainingQty bs + (if j = k then - t else 0)"
    using batches_rem.sum_add [OF Cons.prems(1) b(1), of "\<lambda>b. ba_itemId b = j" "- t"] b by auto
  ultimately show ?case by (auto simp: a drain_Cons)
qed simp

lemma takeBatch_Inr:
  assumes "\<And>b. b \<in> set (db_batches db) \<Longrightarrow> ba_id b = k \<Longrightarrow> batch_ok (batch_add (- t) b)"
  shows "takeBatch k t db =
    Inr (db\<lparr>db_batches := update_where (\<lambda>b. ba_id b = k) (batch_add (- t)) (db_batches db)\<rparr>)"
  using assms by (auto simp: takeBatch_def sql_update_def)

lemma fifo_loop_plan:
  assumes "distinct (map ba_id (db_batches db))" and "distinct (map ba_id rows)"
    and "set rows \<subseteq> set (db_batches db)" and "\<And>b. b \<in> set (db_batches db) \<Longrightarrow> batch_ok b"
    and "\<And>r. r \<in> set rows \<Longrightarrow> 0 < ba_remainingQty r"
  shows "fifo_loop rows q as db =
    Inr (as @ fifo_plan rows q, q - allocated (fifo_plan rows q),
         db\<lparr>db_batches := drain (fifo_plan rows q) (db_batches db)\<rparr>)"
  using assms
proof (induction rows arbitrary: q as db)
  case (Cons r rows)
  show ?case
  proof (cases "q \<le> 0")
    case False
    let ?t = "min (ba_remainingQty r) q"
    let ?bs = "update_where (\<lambda>b. ba_id b = ba_id r) (batch_add (- ?t)) (db_batches db)"
    have r: "r \<in> set (db_batches db)" "0 < ba_remainingQty r" "batch_ok r" using Cons.prems by auto
    have same: "b = r" if "b \<in> set (db_batches db)" "ba_id b = ba_id r" for b
      using that r(1) Cons.prems(1) by (meson distinct_map inj_onD)
    have ok: "batch_ok (batch_add (- ?t) r)"
      using r False by (auto simp: batch_ok_def int4_def min_def)
    have step: "takeBatch (ba_id r) ?t db = Inr (db\<lparr>db_batches := ?bs\<rparr>)"
      using ok same by (intro takeBatch_Inr) auto
    have "set rows \<subseteq> set ?bs"
      using Cons.prems(2,3) by (auto simp: set_update_where image_iff)
    moreover have "batch_ok b" if "b \<in> set ?bs" for b
      using that ok same Cons.prems(4) by (auto simp: set_update_where)
    ultimately have "fifo_loop rows (q - ?t) (as @ [(ba_id r, ?t)]) (db\<lparr>db_batches := ?bs\<rparr>) =
        Inr ((as @ [(ba_id r, ?t)]) @ fifo_plan rows (q - ?t), q - ?t - allocated (fifo_plan rows (q - ?t)),
          db\<lparr>db_batches := drain (fifo_plan rows (q - ?t)) ?bs\<rparr>)"
      using Cons.prems(1,2,5) Cons.IH [of "db\<lparr>db_batches := ?bs\<rparr>" "q - ?t" "as @ [(ba_id r, ?t)]"]
      by (simp add: batches_rem.keys_add)
    then show ?thesis using False step by (simp add: drain_Cons Let_def)
  qed simp
qed simp

section \<open>The invariant of stock\<close>

text \<open>
  The ledger of an item is what its flows brought in less what they took out. Stock is in order
  when keys are unique and below their sequences, every row satisfies its constraints, and for
  every item the book quantity, the quantities of its batches and the ledger agree.
\<close>

definition flow_signed :: "flow_row \<Rightarrow> int" where
  "flow_signed f = (if fl_direction f = IN then fl_qty f else - fl_qty f)"

definition ledger :: "asset_db \<Rightarrow> int \<Rightarrow> int" where
  "ledger db k = sum_where (\<lambda>f. fl_itemId f = k) flow_signed (db_flows db)"

definition tables_ok :: "asset_db \<Rightarrow> bool" where
  "tables_ok db \<longleftrightarrow> keyed it_id TItems (db_items db) db \<and> keyed ba_id TBatches (db_batches db) db
     \<and> (\<forall>i \<in> set (db_items db). item_ok i) \<and> (\<forall>b \<in> set (db_batches db). batch_ok b)"

definition stock_inv :: "asset_db \<Rightarrow> bool" where
  "stock_inv db \<longleftrightarrow> tables_ok db \<and> book db = stock db \<and> ledger db = stock db"

text \<open>The parts of the database the inventory kernel leaves alone.\<close>

definition strip_stock :: "asset_db \<Rightarrow> asset_db" where
  "strip_stock db =
     db\<lparr>db_items := [], db_batches := [], db_flows := [],
        db_seq := (db_seq db)(TItems := 0, TBatches := 0, TFlows := 0)\<rparr>"

definition same_rest :: "asset_db \<Rightarrow> asset_db \<Rightarrow> bool" where
  "same_rest db db' \<longleftrightarrow> strip_stock db' = strip_stock db"

lemma same_rest_refl [simp, intro]: "same_rest db db"
  by (simp add: same_rest_def)

lemma same_rest_trans [trans]: "same_rest a b \<Longrightarrow> same_rest b c \<Longrightarrow> same_rest a c"
  by (simp add: same_rest_def)

lemma same_rest_updates [simp]:
  "same_rest db (db'\<lparr>db_items := is\<rparr>) = same_rest db db'"
  "same_rest db (db'\<lparr>db_batches := bs\<rparr>) = same_rest db db'"
  "same_rest db (db'\<lparr>db_flows := fs\<rparr>) = same_rest db db'"
  "same_rest db (db'\<lparr>db_seq := (db_seq db')(TItems := n)\<rparr>) = same_rest db db'"
  "same_rest db (db'\<lparr>db_seq := (db_seq db')(TBatches := n)\<rparr>) = same_rest db db'"
  "same_rest db (db'\<lparr>db_seq := (db_seq db')(TFlows := n)\<rparr>) = same_rest db db'"
  by (simp_all add: same_rest_def strip_stock_def fun_upd_twist)

lemma same_restD:
  assumes "same_rest db db'"
  shows "sd_heads db' = sd_heads db" "sd_acts db' = sd_acts db"
    "db_borrows db' = db_borrows db" "db_allocs db' = db_allocs db"
    "db_requestItems db' = db_requestItems db" "db_stockInItems db' = db_stockInItems db"
    "db_changeItems db' = db_changeItems db" "db_actionItems db' = db_actionItems db"
    "db_settlementItems db' = db_settlementItems db" "db_recipients db' = db_recipients db"
    "db_quotas db' = db_quotas db" "db_transfers db' = db_transfers db"
    "db_transferItems db' = db_transferItems db" "db_consumables db' = db_consumables db"
    "db_warehouses db' = db_warehouses db" "db_dict db' = db_dict db" "db_logs db' = db_logs db"
    "t \<notin> {TItems, TBatches, TFlows} \<Longrightarrow> db_seq db' t = db_seq db t"
  using arg_cong [OF assms [unfolded same_rest_def strip_stock_def], of sd_heads]
    arg_cong [OF assms [unfolded same_rest_def strip_stock_def], of sd_acts]
    arg_cong [OF assms [unfolded same_rest_def strip_stock_def], of db_borrows]
    arg_cong [OF assms [unfolded same_rest_def strip_stock_def], of db_allocs]
    arg_cong [OF assms [unfolded same_rest_def strip_stock_def], of db_requestItems]
    arg_cong [OF assms [unfolded same_rest_def strip_stock_def], of db_stockInItems]
    arg_cong [OF assms [unfolded same_rest_def strip_stock_def], of db_changeItems]
    arg_cong [OF assms [unfolded same_rest_def strip_stock_def], of db_actionItems]
    arg_cong [OF assms [unfolded same_rest_def strip_stock_def], of db_settlementItems]
    arg_cong [OF assms [unfolded same_rest_def strip_stock_def], of db_recipients]
    arg_cong [OF assms [unfolded same_rest_def strip_stock_def], of db_quotas]
    arg_cong [OF assms [unfolded same_rest_def strip_stock_def], of db_transfers]
    arg_cong [OF assms [unfolded same_rest_def strip_stock_def], of db_transferItems]
    arg_cong [OF assms [unfolded same_rest_def strip_stock_def], of db_consumables]
    arg_cong [OF assms [unfolded same_rest_def strip_stock_def], of db_warehouses]
    arg_cong [OF assms [unfolded same_rest_def strip_stock_def], of db_dict]
    arg_cong [OF assms [unfolded same_rest_def strip_stock_def], of db_logs]
    fun_cong [OF arg_cong [OF assms [unfolded same_rest_def strip_stock_def], of db_seq], of t]
  by simp_all

text \<open>The quantities depend on their own tables only.\<close>

lemma quantities_updates [simp]:
  "book (db\<lparr>db_batches := bs\<rparr>) = book db" "reserved (db\<lparr>db_batches := bs\<rparr>) = reserved db"
  "book (db\<lparr>db_flows := fs\<rparr>) = book db" "reserved (db\<lparr>db_flows := fs\<rparr>) = reserved db"
  "book (db\<lparr>db_seq := s\<rparr>) = book db" "reserved (db\<lparr>db_seq := s\<rparr>) = reserved db"
  "stock (db\<lparr>db_items := is\<rparr>) = stock db" "stock (db\<lparr>db_flows := fs\<rparr>) = stock db"
  "stock (db\<lparr>db_seq := s\<rparr>) = stock db" "ledger (db\<lparr>db_items := is\<rparr>) = ledger db"
  "ledger (db\<lparr>db_batches := bs\<rparr>) = ledger db" "ledger (db\<lparr>db_seq := s\<rparr>) = ledger db"
  by (simp_all add: fun_eq_iff book_def reserved_def stock_def ledger_def)

lemma quantities_cong:
  "db_items db' = db_items db \<Longrightarrow> book db' = book db"
  "db_items db' = db_items db \<Longrightarrow> reserved db' = reserved db"
  "db_batches db' = db_batches db \<Longrightarrow> stock db' = stock db"
  "db_flows db' = db_flows db \<Longrightarrow> ledger db' = ledger db"
  by (simp_all add: fun_eq_iff book_def reserved_def stock_def ledger_def)

text \<open>A change of tables other than items, batches, flows and sequences keeps the invariant.\<close>

lemma stock_inv_cong:
  assumes "db_items db' = db_items db" "db_batches db' = db_batches db" "db_flows db' = db_flows db"
    and "db_seq db' TItems = db_seq db TItems" "db_seq db' TBatches = db_seq db TBatches"
  shows "stock_inv db' = stock_inv db"
  using assms
  by (simp add: stock_inv_def tables_ok_def keyed_def quantities_cong(1) [OF assms(1)]
      quantities_cong(3) [OF assms(2)] quantities_cong(4) [OF assms(3)])

lemma stock_nonneg: "(\<And>b. b \<in> set (db_batches db) \<Longrightarrow> batch_ok b) \<Longrightarrow> 0 \<le> stock db k"
  unfolding stock_def by (intro sum_where_nonneg) (auto simp: batch_ok_def)

lemma fifo_rows_facts:
  assumes "distinct (map ba_id (db_batches db))" and "\<And>b. b \<in> set (db_batches db) \<Longrightarrow> batch_ok b"
  shows "distinct (map ba_id (fifo_rows k db))"
    and "set (fifo_rows k db) \<subseteq> set (db_batches db)"
    and "\<And>r. r \<in> set (fifo_rows k db) \<Longrightarrow> 0 < ba_remainingQty r \<and> ba_itemId r = k"
    and "sum_list (map ba_remainingQty (fifo_rows k db)) = stock db k"
proof -
  let ?P = "\<lambda>b. ba_itemId b = k \<and> ba_remainingQty b > 0"
  have m: "mset (fifo_rows k db) = mset (filter ?P (db_batches db))" by (simp add: fifo_rows_def)
  have "mset (map ba_id (fifo_rows k db)) = mset (map ba_id (filter ?P (db_batches db)))"
    using m by simp
  then show "distinct (map ba_id (fifo_rows k db))"
    using assms(1) by (metis distinct_map_filter mset_eq_imp_distinct_iff)
  show "set (fifo_rows k db) \<subseteq> set (db_batches db)" by (auto simp: fifo_rows_def)
  show "\<And>r. r \<in> set (fifo_rows k db) \<Longrightarrow> 0 < ba_remainingQty r \<and> ba_itemId r = k"
    by (auto simp: fifo_rows_def)
  have "sum_list (map ba_remainingQty (fifo_rows k db)) = sum_mset (image_mset ba_remainingQty (mset (fifo_rows k db)))"
    by (simp add: sum_mset_sum_list [symmetric])
  also have "\<dots> = sum_where ?P ba_remainingQty (db_batches db)"
    unfolding m by (simp add: sum_where_def sum_mset_sum_list [symmetric])
  also have "\<dots> = stock db k"
  proof -
    have "sum_where ?P ba_remainingQty bs = sum_where (\<lambda>b. ba_itemId b = k) ba_remainingQty bs"
      if "\<And>b. b \<in> set bs \<Longrightarrow> batch_ok b" for bs
      using that
    proof (induction bs)
      case (Cons b bs)
      have "0 \<le> ba_remainingQty b" using Cons.prems [of b] by (simp add: batch_ok_def)
      then show ?case using Cons by auto
    qed simp
    then show ?thesis using assms(2) by (simp add: stock_def)
  qed
  finally show "sum_list (map ba_remainingQty (fifo_rows k db)) = stock db k" .
qed

text \<open>The allocation succeeds exactly when the item's batches hold the quantity.\<close>

lemma allocate_eq:
  assumes "tables_ok db" and "0 \<le> q"
  shows "allocateFifoBatches k q db =
    (if stock db k < q then Inl (Biz INSUFFICIENT_STOCK)
     else Inr (fifo_plan (fifo_rows k db) q,
               db\<lparr>db_batches := drain (fifo_plan (fifo_rows k db) q) (db_batches db)\<rparr>))"
proof -
  have d: "distinct (map ba_id (db_batches db))" and ok: "\<And>b. b \<in> set (db_batches db) \<Longrightarrow> batch_ok b"
    using assms(1) by (simp_all add: tables_ok_def keyed_def)
  note rows = fifo_rows_facts [OF d ok]
  have "allocated (fifo_plan (fifo_rows k db) q) = min q (stock db k)"
    using fifo_plan_sum [of "fifo_rows k db" q] rows(3,4) assms(2) by auto
  then show ?thesis
    using fifo_loop_plan [OF d rows(1,2) ok, where q = q and as = "[]"] rows(3)
    by (auto simp: allocateFifoBatches_def)
qed

lemma drain_ok:
  assumes "tables_ok db" and "0 \<le> q" and "b \<in> set (drain (fifo_plan (fifo_rows k db) q) (db_batches db))"
  shows "batch_ok b"
proof -
  have d: "distinct (map ba_id (db_batches db))" and ok: "\<And>b. b \<in> set (db_batches db) \<Longrightarrow> batch_ok b"
    using assms(1) by (simp_all add: tables_ok_def keyed_def)
  note rows = fifo_rows_facts [OF d ok, where k = k]
  have bound: "0 \<le> allocated_from (fifo_plan rs q) (ba_id c) \<and> allocated_from (fifo_plan rs q) (ba_id c) \<le> ba_remainingQty c"
    if "distinct (map ba_id rs)" "set rs \<subseteq> set (db_batches db)" "\<And>r. r \<in> set rs \<Longrightarrow> 0 < ba_remainingQty r"
      "c \<in> set (db_batches db)" "0 \<le> q" for rs q c
    using that
  proof (induction rs arbitrary: q)
    case Nil
    then show ?case using ok [of c] by (simp add: batch_ok_def)
  next
    case (Cons r rs)
    have c: "0 \<le> ba_remainingQty c" using ok [of c] Cons.prems(4) by (simp add: batch_ok_def)
    show ?case
    proof (cases "ba_id r = ba_id c")
      case True
      then have "r = c" using Cons.prems(2,4) d by (metis distinct_map inj_onD list.set_intros(1) subsetD)
      moreover have "ba_id c \<notin> fst ` set (fifo_plan rs (q - min (ba_remainingQty r) q))"
        using Cons.prems(1,3) True fifo_plan_pos(2) [of rs] by fastforce
      ultimately show ?thesis using Cons.prems(5) c by (auto simp: allocated_from_absent min_def)
    next
      case False
      then show ?thesis
        using Cons.IH [of "q - min (ba_remainingQty r) q"] Cons.prems c by (auto simp: min_def)
    qed
  qed
  obtain c where c: "c \<in> set (db_batches db)"
    and b: "b = batch_add (- allocated_from (fifo_plan (fifo_rows k db) q) (ba_id c)) c"
    using assms(3) by (auto simp: drain_def)
  show ?thesis
    using bound [OF rows(1,2) _ c assms(2)] rows(3) ok [OF c] b
    by (auto simp: batch_ok_def int4_def)
qed

end
