(* ===== verification/StockInvariant.thy ===== *)
theory StockInvariant
  imports InventoryCore
begin

text \<open>
  What the statements and the routines of the inventory kernel do to the book, reserved, batch
  and ledger quantities of every item, as shifts that add up along a handler.
\<close>

section \<open>Shifts\<close>

definition atk :: "int \<Rightarrow> int \<Rightarrow> int \<Rightarrow> int" where
  "atk k v = (\<lambda>j. if j = k then v else 0)"

definition none0 :: "int \<Rightarrow> int" where
  "none0 = (\<lambda>j. 0)"

definition padd :: "(int \<Rightarrow> int) \<Rightarrow> (int \<Rightarrow> int) \<Rightarrow> int \<Rightarrow> int" where
  "padd f g = (\<lambda>j. f j + g j)"

definition shifts ::
    "asset_db \<Rightarrow> asset_db \<Rightarrow> (int \<Rightarrow> int) \<Rightarrow> (int \<Rightarrow> int) \<Rightarrow> (int \<Rightarrow> int) \<Rightarrow> (int \<Rightarrow> int) \<Rightarrow> bool" where
  "shifts db db' b r s l \<longleftrightarrow> tables_ok db' \<and> book db' = padd (book db) b \<and> reserved db' = padd (reserved db) r
     \<and> stock db' = padd (stock db) s \<and> ledger db' = padd (ledger db) l"

lemma padd_simps [simp]:
  "padd f none0 = f" "padd none0 f = f" "padd (padd f g) h = padd f (padd g h)"
  "padd (atk k a) (atk k b) = atk k (a + b)" "atk k 0 = none0"
  by (auto simp: padd_def none0_def atk_def)

lemma none0_apply: "none0 j = 0"
  by (simp add: none0_def)

lemma padd_apply: "padd f g j = f j + g j"
  by (simp add: padd_def)

lemma atk_apply: "atk k v j = (if j = k then v else 0)"
  by (simp add: atk_def)

lemma padd_atk: "padd f (atk k v) = f(k := f k + v)"
  by (auto simp: padd_def atk_def)

lemma shifts_refl: "tables_ok db \<Longrightarrow> shifts db db none0 none0 none0 none0"
  by (simp add: shifts_def)

lemma shifts_trans:
  "shifts a b b1 r1 s1 l1 \<Longrightarrow> shifts b c b2 r2 s2 l2 \<Longrightarrow>
    shifts a c (padd b1 b2) (padd r1 r2) (padd s1 s2) (padd l1 l2)"
  by (simp add: shifts_def)

lemma shifts_tables_ok: "shifts a b b1 r1 s1 l1 \<Longrightarrow> tables_ok b"
  by (simp add: shifts_def)

text \<open>Shifts by the same amount of book, batches and ledger keep stock in order.\<close>

lemma shifts_stock_inv: "shifts db db' b r b b \<Longrightarrow> stock_inv db \<Longrightarrow> stock_inv db'"
  by (simp add: shifts_def stock_inv_def)

lemma shifts_frame:
  assumes "tables_ok db" and "db_items db' = db_items db" and "db_batches db' = db_batches db"
    and "db_flows db' = db_flows db"
    and "db_seq db' TItems = db_seq db TItems" and "db_seq db' TBatches = db_seq db TBatches"
  shows "shifts db db' none0 none0 none0 none0"
  using assms(1,5,6)
  by (simp add: shifts_def tables_ok_def keyed_def assms(2,3) quantities_cong(1,2) [OF assms(2)]
      quantities_cong(3) [OF assms(3)] quantities_cong(4) [OF assms(4)])

section \<open>Statements\<close>

lemma tables_okD:
  assumes "tables_ok db"
  shows "distinct (map it_id (db_items db))" and "distinct (map ba_id (db_batches db))"
    and "\<And>i. i \<in> set (db_items db) \<Longrightarrow> item_ok i \<and> it_id i < db_seq db TItems"
    and "\<And>b. b \<in> set (db_batches db) \<Longrightarrow> batch_ok b \<and> ba_id b < db_seq db TBatches"
  using assms by (simp_all add: tables_ok_def keyed_def)

lemma tables_okI:
  assumes "distinct (map it_id (db_items db))" and "distinct (map ba_id (db_batches db))"
    and "\<And>i. i \<in> set (db_items db) \<Longrightarrow> item_ok i \<and> it_id i < db_seq db TItems"
    and "\<And>b. b \<in> set (db_batches db) \<Longrightarrow> batch_ok b \<and> ba_id b < db_seq db TBatches"
  shows "tables_ok db"
  using assms by (simp add: tables_ok_def keyed_def)

lemma addItem_shifts:
  assumes "addItem k b r db = Inr db'" and "tables_ok db"
  shows "shifts db db' (atk k b) (atk k r) none0 none0" and "same_rest db db'"
proof -
  note ok = tables_okD [OF assms(2)]
  note q = addItem_quantities [OF assms(1) ok(1)]
  have db': "db' = db\<lparr>db_items := update_where (\<lambda>i. it_id i = k) (item_add b r) (db_items db)\<rparr>"
    and new: "\<forall>i \<in> set (db_items db). it_id i = k \<longrightarrow> item_ok (item_add b r i)"
    using assms(1) by (auto simp: addItem_Inr_iff)
  have "tables_ok db'"
  proof (rule tables_okI)
    show "distinct (map it_id (db_items db'))" using q(3) ok(1) by simp
    show "distinct (map ba_id (db_batches db'))" using ok(2) by (simp add: db')
    show "item_ok i \<and> it_id i < db_seq db' TItems" if "i \<in> set (db_items db')" for i
      using that new ok(3) by (auto simp: db' set_update_where item_add_def)
    show "batch_ok c \<and> ba_id c < db_seq db' TBatches" if "c \<in> set (db_batches db')" for c
      using that ok(4) by (simp add: db')
  qed
  then show "shifts db db' (atk k b) (atk k r) none0 none0"
    using q(1,2) by (simp add: shifts_def padd_atk) (simp add: db')
  show "same_rest db db'" by (simp add: db')
qed

lemma addItem_total:
  assumes "tables_ok db" and "i \<in> set (db_items db)" and "it_id i = k" and "item_ok (item_add b r i)"
  shows "\<exists>db'. addItem k b r db = Inr db'"
proof -
  have uniq: "j = i" if "j \<in> set (db_items db)" "it_id j = k" for j
    using that assms(2,3) tables_okD(1) [OF assms(1)] by (metis distinct_map inj_onD)
  have "\<forall>j \<in> set (db_items db). it_id j = k \<longrightarrow> item_ok (item_add b r j)"
    using uniq assms(4) by blast
  then show ?thesis using assms(2,3) by (auto simp: addItem_Inr_iff)
qed

lemma book_row:
  assumes "tables_ok db" and "i \<in> set (db_items db)"
  shows "book db (it_id i) = it_bookQty i" and "reserved db (it_id i) = it_reservedQty i"
  using sum_key [OF tables_okD(1) [OF assms(1)] assms(2)]
  by (simp_all add: book_def reserved_def)

lemma book_absent:
  assumes "\<not> (\<exists>i \<in> set (db_items db). it_id i = k)"
  shows "book db k = 0" and "reserved db k = 0"
  using assms by (auto simp: book_def reserved_def intro!: sum_where_none)

lemma item_of_book:
  assumes "tables_ok db" and "0 < book db k \<or> 0 < reserved db k"
  obtains i where "i \<in> set (db_items db)" and "it_id i = k" and "it_bookQty i = book db k"
    and "it_reservedQty i = reserved db k"
proof -
  obtain i where i: "i \<in> set (db_items db)" "it_id i = k"
    using assms(2) book_absent [of db k] by force
  then show thesis using that book_row [OF assms(1) i(1)] by simp
qed

lemma addBatch_shifts:
  assumes "addBatch k d db = Inr db'" and "tables_ok db" and "b \<in> set (db_batches db)" and "ba_id b = k"
  shows "shifts db db' none0 none0 (atk (ba_itemId b) d) none0" and "same_rest db db'"
proof -
  note ok = tables_okD [OF assms(2)]
  have db': "db' = db\<lparr>db_batches := update_where (\<lambda>b. ba_id b = k) (batch_add d) (db_batches db)\<rparr>"
    and new: "\<forall>b \<in> set (db_batches db). ba_id b = k \<longrightarrow> batch_ok (batch_add d b)"
    using assms(1) by (auto simp: addBatch_Inr_iff)
  have "tables_ok db'"
  proof (rule tables_okI)
    show "distinct (map it_id (db_items db'))" using ok(1) by (simp add: db')
    show "distinct (map ba_id (db_batches db'))" using ok(2) by (simp add: db' batches_rem.keys_add)
    show "item_ok i \<and> it_id i < db_seq db' TItems" if "i \<in> set (db_items db')" for i
      using that ok(3) by (simp add: db')
    show "batch_ok c \<and> ba_id c < db_seq db' TBatches" if "c \<in> set (db_batches db')" for c
      using that new ok(4) by (auto simp: db' set_update_where)
  qed
  then show "shifts db db' none0 none0 (atk (ba_itemId b) d) none0"
    using addBatch_stock [OF assms(1) ok(2) assms(3,4)]
    by (simp add: shifts_def padd_atk) (simp add: db')
  show "same_rest db db'" by (simp add: db')
qed

lemma insertFlow_Inr_iff:
  "insertFlow f db = Inr (i, db') \<longleftrightarrow> flow_ok f \<and> i = db_seq db TFlows
    \<and> db' = db\<lparr>db_seq := (db_seq db)(TFlows := db_seq db TFlows + 1),
                db_flows := db_flows db @ [f\<lparr>fl_id := db_seq db TFlows\<rparr>]\<rparr>"
  by (auto simp: insertFlow_def nextval_def Let_def bindR_Inr_iff insert_row_Inr_iff flow_ok_def)

lemma insertFlow_shifts:
  assumes "insertFlow f db = Inr (i, db')" and "tables_ok db"
  shows "shifts db db' none0 none0 none0 (atk (fl_itemId f) (flow_signed f))" and "same_rest db db'"
    and "db_items db' = db_items db" and "db_batches db' = db_batches db"
    and "db_flows db' = db_flows db @ [f\<lparr>fl_id := db_seq db TFlows\<rparr>]"
  using assms
  by (auto simp: insertFlow_Inr_iff shifts_def tables_ok_def keyed_def fun_eq_iff ledger_def padd_def atk_def
      flow_signed_def none0_apply)

lemma insertBatch_Inr_iff:
  "insertBatch b db = Inr (i, db') \<longleftrightarrow> batch_ok b \<and> i = db_seq db TBatches
    \<and> db' = db\<lparr>db_seq := (db_seq db)(TBatches := db_seq db TBatches + 1),
                db_batches := db_batches db @ [b\<lparr>ba_id := db_seq db TBatches\<rparr>]\<rparr>"
  by (auto simp: insertBatch_def nextval_def Let_def bindR_Inr_iff insert_row_Inr_iff batch_ok_def)

lemma insertBatch_shifts:
  assumes "insertBatch b db = Inr (i, db')" and "tables_ok db"
  shows "shifts db db' none0 none0 (atk (ba_itemId b) (ba_remainingQty b)) none0" and "same_rest db db'"
  using assms
  by (auto simp: insertBatch_Inr_iff shifts_def tables_ok_def keyed_def fun_eq_iff stock_def padd_def atk_def
      batch_ok_def none0_apply)

lemma insertItem_Inr_iff:
  "insertItem i db = Inr (k, db') \<longleftrightarrow> item_ok i \<and> (\<forall>j \<in> set (db_items db). \<not> item_clash i j)
    \<and> (\<exists>c \<in> set (db_consumables db). co_id c = it_consumableId i) \<and> k = db_seq db TItems
    \<and> db' = db\<lparr>db_seq := (db_seq db)(TItems := db_seq db TItems + 1),
                db_items := db_items db @ [i\<lparr>it_id := db_seq db TItems\<rparr>]\<rparr>"
  by (auto simp: insertItem_def nextval_def Let_def bindR_Inr_iff insert_row_Inr_iff item_ok_def item_clash_def
      split: if_splits)

lemma insertItem_shifts:
  assumes "insertItem i db = Inr (k, db')" and "tables_ok db"
  shows "shifts db db' (atk k (it_bookQty i)) (atk k (it_reservedQty i)) none0 none0" and "same_rest db db'"
  using assms
  by (auto simp: insertItem_Inr_iff shifts_def tables_ok_def keyed_def fun_eq_iff book_def reserved_def
      padd_def atk_def item_ok_def none0_apply)

section \<open>Routines\<close>

lemma allocate_shifts:
  assumes "allocateFifoBatches k q db = Inr (as, db')" and "tables_ok db" and "0 \<le> q"
  shows "shifts db db' none0 none0 (atk k (- q)) none0" and "same_rest db db'" and "allocated as = q"
    and "db_items db' = db_items db" and "db_flows db' = db_flows db" and "db_seq db' = db_seq db"
    and "\<And>a. a \<in> set as \<Longrightarrow> 0 < snd a \<and> (\<exists>b \<in> set (db_batches db). ba_id b = fst a \<and> ba_itemId b = k)"
    and "distinct (map fst as)"
proof -
  note ok = tables_okD [OF assms(2)]
  note rows = fifo_rows_facts [OF ok(2) ok(4) [THEN conjunct1], where k = k]
  have enough: "q \<le> stock db k" and as: "as = fifo_plan (fifo_rows k db) q"
    and db': "db' = db\<lparr>db_batches := drain as (db_batches db)\<rparr>"
    using assms(1) allocate_eq [OF assms(2,3), of k] by (auto split: if_splits)
  show sum: "allocated as = q"
    using fifo_plan_sum [of "fifo_rows k db" q] rows(3,4) enough assms(3) by (auto simp: as)
  show pos: "0 < snd a \<and> (\<exists>b \<in> set (db_batches db). ba_id b = fst a \<and> ba_itemId b = k)" if "a \<in> set as" for a
    using fifo_plan_pos [of "fifo_rows k db" a q] that rows(2,3) by (force simp: as)
  show dist: "distinct (map fst as)" using fifo_plan_distinct [OF rows(1)] by (simp add: as)
  have "stock db' = padd (stock db) (atk k (- q))"
  proof
    fix j
    have "sum_where (\<lambda>b. ba_itemId b = j) ba_remainingQty (drain as (db_batches db))
      = sum_where (\<lambda>b. ba_itemId b = j) ba_remainingQty (db_batches db) - (if j = k then allocated as else 0)"
      by (rule sum_drain [OF ok(2) dist]) (use pos in blast)
    then show "stock db' j = padd (stock db) (atk k (- q)) j"
      by (simp add: stock_def db' padd_def atk_def sum)
  qed
  moreover have "tables_ok db'"
  proof (rule tables_okI)
    show "batch_ok b \<and> ba_id b < db_seq db' TBatches" if "b \<in> set (db_batches db')" for b
      using that drain_ok [OF assms(2,3), of b k] ok(4) by (auto simp: db' as drain_def)
  qed (use ok in \<open>simp_all add: db'\<close>)
  ultimately show "shifts db db' none0 none0 (atk k (- q)) none0" by (simp add: shifts_def) (simp add: db')
  show "same_rest db db'" "db_items db' = db_items db" "db_flows db' = db_flows db" "db_seq db' = db_seq db"
    by (simp_all add: db')
qed

lemma cleanup_shifts:
  assumes "tables_ok db"
  shows "shifts db (cleanupEmptyItem k db) none0 none0 none0 none0" and "same_rest db (cleanupEmptyItem k db)"
proof -
  have eqs: "sum_where P f (filter (\<lambda>i. \<not> removable k db i) is) = sum_where P f is"
    if "\<And>i. removable k db i \<Longrightarrow> f i = 0" for P f "is"
    using that by (induction "is") auto
  have "book (cleanupEmptyItem k db) = book db" and "reserved (cleanupEmptyItem k db) = reserved db"
    using eqs [of it_bookQty] eqs [of it_reservedQty]
    by (simp_all add: fun_eq_iff book_def reserved_def cleanupEmptyItem_def removable_def del: sum_where_filter)
  moreover have "tables_ok (cleanupEmptyItem k db)"
    by (rule tables_okI) (use tables_okD [OF assms] in \<open>auto simp: cleanupEmptyItem_def intro: distinct_map_filter\<close>)
  ultimately show "shifts db (cleanupEmptyItem k db) none0 none0 none0 none0"
    by (simp add: shifts_def) (simp add: cleanupEmptyItem_def)
  show "same_rest db (cleanupEmptyItem k db)" by (simp add: cleanupEmptyItem_def)
qed

lemma lockOrCreate_shifts:
  assumes "lockOrCreateItem k db = Inr ((i, b), db')" and "tables_ok db"
  shows "shifts db db' none0 none0 none0 none0" and "same_rest db db'" and "b = book db' i"
    and "\<exists>r \<in> set (db_items db'). it_id r = i \<and> item_at k r"
proof -
  have "shifts db db' none0 none0 none0 none0 \<and> same_rest db db' \<and> b = book db' i
    \<and> (\<exists>r \<in> set (db_items db'). it_id r = i \<and> item_at k r)"
  proof (cases "find (item_at k) (db_items db)")
    case (Some r)
    then have "r \<in> set (db_items db)" "item_at k r" by (auto simp: find_Some_iff)
    then show ?thesis
      using assms Some book_row [OF assms(2)] by (auto simp: lockOrCreateItem_def shifts_refl)
  next
    case None
    let ?i = "\<lparr>it_id = 0, it_consumableId = ik_consumableId k, it_spec = ik_spec k,
               it_warehouseId = ik_warehouseId k, it_warehouseName = ik_warehouseName k,
               it_warehousePath = ik_warehousePath k, it_bookQty = 0, it_reservedQty = 0\<rparr>"
    have ins: "insertItem ?i db = Inr (i, db')" and b: "b = 0"
      using assms(1) None by (auto simp: lockOrCreateItem_def split: sum.splits if_splits)
    note s = insertItem_shifts [OF ins assms(2)]
    have r: "?i\<lparr>it_id := i\<rparr> \<in> set (db_items db')" using ins by (auto simp: insertItem_Inr_iff)
    have "book db' i = 0" using book_row [OF shifts_tables_ok [OF s(1)] r] by simp
    then show ?thesis using s r b by (intro conjI bexI [OF _ r]) (simp_all add: item_at_def)
  qed
  then show "shifts db db' none0 none0 none0 none0" and "same_rest db db'" and "b = book db' i"
    and "\<exists>r \<in> set (db_items db'). it_id r = i \<and> item_at k r" by simp_all
qed

section \<open>Loops\<close>

text \<open>The shifts of a loop are the sums of the shifts of its rounds.\<close>

definition total :: "('x \<Rightarrow> int \<Rightarrow> int) \<Rightarrow> 'x list \<Rightarrow> int \<Rightarrow> int" where
  "total f xs = (\<lambda>k. sum_list (map (\<lambda>x. f x k) xs))"

lemma total_simps [simp]: "total f [] = none0" "total f (x # xs) = padd (f x) (total f xs)"
  by (simp_all add: total_def none0_def padd_def)

lemma total_none [simp]: "total (\<lambda>x. none0) xs = none0"
  by (induction xs) simp_all

lemma total_neg: "total (\<lambda>x. atk (f x) (- g x)) xs k = - total (\<lambda>x. atk (f x) (g x)) xs k"
  by (induction xs) (simp_all add: padd_apply atk_apply none0_apply)

lemma foldR_shifts:
  assumes "foldR f xs db = Inr db'" and "tables_ok db"
    and "\<And>d. F d d" and "\<And>a b c. F a b \<Longrightarrow> F b c \<Longrightarrow> F a c"
    and "\<And>x d d'. x \<in> set xs \<Longrightarrow> tables_ok d \<Longrightarrow> F db d \<Longrightarrow> f x d = Inr d' \<Longrightarrow>
      shifts d d' (b x) (r x) (s x) (l x) \<and> F d d'"
  shows "shifts db db' (total b xs) (total r xs) (total s xs) (total l xs) \<and> F db db'"
proof -
  have "shifts d db' (total b ys) (total r ys) (total s ys) (total l ys) \<and> F d db'"
    if "foldR f ys d = Inr db'" "tables_ok d" "F db d" "set ys \<subseteq> set xs" for ys d
    using that
  proof (induction ys arbitrary: d)
    case Nil
    then show ?case using assms(3) by (simp add: shifts_refl)
  next
    case (Cons y ys)
    obtain d1 where d1: "f y d = Inr d1" "foldR f ys d1 = Inr db'"
      using Cons.prems(1) by (auto simp: bindR_Inr_iff)
    have one: "shifts d d1 (b y) (r y) (s y) (l y)" "F d d1"
      using assms(5) [of y d d1] Cons.prems d1(1) by simp_all
    have "shifts d1 db' (total b ys) (total r ys) (total s ys) (total l ys) \<and> F d1 db'"
      using Cons.IH [OF d1(2)] shifts_tables_ok [OF one(1)] assms(4) [OF Cons.prems(3) one(2)] Cons.prems(4)
      by simp
    then show ?case using shifts_trans [OF one(1)] assms(4) [OF one(2)] by auto
  qed
  then show ?thesis using assms(1-3) by blast
qed

end
