(* ===== verification/ApplicationNo.thy ===== *)
theory ApplicationNo
  imports JsDate
begin

text \<open>
  Application numbers (\<open>packages/approval/src/application-no.ts\<close>). The random suffix
  (\<open>crypto.randomInt(100, 1000)\<close>) is an argument.
\<close>

definition generateApplicationNo :: "string \<Rightarrow> int \<Rightarrow> nat \<Rightarrow> string" where
  "generateApplicationNo prefix now suffix =
     (let (year, month, day) = utc_date now;
          y = padStart 4 (CHR ''0'') (int_str year);
          m = padStart 2 (CHR ''0'') (int_str month);
          d = padStart 2 (CHR ''0'') (int_str day);
          hh = padStart 2 (CHR ''0'') (int_str (utc_hour now));
          mm = padStart 2 (CHR ''0'') (int_str (utc_minute now));
          ss = padStart 2 (CHR ''0'') (int_str (utc_second now));
          ms = padStart 3 (CHR ''0'') (int_str (utc_milli now))
      in prefix @ y @ m @ d @ hh @ mm @ ss @ ms @ nat_str suffix)"

definition APPLICATION_NO_PREFIX_ASSET :: "string \<Rightarrow> string option" where
  "APPLICATION_NO_PREFIX_ASSET =
     map_of [(''STOCK_IN'', ''SI''), (''STOCK_CHANGE'', ''SC''), (''CONSUMABLE_REQUEST'', ''CR''),
       (''AGENT_REQUEST'', ''AR''), (''RETURN'', ''RT''), (''WRITE_OFF'', ''WO''),
       (''AGENT_SETTLEMENT'', ''AS'')]"

text \<open>A zero-padded field of fixed width determines its number.\<close>

lemma field_inject:
  assumes "0 \<le> a" "a < 10 ^ k" "0 \<le> b" "b < 10 ^ k" "0 < k"
    and "padStart k (CHR ''0'') (int_str a) @ u = padStart k (CHR ''0'') (int_str b) @ v"
  shows "a = b \<and> u = v"
proof -
  have ints: "int_str a = nat_str (nat a)" "int_str b = nat_str (nat b)"
    using assms(1,3) by (simp_all add: int_str_def)
  have bounds: "nat a < 10 ^ k" "nat b < 10 ^ k"
    using assms(2,4) by (simp_all add: nat_less_iff assms(1,3))
  have "length (padStart k (CHR ''0'') (int_str a)) = length (padStart k (CHR ''0'') (int_str b))"
    using bounds assms(5) by (simp add: ints length_padStart_nat)
  with assms(6) have eq: "padStart k (CHR ''0'') (int_str a) = padStart k (CHR ''0'') (int_str b)"
    and uv: "u = v" by (metis append_eq_append_conv)+
  from eq have "nat a = nat b" by (metis ints padStart_zero_val)
  with assms(1,3) uv show ?thesis by simp
qed

text \<open>Bounds of the calendar fields a four-digit year needs.\<close>

definition calendar_ok :: "int \<Rightarrow> bool" where
  "calendar_ok ms \<longleftrightarrow> (case utc_date ms of (y, m, d) \<Rightarrow>
     0 \<le> y \<and> y < 10000 \<and> 0 \<le> m \<and> m < 100 \<and> 0 \<le> d \<and> d < 100)"

lemma generateApplicationNo_fields:
  assumes "calendar_ok t" and "calendar_ok t'"
    and eq: "generateApplicationNo p t r = generateApplicationNo p t' r'"
  shows "utc_date t = utc_date t' \<and> utc_hour t = utc_hour t' \<and> utc_minute t = utc_minute t'
    \<and> utc_second t = utc_second t' \<and> utc_milli t = utc_milli t' \<and> r = r'"
proof -
  obtain y m d where c: "utc_date t = (y, m, d)" by (cases "utc_date t")
  obtain y' m' d' where c': "utc_date t' = (y', m', d')" by (cases "utc_date t'")
  have b: "0 \<le> y" "y < 10 ^ 4" "0 \<le> m" "m < 10 ^ 2" "0 \<le> d" "d < 10 ^ 2"
    and b': "0 \<le> y'" "y' < 10 ^ 4" "0 \<le> m'" "m' < 10 ^ 2" "0 \<le> d'" "d' < 10 ^ 2"
    using assms(1,2) c c' by (simp_all add: calendar_ok_def)
  have ck: "0 \<le> utc_hour x" "utc_hour x < 10 ^ 2" "0 \<le> utc_minute x" "utc_minute x < 10 ^ 2"
    "0 \<le> utc_second x" "utc_second x < 10 ^ 2" "0 \<le> utc_milli x" "utc_milli x < 10 ^ 3" for x
    using utc_ranges [of x] by simp_all
  have e1: "padStart 4 (CHR ''0'') (int_str y) @ padStart 2 (CHR ''0'') (int_str m)
      @ padStart 2 (CHR ''0'') (int_str d) @ padStart 2 (CHR ''0'') (int_str (utc_hour t))
      @ padStart 2 (CHR ''0'') (int_str (utc_minute t)) @ padStart 2 (CHR ''0'') (int_str (utc_second t))
      @ padStart 3 (CHR ''0'') (int_str (utc_milli t)) @ nat_str r
    = padStart 4 (CHR ''0'') (int_str y') @ padStart 2 (CHR ''0'') (int_str m')
      @ padStart 2 (CHR ''0'') (int_str d') @ padStart 2 (CHR ''0'') (int_str (utc_hour t'))
      @ padStart 2 (CHR ''0'') (int_str (utc_minute t')) @ padStart 2 (CHR ''0'') (int_str (utc_second t'))
      @ padStart 3 (CHR ''0'') (int_str (utc_milli t')) @ nat_str r'"
    using eq by (simp add: generateApplicationNo_def c c' Let_def)
  note e2 = field_inject [OF b(1,2) b'(1,2) _ e1, simplified]
  note e3 = field_inject [OF b(3,4) b'(3,4) _ conjunct2 [OF e2], simplified]
  note e4 = field_inject [OF b(5,6) b'(5,6) _ conjunct2 [OF e3], simplified]
  note e5 = field_inject [OF ck(1,2) ck(1,2) _ conjunct2 [OF e4], simplified]
  note e6 = field_inject [OF ck(3,4) ck(3,4) _ conjunct2 [OF e5], simplified]
  note e7 = field_inject [OF ck(5,6) ck(5,6) _ conjunct2 [OF e6], simplified]
  note e8 = field_inject [OF ck(7,8) ck(7,8) _ conjunct2 [OF e7], simplified]
  show ?thesis using e2 e3 e4 e5 e6 e7 e8 by (simp add: c c' nat_str_inject)
qed

end
