(* ===== verification/AssetRequests.thy ===== *)
theory AssetRequests
  imports StockInvariant ApplicationNo
begin

text \<open>
  The head of an asset request (\<open>createRequestHead\<close> of
  \<open>apps/asset/src/modules/approval/asset-approval.service.ts\<close>), the tables of request lines, and
  the invariant that ties the reserved quantity of an item to the pending requests.
\<close>

section \<open>Heads\<close>

record request_input =
  rq_requestType :: string
  rq_applicantId :: int
  rq_applicantName :: string
  rq_departmentSnapshot :: json
  rq_refRequestId :: "int option"
  rq_proxyId :: "int option"
  rq_proxyName :: "string option"
  rq_remark :: "string option"

text \<open>
  The unique indexes of \<open>approval_requests\<close>: the application number, and one pending settlement
  per agent request.
\<close>

definition insertHead :: "approval_request \<Rightarrow> asset_db \<Rightarrow> err + (int \<times> asset_db)" where
  "insertHead h db =
     (let (i, db1) = nextval TRequests db in
      if \<exists>h' \<in> set (sd_heads db). ar_applicationNo h' = ar_applicationNo h
      then Inl (UniqueViolation [''application_no''])
      else if ah_requestType h = ''AGENT_SETTLEMENT'' \<and> ah_status h = PENDING \<and>
          (\<exists>h' \<in> set (sd_heads db). ah_requestType h' = ''AGENT_SETTLEMENT'' \<and> ah_status h' = PENDING
             \<and> ar_refRequestId h \<noteq> None \<and> ar_refRequestId h' = ar_refRequestId h)
      then Inl (UniqueViolation [''ref_request_id''])
      else Inr (i, db1\<lparr>sd_heads := sd_heads db @ [h\<lparr>ah_id := i\<rparr>]\<rparr>))"

definition createRequestHead ::
    "int \<Rightarrow> nat \<Rightarrow> request_input \<Rightarrow> asset_db \<Rightarrow> err + ((int \<times> string) \<times> asset_db)" where
  "createRequestHead now suffix input db =
     (if rq_requestType input = ''AGENT_SETTLEMENT'' \<and> rq_refRequestId input = None
      then Inl (Biz VALIDATION_FAILED)
      else let prefix = (case APPLICATION_NO_PREFIX_ASSET (rq_requestType input) of
                   Some p \<Rightarrow> p | None \<Rightarrow> ''AS'');
               applicationNo = generateApplicationNo prefix now suffix
           in withPendingLimitMapping
             (bindR (insertHead
                \<lparr>ah_id = 0, ah_status = PENDING, ah_version = 1, ah_requestType = rq_requestType input,
                 ah_applicantId = rq_applicantId input, ah_proxyId = rq_proxyId input,
                 ah_departmentSnapshot = rq_departmentSnapshot input, ah_submittedAt = Some now,
                 ah_cancelledAt = None, ah_cancelSource = None, ah_updatedAt = now,
                 ar_applicationNo = applicationNo, ar_applicantName = rq_applicantName input,
                 ar_proxyName = rq_proxyName input, ar_refRequestId = rq_refRequestId input,
                 ar_remark = rq_remark input, ar_cancelledBy = None, ar_processorId = None,
                 ar_processorName = None, ar_processedAt = None, ar_opinion = None,
                 ar_createdBy = Some (rq_applicantId input)\<rparr> db)
               (\<lambda>(i, db1).
                  Inr ((i, applicationNo),
                       db1\<lparr>sd_acts := sd_acts db1 @
                         [\<lparr>ac_requestId = i, ac_action = approval_action.SUBMIT,
                           ac_actorId = rq_applicantId input, ac_actorName = rq_applicantName input,
                           ac_opinion = None, ac_cancelSource = None, ac_createdAt = now\<rparr>]\<rparr>))))"

section \<open>Lines\<close>

definition insertRequestItem :: "request_item \<Rightarrow> asset_db \<Rightarrow> err + asset_db" where
  "insertRequestItem r db =
     (let (i, db1) = nextval TRequestItems db
      in bindR (insert_row (\<lambda>r. 0 < ri_qty r \<and> int4 (ri_qty r))
             (\<lambda>r r'. ri_requestId r = ri_requestId r' \<and> ri_itemId r = ri_itemId r')
             [''request_id'', ''inventory_item_id''] (r\<lparr>ri_id := i\<rparr>) (db_requestItems db1))
           (\<lambda>rs. Inr (db1\<lparr>db_requestItems := rs\<rparr>)))"

definition insertChangeItem :: "change_item \<Rightarrow> asset_db \<Rightarrow> err + asset_db" where
  "insertChangeItem r db =
     (let (i, db1) = nextval TChangeItems db
      in bindR (insert_row (\<lambda>r. 0 < ch_qty r \<and> int4 (ch_qty r))
             (\<lambda>r r'. ch_requestId r = ch_requestId r' \<and> ch_itemId r = ch_itemId r')
             [''request_id'', ''inventory_item_id''] (r\<lparr>ch_id := i\<rparr>) (db_changeItems db1))
           (\<lambda>rs. Inr (db1\<lparr>db_changeItems := rs\<rparr>)))"

definition requestLines :: "int \<Rightarrow> asset_db \<Rightarrow> request_item list" where
  "requestLines i db = sort_key ri_id (filter (\<lambda>r. ri_requestId r = i) (db_requestItems db))"

definition changeLines :: "int \<Rightarrow> asset_db \<Rightarrow> change_item list" where
  "changeLines i db = sort_key ch_id (filter (\<lambda>r. ch_requestId r = i) (db_changeItems db))"

section \<open>Reservations\<close>

text \<open>
  What the pending requests reserve of an item: the lines of claims (of one's own and of an
  agent's) and of stock changes whose head is pending.
\<close>

definition CLAIM_TYPES :: "string list" where
  "CLAIM_TYPES = [''CONSUMABLE_REQUEST'', ''AGENT_REQUEST'']"

definition CHANGE_TYPES :: "string list" where
  "CHANGE_TYPES = [''STOCK_CHANGE'']"

definition is_pending :: "string list \<Rightarrow> approval_request list \<Rightarrow> int \<Rightarrow> bool" where
  "is_pending types heads i \<longleftrightarrow>
     (\<exists>h \<in> set heads. ah_id h = i \<and> ah_status h = PENDING \<and> ah_requestType h \<in> set types)"

definition pend :: "asset_db \<Rightarrow> int \<Rightarrow> int" where
  "pend db k =
     sum_where (\<lambda>r. ri_itemId r = k \<and> is_pending CLAIM_TYPES (sd_heads db) (ri_requestId r)) ri_qty (db_requestItems db)
   + sum_where (\<lambda>c. ch_itemId c = k \<and> is_pending CHANGE_TYPES (sd_heads db) (ch_requestId c)) ch_qty (db_changeItems db)"

definition requests_ok :: "asset_db \<Rightarrow> bool" where
  "requests_ok db \<longleftrightarrow> keyed ah_id TRequests (sd_heads db) db
     \<and> (\<forall>r \<in> set (db_requestItems db). 0 < ri_qty r \<and> ri_requestId r < db_seq db TRequests)
     \<and> (\<forall>c \<in> set (db_changeItems db). 0 < ch_qty c \<and> ch_requestId c < db_seq db TRequests)
     \<and> distinct (map (\<lambda>r. (ri_requestId r, ri_itemId r)) (db_requestItems db))
     \<and> distinct (map (\<lambda>c. (ch_requestId c, ch_itemId c)) (db_changeItems db))"

definition reserve_inv :: "asset_db \<Rightarrow> bool" where
  "reserve_inv db \<longleftrightarrow> stock_inv db \<and> requests_ok db \<and> reserved db = pend db"

text \<open>What the lines of one request reserve.\<close>

definition claim_part :: "asset_db \<Rightarrow> int \<Rightarrow> int \<Rightarrow> int" where
  "claim_part db i k = sum_where (\<lambda>r. ri_itemId r = k \<and> ri_requestId r = i) ri_qty (db_requestItems db)"

definition change_part :: "asset_db \<Rightarrow> int \<Rightarrow> int \<Rightarrow> int" where
  "change_part db i k = sum_where (\<lambda>c. ch_itemId c = k \<and> ch_requestId c = i) ch_qty (db_changeItems db)"

definition req_part :: "asset_db \<Rightarrow> string \<Rightarrow> int \<Rightarrow> int \<Rightarrow> int" where
  "req_part db t i k =
     (if t \<in> set CLAIM_TYPES then claim_part db i k else 0)
   + (if t \<in> set CHANGE_TYPES then change_part db i k else 0)"

lemma pend_cong:
  assumes "db_requestItems db' = db_requestItems db" and "db_changeItems db' = db_changeItems db"
    and "sd_heads db' = sd_heads db"
  shows "pend db' = pend db"
  by (simp add: fun_eq_iff pend_def assms)

lemma sum_where_disjoint:
  "(\<And>r. r \<in> set rs \<Longrightarrow> P r = (Q r \<or> R r) \<and> \<not> (Q r \<and> R r)) \<Longrightarrow>
    sum_where P q rs = sum_where Q q rs + sum_where R q rs"
proof (induction rs)
  case (Cons r rs)
  then have "P r = (Q r \<or> R r) \<and> \<not> (Q r \<and> R r)" by simp
  moreover have "sum_where P q rs = sum_where Q q rs + sum_where R q rs" using Cons by simp
  ultimately show ?case by auto
qed simp

lemma is_pending_row:
  assumes "distinct (map ah_id hs)" and "h \<in> set hs"
  shows "is_pending types hs (ah_id h) \<longleftrightarrow> ah_status h = PENDING \<and> ah_requestType h \<in> set types"
proof -
  have "g = h" if "g \<in> set hs" "ah_id g = ah_id h" for g
    using that assms by (metis distinct_map inj_onD)
  then show ?thesis using assms(2) by (auto simp: is_pending_def)
qed

text \<open>A head leaves the pending state: what its lines reserve is taken off.\<close>

lemma pend_leave:
  assumes d: "distinct (map ah_id (sd_heads db))" and h: "h \<in> set (sd_heads db)" "ah_status h = PENDING"
    and leave: "\<And>types i. is_pending types (sd_heads db') i \<longleftrightarrow> is_pending types (sd_heads db) i \<and> i \<noteq> ah_id h"
    and same: "db_requestItems db' = db_requestItems db" "db_changeItems db' = db_changeItems db"
  shows "pend db k = pend db' k + req_part db (ah_requestType h) (ah_id h) k"
proof -
  have "sum_where (\<lambda>r. ri_itemId r = k \<and> is_pending CLAIM_TYPES (sd_heads db) (ri_requestId r)) ri_qty (db_requestItems db)
    = sum_where (\<lambda>r. ri_itemId r = k \<and> is_pending CLAIM_TYPES (sd_heads db') (ri_requestId r)) ri_qty (db_requestItems db)
    + sum_where (\<lambda>r. ri_itemId r = k \<and> ri_requestId r = ah_id h \<and> ah_requestType h \<in> set CLAIM_TYPES) ri_qty (db_requestItems db)"
    by (rule sum_where_disjoint) (use leave is_pending_row [OF d h(1)] h(2) in auto)
  moreover have "sum_where (\<lambda>c. ch_itemId c = k \<and> is_pending CHANGE_TYPES (sd_heads db) (ch_requestId c)) ch_qty (db_changeItems db)
    = sum_where (\<lambda>c. ch_itemId c = k \<and> is_pending CHANGE_TYPES (sd_heads db') (ch_requestId c)) ch_qty (db_changeItems db)
    + sum_where (\<lambda>c. ch_itemId c = k \<and> ch_requestId c = ah_id h \<and> ah_requestType h \<in> set CHANGE_TYPES) ch_qty (db_changeItems db)"
    by (rule sum_where_disjoint) (use leave is_pending_row [OF d h(1)] h(2) in auto)
  moreover have "sum_where (\<lambda>r. ri_itemId r = k \<and> ri_requestId r = ah_id h \<and> ah_requestType h \<in> set CLAIM_TYPES) ri_qty (db_requestItems db)
    = (if ah_requestType h \<in> set CLAIM_TYPES then claim_part db (ah_id h) k else 0)"
    by (simp add: claim_part_def sum_where_none)
  moreover have "sum_where (\<lambda>c. ch_itemId c = k \<and> ch_requestId c = ah_id h \<and> ah_requestType h \<in> set CHANGE_TYPES) ch_qty (db_changeItems db)
    = (if ah_requestType h \<in> set CHANGE_TYPES then change_part db (ah_id h) k else 0)"
    by (simp add: change_part_def sum_where_none)
  ultimately show ?thesis by (simp add: pend_def req_part_def same)
qed

lemma pend_nonneg:
  assumes "requests_ok db"
  shows "0 \<le> pend db k"
  using assms unfolding pend_def
  by (intro add_nonneg_nonneg sum_where_nonneg) (auto simp: requests_ok_def intro: less_imp_le)

text \<open>Lines of a request, in the order a handler visits them.\<close>

lemma sum_list_sorted:
  fixes q :: "'r \<Rightarrow> int"
  shows "sum_list (map q (sort_key f rs)) = sum_list (map q rs)"
proof -
  have "mset (map q (sort_key f rs)) = mset (map q rs)" by simp
  then show ?thesis by (metis sum_mset_sum_list)
qed

lemma requestLines_sum:
  "sum_list (map (\<lambda>r. if ri_itemId r = k then ri_qty r else 0) (requestLines i db)) = claim_part db i k"
proof -
  have "sum_list (map (\<lambda>r. if ri_itemId r = k then ri_qty r else 0) (filter (\<lambda>r. ri_requestId r = i) rs))
    = sum_where (\<lambda>r. ri_itemId r = k \<and> ri_requestId r = i) ri_qty rs" for rs
    by (induction rs) auto
  then show ?thesis by (simp add: requestLines_def sum_list_sorted claim_part_def)
qed

lemma changeLines_sum:
  "sum_list (map (\<lambda>c. if ch_itemId c = k then ch_qty c else 0) (changeLines i db)) = change_part db i k"
proof -
  have "sum_list (map (\<lambda>c. if ch_itemId c = k then ch_qty c else 0) (filter (\<lambda>c. ch_requestId c = i) rs))
    = sum_where (\<lambda>c. ch_itemId c = k \<and> ch_requestId c = i) ch_qty rs" for rs
    by (induction rs) auto
  then show ?thesis by (simp add: changeLines_def sum_list_sorted change_part_def)
qed

lemma requestLines_mem: "r \<in> set (requestLines i db) \<longleftrightarrow> r \<in> set (db_requestItems db) \<and> ri_requestId r = i"
  by (auto simp: requestLines_def)

lemma changeLines_mem: "c \<in> set (changeLines i db) \<longleftrightarrow> c \<in> set (db_changeItems db) \<and> ch_requestId c = i"
  by (auto simp: changeLines_def)

lemma requestLines_distinct:
  assumes "requests_ok db"
  shows "distinct (map ri_itemId (requestLines i db))"
proof -
  let ?rs = "filter (\<lambda>r. ri_requestId r = i) (db_requestItems db)"
  have "distinct (map (\<lambda>r. (ri_requestId r, ri_itemId r)) ?rs)"
    using assms by (simp add: requests_ok_def distinct_map_filter)
  then have "distinct (map ri_itemId ?rs)"
    by (auto simp: distinct_map inj_on_def)
  moreover have "mset (map ri_itemId (requestLines i db)) = mset (map ri_itemId ?rs)"
    by (simp add: requestLines_def)
  ultimately show ?thesis by (metis mset_eq_imp_distinct_iff)
qed

lemma changeLines_distinct:
  assumes "requests_ok db"
  shows "distinct (map ch_itemId (changeLines i db))"
proof -
  let ?rs = "filter (\<lambda>c. ch_requestId c = i) (db_changeItems db)"
  have "distinct (map (\<lambda>c. (ch_requestId c, ch_itemId c)) ?rs)"
    using assms by (simp add: requests_ok_def distinct_map_filter)
  then have "distinct (map ch_itemId ?rs)"
    by (auto simp: distinct_map inj_on_def)
  moreover have "mset (map ch_itemId (changeLines i db)) = mset (map ch_itemId ?rs)"
    by (simp add: changeLines_def)
  ultimately show ?thesis by (metis mset_eq_imp_distinct_iff)
qed

section \<open>Facts about heads\<close>

lemma createRequestHead_Inr:
  assumes "createRequestHead now suffix input db = Inr ((i, no), db')"
  shows "i = db_seq db TRequests"
    and "\<exists>h. ah_id h = i \<and> ah_status h = PENDING \<and> ah_requestType h = rq_requestType input
      \<and> ah_applicantId h = rq_applicantId input \<and> ar_refRequestId h = rq_refRequestId input
      \<and> ar_applicationNo h = no \<and> sd_heads db' = sd_heads db @ [h]"
    and "\<exists>a. ac_requestId a = i \<and> ac_action a = approval_action.SUBMIT \<and> sd_acts db' = sd_acts db @ [a]"
    and "db'\<lparr>sd_heads := [], sd_acts := []\<rparr> =
      db\<lparr>sd_heads := [], sd_acts := [], db_seq := (db_seq db)(TRequests := db_seq db TRequests + 1)\<rparr>"
  using assms
  by (auto simp: createRequestHead_def insertHead_def withPendingLimitMapping_def nextval_def Let_def
      split: if_splits sum.splits)

section \<open>Keeping the requests\<close>

text \<open>Operations on stock and borrowing leave the requests and their lines alone.\<close>

definition same_requests :: "asset_db \<Rightarrow> asset_db \<Rightarrow> bool" where
  "same_requests db db' \<longleftrightarrow> sd_heads db' = sd_heads db \<and> db_requestItems db' = db_requestItems db
     \<and> db_changeItems db' = db_changeItems db \<and> db_consumables db' = db_consumables db
     \<and> db_seq db' TRequests = db_seq db TRequests"

lemma same_requests_refl [simp, intro]: "same_requests db db"
  by (simp add: same_requests_def)

lemma same_requests_trans [trans]: "same_requests a b \<Longrightarrow> same_requests b c \<Longrightarrow> same_requests a c"
  by (simp add: same_requests_def)

lemma same_rest_requests: "same_rest db db' \<Longrightarrow> same_requests db db'"
  by (simp add: same_requests_def same_restD)

lemma same_requests_pend: "same_requests db db' \<Longrightarrow> pend db' = pend db"
  by (rule pend_cong) (simp_all add: same_requests_def)

lemma same_requests_ok: "same_requests db db' \<Longrightarrow> requests_ok db' = requests_ok db"
  by (simp add: same_requests_def requests_ok_def keyed_def)

end
