(* ===== verification/Directory.thy ===== *)
theory Directory
  imports ApprovalKernel
begin

text \<open>
  What the asset service reads of the other schemas: accounts, functions and grants of
  \<open>backstage\<close> and the organisation of \<open>hr\<close>, with the access decisions of
  \<open>apps/asset/src/shared/cross-schema-auth.ts\<close> and \<open>department-closure.service.ts\<close>. The recursive
  view \<open>hr.department_closure\<close> is a table of ancestor and descendant pairs.
\<close>

record account_row =
  ua_userId :: int
  ua_name :: string
  ua_status :: string
  ua_sessionVersion :: int
  ua_isSuperAdmin :: bool
  ua_deleted :: bool

record org_row =
  uo_userId :: int
  uo_departmentId :: int
  uo_departmentName :: string

record function_row =
  fn_code :: string
  fn_systemCode :: string
  fn_systemName :: string
  fn_productStatus :: string

record grant_row =
  gr_userId :: int
  gr_functionCode :: string
  gr_dataScope :: data_scope

record directory =
  dir_accounts :: "account_row list"
  dir_orgs :: "org_row list"
  dir_functions :: "function_row list"
  dir_grants :: "grant_row list"
  dir_closure :: "(int \<times> int) list"

fun DATA_SCOPE_RANK :: "data_scope \<Rightarrow> nat" where
  "DATA_SCOPE_RANK SELF = 0"
| "DATA_SCOPE_RANK DEPARTMENT = 1"
| "DATA_SCOPE_RANK COMPANY = 2"

fun widest_loop :: "data_scope list \<Rightarrow> data_scope option \<Rightarrow> data_scope option" where
  "widest_loop [] widest = widest"
| "widest_loop (s # ss) widest =
     (case widest of
        None \<Rightarrow> widest_loop ss (Some s)
      | Some w \<Rightarrow> widest_loop ss (if DATA_SCOPE_RANK s > DATA_SCOPE_RANK w then Some s else widest))"

definition widestScope :: "data_scope list \<Rightarrow> data_scope option" where
  "widestScope scopes = widest_loop scopes None"

definition loadSessionUser :: "int \<Rightarrow> directory \<Rightarrow> account_row option" where
  "loadSessionUser userId dir =
     (case find (\<lambda>a. ua_userId a = userId) (dir_accounts dir) of
        None \<Rightarrow> None
      | Some user \<Rightarrow> if ua_deleted user then None else Some user)"

definition loadUserName :: "int \<Rightarrow> directory \<Rightarrow> string" where
  "loadUserName userId dir =
     (case find (\<lambda>a. ua_userId a = userId) (dir_accounts dir) of None \<Rightarrow> [] | Some a \<Rightarrow> ua_name a)"

record function_access =
  fa_registered :: bool
  fa_systemCode :: "string option"
  fa_systemName :: "string option"
  fa_systemOpen :: bool
  fa_allowed :: bool
  fa_dataScope :: "data_scope option"

definition getFunctionAccess :: "bool \<Rightarrow> int \<Rightarrow> string \<Rightarrow> directory \<Rightarrow> function_access" where
  "getFunctionAccess includeImplicitSuperAdmin userId functionCode dir =
     (case find (\<lambda>f. fn_code f = functionCode) (dir_functions dir) of
        None \<Rightarrow> \<lparr>fa_registered = False, fa_systemCode = None, fa_systemName = None, fa_systemOpen = False,
                 fa_allowed = False, fa_dataScope = None\<rparr>
      | Some fn \<Rightarrow>
          let base = \<lparr>fa_registered = True, fa_systemCode = Some (fn_systemCode fn),
                      fa_systemName = Some (fn_systemName fn),
                      fa_systemOpen = (fn_productStatus fn = ''OPEN''), fa_allowed = False, fa_dataScope = None\<rparr>
          in case loadSessionUser userId dir of
               None \<Rightarrow> base
             | Some user \<Rightarrow>
                 if ua_isSuperAdmin user \<and> includeImplicitSuperAdmin then base\<lparr>fa_allowed := True\<rparr>
                 else let grants = filter (\<lambda>g. gr_userId g = userId \<and> gr_functionCode g = functionCode)
                             (dir_grants dir)
                      in if grants = [] then base
                         else base\<lparr>fa_allowed := True, fa_dataScope := widestScope (map gr_dataScope grants)\<rparr>)"

definition assertFunctionAccess :: "int \<Rightarrow> string \<Rightarrow> directory \<Rightarrow> err + function_access" where
  "assertFunctionAccess userId functionCode dir =
     (let access = getFunctionAccess True userId functionCode dir in
      if \<not> fa_registered access \<or> \<not> fa_allowed access then Inl (Biz RESOURCE_NOT_FOUND)
      else if \<not> fa_systemOpen access then Inl (Biz SYSTEM_NOT_OPEN)
      else Inr access)"

definition closureOf :: "int list \<Rightarrow> directory \<Rightarrow> int list" where
  "closureOf departmentIds dir =
     (if departmentIds = [] then []
      else remdups (map snd (filter (\<lambda>(a, d). a \<in> set departmentIds) (dir_closure dir))))"

definition closureOfUser :: "int \<Rightarrow> directory \<Rightarrow> int list" where
  "closureOfUser userId dir =
     closureOf (map uo_departmentId (filter (\<lambda>o'. uo_userId o' = userId) (dir_orgs dir))) dir"

section \<open>Facts\<close>

lemma widest_loop_some:
  "\<exists>r. widest_loop ss (Some w) = Some r \<and> r \<in> insert w (set ss)
    \<and> (\<forall>s \<in> insert w (set ss). DATA_SCOPE_RANK s \<le> DATA_SCOPE_RANK r)"
proof (induction ss arbitrary: w)
  case (Cons s ss)
  show ?case
  proof (cases "DATA_SCOPE_RANK s > DATA_SCOPE_RANK w")
    case True
    obtain r where "widest_loop ss (Some s) = Some r" "r \<in> insert s (set ss)"
        "\<forall>x \<in> insert s (set ss). DATA_SCOPE_RANK x \<le> DATA_SCOPE_RANK r" using Cons.IH [of s] by auto
    with True show ?thesis by auto
  next
    case False
    obtain r where "widest_loop ss (Some w) = Some r" "r \<in> insert w (set ss)"
        "\<forall>x \<in> insert w (set ss). DATA_SCOPE_RANK x \<le> DATA_SCOPE_RANK r" using Cons.IH [of w] by auto
    with False show ?thesis by auto
  qed
qed simp

lemma widestScope_max:
  assumes "scopes \<noteq> []"
  obtains w where "widestScope scopes = Some w" and "w \<in> set scopes"
    and "\<And>s. s \<in> set scopes \<Longrightarrow> DATA_SCOPE_RANK s \<le> DATA_SCOPE_RANK w"
proof (cases scopes)
  case Nil
  then show ?thesis using assms by simp
next
  case (Cons s ss)
  then show ?thesis using widest_loop_some [of ss s] that by (auto simp: widestScope_def)
qed

text \<open>A closed system lets nobody in, not even the super administrator.\<close>

lemma assertFunctionAccess_ok:
  assumes "assertFunctionAccess userId code dir = Inr access"
  shows "fa_systemOpen access" and "fa_allowed access" and "access = getFunctionAccess True userId code dir"
  using assms by (auto simp: assertFunctionAccess_def Let_def split: if_splits)

end
