(* ===== verification/Claims.thy ===== *)
theory Claims
  imports AssetRequests Directory
begin

text \<open>
  Claims of consumables: one's own (\<open>claim.service.ts\<close>, with the quota periods of
  \<open>shared/quota-period.ts\<close>) and an agent's for others (\<open>agent-claim.service.ts\<close>). A submission
  reserves stock and quota; an approval issues batches first in first out and opens borrow
  records for what has to come back; a rejection or cancellation releases what was reserved.
\<close>

section \<open>Quota periods\<close>

text \<open>A cycle that is not set falls through to the monthly branch.\<close>

definition computeCycleKey :: "int \<Rightarrow> quota_cycle option \<Rightarrow> int \<Rightarrow> string" where
  "computeCycleKey now cycle resetDay =
     (let (year, month, day) = utc_date (now + BEIJING_OFFSET);
          pad = (\<lambda>m. padStart 2 (CHR ''0'') (int_str m))
      in if cycle = Some YEAR then
           (if day < resetDay \<and> month = 1 then int_str (year - 1) else int_str year)
         else if cycle = Some QUARTER then
           (let firstMonth = (month - 1) div 3 * 3 + 1
            in if day < resetDay \<and> month = firstMonth then
                 (let (py, pm) = (if firstMonth = 1 then (year - 1, 10) else (year, firstMonth - 3))
                  in int_str py @ ''-Q'' @ int_str (- ((- pm) div 3)))
               else int_str year @ ''-Q'' @ int_str (- ((- firstMonth) div 3)))
         else if day < resetDay then
           (let (py, pm) = (if month = 1 then (year - 1, 12) else (year, month - 1))
            in int_str py @ ''-'' @ pad pm)
         else int_str year @ ''-'' @ pad month)"

text \<open>The setting, read by \<open>Number\<close>; \<open>None\<close> for a value that is no finite number.\<close>

definition getQuotaResetDay :: "rat option \<Rightarrow> int" where
  "getQuotaResetDay setting =
     (case setting of
        None \<Rightarrow> 1
      | Some v \<Rightarrow> if v = of_int \<lfloor>v\<rfloor> \<and> 1 \<le> v \<and> v \<le> 28 then \<lfloor>v\<rfloor> else 1)"

section \<open>Claims\<close>

record quota_config =
  qc_type :: consumable_type
  qc_quotaCycle :: "quota_cycle option"
  qc_quotaLimit :: "int option"
  qc_returnDays :: "int option"
  qc_maxHolding :: "int option"

record claim_item =
  cm_inventoryItemId :: int
  cm_qty :: int
  cm_purpose :: "string option"

record claim_line =
  cl_inventoryItemId :: int
  cl_consumableId :: int
  cl_consumableName :: string
  cl_spec :: string
  cl_warehouseName :: string
  cl_warehousePath :: string
  cl_qty :: int
  cl_purpose :: "string option"

record quota_check =
  qk_key :: string
  qk_consumableId :: int
  qk_config :: quota_config
  qk_cycleKey :: "string option"
  qk_claimed :: int

definition find_lock :: "int \<Rightarrow> item_lock list \<Rightarrow> item_lock option" where
  "find_lock k rows = find (\<lambda>r. lk_id r = k) rows"

definition find_consumable :: "int \<Rightarrow> asset_db \<Rightarrow> consumable_row option" where
  "find_consumable c db = find (\<lambda>r. co_id r = c) (db_consumables db)"

definition claim_check :: "int \<Rightarrow> int \<Rightarrow> int \<Rightarrow> item_lock \<Rightarrow> consumable_row \<Rightarrow> int \<Rightarrow> quota_check" where
  "claim_check operatorId now resetDay row consumable qty =
     (let config = \<lparr>qc_type = co_type consumable, qc_quotaCycle = co_quotaCycle consumable,
                   qc_quotaLimit = co_quotaLimit consumable, qc_returnDays = co_returnDays consumable,
                   qc_maxHolding = co_maxHolding consumable\<rparr>;
          prefix = ''asset.quota.'' @ int_str operatorId @ ''.'' @ int_str (lk_consumableId row) @ ''.''
      in if qc_type config = DISPOSABLE then
           (let cycleKey = computeCycleKey now (qc_quotaCycle config) resetDay
            in \<lparr>qk_key = prefix @ cycleKey, qk_consumableId = lk_consumableId row, qk_config = config,
                qk_cycleKey = Some cycleKey, qk_claimed = qty\<rparr>)
         else \<lparr>qk_key = prefix @ ''holding'', qk_consumableId = lk_consumableId row, qk_config = config,
                qk_cycleKey = None, qk_claimed = qty\<rparr>)"

text \<open>The loop over the submitted items: what one item gives, or the error that ends the loop.\<close>

definition claim_item_step ::
    "int \<Rightarrow> int \<Rightarrow> int \<Rightarrow> item_lock list \<Rightarrow> asset_db \<Rightarrow> claim_item
      \<Rightarrow> claim_line list \<times> quota_check list \<Rightarrow> err + (claim_line list \<times> quota_check list)" where
  "claim_item_step operatorId now resetDay locked db item acc =
     (case find_lock (cm_inventoryItemId item) locked of
        None \<Rightarrow> Inl PlainError
      | Some row \<Rightarrow>
          if lk_bookQty row - lk_reservedQty row < cm_qty item then Inl (Biz INSUFFICIENT_STOCK)
          else (case find_consumable (lk_consumableId row) db of
              None \<Rightarrow> Inl (Biz CONSUMABLE_DISABLED)
            | Some consumable \<Rightarrow>
                if co_status consumable \<noteq> ACTIVE then Inl (Biz CONSUMABLE_DISABLED)
                else Inr (fst acc @
                       [\<lparr>cl_inventoryItemId = cm_inventoryItemId item, cl_consumableId = lk_consumableId row,
                         cl_consumableName = co_name consumable, cl_spec = lk_spec row,
                         cl_warehouseName = lk_warehouseName row, cl_warehousePath = lk_warehousePath row,
                         cl_qty = cm_qty item, cl_purpose = cm_purpose item\<rparr>],
                     snd acc @ [claim_check operatorId now resetDay row consumable (cm_qty item)])))"

fun merge_check :: "quota_check \<Rightarrow> quota_check list \<Rightarrow> quota_check list" where
  "merge_check c [] = [c]"
| "merge_check c (m # ms) =
     (if qk_key m = qk_key c then m\<lparr>qk_claimed := qk_claimed m + qk_claimed c\<rparr> # ms
      else m # merge_check c ms)"

definition merge_checks :: "quota_check list \<Rightarrow> quota_check list" where
  "merge_checks checks = fold merge_check checks []"

definition quota_used :: "asset_db \<Rightarrow> int \<Rightarrow> int \<Rightarrow> string option \<Rightarrow> int" where
  "quota_used db userId consumableId cycleKey =
     sum_where (\<lambda>q. qo_userId q = userId \<and> qo_consumableId q = consumableId
         \<and> (cycleKey \<noteq> None \<and> qo_cycleKey q = cycleKey) \<and> qo_status q \<in> {RESERVED, CONSUMED})
       qo_qty (db_quotas db)"

definition holding :: "asset_db \<Rightarrow> int \<Rightarrow> int \<Rightarrow> int" where
  "holding db userId consumableId =
     sum_where (\<lambda>b. br_userId b = Some userId \<and> br_type b = PERSONAL
         \<and> (\<exists>i \<in> set (db_items db). it_id i = br_itemId b \<and> it_consumableId i = consumableId))
       br_open (db_borrows db)"

definition holding_reserved :: "asset_db \<Rightarrow> int \<Rightarrow> int \<Rightarrow> int" where
  "holding_reserved db userId consumableId =
     sum_where (\<lambda>q. qo_userId q = userId \<and> qo_consumableId q = consumableId
         \<and> qo_type q = REUSABLE_HOLDING \<and> qo_status q = RESERVED)
       qo_qty (db_quotas db)"

definition opt0 :: "int option \<Rightarrow> int" where
  "opt0 v = (case v of None \<Rightarrow> 0 | Some n \<Rightarrow> n)"

definition assertQuota :: "int \<Rightarrow> quota_check \<Rightarrow> asset_db \<Rightarrow> err + unit" where
  "assertQuota userId check db =
     (if qc_type (qk_config check) = DISPOSABLE then
        (if quota_used db userId (qk_consumableId check) (qk_cycleKey check) + qk_claimed check
            > opt0 (qc_quotaLimit (qk_config check))
         then Inl (Biz INSUFFICIENT_QUOTA) else Inr ())
      else
        (if holding db userId (qk_consumableId check) + holding_reserved db userId (qk_consumableId check)
            + qk_claimed check > opt0 (qc_maxHolding (qk_config check))
         then Inl (Biz INSUFFICIENT_QUOTA) else Inr ()))"

definition assertQuotas :: "int \<Rightarrow> quota_check list \<Rightarrow> asset_db \<Rightarrow> err + unit" where
  "assertQuotas userId checks db = foldR (\<lambda>c x. assertQuota userId c db) checks ()"

definition insertQuota :: "quota_row \<Rightarrow> asset_db \<Rightarrow> err + asset_db" where
  "insertQuota q db =
     (let (i, db1) = nextval TQuotas db
      in bindR (insert_row (\<lambda>q. 0 < qo_qty q \<and> int4 (qo_qty q)) (\<lambda>q q'. False) []
             (q\<lparr>qo_id := i\<rparr>) (db_quotas db1))
           (\<lambda>qs. Inr (db1\<lparr>db_quotas := qs\<rparr>)))"

definition reserveLine :: "claim_line \<Rightarrow> asset_db \<Rightarrow> err + asset_db" where
  "reserveLine line db = addItem (cl_inventoryItemId line) 0 (cl_qty line) db"

definition createLine :: "int \<Rightarrow> claim_line \<Rightarrow> asset_db \<Rightarrow> err + asset_db" where
  "createLine headId line db =
     insertRequestItem
       \<lparr>ri_id = 0, ri_requestId = headId, ri_itemId = cl_inventoryItemId line,
        ri_consumableName = cl_consumableName line, ri_spec = cl_spec line,
        ri_warehouseName = cl_warehouseName line, ri_warehousePath = cl_warehousePath line,
        ri_qty = cl_qty line, ri_purpose = cl_purpose line\<rparr> db"

definition createQuota :: "int \<Rightarrow> claim_line list \<Rightarrow> int \<Rightarrow> quota_check \<Rightarrow> asset_db \<Rightarrow> err + asset_db" where
  "createQuota operatorId lines headId check db =
     (let name = (case find (\<lambda>l. cl_consumableId l = qk_consumableId check) lines of
                    None \<Rightarrow> [] | Some l \<Rightarrow> cl_consumableName l);
          disposable = (qc_type (qk_config check) = DISPOSABLE)
      in insertQuota
           \<lparr>qo_id = 0, qo_userId = operatorId, qo_consumableId = qk_consumableId check,
            qo_consumableName = name,
            qo_type = (if disposable then DISPOSABLE_CYCLE else REUSABLE_HOLDING),
            qo_cycle = (if disposable then qc_quotaCycle (qk_config check) else None),
            qo_cycleKey = (if disposable then qk_cycleKey check else None),
            qo_requestId = headId, qo_qty = qk_claimed check, qo_status = RESERVED\<rparr> db)"

definition claimSubmit ::
    "operator \<Rightarrow> json \<Rightarrow> claim_item list \<Rightarrow> int \<Rightarrow> int \<Rightarrow> nat \<Rightarrow> asset_db
      \<Rightarrow> err + ((int \<times> string) \<times> asset_db)" where
  "claimSubmit operator departments items resetDay now suffix db =
     (let itemIds = map cm_inventoryItemId items in
      if \<not> distinct itemIds then Inl (Biz ITEM_DUPLICATED)
      else let locked = lockInventoryItems itemIds db in
        if length locked \<noteq> length itemIds then Inl (Biz RESOURCE_NOT_FOUND)
        else bindR (foldR (claim_item_step (fst operator) now resetDay locked db) items ([], []))
          (\<lambda>(lines, checks).
             let merged = merge_checks checks in
             bindR (assertQuotas (fst operator) merged db) (\<lambda>u.
             bindR (foldR reserveLine lines db) (\<lambda>db1.
             bindR (createRequestHead now suffix
                      \<lparr>rq_requestType = ''CONSUMABLE_REQUEST'', rq_applicantId = fst operator,
                       rq_applicantName = snd operator, rq_departmentSnapshot = departments,
                       rq_refRequestId = None, rq_proxyId = None, rq_proxyName = None, rq_remark = None\<rparr> db1)
               (\<lambda>(head, db2).
             bindR (foldR (createLine (fst head)) lines db2) (\<lambda>db3.
             bindR (foldR (createQuota (fst operator) lines (fst head)) merged db3) (\<lambda>db4.
             Inr (head, db4))))))))"

section \<open>Approval\<close>

text \<open>The head a side effect sees.\<close>

record side_head =
  sh_id :: int
  sh_requestType :: string
  sh_applicantId :: int
  sh_applicantName :: string
  sh_departmentSnapshot :: json
  sh_processorId :: "int option"
  sh_processorName :: "string option"

text \<open>\<open>head.processorName ?? '\<dots>'\<close>: the name of the approval system stands in for a missing one.\<close>

definition SYSTEM_NAME :: string where
  "SYSTEM_NAME = ''approval-system''"

definition processor_name :: "side_head \<Rightarrow> string" where
  "processor_name head = (case sh_processorName head of None \<Rightarrow> SYSTEM_NAME | Some n \<Rightarrow> n)"

fun issueFlows ::
    "flow_type \<Rightarrow> string \<Rightarrow> int \<Rightarrow> operator \<Rightarrow> item_lock \<Rightarrow> batch_allocation list \<Rightarrow> int \<Rightarrow> asset_db
      \<Rightarrow> err + asset_db" where
  "issueFlows ty refType refId operator row [] bookBefore db = Inr db"
| "issueFlows ty refType refId operator row (a # as) bookBefore db =
     (let after = bookBefore - snd a in
      bindR (writeStockFlow
        \<lparr>fi_type = ty, fi_direction = OUT, fi_item = row, fi_batchId = Some (fst a), fi_qty = snd a,
         fi_bookBefore = bookBefore, fi_bookAfter = after, fi_refType = refType, fi_refId = refId,
         fi_operator = operator\<rparr> db)
        (\<lambda>(i, db'). issueFlows ty refType refId operator row as after db'))"

text \<open>Take a line out of stock: allocate its batches, lower both quantities, write the flows.\<close>

definition issueLine ::
    "flow_type \<Rightarrow> string \<Rightarrow> int \<Rightarrow> operator \<Rightarrow> item_lock \<Rightarrow> int \<Rightarrow> int \<Rightarrow> asset_db
      \<Rightarrow> err + (batch_allocation list \<times> asset_db)" where
  "issueLine ty refType refId operator row itemId qty db =
     bindR (allocateFifoBatches itemId qty db) (\<lambda>(allocations, db1).
     bindR (addItem itemId (- qty) (- qty) db1) (\<lambda>db2.
     bindR (issueFlows ty refType refId operator row allocations (lk_bookQty row) db2) (\<lambda>db3.
     Inr (allocations, db3))))"

definition openBorrow :: "borrow_row \<Rightarrow> batch_allocation list \<Rightarrow> asset_db \<Rightarrow> err + asset_db" where
  "openBorrow b allocations db =
     bindR (insertBorrow b db) (\<lambda>(recordId, db1).
       foldR (\<lambda>a. insertAlloc \<lparr>al_id = 0, al_recordId = recordId, al_batchId = fst a,
                               al_issuedQty = snd a, al_returnedQty = 0\<rparr>) allocations db1)"

definition DAY :: int where
  "DAY = 24 * 60 * 60 * 1000"

definition borrow_of ::
    "record_type \<Rightarrow> int option \<Rightarrow> string option \<Rightarrow> json \<Rightarrow> int option \<Rightarrow> int \<Rightarrow> request_item \<Rightarrow> int
      \<Rightarrow> consumable_row \<Rightarrow> borrow_row" where
  "borrow_of ty userId userName snapshot agentRequestId headId line now consumable =
     \<lparr>br_id = 0, br_type = ty, br_userId = userId, br_userName = userName,
      br_departmentSnapshot = snapshot, br_agentRequestId = agentRequestId, br_requestId = headId,
      br_itemId = ri_itemId line, br_consumableName = ri_consumableName line, br_spec = ri_spec line,
      br_warehouseName = ri_warehouseName line, br_warehousePath = ri_warehousePath line,
      br_qty = ri_qty line, br_borrowedAt = now, br_dueAt = now + opt0 (co_returnDays consumable) * DAY,
      br_returnedQty = 0, br_writtenOffQty = 0\<rparr>"

text \<open>Only what has to come back is recorded as borrowed.\<close>

definition openIfReusable ::
    "(consumable_row \<Rightarrow> borrow_row) \<Rightarrow> int \<Rightarrow> batch_allocation list \<Rightarrow> asset_db \<Rightarrow> err + asset_db" where
  "openIfReusable mk consumableId allocations db =
     (case find_consumable consumableId db of
        None \<Rightarrow> Inr db
      | Some consumable \<Rightarrow>
          if co_type consumable = REUSABLE then openBorrow (mk consumable) allocations db else Inr db)"

definition claimApplyLine ::
    "int \<Rightarrow> side_head \<Rightarrow> int \<Rightarrow> item_lock list \<Rightarrow> request_item \<Rightarrow> asset_db \<Rightarrow> err + asset_db" where
  "claimApplyLine now head processorId locked line db =
     (case find_lock (ri_itemId line) locked of
        None \<Rightarrow> Inl (Biz RESOURCE_NOT_FOUND)
      | Some row \<Rightarrow>
          if lk_reservedQty row < ri_qty line then Inl (Biz STOCK_CONFLICT)
          else
            bindR (issueLine ISSUE ''CONSUMABLE_REQUEST'' (sh_id head) (processorId, processor_name head)
                     row (ri_itemId line) (ri_qty line) db)
              (\<lambda>(allocations, db1).
                 bindR (openIfReusable
                     (borrow_of PERSONAL (Some (sh_applicantId head)) (Some (sh_applicantName head))
                        (or_json_null (sh_departmentSnapshot head)) None (sh_id head) line now)
                     (lk_consumableId row) allocations db1)
                   (\<lambda>db2. Inr (cleanupEmptyItem (ri_itemId line) db2))))"

definition setQuotas :: "int \<Rightarrow> quota_status \<Rightarrow> asset_db \<Rightarrow> asset_db" where
  "setQuotas headId status db =
     db\<lparr>db_quotas := update_where (\<lambda>q. qo_requestId q = headId \<and> qo_status q = RESERVED)
          (\<lambda>q. q\<lparr>qo_status := status\<rparr>) (db_quotas db)\<rparr>"

definition claimApplyApproved :: "int \<Rightarrow> side_head \<Rightarrow> int \<Rightarrow> asset_db \<Rightarrow> err + asset_db" where
  "claimApplyApproved now head processorId db =
     (let lines = requestLines (sh_id head) db;
          locked = lockInventoryItems (map ri_itemId lines) db
      in bindR (foldR (claimApplyLine now head processorId locked) lines db)
           (\<lambda>db'. Inr (setQuotas (sh_id head) CONSUMED db')))"

definition releaseLines :: "request_item list \<Rightarrow> asset_db \<Rightarrow> err + asset_db" where
  "releaseLines lines db = foldR (\<lambda>line. releaseReserved (ri_itemId line) (ri_qty line)) lines db"

definition claimApplyRelease :: "side_head \<Rightarrow> asset_db \<Rightarrow> err + asset_db" where
  "claimApplyRelease head db =
     bindR (releaseLines (requestLines (sh_id head) db) db)
       (\<lambda>db'. Inr (setQuotas (sh_id head) RELEASED db'))"

end
