(* ===== verification/ClaimInvariant.thy ===== *)
theory ClaimInvariant
  imports Claims
begin

text \<open>
  What the claims do to stock and reservations: an issue lowers book, reservation, batches and
  ledger of an item by the same amount, and a release lowers the reservation alone.
\<close>

section \<open>Locked rows\<close>

lemma find_lock_Some:
  assumes "find_lock k rows = Some r"
  shows "lk_id r = k" and "r \<in> set rows"
  using assms by (auto simp: find_lock_def find_Some_iff)

lemma find_lock_ex:
  assumes "r \<in> set rows" and "lk_id r = k"
  shows "\<exists>row. find_lock k rows = Some row"
  using assms by (cases "find_lock k rows") (auto simp: find_lock_def find_None_iff)

lemma lockInventoryItems_mem:
  "r \<in> set (lockInventoryItems ids db) \<longleftrightarrow>
    (\<exists>i \<in> set (db_items db). \<exists>c \<in> set (db_consumables db).
       co_id c = it_consumableId i \<and> it_id i \<in> set ids \<and> r = lock_row i c)"
proof (cases "ids = []")
  case False
  then have "sort (remdups ids) \<noteq> []" by (metis set_empty set_remdups set_sort)
  then show ?thesis by (auto simp: lockInventoryItems_def Let_def)
qed (simp add: lockInventoryItems_def)

lemma lockInventoryItems_row:
  assumes "r \<in> set (lockInventoryItems ids db)"
  obtains i c where "i \<in> set (db_items db)" and "c \<in> set (db_consumables db)"
    and "co_id c = it_consumableId i" and "r = lock_row i c" and "it_id i \<in> set ids"
  using assms by (auto simp: lockInventoryItems_mem)

lemma lockInventoryItems_quantities:
  assumes "tables_ok db" and "r \<in> set (lockInventoryItems ids db)"
  shows "lk_bookQty r = book db (lk_id r)" and "lk_reservedQty r = reserved db (lk_id r)"
proof -
  obtain i c where "i \<in> set (db_items db)" "r = lock_row i c"
    using assms(2) by (rule lockInventoryItems_row)
  then show "lk_bookQty r = book db (lk_id r)" and "lk_reservedQty r = reserved db (lk_id r)"
    using book_row [OF assms(1)] by (simp_all add: lock_row_def)
qed

section \<open>Issuing\<close>

lemma issueFlows_shifts:
  assumes "issueFlows ty rt ri opr row as before db = Inr db'" and "tables_ok db"
  shows "shifts db db' none0 none0 none0 (atk (lk_id row) (- allocated as)) \<and> same_rest db db'
    \<and> db_items db' = db_items db \<and> db_batches db' = db_batches db"
  using assms
proof (induction as arbitrary: before db)
  case Nil
  then show ?case by (simp add: shifts_refl)
next
  case (Cons a as)
  obtain i db1 where one: "insertFlow
       \<lparr>fl_id = 0, fl_type = ty, fl_direction = OUT, fl_itemId = lk_id row, fl_batchId = Some (fst a),
        fl_consumableName = lk_consumableName row, fl_spec = lk_spec row,
        fl_warehouseName = lk_warehouseName row, fl_warehousePath = lk_warehousePath row, fl_qty = snd a,
        fl_bookBefore = before, fl_bookAfter = before - snd a, fl_refType = rt, fl_refId = ri,
        fl_operatorId = fst opr, fl_operatorName = snd opr\<rparr> db = Inr (i, db1)"
    and rest: "issueFlows ty rt ri opr row as (before - snd a) db1 = Inr db'"
    using Cons.prems(1) by (auto simp: bindR_Inr_iff writeStockFlow_def Let_def)
  note s1 = insertFlow_shifts [OF one Cons.prems(2)]
  note s2 = Cons.IH [OF rest shifts_tables_ok [OF s1(1)]]
  show ?case
    using shifts_trans [OF s1(1) s2 [THEN conjunct1]] s2 same_rest_trans [OF s1(2)] s1(3,4)
    by (simp add: flow_signed_def)
qed

lemma issueFlows_total:
  assumes "\<And>a. a \<in> set as \<Longrightarrow> 0 < snd a" and "allocated as \<le> before" and "int4 before"
  shows "\<exists>db'. issueFlows ty rt ri opr row as before db = Inr db'"
  using assms
proof (induction as arbitrary: before db)
  case (Cons a as)
  have a: "0 < snd a" using Cons.prems(1) by simp
  have nn: "0 \<le> allocated as"
    unfolding allocated_def using Cons.prems(1) by (intro sum_list_nonneg) (auto intro: less_imp_le)
  have "\<exists>db1. insertFlow
       \<lparr>fl_id = 0, fl_type = ty, fl_direction = OUT, fl_itemId = lk_id row, fl_batchId = Some (fst a),
        fl_consumableName = lk_consumableName row, fl_spec = lk_spec row,
        fl_warehouseName = lk_warehouseName row, fl_warehousePath = lk_warehousePath row, fl_qty = snd a,
        fl_bookBefore = before, fl_bookAfter = before - snd a, fl_refType = rt, fl_refId = ri,
        fl_operatorId = fst opr, fl_operatorName = snd opr\<rparr> db = Inr (db_seq db TFlows, db1)"
    using a nn Cons.prems(2,3) by (auto simp: insertFlow_Inr_iff flow_ok_def int4_def)
  then obtain db1 where db1: "insertFlow
       \<lparr>fl_id = 0, fl_type = ty, fl_direction = OUT, fl_itemId = lk_id row, fl_batchId = Some (fst a),
        fl_consumableName = lk_consumableName row, fl_spec = lk_spec row,
        fl_warehouseName = lk_warehouseName row, fl_warehousePath = lk_warehousePath row, fl_qty = snd a,
        fl_bookBefore = before, fl_bookAfter = before - snd a, fl_refType = rt, fl_refId = ri,
        fl_operatorId = fst opr, fl_operatorName = snd opr\<rparr> db = Inr (db_seq db TFlows, db1)" by blast
  have "\<exists>db'. issueFlows ty rt ri opr row as (before - snd a) db1 = Inr db'"
  proof (rule Cons.IH)
    show "int4 (before - snd a)" using a nn Cons.prems(2,3) by (simp add: int4_def)
  qed (use Cons.prems in auto)
  then show ?case by (simp add: writeStockFlow_def db1 Let_def)
qed simp

lemma issueLine_shifts:
  assumes "issueLine ty rt ri opr row k q db = Inr (as, db')" and "tables_ok db" and "0 \<le> q" and "lk_id row = k"
  shows "shifts db db' (atk k (- q)) (atk k (- q)) (atk k (- q)) (atk k (- q))" and "same_rest db db'"
    and "allocated as = q"
    and "\<And>a. a \<in> set as \<Longrightarrow> 0 < snd a \<and> (\<exists>b \<in> set (db_batches db). ba_id b = fst a \<and> ba_itemId b = k)"
    and "distinct (map fst as)"
proof -
  obtain db1 db2 where al: "allocateFifoBatches k q db = Inr (as, db1)"
    and up: "addItem k (- q) (- q) db1 = Inr db2"
    and fl: "issueFlows ty rt ri opr row as (lk_bookQty row) db2 = Inr db'"
    using assms(1) by (auto simp: issueLine_def bindR_Inr_iff)
  note a = allocate_shifts [OF al assms(2,3)]
  note u = addItem_shifts [OF up shifts_tables_ok [OF a(1)]]
  note f = issueFlows_shifts [OF fl shifts_tables_ok [OF u(1)]]
  show "shifts db db' (atk k (- q)) (atk k (- q)) (atk k (- q)) (atk k (- q))"
    using shifts_trans [OF shifts_trans [OF a(1) u(1)] f [THEN conjunct1]] a(3) assms(4) by simp
  show "same_rest db db'"
    using same_rest_trans [OF same_rest_trans [OF a(2) u(2)]] f by blast
  show "allocated as = q" by (rule a(3))
  show "\<And>a. a \<in> set as \<Longrightarrow> 0 < snd a \<and> (\<exists>b \<in> set (db_batches db). ba_id b = fst a \<and> ba_itemId b = k)"
    by (rule a(7))
  show "distinct (map fst as)" by (rule a(8))
qed

text \<open>A line within the reservation always goes out when stock is in order.\<close>

lemma issueLine_total:
  assumes inv: "stock_inv db" and q: "0 < q" "q \<le> reserved db k" and row: "lk_bookQty row = book db k"
  shows "\<exists>as db'. issueLine ty rt ri opr row k q db = Inr (as, db')"
proof -
  have ok: "tables_ok db" and bs: "book db = stock db" using inv by (simp_all add: stock_inv_def)
  obtain i where i: "i \<in> set (db_items db)" "it_id i = k" "it_bookQty i = book db k" "it_reservedQty i = reserved db k"
    using item_of_book [OF ok, of k] q by auto
  have iok: "item_ok i" using tables_okD(3) [OF ok i(1)] by simp
  have le: "q \<le> stock db k" using iok i(3,4) q(2) bs by (simp add: item_ok_def)
  obtain as db1 where al: "allocateFifoBatches k q db = Inr (as, db1)"
    using allocate_eq [OF ok, of q k] q(1) le by auto
  have q0: "0 \<le> q" using q(1) by simp
  note a = allocate_shifts [OF al ok q0]
  have "item_ok (item_add (- q) (- q) i)"
    using iok q i(3,4) by (auto simp: item_ok_def item_add_def int4_def)
  then obtain db2 where up: "addItem k (- q) (- q) db1 = Inr db2"
    using addItem_total [OF shifts_tables_ok [OF a(1)], of i k "- q" "- q"] i(1,2) a(4) by auto
  have "\<exists>db'. issueFlows ty rt ri opr row as (lk_bookQty row) db2 = Inr db'"
    using a(7,3) le row bs iok i(3) by (intro issueFlows_total) (auto simp: item_ok_def)
  then show ?thesis using al up by (auto simp: issueLine_def)
qed

section \<open>Opening borrow records\<close>

text \<open>What opening a record leaves alone.\<close>

lemma insertBorrow_Inr_iff:
  "insertBorrow b db = Inr (i, db') \<longleftrightarrow> borrow_ok b \<and> i = db_seq db TBorrows
    \<and> db' = db\<lparr>db_seq := (db_seq db)(TBorrows := db_seq db TBorrows + 1),
                db_borrows := db_borrows db @ [b\<lparr>br_id := db_seq db TBorrows\<rparr>]\<rparr>"
  by (auto simp: insertBorrow_def nextval_def Let_def bindR_Inr_iff insert_row_Inr_iff borrow_ok_def)

lemma insertAlloc_Inr_iff:
  "insertAlloc a db = Inr db' \<longleftrightarrow> alloc_ok a
    \<and> (\<forall>a' \<in> set (db_allocs db). \<not> (al_recordId a = al_recordId a' \<and> al_batchId a = al_batchId a'))
    \<and> db' = db\<lparr>db_seq := (db_seq db)(TAllocs := db_seq db TAllocs + 1),
                db_allocs := db_allocs db @ [a\<lparr>al_id := db_seq db TAllocs\<rparr>]\<rparr>"
  by (auto simp: insertAlloc_def nextval_def Let_def bindR_Inr_iff insert_row_Inr_iff alloc_ok_def)

definition alloc_of :: "int \<Rightarrow> batch_allocation \<Rightarrow> alloc_row" where
  "alloc_of recordId a =
     \<lparr>al_id = 0, al_recordId = recordId, al_batchId = fst a, al_issuedQty = snd a, al_returnedQty = 0\<rparr>"

lemma insertAllocs_frame:
  assumes "foldR (\<lambda>a. insertAlloc (alloc_of r a)) as db = Inr db'" and "tables_ok db"
  shows "shifts db db' none0 none0 none0 none0 \<and> same_requests db db' \<and> db_items db' = db_items db
    \<and> db_borrows db' = db_borrows db \<and> db_quotas db' = db_quotas db"
  using assms
proof (induction as arbitrary: db)
  case Nil
  then show ?case by (simp add: shifts_refl)
next
  case (Cons a as)
  obtain d where d: "insertAlloc (alloc_of r a) db = Inr d" "foldR (\<lambda>a. insertAlloc (alloc_of r a)) as d = Inr db'"
    using Cons.prems(1) by (auto simp: bindR_Inr_iff)
  have one: "shifts db d none0 none0 none0 none0" "same_requests db d"
    using d(1) Cons.prems(2) by (auto simp: insertAlloc_Inr_iff same_requests_def intro!: shifts_frame)
  show ?case
    using Cons.IH [OF d(2) shifts_tables_ok [OF one(1)]] shifts_trans [OF one(1)] same_requests_trans [OF one(2)] d(1)
    by (auto simp: insertAlloc_Inr_iff)
qed

lemma openBorrow_alt:
  "openBorrow b as db = bindR (insertBorrow b db) (\<lambda>(r, d). foldR (\<lambda>a. insertAlloc (alloc_of r a)) as d)"
  by (simp add: openBorrow_def alloc_of_def)

lemma openBorrow_frame:
  assumes "openBorrow b as db = Inr db'" and "tables_ok db"
  shows "shifts db db' none0 none0 none0 none0" and "same_requests db db'" and "db_items db' = db_items db"
    and "db_quotas db' = db_quotas db"
    and "db_borrows db' = db_borrows db @ [b\<lparr>br_id := db_seq db TBorrows\<rparr>]"
proof -
  obtain d where d: "insertBorrow b db = Inr (db_seq db TBorrows, d)"
    "foldR (\<lambda>a. insertAlloc (alloc_of (db_seq db TBorrows) a)) as d = Inr db'"
    using assms(1) by (auto simp: openBorrow_alt bindR_Inr_iff insertBorrow_Inr_iff)
  have one: "shifts db d none0 none0 none0 none0" "same_requests db d"
    using d(1) assms(2) by (auto simp: insertBorrow_Inr_iff same_requests_def intro!: shifts_frame)
  note two = insertAllocs_frame [OF d(2) shifts_tables_ok [OF one(1)]]
  show "shifts db db' none0 none0 none0 none0" "same_requests db db'" "db_items db' = db_items db"
    "db_quotas db' = db_quotas db" "db_borrows db' = db_borrows db @ [b\<lparr>br_id := db_seq db TBorrows\<rparr>]"
    using two shifts_trans [OF one(1)] same_requests_trans [OF one(2)] d(1)
    by (auto simp: insertBorrow_Inr_iff)
qed

lemma openIfReusable_frame:
  assumes "openIfReusable mk c as db = Inr db'" and "tables_ok db"
  shows "shifts db db' none0 none0 none0 none0 \<and> same_requests db db' \<and> db_items db' = db_items db
    \<and> db_quotas db' = db_quotas db"
  using assms openBorrow_frame [OF _ assms(2)] shifts_refl [OF assms(2)]
  by (auto simp: openIfReusable_def split: option.splits if_splits)

section \<open>Approval and release of a claim\<close>

lemma cleanup_requests: "same_requests db (cleanupEmptyItem k db)"
  by (simp add: same_requests_def cleanupEmptyItem_def)

lemma claimApplyLine_shifts:
  assumes "claimApplyLine now head p locked line db = Inr db'" and "tables_ok db" and "0 \<le> ri_qty line"
  shows "shifts db db' (atk (ri_itemId line) (- ri_qty line)) (atk (ri_itemId line) (- ri_qty line))
      (atk (ri_itemId line) (- ri_qty line)) (atk (ri_itemId line) (- ri_qty line)) \<and> same_requests db db'"
proof -
  let ?k = "ri_itemId line" and ?q = "ri_qty line"
  obtain row as db1 db2 where row: "find_lock ?k locked = Some row"
    and iss: "issueLine ISSUE ''CONSUMABLE_REQUEST'' (sh_id head) (p, processor_name head) row ?k ?q db = Inr (as, db1)"
    and bor: "openIfReusable (borrow_of PERSONAL (Some (sh_applicantId head)) (Some (sh_applicantName head))
        (or_json_null (sh_departmentSnapshot head)) None (sh_id head) line now) (lk_consumableId row) as db1 = Inr db2"
    and db': "db' = cleanupEmptyItem ?k db2"
    using assms(1) by (auto simp: claimApplyLine_def bindR_Inr_iff split: option.splits if_splits)
  note i = issueLine_shifts [OF iss assms(2,3) find_lock_Some(1) [OF row]]
  have ok1: "tables_ok db1" by (rule shifts_tables_ok [OF i(1)])
  have b: "shifts db1 db2 none0 none0 none0 none0" "same_requests db1 db2"
    using openIfReusable_frame [OF bor ok1] by simp_all
  note c = cleanup_shifts(1) [OF shifts_tables_ok [OF b(1)], of ?k]
  show ?thesis
    using shifts_trans [OF shifts_trans [OF i(1) b(1)] c]
      same_requests_trans [OF same_requests_trans [OF same_rest_requests [OF i(2)] b(2)] cleanup_requests]
    by (simp add: db')
qed

section \<open>Loops over lines\<close>

text \<open>What the lines take in total of each item.\<close>

definition demand :: "('l \<Rightarrow> int) \<Rightarrow> ('l \<Rightarrow> int) \<Rightarrow> 'l list \<Rightarrow> int \<Rightarrow> int" where
  "demand item qty ls k = sum_list (map (\<lambda>l. if item l = k then qty l else 0) ls)"

lemma demand_simps [simp]:
  "demand item qty [] k = 0"
  "demand item qty (l # ls) k = (if item l = k then qty l else 0) + demand item qty ls k"
  by (simp_all add: demand_def)

lemma demand_nonneg: "(\<And>l. l \<in> set ls \<Longrightarrow> 0 \<le> qty l) \<Longrightarrow> 0 \<le> demand item qty ls k"
  unfolding demand_def by (intro sum_list_nonneg) auto

lemma demand_mem:
  assumes "l \<in> set ls" and "\<And>l. l \<in> set ls \<Longrightarrow> 0 \<le> qty l"
  shows "qty l \<le> demand item qty ls (item l)"
  using assms
proof (induction ls)
  case (Cons m ls)
  have "0 \<le> demand item qty ls (item l)" using Cons.prems(2) by (intro demand_nonneg) simp
  moreover have "l \<noteq> m \<Longrightarrow> qty l \<le> demand item qty ls (item l)" using Cons by simp
  ultimately show ?case using Cons.prems(2) [of m] by (cases "l = m") auto
qed simp

lemma total_demand: "total (\<lambda>l. atk (item l) (- qty l)) ls = (\<lambda>k. - demand item qty ls k)"
  by (rule ext) (induction ls, auto simp: none0_apply padd_apply atk_apply)

text \<open>What an approval needs of the other tables: keys of records, and consumables of items.\<close>

definition links_ok :: "asset_db \<Rightarrow> bool" where
  "links_ok db \<longleftrightarrow> (\<forall>a \<in> set (db_allocs db). al_recordId a < db_seq db TBorrows)
     \<and> (\<forall>i \<in> set (db_items db). \<exists>c \<in> set (db_consumables db). co_id c = it_consumableId i)"

text \<open>
  The interface of a service that takes the lines of a request out of stock: a line that
  succeeds moves all four quantities of its item, and a line within the reservation succeeds.
\<close>

locale issuing_lines =
  fixes step :: "item_lock list \<Rightarrow> 'l \<Rightarrow> asset_db \<Rightarrow> err + asset_db"
    and item :: "'l \<Rightarrow> int" and qty :: "'l \<Rightarrow> int"
  assumes step_shifts:
    "step locked l db = Inr db' \<Longrightarrow> tables_ok db \<Longrightarrow> 0 \<le> qty l \<Longrightarrow>
      shifts db db' (atk (item l) (- qty l)) (atk (item l) (- qty l)) (atk (item l) (- qty l)) (atk (item l) (- qty l))
      \<and> same_requests db db'"
    and step_total:
    "find_lock (item l) locked = Some row \<Longrightarrow> stock_inv db \<Longrightarrow> links_ok db \<Longrightarrow> 0 < qty l \<Longrightarrow>
      qty l \<le> reserved db (item l) \<Longrightarrow> lk_bookQty row = book db (item l) \<Longrightarrow> lk_reservedQty row = reserved db (item l) \<Longrightarrow>
      \<exists>db'. step locked l db = Inr db' \<and> links_ok db'"
begin

lemma lines_shifts:
  assumes "foldR (step locked) ls db = Inr db'" and "tables_ok db" and "\<And>l. l \<in> set ls \<Longrightarrow> 0 \<le> qty l"
  shows "shifts db db' (\<lambda>k. - demand item qty ls k) (\<lambda>k. - demand item qty ls k)
      (\<lambda>k. - demand item qty ls k) (\<lambda>k. - demand item qty ls k) \<and> same_requests db db'"
  using foldR_shifts [OF assms(1,2), of same_requests "\<lambda>l. atk (item l) (- qty l)" "\<lambda>l. atk (item l) (- qty l)"
      "\<lambda>l. atk (item l) (- qty l)" "\<lambda>l. atk (item l) (- qty l)"]
    step_shifts assms(3) same_requests_trans
  unfolding total_demand by blast

lemma lines_total:
  assumes "\<And>l. l \<in> set ls \<Longrightarrow> \<exists>row. find_lock (item l) locked = Some row
      \<and> lk_bookQty row = book db (item l) \<and> lk_reservedQty row = reserved db (item l)"
    and "distinct (map item ls)" and "\<And>l. l \<in> set ls \<Longrightarrow> 0 < qty l \<and> qty l \<le> reserved db (item l)"
    and "stock_inv db" and "links_ok db"
  shows "\<exists>db'. foldR (step locked) ls db = Inr db' \<and> links_ok db'"
  using assms
proof (induction ls arbitrary: db)
  case (Cons l ls)
  obtain row where row: "find_lock (item l) locked = Some row" "lk_bookQty row = book db (item l)"
    "lk_reservedQty row = reserved db (item l)" using Cons.prems(1) [of l] by auto
  obtain d where d: "step locked l db = Inr d" "links_ok d"
    using step_total [OF row(1) Cons.prems(4,5) _ _ row(2,3)] Cons.prems(3) [of l] by auto
  have s: "shifts db d (atk (item l) (- qty l)) (atk (item l) (- qty l)) (atk (item l) (- qty l)) (atk (item l) (- qty l))"
    using step_shifts [OF d(1)] Cons.prems(3) [of l] Cons.prems(4) by (auto simp: stock_inv_def)
  have same: "book d k = book db k" "reserved d k = reserved db k" if "k \<noteq> item l" for k
    using s that by (simp_all add: shifts_def padd_apply atk_apply)
  have ne: "item m \<noteq> item l" if "m \<in> set ls" for m using Cons.prems(2) that by (simp, metis imageI)
  have "\<exists>db'. foldR (step locked) ls d = Inr db' \<and> links_ok db'"
    using Cons.prems(1,2,3) same ne shifts_stock_inv [OF s Cons.prems(4)] d(2)
    by (intro Cons.IH) (auto simp: same ne)
  then show ?case by (simp add: d(1))
qed simp

end

text \<open>The rows an approval locks at its start.\<close>

lemma find_lock_locked:
  assumes "tables_ok db" and "links_ok db" and "0 < reserved db k" and "k \<in> set ids"
  shows "\<exists>row. find_lock k (lockInventoryItems ids db) = Some row \<and> lk_bookQty row = book db k
    \<and> lk_reservedQty row = reserved db k"
proof -
  obtain i where i: "i \<in> set (db_items db)" "it_id i = k" using item_of_book [OF assms(1)] assms(3) by metis
  obtain c where c: "c \<in> set (db_consumables db)" "co_id c = it_consumableId i"
    using assms(2) i(1) by (auto simp: links_ok_def)
  have "lock_row i c \<in> set (lockInventoryItems ids db)"
    using i c assms(4) by (auto simp: lockInventoryItems_mem)
  moreover have "lk_id (lock_row i c) = k" using i by (simp add: lock_row_def)
  ultimately obtain row where row: "find_lock k (lockInventoryItems ids db) = Some row"
    using find_lock_ex by blast
  have "row \<in> set (lockInventoryItems ids db)" and "lk_id row = k" by (rule find_lock_Some [OF row])+
  then show ?thesis
    using row lockInventoryItems_quantities [OF assms(1)] by (intro exI [of _ row]) simp
qed

section \<open>A claim within its reservation\<close>

lemma insertAllocs_total:
  assumes "distinct (map fst as)" and "\<And>a. a \<in> set as \<Longrightarrow> 0 < snd a \<and> int4 (snd a)"
    and "\<And>a a'. a \<in> set as \<Longrightarrow> a' \<in> set (db_allocs db) \<Longrightarrow> al_recordId a' = r \<Longrightarrow> al_batchId a' \<noteq> fst a"
    and "r < db_seq db TBorrows" and "links_ok db"
  shows "\<exists>db'. foldR (\<lambda>a. insertAlloc (alloc_of r a)) as db = Inr db' \<and> links_ok db'"
  using assms
proof (induction as arbitrary: db)
  case (Cons a as)
  let ?d = "db\<lparr>db_seq := (db_seq db)(TAllocs := db_seq db TAllocs + 1),
                db_allocs := db_allocs db @ [(alloc_of r a)\<lparr>al_id := db_seq db TAllocs\<rparr>]\<rparr>"
  have "\<forall>a' \<in> set (db_allocs db). al_recordId a' = r \<longrightarrow> al_batchId a' \<noteq> fst a"
    using Cons.prems(3) [of a] by simp
  then have "insertAlloc (alloc_of r a) db = Inr ?d"
    unfolding insertAlloc_Inr_iff using Cons.prems(2) [of a]
    by (auto simp: alloc_ok_def alloc_of_def int4_def)
  moreover have "\<exists>db'. foldR (\<lambda>a. insertAlloc (alloc_of r a)) as ?d = Inr db' \<and> links_ok db'"
  proof (rule Cons.IH)
    show "al_batchId a' \<noteq> fst x" if "x \<in> set as" "a' \<in> set (db_allocs ?d)" "al_recordId a' = r" for x a'
    proof (cases "a' \<in> set (db_allocs db)")
      case True
      then show ?thesis using that Cons.prems(3) [of x a'] by simp
    next
      case False
      then have "al_batchId a' = fst a" using that by (auto simp: alloc_of_def)
      then show ?thesis using that(1) Cons.prems(1) by (simp, metis imageI)
    qed
    show "links_ok ?d" using Cons.prems(4,5) by (auto simp: links_ok_def alloc_of_def)
  qed (use Cons.prems in \<open>auto\<close>)
  ultimately show ?case by simp
qed simp

lemma openBorrow_total:
  assumes "borrow_ok b" and "distinct (map fst as)" and "\<And>a. a \<in> set as \<Longrightarrow> 0 < snd a \<and> int4 (snd a)"
    and "links_ok db"
  shows "\<exists>db'. openBorrow b as db = Inr db' \<and> links_ok db'"
proof -
  let ?r = "db_seq db TBorrows"
  let ?d = "db\<lparr>db_seq := (db_seq db)(TBorrows := ?r + 1), db_borrows := db_borrows db @ [b\<lparr>br_id := ?r\<rparr>]\<rparr>"
  have "insertBorrow b db = Inr (?r, ?d)" using assms(1) by (simp add: insertBorrow_Inr_iff)
  moreover have "\<exists>db'. foldR (\<lambda>a. insertAlloc (alloc_of ?r a)) as ?d = Inr db' \<and> links_ok db'"
  proof (rule insertAllocs_total)
    show "al_batchId a' \<noteq> fst a" if "a' \<in> set (db_allocs ?d)" "al_recordId a' = ?r" for a a'
      using that assms(4) by (force simp: links_ok_def)
    show "links_ok ?d" using assms(4) by (force simp: links_ok_def)
  qed (use assms in auto)
  ultimately show ?thesis by (simp add: openBorrow_alt)
qed

lemma openIfReusable_total:
  assumes "\<And>c. borrow_ok (mk c)" and "distinct (map fst as)" and "\<And>a. a \<in> set as \<Longrightarrow> 0 < snd a \<and> int4 (snd a)"
    and "links_ok db"
  shows "\<exists>db'. openIfReusable mk c as db = Inr db' \<and> links_ok db'"
  using openBorrow_total [OF assms(1) assms(2,3,4)] assms(4)
  by (auto simp: openIfReusable_def split: option.splits)

lemma same_rest_links:
  assumes "same_rest db db'" and "links_ok db"
    and "\<And>i. i \<in> set (db_items db') \<Longrightarrow> \<exists>j \<in> set (db_items db). it_consumableId j = it_consumableId i"
  shows "links_ok db'"
proof -
  have "\<exists>c \<in> set (db_consumables db'). co_id c = it_consumableId i" if "i \<in> set (db_items db')" for i
  proof -
    from assms(3) [OF that]
    obtain j where "j \<in> set (db_items db)" "it_consumableId j = it_consumableId i" by blast
    then show ?thesis using assms(2) by (simp add: links_ok_def same_restD [OF assms(1)]) metis
  qed
  then show ?thesis using assms(2) by (simp add: links_ok_def same_restD [OF assms(1)])
qed

lemma issueLine_links:
  assumes "issueLine ty rt ri opr row k q db = Inr (as, db')" and "tables_ok db" and "0 \<le> q" and "lk_id row = k"
    and "links_ok db"
  shows "links_ok db'"
proof -
  obtain db1 db2 where al: "allocateFifoBatches k q db = Inr (as, db1)"
    and up: "addItem k (- q) (- q) db1 = Inr db2"
    and fl: "issueFlows ty rt ri opr row as (lk_bookQty row) db2 = Inr db'"
    using assms(1) by (auto simp: issueLine_def bindR_Inr_iff)
  note a = allocate_shifts [OF al assms(2,3)]
  note u = addItem_shifts [OF up shifts_tables_ok [OF a(1)]]
  note f = issueFlows_shifts [OF fl shifts_tables_ok [OF u(1)]]
  have its: "db_items db' = update_where (\<lambda>i. it_id i = k) (item_add (- q) (- q)) (db_items db)"
    using up f a(4) by (simp add: addItem_Inr_iff)
  have "\<exists>j \<in> set (db_items db). it_consumableId j = it_consumableId i" if "i \<in> set (db_items db')" for i
    using that unfolding its by (auto simp: set_update_where item_add_def)
  then show ?thesis
    using same_rest_links [OF issueLine_shifts(2) [OF assms(1-4)] assms(5)] by blast
qed

lemma cleanup_links: "links_ok db \<Longrightarrow> links_ok (cleanupEmptyItem k db)"
  by (auto simp: links_ok_def cleanupEmptyItem_def)

lemma allocation_int4:
  assumes "\<And>a. a \<in> set as \<Longrightarrow> 0 < snd a" and "allocated as = q" and "int4 q" and "a \<in> set as"
  shows "int4 (snd a)"
proof -
  have "0 < snd a" using assms(1,4) .
  moreover have "snd a \<le> sum_list (map snd as)"
    using assms(1,4) by (intro member_le_sum_list) (auto intro: less_imp_le)
  ultimately show ?thesis using assms(2,3) by (simp add: int4_def allocated_def)
qed

text \<open>An issue followed by the opening of a record and the removal of an emptied item.\<close>

lemma issue_open_total:
  assumes "find_lock k locked = Some row" and inv: "stock_inv db" and links: "links_ok db"
    and q: "0 < q" "q \<le> reserved db k" and row: "lk_bookQty row = book db k"
    and mk: "\<And>c. br_qty (mk c) = q \<and> br_returnedQty (mk c) = 0 \<and> br_writtenOffQty (mk c) = 0"
  shows "\<exists>as d d'. issueLine ty rt ri opr row k q db = Inr (as, d)
    \<and> openIfReusable mk (lk_consumableId row) as d = Inr d' \<and> links_ok d' \<and> links_ok d"
proof -
  have ok: "tables_ok db" using inv by (simp add: stock_inv_def)
  have k: "lk_id row = k" by (rule find_lock_Some(1) [OF assms(1)])
  obtain as d where iss: "issueLine ty rt ri opr row k q db = Inr (as, d)"
    using issueLine_total [OF inv q row] by blast
  have q0: "0 \<le> q" using q by simp
  note i = issueLine_shifts [OF iss ok q0 k]
  obtain it where it: "it \<in> set (db_items db)" "it_reservedQty it = reserved db k"
    using item_of_book [OF ok] q by (metis less_le_trans)
  have i4: "int4 q" using tables_okD(3) [OF ok it(1)] it(2) q by (auto simp: item_ok_def int4_def)
  have "borrow_ok (mk c)" for c using mk [of c] q(1) i4 by (simp add: borrow_ok_def int4_def)
  moreover have "0 < snd a \<and> int4 (snd a)" if "a \<in> set as" for a
    using allocation_int4 [of as q a] i(3,4) i4 that by blast
  moreover have "links_ok d" by (rule issueLine_links [OF iss ok q0 k links])
  ultimately obtain d' where "openIfReusable mk (lk_consumableId row) as d = Inr d'" "links_ok d'"
    using openIfReusable_total [of mk as d "lk_consumableId row"] i(5) by blast
  then show ?thesis using iss \<open>links_ok d\<close> by blast
qed

interpretation claim_issue: issuing_lines "claimApplyLine now head p" ri_itemId ri_qty for now head p
proof
  show "shifts db db' (atk (ri_itemId l) (- ri_qty l)) (atk (ri_itemId l) (- ri_qty l)) (atk (ri_itemId l) (- ri_qty l))
      (atk (ri_itemId l) (- ri_qty l)) \<and> same_requests db db'"
    if "claimApplyLine now head p locked l db = Inr db'" "tables_ok db" "0 \<le> ri_qty l" for locked l db db'
    using that by (rule claimApplyLine_shifts)
  show "\<exists>db'. claimApplyLine now head p locked l db = Inr db' \<and> links_ok db'"
    if "find_lock (ri_itemId l) locked = Some row" "stock_inv db" "links_ok db" "0 < ri_qty l"
      "ri_qty l \<le> reserved db (ri_itemId l)" "lk_bookQty row = book db (ri_itemId l)"
      "lk_reservedQty row = reserved db (ri_itemId l)" for locked l row db
  proof -
    note prems = that
    let ?mk = "borrow_of PERSONAL (Some (sh_applicantId head)) (Some (sh_applicantName head))
        (or_json_null (sh_departmentSnapshot head)) None (sh_id head) l now"
    obtain as d d' where i: "issueLine ISSUE ''CONSUMABLE_REQUEST'' (sh_id head) (p, processor_name head) row
        (ri_itemId l) (ri_qty l) db = Inr (as, d)"
      and o': "openIfReusable ?mk (lk_consumableId row) as d = Inr d'" and "links_ok d'"
      using issue_open_total [OF prems(1-6), where mk = ?mk and ty = ISSUE and rt = "''CONSUMABLE_REQUEST''"
          and ri = "sh_id head" and opr = "(p, processor_name head)"]
      by (auto simp: borrow_of_def)
    then show ?thesis using prems cleanup_links by (auto simp: claimApplyLine_def)
  qed
qed

end
