(* ===== verification/AgentClaims.thy ===== *)
theory AgentClaims
  imports ClaimInvariant
begin

text \<open>
  Claims an agent makes for others (\<open>agent-claim.service.ts\<close>): who may receive, the submission,
  the approval that opens shared borrow records, and the release.
\<close>

section \<open>Recipients\<close>

definition active_accounts :: "directory \<Rightarrow> account_row list" where
  "active_accounts dir = filter (\<lambda>a. ua_status a = ''ACTIVE'' \<and> \<not> ua_deleted a) (dir_accounts dir)"

definition resolveEligibleRecipientIds :: "int \<Rightarrow> string \<Rightarrow> directory \<Rightarrow> int list" where
  "resolveEligibleRecipientIds operatorId functionCode dir =
     (let access = getFunctionAccess True operatorId functionCode dir in
      if fa_dataScope access = Some DEPARTMENT then
        (let closure = closureOfUser operatorId dir in
         if closure = [] then []
         else map ua_userId (filter
                (\<lambda>a. (\<exists>uo \<in> set (dir_orgs dir). uo_userId uo = ua_userId a \<and> uo_departmentId uo \<in> set closure)
                   \<and> \<not> (\<exists>uo \<in> set (dir_orgs dir). uo_userId uo = ua_userId a \<and> uo_departmentId uo \<notin> set closure))
                (active_accounts dir)))
      else if fa_dataScope access = None \<or> fa_dataScope access = Some COMPANY then
        map ua_userId (active_accounts dir)
      else [])"

record recipient =
  rp_userId :: int
  rp_userName :: string
  rp_departmentSnapshot :: json

definition department_json :: "org_row \<Rightarrow> json" where
  "department_json uo = JObj [(''id'', JNum (of_int (uo_departmentId uo))), (''name'', JStr (uo_departmentName uo))]"

text \<open>The rows of the outer join are the departments of the account, none of an account without any.\<close>

definition prepare_recipient :: "int list \<Rightarrow> directory \<Rightarrow> int \<Rightarrow> recipient list \<Rightarrow> err + recipient list" where
  "prepare_recipient allowedIds dir recipientId acc =
     (if recipientId \<notin> set allowedIds then Inl (Biz RECIPIENT_INVALID)
      else Inr (acc @
        [\<lparr>rp_userId = recipientId, rp_userName = loadUserName recipientId dir,
          rp_departmentSnapshot =
            JArr (if find (\<lambda>a. ua_userId a = recipientId) (dir_accounts dir) = None then []
                  else map department_json (filter (\<lambda>uo. uo_userId uo = recipientId) (dir_orgs dir)))\<rparr>]))"

definition prepareRecipients :: "int \<Rightarrow> string \<Rightarrow> directory \<Rightarrow> int list \<Rightarrow> err + recipient list" where
  "prepareRecipients operatorId functionCode dir recipientIds =
     (if \<not> distinct recipientIds then Inl (Biz RECIPIENT_INVALID)
      else if operatorId \<in> set recipientIds then Inl (Biz RECIPIENT_INVALID)
      else foldR (prepare_recipient (resolveEligibleRecipientIds operatorId functionCode dir) dir) recipientIds [])"

section \<open>Submission\<close>

definition insertRecipient :: "recipient_row \<Rightarrow> asset_db \<Rightarrow> err + asset_db" where
  "insertRecipient r db =
     (let (i, db1) = nextval TRecipients db
      in bindR (insert_row (\<lambda>r. True)
             (\<lambda>r r'. rc_requestId r = rc_requestId r' \<and> rc_userId r = rc_userId r')
             [''request_id'', ''user_id''] (r\<lparr>rc_id := i\<rparr>) (db_recipients db1))
           (\<lambda>rs. Inr (db1\<lparr>db_recipients := rs\<rparr>)))"

definition agent_item_step ::
    "item_lock list \<Rightarrow> asset_db \<Rightarrow> claim_item \<Rightarrow> claim_line list \<Rightarrow> err + claim_line list" where
  "agent_item_step locked db item acc =
     (case find_lock (cm_inventoryItemId item) locked of
        None \<Rightarrow> Inl PlainError
      | Some row \<Rightarrow>
          if lk_bookQty row - lk_reservedQty row < cm_qty item then Inl (Biz INSUFFICIENT_STOCK)
          else (case find_consumable (lk_consumableId row) db of
              None \<Rightarrow> Inl (Biz CONSUMABLE_DISABLED)
            | Some consumable \<Rightarrow>
                if co_status consumable \<noteq> ACTIVE then Inl (Biz CONSUMABLE_DISABLED)
                else Inr (acc @
                       [\<lparr>cl_inventoryItemId = cm_inventoryItemId item, cl_consumableId = lk_consumableId row,
                         cl_consumableName = co_name consumable, cl_spec = lk_spec row,
                         cl_warehouseName = lk_warehouseName row, cl_warehousePath = lk_warehousePath row,
                         cl_qty = cm_qty item, cl_purpose = cm_purpose item\<rparr>])))"

definition createRecipient :: "int \<Rightarrow> recipient \<Rightarrow> asset_db \<Rightarrow> err + asset_db" where
  "createRecipient headId r db =
     insertRecipient \<lparr>rc_id = 0, rc_requestId = headId, rc_userId = rp_userId r,
       rc_userName = rp_userName r, rc_departmentSnapshot = rp_departmentSnapshot r\<rparr> db"

definition agentSubmit ::
    "operator \<Rightarrow> json \<Rightarrow> string \<Rightarrow> directory \<Rightarrow> int list \<Rightarrow> claim_item list \<Rightarrow> int \<Rightarrow> nat \<Rightarrow> asset_db
      \<Rightarrow> err + ((int \<times> string) \<times> asset_db)" where
  "agentSubmit operator departments functionCode dir recipientIds items now suffix db =
     bindR (prepareRecipients (fst operator) functionCode dir recipientIds) (\<lambda>recipients.
     let itemIds = map cm_inventoryItemId items in
      if \<not> distinct itemIds then Inl (Biz ITEM_DUPLICATED)
      else let locked = lockInventoryItems itemIds db in
        if length locked \<noteq> length itemIds then Inl (Biz RESOURCE_NOT_FOUND)
        else bindR (foldR (agent_item_step locked db) items []) (\<lambda>lines.
             bindR (foldR reserveLine lines db) (\<lambda>db1.
             bindR (createRequestHead now suffix
                      \<lparr>rq_requestType = ''AGENT_REQUEST'', rq_applicantId = fst operator,
                       rq_applicantName = snd operator, rq_departmentSnapshot = departments,
                       rq_refRequestId = None, rq_proxyId = Some (fst operator),
                       rq_proxyName = Some (snd operator), rq_remark = None\<rparr> db1)
               (\<lambda>(head, db2).
             bindR (foldR (createLine (fst head)) lines db2) (\<lambda>db3.
             bindR (foldR (createRecipient (fst head)) recipients db3) (\<lambda>db4.
             Inr (head, db4)))))))"

section \<open>Approval\<close>

text \<open>
  The departments of all recipients, each once (\<open>jsonb_agg(DISTINCT dept)\<close>); PostgreSQL's order
  of JSON values is the argument \<open>jsort\<close>.
\<close>

definition snapshot_elements :: "json \<Rightarrow> json list" where
  "snapshot_elements s = (case s of JArr es \<Rightarrow> es | _ \<Rightarrow> [s])"

definition mergeRecipientSnapshots :: "(json list \<Rightarrow> json list) \<Rightarrow> int \<Rightarrow> asset_db \<Rightarrow> json" where
  "mergeRecipientSnapshots jsort requestId db =
     (let es = concat (map (\<lambda>r. snapshot_elements (rc_departmentSnapshot r))
                 (filter (\<lambda>r. rc_requestId r = requestId) (db_recipients db)))
      in if es = [] then JNull else JArr (jsort (remdups es)))"

definition agentApplyLine ::
    "(json list \<Rightarrow> json list) \<Rightarrow> int \<Rightarrow> side_head \<Rightarrow> int \<Rightarrow> item_lock list \<Rightarrow> request_item \<Rightarrow> asset_db
      \<Rightarrow> err + asset_db" where
  "agentApplyLine jsort now head processorId locked line db =
     (case find_lock (ri_itemId line) locked of
        None \<Rightarrow> Inl (Biz RESOURCE_NOT_FOUND)
      | Some row \<Rightarrow>
          if lk_reservedQty row < ri_qty line then Inl (Biz STOCK_CONFLICT)
          else
            bindR (issueLine ISSUE ''AGENT_REQUEST'' (sh_id head) (processorId, processor_name head)
                     row (ri_itemId line) (ri_qty line) db)
              (\<lambda>(allocations, db1).
                 bindR (openIfReusable
                     (borrow_of AGENT None None (mergeRecipientSnapshots jsort (sh_id head) db1)
                        (Some (sh_id head)) (sh_id head) line now)
                     (lk_consumableId row) allocations db1)
                   (\<lambda>db2. Inr (cleanupEmptyItem (ri_itemId line) db2))))"

definition agentApplyApproved ::
    "(json list \<Rightarrow> json list) \<Rightarrow> int \<Rightarrow> side_head \<Rightarrow> int \<Rightarrow> asset_db \<Rightarrow> err + asset_db" where
  "agentApplyApproved jsort now head processorId db =
     (let lines = requestLines (sh_id head) db;
          locked = lockInventoryItems (map ri_itemId lines) db
      in foldR (agentApplyLine jsort now head processorId locked) lines db)"

definition agentApplyRelease :: "side_head \<Rightarrow> asset_db \<Rightarrow> err + asset_db" where
  "agentApplyRelease head db = releaseLines (requestLines (sh_id head) db) db"

end
