(* ===== verification/StockRequests.thy ===== *)
theory StockRequests
  imports ClaimInvariant
begin

text \<open>
  Requests on stock itself: taking goods in (\<open>stock-in.service.ts\<close>) and writing stock down
  (\<open>stock-change.service.ts\<close>).
\<close>

section \<open>Dictionary\<close>

definition loadDictName :: "int \<Rightarrow> string \<Rightarrow> asset_db \<Rightarrow> err + (int \<times> string)" where
  "loadDictName dictId dictType db =
     (case find (\<lambda>d. di_id d = dictId \<and> di_type d = dictType \<and> di_status d = ACTIVE) (db_dict db) of
        None \<Rightarrow> Inl (Biz VALIDATION_FAILED)
      | Some d \<Rightarrow> Inr (di_id d, di_name d))"

section \<open>Stock-in\<close>

record stock_in_line =
  st_consumableId :: int
  st_spec :: string
  st_warehouseId :: int
  st_supplierId :: "int option"
  st_brandId :: "int option"
  st_qty :: int
  st_unitPrice :: "rat option"

definition dict_option :: "int option \<Rightarrow> string \<Rightarrow> asset_db \<Rightarrow> err + (int \<times> string) option" where
  "dict_option i ty db =
     (case i of None \<Rightarrow> Inr None | Some d \<Rightarrow> bindR (loadDictName d ty db) (\<lambda>x. Inr (Some x)))"

definition line_key :: "stock_in_line \<Rightarrow> string" where
  "line_key l = int_str (st_consumableId l) @ '':'' @ st_spec l @ '':'' @ int_str (st_warehouseId l)"

definition prepare_line ::
    "int \<Rightarrow> asset_db \<Rightarrow> stock_in_line \<Rightarrow> string list \<times> stock_in_item list
      \<Rightarrow> err + (string list \<times> stock_in_item list)" where
  "prepare_line receivedAt db item acc =
     (let (seen, lines) = acc; key = line_key item in
      if key \<in> set seen then Inl (Biz ITEM_DUPLICATED)
      else case find_consumable (st_consumableId item) db of
          None \<Rightarrow> Inl (Biz CONSUMABLE_DISABLED)
        | Some consumable \<Rightarrow>
            if co_status consumable \<noteq> ACTIVE then Inl (Biz CONSUMABLE_DISABLED)
            else case loadWarehouseWithPath (Some (st_warehouseId item)) db of
                None \<Rightarrow> Inl (Biz VALIDATION_FAILED)
              | Some warehouse \<Rightarrow>
                  bindR (dict_option (st_supplierId item) ''SUPPLIER'' db) (\<lambda>supplier.
                  bindR (dict_option (st_brandId item) ''BRAND'' db) (\<lambda>brand.
                  Inr (key # seen, lines @
                    [\<lparr>sn_id = 0, sn_requestId = 0, sn_consumableId = st_consumableId item,
                      sn_consumableName = co_name consumable,
                      sn_supplierId = map_option fst supplier, sn_supplierName = map_option snd supplier,
                      sn_brandId = map_option fst brand, sn_brandName = map_option snd brand,
                      sn_spec = st_spec item, sn_warehouseId = wp_id warehouse,
                      sn_warehouseName = wp_name warehouse, sn_warehousePath = wp_path warehouse,
                      sn_qty = st_qty item, sn_unitPrice = st_unitPrice item,
                      sn_receivedAt = receivedAt\<rparr>]))))"

definition prepareLines :: "int \<Rightarrow> stock_in_line list \<Rightarrow> asset_db \<Rightarrow> err + stock_in_item list" where
  "prepareLines receivedAt items db =
     bindR (foldR (prepare_line receivedAt db) items ([], [])) (\<lambda>(seen, lines). Inr lines)"

definition insertStockInItem :: "stock_in_item \<Rightarrow> asset_db \<Rightarrow> err + asset_db" where
  "insertStockInItem r db =
     (let (i, db1) = nextval TStockInItems db
      in bindR (insert_row (\<lambda>r. 0 < sn_qty r \<and> int4 (sn_qty r))
             (\<lambda>r r'. sn_requestId r = sn_requestId r' \<and> sn_consumableId r = sn_consumableId r'
                \<and> sn_spec r = sn_spec r' \<and> sn_warehouseId r = sn_warehouseId r')
             [''request_id'', ''consumable_id'', ''spec'', ''warehouse_id''] (r\<lparr>sn_id := i\<rparr>) (db_stockInItems db1))
           (\<lambda>rs. Inr (db1\<lparr>db_stockInItems := rs\<rparr>)))"

definition stockInSubmit ::
    "operator \<Rightarrow> json \<Rightarrow> stock_in_line list \<Rightarrow> int option \<Rightarrow> string option \<Rightarrow> int \<Rightarrow> nat \<Rightarrow> asset_db
      \<Rightarrow> err + ((int \<times> string) \<times> asset_db)" where
  "stockInSubmit operator departments items receivedAtOpt remark now suffix db =
     (let receivedAt = (case receivedAtOpt of None \<Rightarrow> now | Some t \<Rightarrow> t) in
      bindR (prepareLines receivedAt items db) (\<lambda>prepared.
      bindR (createRequestHead now suffix
               \<lparr>rq_requestType = ''STOCK_IN'', rq_applicantId = fst operator, rq_applicantName = snd operator,
                rq_departmentSnapshot = departments, rq_refRequestId = None, rq_proxyId = None,
                rq_proxyName = None, rq_remark = remark\<rparr> db) (\<lambda>(head, db1).
      bindR (foldR (\<lambda>l. insertStockInItem (l\<lparr>sn_requestId := fst head\<rparr>)) prepared db1) (\<lambda>db2.
      Inr (head, db2)))))"

definition stockInLines :: "int \<Rightarrow> asset_db \<Rightarrow> stock_in_item list" where
  "stockInLines i db = sort_key sn_id (filter (\<lambda>r. sn_requestId r = i) (db_stockInItems db))"

definition line_at :: "stock_in_item \<Rightarrow> item_row \<Rightarrow> bool" where
  "line_at line i \<longleftrightarrow> it_consumableId i = sn_consumableId line \<and> it_spec i = sn_spec line
     \<and> it_warehouseId i = Some (sn_warehouseId line)"

definition stockInItemOf ::
    "item_row list \<Rightarrow> item_lock list \<Rightarrow> stock_in_item \<Rightarrow> asset_db \<Rightarrow> err + ((int \<times> int) \<times> asset_db)" where
  "stockInItemOf existing locked line db =
     (case (case find (line_at line) existing of None \<Rightarrow> None | Some m \<Rightarrow> find_lock (it_id m) locked) of
        Some row \<Rightarrow> Inr ((lk_id row, lk_bookQty row), db)
      | None \<Rightarrow> lockOrCreateItem
          \<lparr>ik_consumableId = sn_consumableId line, ik_spec = sn_spec line,
           ik_warehouseId = Some (sn_warehouseId line), ik_warehouseName = sn_warehouseName line,
           ik_warehousePath = sn_warehousePath line\<rparr> db)"

definition stockInApplyLine ::
    "side_head \<Rightarrow> int \<Rightarrow> item_row list \<Rightarrow> item_lock list \<Rightarrow> stock_in_item \<Rightarrow> asset_db \<Rightarrow> err + asset_db" where
  "stockInApplyLine head processorId existing locked line db =
     bindR (stockInItemOf existing locked line db) (\<lambda>((itemId, bookQty), db1).
     bindR (insertBatch
              \<lparr>ba_id = 0, ba_itemId = itemId, ba_sourceBatchId = None, ba_consumableId = sn_consumableId line,
               ba_consumableName = sn_consumableName line, ba_spec = sn_spec line,
               ba_warehouseName = sn_warehouseName line, ba_warehousePath = sn_warehousePath line,
               ba_supplierId = sn_supplierId line, ba_supplierName = sn_supplierName line,
               ba_brandId = sn_brandId line, ba_brandName = sn_brandName line,
               ba_unitPrice = sn_unitPrice line, ba_remark = None, ba_receivedAt = sn_receivedAt line,
               ba_remainingQty = sn_qty line, ba_updatedBy = None\<rparr> db1) (\<lambda>(batchId, db2).
     bindR (addItem itemId (sn_qty line) 0 db2) (\<lambda>db3.
     bindR (writeStockFlow
              \<lparr>fi_type = STOCK_IN, fi_direction = IN,
               fi_item = \<lparr>lk_id = itemId, lk_consumableId = sn_consumableId line,
                 lk_consumableName = sn_consumableName line, lk_spec = sn_spec line,
                 lk_warehouseId = Some (sn_warehouseId line), lk_warehouseName = sn_warehouseName line,
                 lk_warehousePath = sn_warehousePath line, lk_bookQty = bookQty, lk_reservedQty = 0\<rparr>,
               fi_batchId = Some batchId, fi_qty = sn_qty line, fi_bookBefore = bookQty,
               fi_bookAfter = bookQty + sn_qty line, fi_refType = ''STOCK_IN'', fi_refId = sh_id head,
               fi_operator = (processorId, processor_name head)\<rparr> db3) (\<lambda>(flowId, db4).
     Inr db4))))"

definition stockInApplyApproved :: "side_head \<Rightarrow> int \<Rightarrow> asset_db \<Rightarrow> err + asset_db" where
  "stockInApplyApproved head processorId db =
     (let lines = stockInLines (sh_id head) db in
      if lines = [] then Inr db
      else let existing = filter (\<lambda>i. \<exists>l \<in> set lines. line_at l i) (db_items db);
               locked = (if existing = [] then [] else lockInventoryItems (map it_id existing) db)
           in foldR (stockInApplyLine head processorId existing locked) lines db)"

section \<open>Stock change\<close>

record change_line =
  cg_inventoryItemId :: int
  cg_changeTypeId :: int
  cg_reason :: string
  cg_qty :: int

definition change_item_step ::
    "int \<Rightarrow> item_lock list \<Rightarrow> asset_db \<Rightarrow> change_line \<Rightarrow> change_item list \<Rightarrow> err + change_item list" where
  "change_item_step changedAt locked db item acc =
     (case find_lock (cg_inventoryItemId item) locked of
        None \<Rightarrow> Inl PlainError
      | Some row \<Rightarrow>
          if lk_bookQty row - lk_reservedQty row < cg_qty item then Inl (Biz INSUFFICIENT_STOCK)
          else bindR (loadDictName (cg_changeTypeId item) ''CHANGE_TYPE'' db) (\<lambda>changeType.
            Inr (acc @
              [\<lparr>ch_id = 0, ch_requestId = 0, ch_itemId = cg_inventoryItemId item,
                ch_consumableName = lk_consumableName row, ch_spec = lk_spec row,
                ch_warehouseName = lk_warehouseName row, ch_warehousePath = lk_warehousePath row,
                ch_changeTypeId = Some (fst changeType), ch_changeTypeName = Some (snd changeType),
                ch_reason = cg_reason item, ch_qty = cg_qty item, ch_changedAt = changedAt\<rparr>])))"

definition reserveChange :: "change_item \<Rightarrow> asset_db \<Rightarrow> err + asset_db" where
  "reserveChange line db = addItem (ch_itemId line) 0 (ch_qty line) db"

definition stockChangeSubmit ::
    "operator \<Rightarrow> json \<Rightarrow> change_line list \<Rightarrow> int option \<Rightarrow> string option \<Rightarrow> int \<Rightarrow> nat \<Rightarrow> asset_db
      \<Rightarrow> err + ((int \<times> string) \<times> asset_db)" where
  "stockChangeSubmit operator departments items changedAtOpt remark now suffix db =
     (let itemIds = map cg_inventoryItemId items;
          changedAt = (case changedAtOpt of None \<Rightarrow> now | Some t \<Rightarrow> t) in
      if \<not> distinct itemIds then Inl (Biz ITEM_DUPLICATED)
      else let locked = lockInventoryItems itemIds db in
        if length locked \<noteq> length (remdups itemIds) then Inl (Biz RESOURCE_NOT_FOUND)
        else bindR (foldR (change_item_step changedAt locked db) items []) (\<lambda>lines.
             bindR (foldR reserveChange lines db) (\<lambda>db1.
             bindR (createRequestHead now suffix
                      \<lparr>rq_requestType = ''STOCK_CHANGE'', rq_applicantId = fst operator,
                       rq_applicantName = snd operator, rq_departmentSnapshot = departments,
                       rq_refRequestId = None, rq_proxyId = None, rq_proxyName = None, rq_remark = remark\<rparr> db1)
               (\<lambda>(head, db2).
             bindR (foldR (\<lambda>l. insertChangeItem (l\<lparr>ch_requestId := fst head\<rparr>)) lines db2) (\<lambda>db3.
             Inr (head, db3))))))"

definition change_operator :: "side_head \<Rightarrow> operator" where
  "change_operator head =
     ((case sh_processorId head of None \<Rightarrow> sh_applicantId head | Some p \<Rightarrow> p), processor_name head)"

definition changeApplyLine :: "side_head \<Rightarrow> item_lock list \<Rightarrow> change_item \<Rightarrow> asset_db \<Rightarrow> err + asset_db" where
  "changeApplyLine head locked line db =
     (case find_lock (ch_itemId line) locked of
        None \<Rightarrow> Inl (Biz RESOURCE_NOT_FOUND)
      | Some row \<Rightarrow>
          if lk_reservedQty row < ch_qty line then Inl (Biz STOCK_CONFLICT)
          else
            bindR (issueLine DEDUCTION ''STOCK_CHANGE'' (sh_id head) (change_operator head)
                     row (ch_itemId line) (ch_qty line) db)
              (\<lambda>(allocations, db1). Inr (cleanupEmptyItem (ch_itemId line) db1)))"

definition changeApplyApproved :: "side_head \<Rightarrow> asset_db \<Rightarrow> err + asset_db" where
  "changeApplyApproved head db =
     (let lines = changeLines (sh_id head) db;
          locked = lockInventoryItems (map ch_itemId lines) db
      in foldR (changeApplyLine head locked) lines db)"

definition changeApplyRelease :: "side_head \<Rightarrow> asset_db \<Rightarrow> err + asset_db" where
  "changeApplyRelease head db =
     foldR (\<lambda>line. releaseReserved (ch_itemId line) (ch_qty line)) (changeLines (sh_id head) db) db"

end
