(* ===== verification/RequestEffects.thy ===== *)
theory RequestEffects
  imports AgentClaims StockRequests
begin

text \<open>
  Approval and release of the requests that hold a reservation, and of the requests that bring
  stock in: the interface \<open>issuing_lines\<close> is met by the claims of agents and by the write-downs
  too, a release of what is reserved never misses, and each side effect moves all quantities of
  an item together.
\<close>

section \<open>Issuing\<close>

lemma agentApplyLine_shifts:
  assumes "agentApplyLine jsort now head p locked line db = Inr db'" and "tables_ok db" and "0 \<le> ri_qty line"
  shows "shifts db db' (atk (ri_itemId line) (- ri_qty line)) (atk (ri_itemId line) (- ri_qty line))
      (atk (ri_itemId line) (- ri_qty line)) (atk (ri_itemId line) (- ri_qty line)) \<and> same_requests db db'"
proof -
  let ?k = "ri_itemId line" and ?q = "ri_qty line"
  obtain row as db1 db2 where row: "find_lock ?k locked = Some row"
    and iss: "issueLine ISSUE ''AGENT_REQUEST'' (sh_id head) (p, processor_name head) row ?k ?q db = Inr (as, db1)"
    and bor: "openIfReusable (borrow_of AGENT None None (mergeRecipientSnapshots jsort (sh_id head) db1)
        (Some (sh_id head)) (sh_id head) line now) (lk_consumableId row) as db1 = Inr db2"
    and db': "db' = cleanupEmptyItem ?k db2"
    using assms(1) by (auto simp: agentApplyLine_def bindR_Inr_iff split: option.splits if_splits)
  note i = issueLine_shifts [OF iss assms(2,3) find_lock_Some(1) [OF row]]
  have ok1: "tables_ok db1" by (rule shifts_tables_ok [OF i(1)])
  have b: "shifts db1 db2 none0 none0 none0 none0" "same_requests db1 db2"
    using openIfReusable_frame [OF bor ok1] by simp_all
  note c = cleanup_shifts(1) [OF shifts_tables_ok [OF b(1)], of ?k]
  show ?thesis
    using shifts_trans [OF shifts_trans [OF i(1) b(1)] c]
      same_requests_trans [OF same_requests_trans [OF same_rest_requests [OF i(2)] b(2)] cleanup_requests]
    by (simp add: db')
qed

interpretation agent_issue: issuing_lines "agentApplyLine jsort now head p" ri_itemId ri_qty for jsort now head p
proof
  show "shifts db db' (atk (ri_itemId l) (- ri_qty l)) (atk (ri_itemId l) (- ri_qty l)) (atk (ri_itemId l) (- ri_qty l))
      (atk (ri_itemId l) (- ri_qty l)) \<and> same_requests db db'"
    if "agentApplyLine jsort now head p locked l db = Inr db'" "tables_ok db" "0 \<le> ri_qty l" for locked l db db'
    using that by (rule agentApplyLine_shifts)
  show "\<exists>db'. agentApplyLine jsort now head p locked l db = Inr db' \<and> links_ok db'"
    if "find_lock (ri_itemId l) locked = Some row" "stock_inv db" "links_ok db" "0 < ri_qty l"
      "ri_qty l \<le> reserved db (ri_itemId l)" "lk_bookQty row = book db (ri_itemId l)"
      "lk_reservedQty row = reserved db (ri_itemId l)" for locked l row db
  proof -
    note prems = that
    have k: "lk_id row = ri_itemId l" by (rule find_lock_Some(1) [OF prems(1)])
    have ok: "tables_ok db" and q0: "0 \<le> ri_qty l" using prems(2,4) by (simp_all add: stock_inv_def)
    let ?mk = "borrow_of AGENT None None (mergeRecipientSnapshots jsort (sh_id head) db)
        (Some (sh_id head)) (sh_id head) l now"
    obtain as d d' where i: "issueLine ISSUE ''AGENT_REQUEST'' (sh_id head) (p, processor_name head) row
        (ri_itemId l) (ri_qty l) db = Inr (as, d)"
      and o': "openIfReusable ?mk (lk_consumableId row) as d = Inr d'" and "links_ok d'"
      using issue_open_total [OF prems(1-6), where mk = ?mk and ty = ISSUE and rt = "''AGENT_REQUEST''"
          and ri = "sh_id head" and opr = "(p, processor_name head)"]
      by (auto simp: borrow_of_def)
    have "db_recipients d = db_recipients db"
      using issueLine_shifts(2) [OF i ok q0 k] by (simp add: same_restD)
    then have "mergeRecipientSnapshots jsort (sh_id head) d = mergeRecipientSnapshots jsort (sh_id head) db"
      by (simp add: mergeRecipientSnapshots_def)
    then show ?thesis using i o' \<open>links_ok d'\<close> prems cleanup_links by (auto simp: agentApplyLine_def)
  qed
qed

interpretation change_issue: issuing_lines "changeApplyLine head" ch_itemId ch_qty for head
proof
  show "shifts db db' (atk (ch_itemId l) (- ch_qty l)) (atk (ch_itemId l) (- ch_qty l)) (atk (ch_itemId l) (- ch_qty l))
      (atk (ch_itemId l) (- ch_qty l)) \<and> same_requests db db'"
    if "changeApplyLine head locked l db = Inr db'" "tables_ok db" "0 \<le> ch_qty l" for locked l db db'
  proof -
    note prems = that
    obtain row as d where row: "find_lock (ch_itemId l) locked = Some row"
      and iss: "issueLine DEDUCTION ''STOCK_CHANGE'' (sh_id head) (change_operator head) row (ch_itemId l) (ch_qty l) db
        = Inr (as, d)" and db': "db' = cleanupEmptyItem (ch_itemId l) d"
      using prems(1) by (auto simp: changeApplyLine_def bindR_Inr_iff split: option.splits if_splits)
    note i = issueLine_shifts [OF iss prems(2,3) find_lock_Some(1) [OF row]]
    note c = cleanup_shifts(1) [OF shifts_tables_ok [OF i(1)], of "ch_itemId l"]
    show ?thesis
      using shifts_trans [OF i(1) c] same_requests_trans [OF same_rest_requests [OF i(2)] cleanup_requests]
      by (simp add: db')
  qed
  show "\<exists>db'. changeApplyLine head locked l db = Inr db' \<and> links_ok db'"
    if "find_lock (ch_itemId l) locked = Some row" "stock_inv db" "links_ok db" "0 < ch_qty l"
      "ch_qty l \<le> reserved db (ch_itemId l)" "lk_bookQty row = book db (ch_itemId l)"
      "lk_reservedQty row = reserved db (ch_itemId l)" for locked l row db
  proof -
    note prems = that
    have k: "lk_id row = ch_itemId l" by (rule find_lock_Some(1) [OF prems(1)])
    have ok: "tables_ok db" and q0: "0 \<le> ch_qty l" using prems(2,4) by (simp_all add: stock_inv_def)
    obtain as d where iss: "issueLine DEDUCTION ''STOCK_CHANGE'' (sh_id head) (change_operator head) row
        (ch_itemId l) (ch_qty l) db = Inr (as, d)"
      using issueLine_total [OF prems(2,4,5,6)] by blast
    then show ?thesis
      using prems cleanup_links issueLine_links [OF iss ok q0 k prems(3)] by (auto simp: changeApplyLine_def)
  qed
qed

section \<open>Release\<close>

lemma releaseReserved_total:
  assumes ok: "tables_ok db" and q: "0 < q" "q \<le> reserved db k"
  shows "\<exists>db'. releaseReserved k q db = Inr db' \<and> shifts db db' none0 (atk k (- q)) none0 none0
    \<and> same_rest db db' \<and> (\<forall>i \<in> set (db_items db'). \<exists>j \<in> set (db_items db). it_consumableId j = it_consumableId i)"
proof -
  obtain i where i: "i \<in> set (db_items db)" "it_id i = k" "it_reservedQty i = reserved db k"
    using item_of_book [OF ok, of k] q by auto
  have uniq: "j = i" if "j \<in> set (db_items db)" "it_id j = k" for j
    using that i tables_okD(1) [OF ok] by (metis distinct_map inj_onD)
  have new: "item_ok (item_add 0 (- q) i)"
    using tables_okD(3) [OF ok i(1)] i(3) q by (auto simp: item_ok_def item_add_def int4_def)
  then obtain db' where up: "addItem k 0 (- q) db = Inr db'" using addItem_total [OF ok i(1,2)] by blast
  have upd: "update_where (\<lambda>i. it_id i = k \<and> q \<le> it_reservedQty i) f (db_items db)
    = update_where (\<lambda>i. it_id i = k) f (db_items db)" for f
    unfolding update_where_def using uniq i(3) q by (intro map_cong) auto
  have "releaseReserved k q db = Inr db'"
    using up uniq new unfolding releaseReserved_def addItem_Inr_iff
    by (auto simp: sql_update_def upd bindR_def)
  moreover have "\<forall>i \<in> set (db_items db'). \<exists>j \<in> set (db_items db). it_consumableId j = it_consumableId i"
    using up by (auto simp: addItem_Inr_iff set_update_where item_add_def)
  ultimately show ?thesis using addItem_shifts [OF up ok] by auto
qed

text \<open>Releasing the lines of a request, each within the reservation of its own item.\<close>

lemma release_lines_total:
  assumes "distinct (map item ls)" and "\<And>l. l \<in> set ls \<Longrightarrow> 0 < qty l \<and> qty l \<le> reserved db (item l)"
    and "tables_ok db" and "links_ok db"
  shows "\<exists>db'. foldR (\<lambda>l. releaseReserved (item l) (qty l)) ls db = Inr db'
    \<and> shifts db db' none0 (\<lambda>k. - demand item qty ls k) none0 none0 \<and> same_requests db db' \<and> links_ok db'"
  using assms
proof (induction ls arbitrary: db)
  case Nil
  then show ?case using shifts_refl [of db] by (simp add: none0_def)
next
  case (Cons l ls)
  obtain d where d: "releaseReserved (item l) (qty l) db = Inr d"
    and s: "shifts db d none0 (atk (item l) (- qty l)) none0 none0" "same_rest db d"
    and its: "\<forall>i \<in> set (db_items d). \<exists>j \<in> set (db_items db). it_consumableId j = it_consumableId i"
    using releaseReserved_total [OF Cons.prems(3), of "qty l" "item l"] Cons.prems(2) [of l] by force
  have ne: "item m \<noteq> item l" if "m \<in> set ls" for m using Cons.prems(1) that by (simp, metis imageI)
  have same: "reserved d k = reserved db k" if "k \<noteq> item l" for k
    using s(1) that by (simp add: shifts_def padd_apply atk_apply)
  have l: "links_ok d" using same_rest_links [OF s(2) Cons.prems(4)] its by blast
  obtain db' where db': "foldR (\<lambda>l. releaseReserved (item l) (qty l)) ls d = Inr db'"
    "shifts d db' none0 (\<lambda>k. - demand item qty ls k) none0 none0" "same_requests d db'" "links_ok db'"
    using Cons.IH [of d] Cons.prems(1,2) same ne shifts_tables_ok [OF s(1)] l by auto
  have "padd (atk (item l) (- qty l)) (\<lambda>k. - demand item qty ls k) = (\<lambda>k. - demand item qty (l # ls) k)"
    by (rule ext) (simp add: padd_apply atk_apply)
  then show ?case
    using d db' shifts_trans [OF s(1) db'(2)] same_requests_trans [OF same_rest_requests [OF s(2)] db'(3)] by simp
qed

section \<open>The side effects of requests that hold a reservation\<close>

lemma demand_request: "demand ri_itemId ri_qty (requestLines i db) = claim_part db i"
  by (simp add: fun_eq_iff demand_def requestLines_sum)

lemma demand_change: "demand ch_itemId ch_qty (changeLines i db) = change_part db i"
  by (simp add: fun_eq_iff demand_def changeLines_sum)

lemma request_lines_ready:
  assumes "requests_ok db" and "\<And>k. claim_part db i k \<le> reserved db k" and "l \<in> set (requestLines i db)"
  shows "0 < ri_qty l" and "ri_qty l \<le> reserved db (ri_itemId l)"
proof -
  have pos: "0 < ri_qty m" if "m \<in> set (requestLines i db)" for m
    using that assms(1) by (auto simp: requestLines_mem requests_ok_def)
  show "0 < ri_qty l" by (rule pos [OF assms(3)])
  have "ri_qty l \<le> demand ri_itemId ri_qty (requestLines i db) (ri_itemId l)"
    using assms(3) pos by (intro demand_mem) (auto intro: less_imp_le)
  then show "ri_qty l \<le> reserved db (ri_itemId l)"
    using assms(2) [of "ri_itemId l"] by (simp add: demand_request)
qed

lemma change_lines_ready:
  assumes "requests_ok db" and "\<And>k. change_part db i k \<le> reserved db k" and "l \<in> set (changeLines i db)"
  shows "0 < ch_qty l" and "ch_qty l \<le> reserved db (ch_itemId l)"
proof -
  have pos: "0 < ch_qty m" if "m \<in> set (changeLines i db)" for m
    using that assms(1) by (auto simp: changeLines_mem requests_ok_def)
  show "0 < ch_qty l" by (rule pos [OF assms(3)])
  have "ch_qty l \<le> demand ch_itemId ch_qty (changeLines i db) (ch_itemId l)"
    using assms(3) pos by (intro demand_mem) (auto intro: less_imp_le)
  then show "ch_qty l \<le> reserved db (ch_itemId l)"
    using assms(2) [of "ch_itemId l"] by (simp add: demand_change)
qed

text \<open>The quotas of a request move together with it; nothing else looks at them here.\<close>

lemma setQuotas_frame:
  assumes "tables_ok db"
  shows "shifts db (setQuotas i s db) none0 none0 none0 none0" and "same_requests db (setQuotas i s db)"
    and "links_ok (setQuotas i s db) = links_ok db"
  using assms by (auto simp: setQuotas_def same_requests_def links_ok_def intro!: shifts_frame)

text \<open>
  A side effect of the request \<open>i\<close> takes the amounts \<open>part\<close> off all four quantities (an approval),
  or off the reservation alone (a release), and succeeds.
\<close>

definition issued :: "asset_db \<Rightarrow> asset_db \<Rightarrow> (int \<Rightarrow> int) \<Rightarrow> bool" where
  "issued db db' part \<longleftrightarrow> shifts db db' (\<lambda>k. - part k) (\<lambda>k. - part k) (\<lambda>k. - part k) (\<lambda>k. - part k)
     \<and> same_requests db db'"

definition released :: "asset_db \<Rightarrow> asset_db \<Rightarrow> (int \<Rightarrow> int) \<Rightarrow> bool" where
  "released db db' part \<longleftrightarrow> shifts db db' none0 (\<lambda>k. - part k) none0 none0 \<and> same_requests db db'"

lemma issued_quota: "issued db d part \<Longrightarrow> issued db (setQuotas i s d) part"
  using shifts_trans [OF _ setQuotas_frame(1)] same_requests_trans [OF _ setQuotas_frame(2)]
  by (fastforce simp: issued_def dest: shifts_tables_ok)

lemma released_quota: "released db d part \<Longrightarrow> released db (setQuotas i s d) part"
  using shifts_trans [OF _ setQuotas_frame(1)] same_requests_trans [OF _ setQuotas_frame(2)]
  by (fastforce simp: released_def dest: shifts_tables_ok)

context issuing_lines
begin

lemma approval_issued:
  assumes "foldR (step (lockInventoryItems (map item ls) db)) ls db = Inr db'" and "tables_ok db"
    and "\<And>l. l \<in> set ls \<Longrightarrow> 0 < qty l"
  shows "issued db db' (demand item qty ls)"
  using lines_shifts [OF assms(1,2)] assms(3) by (auto simp: issued_def intro: less_imp_le)

lemma approval_total:
  assumes "distinct (map item ls)" and "\<And>l. l \<in> set ls \<Longrightarrow> 0 < qty l \<and> qty l \<le> reserved db (item l)"
    and "stock_inv db" and "links_ok db"
  shows "\<exists>db'. foldR (step (lockInventoryItems (map item ls) db)) ls db = Inr db' \<and> links_ok db'"
proof (rule lines_total)
  show "\<exists>row. find_lock (item l) (lockInventoryItems (map item ls) db) = Some row
      \<and> lk_bookQty row = book db (item l) \<and> lk_reservedQty row = reserved db (item l)" if "l \<in> set ls" for l
    using assms(2) [OF that] that assms(3,4)
    by (intro find_lock_locked) (auto simp: stock_inv_def)
qed (use assms in auto)

end

lemma claim_approved:
  assumes "claimApplyApproved now head p db = Inr db'" and "tables_ok db" and "requests_ok db"
  shows "issued db db' (claim_part db (sh_id head))"
proof -
  let ?ls = "requestLines (sh_id head) db"
  obtain d where d: "foldR (claimApplyLine now head p (lockInventoryItems (map ri_itemId ?ls) db)) ?ls db = Inr d"
    and db': "db' = setQuotas (sh_id head) CONSUMED d"
    using assms(1) by (auto simp: claimApplyApproved_def Let_def bindR_Inr_iff)
  have "0 < ri_qty l" if "l \<in> set ?ls" for l
    using that assms(3) by (auto simp: requestLines_mem requests_ok_def)
  then have "issued db d (claim_part db (sh_id head))"
    using claim_issue.approval_issued [OF d assms(2)] by (simp add: demand_request)
  then show ?thesis unfolding db' by (rule issued_quota)
qed

lemma claim_approval_total:
  assumes "stock_inv db" and "requests_ok db" and "links_ok db" and "\<And>k. claim_part db (sh_id head) k \<le> reserved db k"
  shows "\<exists>db'. claimApplyApproved now head p db = Inr db' \<and> links_ok db'"
proof -
  let ?ls = "requestLines (sh_id head) db"
  obtain d where "foldR (claimApplyLine now head p (lockInventoryItems (map ri_itemId ?ls) db)) ?ls db = Inr d" "links_ok d"
    using claim_issue.approval_total [OF requestLines_distinct [OF assms(2)] _ assms(1,3)]
      request_lines_ready [OF assms(2,4)] by blast
  then show ?thesis by (simp add: claimApplyApproved_def Let_def) (simp add: setQuotas_def links_ok_def)
qed

lemma agent_approved:
  assumes "agentApplyApproved jsort now head p db = Inr db'" and "tables_ok db" and "requests_ok db"
  shows "issued db db' (claim_part db (sh_id head))"
proof -
  let ?ls = "requestLines (sh_id head) db"
  have "0 < ri_qty l" if "l \<in> set ?ls" for l
    using that assms(3) by (auto simp: requestLines_mem requests_ok_def)
  then show ?thesis
    using agent_issue.approval_issued [OF _ assms(2), of jsort now head p ?ls db'] assms(1)
    by (simp add: agentApplyApproved_def Let_def demand_request)
qed

lemma agent_approval_total:
  assumes "stock_inv db" and "requests_ok db" and "links_ok db" and "\<And>k. claim_part db (sh_id head) k \<le> reserved db k"
  shows "\<exists>db'. agentApplyApproved jsort now head p db = Inr db' \<and> links_ok db'"
  using agent_issue.approval_total [OF requestLines_distinct [OF assms(2)] _ assms(1,3)]
    request_lines_ready [OF assms(2,4)] unfolding agentApplyApproved_def Let_def by blast

lemma change_approved:
  assumes "changeApplyApproved head db = Inr db'" and "tables_ok db" and "requests_ok db"
  shows "issued db db' (change_part db (sh_id head))"
proof -
  let ?ls = "changeLines (sh_id head) db"
  have "0 < ch_qty l" if "l \<in> set ?ls" for l
    using that assms(3) by (auto simp: changeLines_mem requests_ok_def)
  then show ?thesis
    using change_issue.approval_issued [OF _ assms(2), of head ?ls db'] assms(1)
    by (simp add: changeApplyApproved_def Let_def demand_change)
qed

lemma change_approval_total:
  assumes "stock_inv db" and "requests_ok db" and "links_ok db" and "\<And>k. change_part db (sh_id head) k \<le> reserved db k"
  shows "\<exists>db'. changeApplyApproved head db = Inr db' \<and> links_ok db'"
  using change_issue.approval_total [OF changeLines_distinct [OF assms(2)] _ assms(1,3)]
    change_lines_ready [OF assms(2,4)] unfolding changeApplyApproved_def Let_def by blast

lemma releaseLines_total:
  assumes "tables_ok db" and "requests_ok db" and "links_ok db" and "\<And>k. claim_part db i k \<le> reserved db k"
  shows "\<exists>db'. releaseLines (requestLines i db) db = Inr db' \<and> released db db' (claim_part db i) \<and> links_ok db'"
proof -
  have "0 < ri_qty l \<and> ri_qty l \<le> reserved db (ri_itemId l)" if "l \<in> set (requestLines i db)" for l
    using request_lines_ready [OF assms(2,4) that] by simp
  from release_lines_total [OF requestLines_distinct [OF assms(2)] this assms(1,3)]
  show ?thesis by (simp add: releaseLines_def released_def demand_request)
qed

lemma claim_release_total:
  assumes "tables_ok db" and "requests_ok db" and "links_ok db" and "\<And>k. claim_part db (sh_id head) k \<le> reserved db k"
  shows "\<exists>db'. claimApplyRelease head db = Inr db' \<and> released db db' (claim_part db (sh_id head)) \<and> links_ok db'"
proof -
  obtain d where d: "releaseLines (requestLines (sh_id head) db) db = Inr d"
    "released db d (claim_part db (sh_id head))" "links_ok d"
    using releaseLines_total [OF assms] by blast
  then show ?thesis
    using released_quota [OF d(2), of "sh_id head" RELEASED]
    by (simp add: claimApplyRelease_def) (simp add: setQuotas_def links_ok_def)
qed

lemma change_release_total:
  assumes "tables_ok db" and "requests_ok db" and "links_ok db" and "\<And>k. change_part db (sh_id head) k \<le> reserved db k"
  shows "\<exists>db'. changeApplyRelease head db = Inr db' \<and> released db db' (change_part db (sh_id head)) \<and> links_ok db'"
proof -
  have "0 < ch_qty l \<and> ch_qty l \<le> reserved db (ch_itemId l)" if "l \<in> set (changeLines (sh_id head) db)" for l
    using change_lines_ready [OF assms(2,4) that] by simp
  from release_lines_total [OF changeLines_distinct [OF assms(2)] this assms(1,3)]
  show ?thesis by (simp add: changeApplyRelease_def released_def demand_change)
qed

section \<open>Taking goods in\<close>

text \<open>An operation that moves book, batches and ledger together and no reservation.\<close>

definition balanced :: "asset_db \<Rightarrow> asset_db \<Rightarrow> bool" where
  "balanced db db' \<longleftrightarrow> (\<exists>f. shifts db db' f none0 f f) \<and> same_requests db db'"

lemma balanced_refl: "tables_ok db \<Longrightarrow> balanced db db"
  unfolding balanced_def using shifts_refl by blast

lemma balanced_trans: "balanced a b \<Longrightarrow> balanced b c \<Longrightarrow> balanced a c"
  unfolding balanced_def using shifts_trans [of a b _ none0 _ _ c _ none0] same_requests_trans
  by (metis padd_simps(1))

lemma balanced_tables: "balanced a b \<Longrightarrow> tables_ok b"
  by (auto simp: balanced_def dest: shifts_tables_ok)

lemma balancedI: "shifts db db' f none0 f f \<Longrightarrow> same_requests db db' \<Longrightarrow> balanced db db'"
  by (auto simp: balanced_def)

lemma balanced_reserve_inv: "balanced db db' \<Longrightarrow> reserve_inv db \<Longrightarrow> reserve_inv db'"
  by (auto simp: balanced_def reserve_inv_def same_requests_ok same_requests_pend dest: shifts_stock_inv)
    (simp add: shifts_def)

lemma balanced_foldR:
  assumes "foldR f xs db = Inr db'" and "tables_ok db"
    and "\<And>x d d'. x \<in> set xs \<Longrightarrow> tables_ok d \<Longrightarrow> f x d = Inr d' \<Longrightarrow> balanced d d'"
  shows "balanced db db'"
  using assms
proof (induction xs arbitrary: db)
  case (Cons x xs)
  obtain d where d: "f x db = Inr d" "foldR f xs d = Inr db'" using Cons.prems(1) by (auto simp: bindR_Inr_iff)
  have one: "balanced db d" using Cons.prems(3) [OF _ Cons.prems(2) d(1)] by simp
  have "balanced d db'"
    by (rule Cons.IH [OF d(2) balanced_tables [OF one]]) (rule Cons.prems(3), auto)
  with one show ?case by (rule balanced_trans)
qed (simp add: balanced_refl)

text \<open>A new batch, the book quantity and one flow into an item.\<close>

lemma batch_in_shifts:
  assumes "insertBatch b db = Inr (i, db1)" and "addItem k q 0 db1 = Inr db2"
    and "insertFlow f db2 = Inr (j, db3)" and "tables_ok db"
    and "ba_itemId b = k" "ba_remainingQty b = q" "fl_itemId f = k" "flow_signed f = q"
  shows "shifts db db3 (atk k q) none0 (atk k q) (atk k q)" and "same_rest db db3"
proof -
  note a = insertBatch_shifts [OF assms(1,4)]
  note u = addItem_shifts [OF assms(2) shifts_tables_ok [OF a(1)]]
  note f = insertFlow_shifts [OF assms(3) shifts_tables_ok [OF u(1)]]
  show "shifts db db3 (atk k q) none0 (atk k q) (atk k q)"
    using shifts_trans [OF shifts_trans [OF a(1) u(1)] f(1)] assms(5-8) by simp
  show "same_rest db db3" using same_rest_trans [OF same_rest_trans [OF a(2) u(2)] f(2)] .
qed

lemma stockInItemOf_shifts:
  assumes "stockInItemOf existing locked line db = Inr ((i, b), db')" and "tables_ok db"
  shows "shifts db db' none0 none0 none0 none0 \<and> same_rest db db'"
  using assms lockOrCreate_shifts(1,2) [OF _ assms(2)]
  by (auto simp: stockInItemOf_def shifts_refl split: option.splits)

lemma stockInApplyLine_balanced:
  assumes "stockInApplyLine head p existing locked line db = Inr db'" and "tables_ok db"
  shows "balanced db db'"
proof -
  obtain i b d where it: "stockInItemOf existing locked line db = Inr ((i, b), d)"
    using assms(1) by (auto simp: stockInApplyLine_def bindR_Inr_iff)
  note z = stockInItemOf_shifts [OF it assms(2)]
  have "shifts d db' (atk i (sn_qty line)) none0 (atk i (sn_qty line)) (atk i (sn_qty line)) \<and> same_rest d db'"
    using assms(1) it
    by (auto simp: stockInApplyLine_def bindR_Inr_iff writeStockFlow_def flow_signed_def
        intro!: batch_in_shifts [OF _ _ _ shifts_tables_ok [OF z [THEN conjunct1]]])
  then show ?thesis
    using z shifts_trans [OF z [THEN conjunct1]] same_rest_requests [OF same_rest_trans]
    by (auto intro!: balancedI)
qed

lemma stock_in_balanced:
  assumes "stockInApplyApproved head p db = Inr db'" and "tables_ok db"
  shows "balanced db db'"
proof (cases "stockInLines (sh_id head) db = []")
  case True
  then show ?thesis using assms by (simp add: stockInApplyApproved_def balanced_refl)
next
  case False
  then obtain existing locked where
    "foldR (stockInApplyLine head p existing locked) (stockInLines (sh_id head) db) db = Inr db'"
    using assms(1) by (auto simp: stockInApplyApproved_def Let_def)
  then show ?thesis by (rule balanced_foldR [OF _ assms(2)]) (rule stockInApplyLine_balanced)
qed

end
