(* ===== verification/Submissions.thy ===== *)
theory Submissions
  imports RequestEffects
begin

text \<open>
  Submitting a request: the lines are reserved, the head is created pending, and the invariant
  that ties reservations to pending requests is kept. A submission that does not reserve leaves
  stock and reservations alone.
\<close>

section \<open>Reserving\<close>

lemma reserve_lines_shifts:
  assumes "foldR (\<lambda>l. addItem (item l) 0 (qty l)) ls db = Inr db'" and "tables_ok db"
  shows "shifts db db' none0 (demand item qty ls) none0 none0 \<and> same_rest db db'"
  using assms
proof (induction ls arbitrary: db)
  case Nil
  then show ?case using shifts_refl [of db] by (simp add: none0_def demand_def)
next
  case (Cons l ls)
  obtain d where d: "addItem (item l) 0 (qty l) db = Inr d"
    "foldR (\<lambda>l. addItem (item l) 0 (qty l)) ls d = Inr db'"
    using Cons.prems(1) by (auto simp: bindR_Inr_iff)
  note a = addItem_shifts [OF d(1) Cons.prems(2)]
  note i = Cons.IH [OF d(2) shifts_tables_ok [OF a(1)]]
  have "padd (atk (item l) (qty l)) (demand item qty ls) = demand item qty (l # ls)"
    by (rule ext) (simp add: padd_apply atk_apply)
  then show ?case using shifts_trans [OF a(1) i [THEN conjunct1]] same_rest_trans [OF a(2)] i by (simp del: demand_simps)
qed

section \<open>A new head with its lines\<close>

text \<open>The tables after a submission: one more pending head, and the lines \<open>rs\<close> and \<open>cs\<close> under it.\<close>

definition submitted ::
    "asset_db \<Rightarrow> asset_db \<Rightarrow> approval_request \<Rightarrow> request_item list \<Rightarrow> change_item list \<Rightarrow> bool" where
  "submitted db db' h rs cs \<longleftrightarrow> ah_id h = db_seq db TRequests \<and> ah_status h = PENDING
     \<and> sd_heads db' = sd_heads db @ [h]
     \<and> db_requestItems db' = db_requestItems db @ rs \<and> (\<forall>r \<in> set rs. ri_requestId r = ah_id h \<and> 0 < ri_qty r)
     \<and> db_changeItems db' = db_changeItems db @ cs \<and> (\<forall>c \<in> set cs. ch_requestId c = ah_id h \<and> 0 < ch_qty c)
     \<and> distinct (map ri_itemId rs) \<and> distinct (map ch_itemId cs)
     \<and> db_consumables db' = db_consumables db \<and> db_seq db' TRequests = db_seq db TRequests + 1"

lemma submitted_pending:
  assumes "requests_ok db" and "submitted db db' h rs cs"
  shows "i < db_seq db TRequests \<Longrightarrow> is_pending types (sd_heads db') i = is_pending types (sd_heads db) i"
    and "is_pending types (sd_heads db') (ah_id h) \<longleftrightarrow> ah_requestType h \<in> set types"
proof -
  have old: "ah_id g < db_seq db TRequests" if "g \<in> set (sd_heads db)" for g
    using assms(1) that by (auto simp: requests_ok_def keyed_def)
  show "i < db_seq db TRequests \<Longrightarrow> is_pending types (sd_heads db') i = is_pending types (sd_heads db) i"
    using assms(2) by (auto simp: submitted_def is_pending_def)
  show "is_pending types (sd_heads db') (ah_id h) \<longleftrightarrow> ah_requestType h \<in> set types"
    using assms(2) old by (fastforce simp: submitted_def is_pending_def)
qed

lemma demand_sum_where: "sum_where (\<lambda>r. item r = k \<and> b) qty ls = (if b then demand item qty ls k else 0)"
  by (induction ls) auto

lemma submitted_pend:
  assumes "requests_ok db" and "submitted db db' h rs cs"
  shows "pend db' k = pend db k
    + (if ah_requestType h \<in> set CLAIM_TYPES then demand ri_itemId ri_qty rs k else 0)
    + (if ah_requestType h \<in> set CHANGE_TYPES then demand ch_itemId ch_qty cs k else 0)"
proof -
  note p = submitted_pending [OF assms]
  have r: "sum_where (\<lambda>r. ri_itemId r = k \<and> is_pending CLAIM_TYPES (sd_heads db') (ri_requestId r)) ri_qty (db_requestItems db)
      = sum_where (\<lambda>r. ri_itemId r = k \<and> is_pending CLAIM_TYPES (sd_heads db) (ri_requestId r)) ri_qty (db_requestItems db)"
    using assms(1) p(1) by (intro sum_where_cong) (auto simp: requests_ok_def)
  have c: "sum_where (\<lambda>r. ch_itemId r = k \<and> is_pending CHANGE_TYPES (sd_heads db') (ch_requestId r)) ch_qty (db_changeItems db)
      = sum_where (\<lambda>r. ch_itemId r = k \<and> is_pending CHANGE_TYPES (sd_heads db) (ch_requestId r)) ch_qty (db_changeItems db)"
    using assms(1) p(1) by (intro sum_where_cong) (auto simp: requests_ok_def)
  have r': "sum_where (\<lambda>r. ri_itemId r = k \<and> is_pending CLAIM_TYPES (sd_heads db') (ri_requestId r)) ri_qty rs
      = sum_where (\<lambda>r. ri_itemId r = k \<and> ah_requestType h \<in> set CLAIM_TYPES) ri_qty rs"
    using assms(2) p(2) by (intro sum_where_cong) (auto simp: submitted_def)
  have c': "sum_where (\<lambda>r. ch_itemId r = k \<and> is_pending CHANGE_TYPES (sd_heads db') (ch_requestId r)) ch_qty cs
      = sum_where (\<lambda>r. ch_itemId r = k \<and> ah_requestType h \<in> set CHANGE_TYPES) ch_qty cs"
    using assms(2) p(2) by (intro sum_where_cong) (auto simp: submitted_def)
  have tabs: "db_requestItems db' = db_requestItems db @ rs" "db_changeItems db' = db_changeItems db @ cs"
    using assms(2) by (simp_all add: submitted_def)
  show ?thesis by (simp add: pend_def tabs r c r' c' demand_sum_where)
qed

lemma submitted_requests_ok:
  assumes "requests_ok db" and "submitted db db' h rs cs"
  shows "requests_ok db'"
proof -
  have tabs: "sd_heads db' = sd_heads db @ [h]" "db_requestItems db' = db_requestItems db @ rs"
    "db_changeItems db' = db_changeItems db @ cs" "db_seq db' TRequests = db_seq db TRequests + 1"
    "ah_id h = db_seq db TRequests"
    using assms(2) by (simp_all add: submitted_def)
  have "keyed ah_id TRequests (sd_heads db') db'"
    using assms(1) by (auto simp: tabs requests_ok_def keyed_def)
  moreover have "distinct (map (\<lambda>r. (ri_requestId r, ri_itemId r)) (db_requestItems db'))"
    using assms by (auto simp: tabs requests_ok_def submitted_def distinct_map inj_on_def)
  moreover have "distinct (map (\<lambda>c. (ch_requestId c, ch_itemId c)) (db_changeItems db'))"
    using assms by (auto simp: tabs requests_ok_def submitted_def distinct_map inj_on_def)
  ultimately show ?thesis
    using assms by (auto simp: tabs requests_ok_def submitted_def)
qed

text \<open>
  A submission as a whole: it creates the pending request \<open>i\<close> of applicant \<open>a\<close>, whose lines hold the
  quantities \<open>d\<close>, and reserves exactly these.
\<close>

definition submits :: "asset_db \<Rightarrow> asset_db \<Rightarrow> int \<Rightarrow> int \<Rightarrow> (int \<Rightarrow> int) \<Rightarrow> bool" where
  "submits db db' i a d \<longleftrightarrow> (\<exists>h rs cs. submitted db db' h rs cs \<and> ah_id h = i \<and> ah_applicantId h = a
     \<and> shifts db db' none0 d none0 none0
     \<and> (\<forall>k. d k = (if ah_requestType h \<in> set CLAIM_TYPES then demand ri_itemId ri_qty rs k else 0)
          + (if ah_requestType h \<in> set CHANGE_TYPES then demand ch_itemId ch_qty cs k else 0)))"

lemma submits_reserve_inv:
  assumes "reserve_inv db" and "submits db db' i a d"
  shows "reserve_inv db'"
proof -
  obtain h rs cs where sub: "submitted db db' h rs cs" and sh: "shifts db db' none0 d none0 none0"
    and d: "\<And>k. d k = (if ah_requestType h \<in> set CLAIM_TYPES then demand ri_itemId ri_qty rs k else 0)
          + (if ah_requestType h \<in> set CHANGE_TYPES then demand ch_itemId ch_qty cs k else 0)"
    using assms(2) by (auto simp: submits_def)
  have r: "requests_ok db" using assms(1) by (simp add: reserve_inv_def)
  have "reserved db' = pend db'"
    using assms(1) sh d submitted_pend [OF r sub]
    by (auto simp: fun_eq_iff reserve_inv_def shifts_def padd_apply)
  then show ?thesis
    using assms(1) submitted_requests_ok [OF r sub] shifts_stock_inv [OF sh] by (simp add: reserve_inv_def)
qed

text \<open>What the new request holds is what was reserved for it.\<close>

lemma submits_head:
  assumes r: "requests_ok db" and "submits db db' i a d"
  shows "\<exists>h. find (\<lambda>h. ah_id h = i) (sd_heads db') = Some h \<and> ah_status h = PENDING \<and> ah_applicantId h = a
    \<and> req_part db' (ah_requestType h) i = d"
proof -
  obtain h rs cs where sub: "submitted db db' h rs cs" and h: "ah_id h = i" "ah_applicantId h = a"
    and d: "\<And>k. d k = (if ah_requestType h \<in> set CLAIM_TYPES then demand ri_itemId ri_qty rs k else 0)
          + (if ah_requestType h \<in> set CHANGE_TYPES then demand ch_itemId ch_qty cs k else 0)"
    using assms(2) by (auto simp: submits_def)
  have i: "i = db_seq db TRequests" using sub h by (simp add: submitted_def)
  have old: "\<not> ah_id g = i" if "g \<in> set (sd_heads db)" for g
    using r that i by (auto simp: requests_ok_def keyed_def)
  have f: "find (\<lambda>h. ah_id h = i) (sd_heads db') = Some h"
  proof -
    have "find (\<lambda>h. ah_id h = i) (gs @ [h]) = Some h" if "\<forall>g \<in> set gs. ah_id g \<noteq> i" for gs
      using that h by (induction gs) auto
    then show ?thesis using sub old by (simp add: submitted_def)
  qed
  have "claim_part db' i k = demand ri_itemId ri_qty rs k" for k
  proof -
    have "sum_where (\<lambda>r. ri_itemId r = k \<and> ri_requestId r = i) ri_qty (db_requestItems db) = 0"
      using r i by (intro sum_where_none) (auto simp: requests_ok_def)
    moreover have "sum_where (\<lambda>r. ri_itemId r = k \<and> ri_requestId r = i) ri_qty rs = sum_where (\<lambda>r. ri_itemId r = k \<and> True) ri_qty rs"
      using sub h by (intro sum_where_cong) (auto simp: submitted_def)
    ultimately show ?thesis using sub demand_sum_where [of ri_itemId k True] by (simp add: claim_part_def submitted_def)
  qed
  moreover have "change_part db' i k = demand ch_itemId ch_qty cs k" for k
  proof -
    have "sum_where (\<lambda>r. ch_itemId r = k \<and> ch_requestId r = i) ch_qty (db_changeItems db) = 0"
      using r i by (intro sum_where_none) (auto simp: requests_ok_def)
    moreover have "sum_where (\<lambda>r. ch_itemId r = k \<and> ch_requestId r = i) ch_qty cs = sum_where (\<lambda>r. ch_itemId r = k \<and> True) ch_qty cs"
      using sub h by (intro sum_where_cong) (auto simp: submitted_def)
    ultimately show ?thesis using sub demand_sum_where [of ch_itemId k True] by (simp add: change_part_def submitted_def)
  qed
  ultimately have "req_part db' (ah_requestType h) i = d" by (simp add: fun_eq_iff req_part_def d)
  then show ?thesis using f sub h by (simp add: submitted_def)
qed

section \<open>The loops of a submission\<close>

lemma insertRequestItem_Inr_iff:
  "insertRequestItem r db = Inr db' \<longleftrightarrow> 0 < ri_qty r \<and> int4 (ri_qty r)
    \<and> (\<forall>r' \<in> set (db_requestItems db). \<not> (ri_requestId r = ri_requestId r' \<and> ri_itemId r = ri_itemId r'))
    \<and> db' = db\<lparr>db_seq := (db_seq db)(TRequestItems := db_seq db TRequestItems + 1),
                db_requestItems := db_requestItems db @ [r\<lparr>ri_id := db_seq db TRequestItems\<rparr>]\<rparr>"
  by (auto simp: insertRequestItem_def nextval_def Let_def bindR_Inr_iff insert_row_Inr_iff)

lemma insertChangeItem_Inr_iff:
  "insertChangeItem r db = Inr db' \<longleftrightarrow> 0 < ch_qty r \<and> int4 (ch_qty r)
    \<and> (\<forall>r' \<in> set (db_changeItems db). \<not> (ch_requestId r = ch_requestId r' \<and> ch_itemId r = ch_itemId r'))
    \<and> db' = db\<lparr>db_seq := (db_seq db)(TChangeItems := db_seq db TChangeItems + 1),
                db_changeItems := db_changeItems db @ [r\<lparr>ch_id := db_seq db TChangeItems\<rparr>]\<rparr>"
  by (auto simp: insertChangeItem_def nextval_def Let_def bindR_Inr_iff insert_row_Inr_iff)

lemma createLine_Inr_iff:
  "createLine i l db = Inr db' \<longleftrightarrow> 0 < cl_qty l \<and> int4 (cl_qty l)
    \<and> (\<forall>r' \<in> set (db_requestItems db). \<not> (i = ri_requestId r' \<and> cl_inventoryItemId l = ri_itemId r'))
    \<and> db' = db\<lparr>db_seq := (db_seq db)(TRequestItems := db_seq db TRequestItems + 1),
                db_requestItems := db_requestItems db @
                  [\<lparr>ri_id = db_seq db TRequestItems, ri_requestId = i, ri_itemId = cl_inventoryItemId l,
                    ri_consumableName = cl_consumableName l, ri_spec = cl_spec l,
                    ri_warehouseName = cl_warehouseName l, ri_warehousePath = cl_warehousePath l,
                    ri_qty = cl_qty l, ri_purpose = cl_purpose l\<rparr>]\<rparr>"
  by (simp add: createLine_def insertRequestItem_Inr_iff)

lemma createLines_Inr:
  assumes "foldR (createLine i) ls db = Inr db'"
  shows "\<exists>n rs. db' = db\<lparr>db_seq := (db_seq db)(TRequestItems := n), db_requestItems := db_requestItems db @ rs\<rparr>
    \<and> (\<forall>r \<in> set rs. ri_requestId r = i \<and> 0 < ri_qty r)
    \<and> (\<forall>k. demand ri_itemId ri_qty rs k = demand cl_inventoryItemId cl_qty ls k)
    \<and> distinct (map ri_itemId rs)
    \<and> (\<forall>r \<in> set rs. \<forall>r' \<in> set (db_requestItems db). \<not> (ri_requestId r' = i \<and> ri_itemId r' = ri_itemId r))"
  using assms
proof (induction ls arbitrary: db)
  case Nil
  show ?case
    by (intro exI [of _ "db_seq db TRequestItems"] exI [of _ "[]"]) (use Nil in simp)
next
  case (Cons l ls)
  let ?r = "\<lparr>ri_id = db_seq db TRequestItems, ri_requestId = i, ri_itemId = cl_inventoryItemId l,
        ri_consumableName = cl_consumableName l, ri_spec = cl_spec l,
        ri_warehouseName = cl_warehouseName l, ri_warehousePath = cl_warehousePath l,
        ri_qty = cl_qty l, ri_purpose = cl_purpose l\<rparr>"
  let ?d = "db\<lparr>db_seq := (db_seq db)(TRequestItems := db_seq db TRequestItems + 1),
                db_requestItems := db_requestItems db @ [?r]\<rparr>"
  have one: "createLine i l db = Inr ?d" and rest: "foldR (createLine i) ls ?d = Inr db'"
    and new: "0 < cl_qty l" "\<forall>r' \<in> set (db_requestItems db). \<not> (i = ri_requestId r' \<and> cl_inventoryItemId l = ri_itemId r')"
    using Cons.prems by (auto simp: bindR_Inr_iff createLine_Inr_iff)
  obtain n rs where ih:
    "db' = ?d\<lparr>db_seq := (db_seq ?d)(TRequestItems := n), db_requestItems := db_requestItems ?d @ rs\<rparr>"
    "\<forall>r \<in> set rs. ri_requestId r = i \<and> 0 < ri_qty r"
    "\<forall>k. demand ri_itemId ri_qty rs k = demand cl_inventoryItemId cl_qty ls k" "distinct (map ri_itemId rs)"
    "\<forall>r \<in> set rs. \<forall>r' \<in> set (db_requestItems ?d). \<not> (ri_requestId r' = i \<and> ri_itemId r' = ri_itemId r)"
    using Cons.IH [OF rest] by blast
  have "\<forall>r \<in> set rs. \<not> ri_itemId ?r = ri_itemId r" using ih(5) by simp
  then have dist: "distinct (map ri_itemId (?r # rs))" using ih(4) by force
  show ?case
  proof (intro exI [of _ n] exI [of _ "?r # rs"] conjI)
    show "db' = db\<lparr>db_seq := (db_seq db)(TRequestItems := n), db_requestItems := db_requestItems db @ ?r # rs\<rparr>"
      using ih(1) by simp
    show "distinct (map ri_itemId (?r # rs))" by (rule dist)
  qed (use ih(2,3,5) new in auto)
qed

lemma insertChanges_Inr:
  assumes "foldR (\<lambda>l. insertChangeItem (l\<lparr>ch_requestId := i\<rparr>)) ls db = Inr db'"
  shows "\<exists>n rs. db' = db\<lparr>db_seq := (db_seq db)(TChangeItems := n), db_changeItems := db_changeItems db @ rs\<rparr>
    \<and> (\<forall>r \<in> set rs. ch_requestId r = i \<and> 0 < ch_qty r)
    \<and> (\<forall>k. demand ch_itemId ch_qty rs k = demand ch_itemId ch_qty ls k)
    \<and> distinct (map ch_itemId rs)
    \<and> (\<forall>r \<in> set rs. \<forall>r' \<in> set (db_changeItems db). \<not> (ch_requestId r' = i \<and> ch_itemId r' = ch_itemId r))"
  using assms
proof (induction ls arbitrary: db)
  case Nil
  show ?case
    by (intro exI [of _ "db_seq db TChangeItems"] exI [of _ "[]"]) (use Nil in simp)
next
  case (Cons l ls)
  let ?r = "l\<lparr>ch_requestId := i, ch_id := db_seq db TChangeItems\<rparr>"
  let ?d = "db\<lparr>db_seq := (db_seq db)(TChangeItems := db_seq db TChangeItems + 1),
                db_changeItems := db_changeItems db @ [?r]\<rparr>"
  have rest: "foldR (\<lambda>l. insertChangeItem (l\<lparr>ch_requestId := i\<rparr>)) ls ?d = Inr db'"
    and new: "0 < ch_qty l" "\<forall>r' \<in> set (db_changeItems db). \<not> (i = ch_requestId r' \<and> ch_itemId l = ch_itemId r')"
    using Cons.prems by (auto simp: bindR_Inr_iff insertChangeItem_Inr_iff)
  obtain n rs where ih:
    "db' = ?d\<lparr>db_seq := (db_seq ?d)(TChangeItems := n), db_changeItems := db_changeItems ?d @ rs\<rparr>"
    "\<forall>r \<in> set rs. ch_requestId r = i \<and> 0 < ch_qty r"
    "\<forall>k. demand ch_itemId ch_qty rs k = demand ch_itemId ch_qty ls k" "distinct (map ch_itemId rs)"
    "\<forall>r \<in> set rs. \<forall>r' \<in> set (db_changeItems ?d). \<not> (ch_requestId r' = i \<and> ch_itemId r' = ch_itemId r)"
    using Cons.IH [OF rest] by blast
  have "\<forall>r \<in> set rs. \<not> ch_itemId ?r = ch_itemId r" using ih(5) by simp
  then have dist: "distinct (map ch_itemId (?r # rs))" using ih(4) by force
  show ?case
  proof (intro exI [of _ n] exI [of _ "?r # rs"] conjI)
    show "db' = db\<lparr>db_seq := (db_seq db)(TChangeItems := n), db_changeItems := db_changeItems db @ ?r # rs\<rparr>"
      using ih(1) by simp
    show "distinct (map ch_itemId (?r # rs))" by (rule dist)
  qed (use ih(2,3,5) new in auto)
qed

lemma createQuotas_Inr:
  assumes "foldR (createQuota u lines i) cs db = Inr db'"
  shows "\<exists>n qs. db' = db\<lparr>db_seq := (db_seq db)(TQuotas := n), db_quotas := db_quotas db @ qs\<rparr>
    \<and> (\<forall>q \<in> set qs. qo_userId q = u \<and> qo_requestId q = i \<and> qo_status q = RESERVED)"
  using assms
proof (induction cs arbitrary: db)
  case Nil
  show ?case by (intro exI [of _ "db_seq db TQuotas"] exI [of _ "[]"]) (use Nil in simp)
next
  case (Cons c cs)
  obtain d where d: "createQuota u lines i c db = Inr d" "foldR (createQuota u lines i) cs d = Inr db'"
    using Cons.prems by (auto simp: bindR_Inr_iff)
  obtain q where q: "d = db\<lparr>db_seq := (db_seq db)(TQuotas := db_seq db TQuotas + 1), db_quotas := db_quotas db @ [q]\<rparr>"
    "qo_userId q = u" "qo_requestId q = i" "qo_status q = RESERVED"
    using d(1) by (auto simp: createQuota_def insertQuota_def nextval_def Let_def bindR_Inr_iff insert_row_Inr_iff)
  obtain n qs where ih: "db' = d\<lparr>db_seq := (db_seq d)(TQuotas := n), db_quotas := db_quotas d @ qs\<rparr>"
    "\<forall>q \<in> set qs. qo_userId q = u \<and> qo_requestId q = i \<and> qo_status q = RESERVED"
    using Cons.IH [OF d(2)] by blast
  show ?case by (intro exI [of _ n] exI [of _ "q # qs"]) (use ih q in \<open>simp add: fun_upd_def cong: if_cong\<close>)
qed

lemma createRecipients_Inr:
  assumes "foldR (createRecipient i) rs db = Inr db'"
  shows "\<exists>n qs. db' = db\<lparr>db_seq := (db_seq db)(TRecipients := n), db_recipients := qs\<rparr>"
  using assms
proof (induction rs arbitrary: db)
  case Nil
  show ?case by (intro exI [of _ "db_seq db TRecipients"] exI [of _ "db_recipients db"]) (use Nil in simp)
next
  case (Cons r rs)
  obtain d where d: "createRecipient i r db = Inr d" "foldR (createRecipient i) rs d = Inr db'"
    using Cons.prems by (auto simp: bindR_Inr_iff)
  obtain n' q where q: "d = db\<lparr>db_seq := (db_seq db)(TRecipients := n'), db_recipients := q\<rparr>"
    using d(1) by (auto simp: createRecipient_def insertRecipient_def nextval_def Let_def bindR_Inr_iff insert_row_Inr_iff)
  obtain n qs where "db' = d\<lparr>db_seq := (db_seq d)(TRecipients := n), db_recipients := qs\<rparr>"
    using Cons.IH [OF d(2)] by blast
  then show ?case by (intro exI [of _ n] exI [of _ qs]) (simp add: q fun_upd_def cong: if_cong)
qed

lemma insertStockInItems_Inr:
  assumes "foldR (\<lambda>l. insertStockInItem (l\<lparr>sn_requestId := i\<rparr>)) ls db = Inr db'"
  shows "\<exists>n qs. db' = db\<lparr>db_seq := (db_seq db)(TStockInItems := n), db_stockInItems := qs\<rparr>"
  using assms
proof (induction ls arbitrary: db)
  case Nil
  show ?case by (intro exI [of _ "db_seq db TStockInItems"] exI [of _ "db_stockInItems db"]) (use Nil in simp)
next
  case (Cons l ls)
  obtain d where d: "insertStockInItem (l\<lparr>sn_requestId := i\<rparr>) db = Inr d"
    "foldR (\<lambda>l. insertStockInItem (l\<lparr>sn_requestId := i\<rparr>)) ls d = Inr db'"
    using Cons.prems by (auto simp: bindR_Inr_iff)
  obtain n' q where q: "d = db\<lparr>db_seq := (db_seq db)(TStockInItems := n'), db_stockInItems := q\<rparr>"
    using d(1) by (auto simp: insertStockInItem_def nextval_def Let_def bindR_Inr_iff insert_row_Inr_iff)
  obtain n qs where "db' = d\<lparr>db_seq := (db_seq d)(TStockInItems := n), db_stockInItems := qs\<rparr>"
    using Cons.IH [OF d(2)] by blast
  then show ?case by (intro exI [of _ n] exI [of _ qs]) (simp add: q fun_upd_def cong: if_cong)
qed

section \<open>Submissions keep the invariant\<close>

lemma createRequestHead_fields:
  assumes "createRequestHead now suffix input db = Inr ((i, no), db')"
  shows "db_items db' = db_items db" "db_batches db' = db_batches db" "db_flows db' = db_flows db"
    "db_requestItems db' = db_requestItems db" "db_changeItems db' = db_changeItems db"
    "db_consumables db' = db_consumables db" "db_quotas db' = db_quotas db" "db_borrows db' = db_borrows db"
    "db_allocs db' = db_allocs db"
    "db_seq db' = (db_seq db)(TRequests := db_seq db TRequests + 1)"
  using arg_cong [OF createRequestHead_Inr(4) [OF assms], of db_items]
    arg_cong [OF createRequestHead_Inr(4) [OF assms], of db_batches]
    arg_cong [OF createRequestHead_Inr(4) [OF assms], of db_flows]
    arg_cong [OF createRequestHead_Inr(4) [OF assms], of db_requestItems]
    arg_cong [OF createRequestHead_Inr(4) [OF assms], of db_changeItems]
    arg_cong [OF createRequestHead_Inr(4) [OF assms], of db_consumables]
    arg_cong [OF createRequestHead_Inr(4) [OF assms], of db_quotas]
    arg_cong [OF createRequestHead_Inr(4) [OF assms], of db_borrows]
    arg_cong [OF createRequestHead_Inr(4) [OF assms], of db_allocs]
    arg_cong [OF createRequestHead_Inr(4) [OF assms], of db_seq]
  by simp_all

section \<open>The submissions\<close>

lemma reserving_submits:
  assumes res: "foldR (\<lambda>l. addItem (item l) 0 (qty l)) ls db = Inr db1" and ok: "tables_ok db"
    and head: "createRequestHead now suffix input db1 = Inr ((i, no), db2)"
    and same: "sd_heads db' = sd_heads db2" "db_consumables db' = db_consumables db2"
      "db_items db' = db_items db2" "db_batches db' = db_batches db2" "db_flows db' = db_flows db2"
      "db_seq db' TRequests = db_seq db2 TRequests" "db_seq db' TItems = db_seq db2 TItems"
      "db_seq db' TBatches = db_seq db2 TBatches"
    and rs: "db_requestItems db' = db_requestItems db2 @ rs" "\<forall>r \<in> set rs. ri_requestId r = i \<and> 0 < ri_qty r"
      "distinct (map ri_itemId rs)"
    and cs: "db_changeItems db' = db_changeItems db2 @ cs" "\<forall>c \<in> set cs. ch_requestId c = i \<and> 0 < ch_qty c"
      "distinct (map ch_itemId cs)"
    and parts: "\<And>k. demand item qty ls k =
        (if rq_requestType input \<in> set CLAIM_TYPES then demand ri_itemId ri_qty rs k else 0)
        + (if rq_requestType input \<in> set CHANGE_TYPES then demand ch_itemId ch_qty cs k else 0)"
  shows "submits db db' i (rq_applicantId input) (demand item qty ls)"
proof -
  note s1 = reserve_lines_shifts [OF res ok]
  note f = same_restD [OF s1 [THEN conjunct2]]
  note h = createRequestHead_fields [OF head] createRequestHead_Inr(1) [OF head]
  obtain hd where hd: "ah_id hd = i" "ah_status hd = PENDING" "ah_requestType hd = rq_requestType input"
    "ah_applicantId hd = rq_applicantId input" "sd_heads db2 = sd_heads db1 @ [hd]"
    using createRequestHead_Inr(2) [OF head] by auto
  have "submitted db db' hd rs cs"
    using hd h f rs cs same by (simp add: submitted_def)
  moreover have "shifts db1 db' none0 none0 none0 none0"
    by (rule shifts_frame [OF shifts_tables_ok [OF s1 [THEN conjunct1]]]) (simp_all add: same h)
  from shifts_trans [OF s1 [THEN conjunct1] this]
  have "shifts db db' none0 (demand item qty ls) none0 none0" by simp
  ultimately show ?thesis
    unfolding submits_def by (intro exI [of _ hd] exI [of _ rs] exI [of _ cs] conjI allI) (use hd parts in simp_all)
qed

text \<open>The prepared lines ask for what the client asked for.\<close>

lemma prepared_demand:
  assumes "map (\<lambda>l. (item l, qty l)) ls = map (\<lambda>l. (item' l, qty' l)) ls'"
  shows "demand item qty ls = demand item' qty' ls'"
proof (rule ext)
  fix k
  have "sum_list (map (\<lambda>(i, q). if i = k then q else 0) (map (\<lambda>l. (item l, qty l)) ls))
    = sum_list (map (\<lambda>(i, q). if i = k then q else 0) (map (\<lambda>l. (item' l, qty' l)) ls'))" by (simp only: assms)
  then show "demand item qty ls k = demand item' qty' ls' k" by (simp add: demand_def comp_def)
qed

lemma claim_items_lines:
  "foldR (claim_item_step u now rd locked d) items acc = Inr (lines, checks) \<Longrightarrow>
    map (\<lambda>l. (cl_inventoryItemId l, cl_qty l)) lines =
      map (\<lambda>l. (cl_inventoryItemId l, cl_qty l)) (fst acc) @ map (\<lambda>m. (cm_inventoryItemId m, cm_qty m)) items"
  by (induction items arbitrary: acc)
    (auto simp: claim_item_step_def bindR_Inr_iff split: option.splits if_splits)

lemma agent_items_lines:
  "foldR (agent_item_step locked d) items acc = Inr lines \<Longrightarrow>
    map (\<lambda>l. (cl_inventoryItemId l, cl_qty l)) lines =
      map (\<lambda>l. (cl_inventoryItemId l, cl_qty l)) acc @ map (\<lambda>m. (cm_inventoryItemId m, cm_qty m)) items"
  by (induction items arbitrary: acc)
    (auto simp: agent_item_step_def bindR_Inr_iff split: option.splits if_splits)

lemma change_items_lines:
  "foldR (change_item_step t locked d) items acc = Inr lines \<Longrightarrow>
    map (\<lambda>l. (ch_itemId l, ch_qty l)) lines =
      map (\<lambda>l. (ch_itemId l, ch_qty l)) acc @ map (\<lambda>m. (cg_inventoryItemId m, cg_qty m)) items"
  by (induction items arbitrary: acc)
    (auto simp: change_item_step_def bindR_Inr_iff split: option.splits if_splits)

lemma claimSubmit_submits:
  assumes "claimSubmit operator deps items resetDay now suffix db = Inr ((i, no), db')" and ok: "tables_ok db"
  shows "submits db db' i (fst operator) (demand cm_inventoryItemId cm_qty items)"
proof -
  obtain locked lines checks cs db1 db2 db3
    where prep: "foldR (claim_item_step (fst operator) now resetDay locked db) items ([], []) = Inr (lines, checks)"
    and res: "foldR reserveLine lines db = Inr db1"
    and head: "createRequestHead now suffix
        \<lparr>rq_requestType = ''CONSUMABLE_REQUEST'', rq_applicantId = fst operator,
         rq_applicantName = snd operator, rq_departmentSnapshot = deps, rq_refRequestId = None,
         rq_proxyId = None, rq_proxyName = None, rq_remark = None\<rparr> db1 = Inr ((i, no), db2)"
    and lin: "foldR (createLine i) lines db2 = Inr db3"
    and quo: "foldR (createQuota (fst operator) lines i) cs db3 = Inr db'"
    using assms(1) by (auto simp: claimSubmit_def Let_def bindR_Inr_iff split: if_splits)
  obtain n rs where ls: "db3 = db2\<lparr>db_seq := (db_seq db2)(TRequestItems := n), db_requestItems := db_requestItems db2 @ rs\<rparr>"
    "\<forall>r \<in> set rs. ri_requestId r = i \<and> 0 < ri_qty r"
    "\<forall>k. demand ri_itemId ri_qty rs k = demand cl_inventoryItemId cl_qty lines k" "distinct (map ri_itemId rs)"
    using createLines_Inr [OF lin] by blast
  obtain m qs where qs: "db' = db3\<lparr>db_seq := (db_seq db3)(TQuotas := m), db_quotas := qs\<rparr>"
    using createQuotas_Inr [OF quo] by blast
  have "submits db db' i (fst operator) (demand cl_inventoryItemId cl_qty lines)"
    by (rule reserving_submits [OF res [unfolded reserveLine_def [abs_def]] ok head, where rs = rs and cs = "[]", simplified])
      (use ls in \<open>simp_all add: qs CLAIM_TYPES_def CHANGE_TYPES_def\<close>)
  then show ?thesis using prepared_demand [OF claim_items_lines [OF prep, simplified]] by simp
qed

lemma agentSubmit_submits:
  assumes "agentSubmit operator deps code dir recipientIds items now suffix db = Inr ((i, no), db')" and ok: "tables_ok db"
  shows "submits db db' i (fst operator) (demand cm_inventoryItemId cm_qty items)"
proof -
  obtain locked lines rcs db1 db2 db3
    where prep: "foldR (agent_item_step locked db) items [] = Inr lines"
    and res: "foldR reserveLine lines db = Inr db1"
    and head: "createRequestHead now suffix
        \<lparr>rq_requestType = ''AGENT_REQUEST'', rq_applicantId = fst operator,
         rq_applicantName = snd operator, rq_departmentSnapshot = deps, rq_refRequestId = None,
         rq_proxyId = Some (fst operator), rq_proxyName = Some (snd operator), rq_remark = None\<rparr> db1
      = Inr ((i, no), db2)"
    and lin: "foldR (createLine i) lines db2 = Inr db3"
    and rec: "foldR (createRecipient i) rcs db3 = Inr db'"
    using assms(1) by (auto simp: agentSubmit_def Let_def bindR_Inr_iff split: if_splits)
  obtain n rs where ls: "db3 = db2\<lparr>db_seq := (db_seq db2)(TRequestItems := n), db_requestItems := db_requestItems db2 @ rs\<rparr>"
    "\<forall>r \<in> set rs. ri_requestId r = i \<and> 0 < ri_qty r"
    "\<forall>k. demand ri_itemId ri_qty rs k = demand cl_inventoryItemId cl_qty lines k" "distinct (map ri_itemId rs)"
    using createLines_Inr [OF lin] by blast
  obtain m qs where qs: "db' = db3\<lparr>db_seq := (db_seq db3)(TRecipients := m), db_recipients := qs\<rparr>"
    using createRecipients_Inr [OF rec] by blast
  have "submits db db' i (fst operator) (demand cl_inventoryItemId cl_qty lines)"
    by (rule reserving_submits [OF res [unfolded reserveLine_def [abs_def]] ok head, where rs = rs and cs = "[]", simplified])
      (use ls in \<open>simp_all add: qs CLAIM_TYPES_def CHANGE_TYPES_def\<close>)
  then show ?thesis using prepared_demand [OF agent_items_lines [OF prep, simplified]] by simp
qed

lemma stockChangeSubmit_submits:
  assumes "stockChangeSubmit operator deps items at0 remark now suffix db = Inr ((i, no), db')" and ok: "tables_ok db"
  shows "submits db db' i (fst operator) (demand cg_inventoryItemId cg_qty items)"
proof -
  obtain t locked lines db1 db2
    where prep: "foldR (change_item_step t locked db) items [] = Inr lines"
    and res: "foldR reserveChange lines db = Inr db1"
    and head: "createRequestHead now suffix
        \<lparr>rq_requestType = ''STOCK_CHANGE'', rq_applicantId = fst operator,
         rq_applicantName = snd operator, rq_departmentSnapshot = deps, rq_refRequestId = None,
         rq_proxyId = None, rq_proxyName = None, rq_remark = remark\<rparr> db1 = Inr ((i, no), db2)"
    and lin: "foldR (\<lambda>l. insertChangeItem (l\<lparr>ch_requestId := i\<rparr>)) lines db2 = Inr db'"
    using assms(1) by (auto simp: stockChangeSubmit_def Let_def bindR_Inr_iff split: if_splits)
  obtain n rs where ls: "db' = db2\<lparr>db_seq := (db_seq db2)(TChangeItems := n), db_changeItems := db_changeItems db2 @ rs\<rparr>"
    "\<forall>r \<in> set rs. ch_requestId r = i \<and> 0 < ch_qty r"
    "\<forall>k. demand ch_itemId ch_qty rs k = demand ch_itemId ch_qty lines k" "distinct (map ch_itemId rs)"
    using insertChanges_Inr [OF lin] by blast
  have "submits db db' i (fst operator) (demand ch_itemId ch_qty lines)"
    by (rule reserving_submits [OF res [unfolded reserveChange_def [abs_def]] ok head, where rs = "[]" and cs = rs, simplified])
      (use ls in \<open>simp_all add: CLAIM_TYPES_def CHANGE_TYPES_def\<close>)
  then show ?thesis using prepared_demand [OF change_items_lines [OF prep, simplified]] by simp
qed

text \<open>A request of another type holds no reservation, whatever its tables of lines.\<close>

lemma other_submits:
  assumes head: "createRequestHead now suffix input db = Inr ((i, no), db1)" and ok: "tables_ok db"
    and "rq_requestType input \<notin> set CLAIM_TYPES" "rq_requestType input \<notin> set CHANGE_TYPES"
    and same: "sd_heads db' = sd_heads db1" "db_requestItems db' = db_requestItems db1"
      "db_changeItems db' = db_changeItems db1" "db_consumables db' = db_consumables db1"
      "db_items db' = db_items db1" "db_batches db' = db_batches db1" "db_flows db' = db_flows db1"
      "db_seq db' TRequests = db_seq db1 TRequests" "db_seq db' TItems = db_seq db1 TItems"
      "db_seq db' TBatches = db_seq db1 TBatches"
  shows "submits db db' i (rq_applicantId input) none0"
proof -
  have none: "demand fst snd [] = none0" by (rule ext) (simp add: none0_def)
  have nores: "foldR (\<lambda>l. addItem (fst l) 0 (snd l)) [] db = Inr db" by simp
  show ?thesis
    by (rule reserving_submits [OF nores ok head, where rs = "[]" and cs = "[]", unfolded none])
      (use assms(3,4) in \<open>simp_all add: same none0_def\<close>)
qed

lemma stockInSubmit_submits:
  assumes "stockInSubmit operator deps items at0 remark now suffix db = Inr ((i, no), db')" and ok: "tables_ok db"
  shows "submits db db' i (fst operator) none0"
proof -
  obtain lines db1 where head: "createRequestHead now suffix
        \<lparr>rq_requestType = ''STOCK_IN'', rq_applicantId = fst operator,
         rq_applicantName = snd operator, rq_departmentSnapshot = deps, rq_refRequestId = None,
         rq_proxyId = None, rq_proxyName = None, rq_remark = remark\<rparr> db = Inr ((i, no), db1)"
    and lin: "foldR (\<lambda>l. insertStockInItem (l\<lparr>sn_requestId := i\<rparr>)) lines db1 = Inr db'"
    using assms(1) by (auto simp: stockInSubmit_def Let_def bindR_Inr_iff)
  obtain m qs where qs: "db' = db1\<lparr>db_seq := (db_seq db1)(TStockInItems := m), db_stockInItems := qs\<rparr>"
    using insertStockInItems_Inr [OF lin] by blast
  show ?thesis
    by (rule other_submits [OF head ok, simplified]) (simp_all add: qs CLAIM_TYPES_def CHANGE_TYPES_def)
qed

end
