(* ===== verification/Borrowing.thy ===== *)
theory Borrowing
  imports Submissions
begin

text \<open>
  Returning and writing off what was borrowed (\<open>borrow.service.ts\<close>), and settling the list of an
  agent (\<open>agent-settlement.service.ts\<close>).
\<close>

section \<open>Records\<close>

definition lockBorrowRecord :: "int \<Rightarrow> asset_db \<Rightarrow> borrow_row option" where
  "lockBorrowRecord recordId db = find (\<lambda>b. br_id b = recordId) (db_borrows db)"

definition lockInventoryItem :: "int \<Rightarrow> asset_db \<Rightarrow> item_lock option" where
  "lockInventoryItem itemId db =
     (case concat (map (\<lambda>i. map (lock_row i) (filter (\<lambda>c. co_id c = it_consumableId i) (db_consumables db)))
             (filter (\<lambda>i. it_id i = itemId) (db_items db))) of
        [] \<Rightarrow> None
      | row # rows \<Rightarrow> Some row)"

text \<open>What pending returns and write-offs claim of a record.\<close>

definition occupied :: "asset_db \<Rightarrow> int \<Rightarrow> int" where
  "occupied db recordId =
     sum_where (\<lambda>a. ai_recordId a = recordId
         \<and> (\<exists>h \<in> set (sd_heads db). ah_id h = ai_requestId a
              \<and> ah_requestType h \<in> {''RETURN'', ''WRITE_OFF''} \<and> ah_status h = PENDING))
       ai_qty (db_actionItems db)"

definition availableActionQty :: "borrow_row \<Rightarrow> asset_db \<Rightarrow> int" where
  "availableActionQty record db =
     br_qty record - br_returnedQty record - br_writtenOffQty record - occupied db (br_id record)"

section \<open>Submitting a return or a write-off\<close>

record action_line =
  an_borrowRecordId :: int
  an_qty :: int
  an_writeOffType :: "write_off_type option"
  an_reason :: "string option"

definition insertActionItem :: "action_item \<Rightarrow> asset_db \<Rightarrow> err + asset_db" where
  "insertActionItem r db =
     (let (i, db1) = nextval TActionItems db
      in bindR (insert_row (\<lambda>r. 0 < ai_qty r \<and> int4 (ai_qty r))
             (\<lambda>r r'. ai_requestId r = ai_requestId r' \<and> ai_recordId r = ai_recordId r')
             [''request_id'', ''borrow_record_id''] (r\<lparr>ai_id := i\<rparr>) (db_actionItems db1))
           (\<lambda>rs. Inr (db1\<lparr>db_actionItems := rs\<rparr>)))"

definition prepare_action ::
    "operator \<Rightarrow> string \<Rightarrow> asset_db \<Rightarrow> action_line \<Rightarrow> action_line list \<Rightarrow> err + action_line list" where
  "prepare_action operator requestType db item acc =
     (case lockBorrowRecord (an_borrowRecordId item) db of
        None \<Rightarrow> Inl (Biz RESOURCE_NOT_FOUND)
      | Some record \<Rightarrow>
          if br_userId record \<noteq> Some (fst operator) \<or> br_type record \<noteq> PERSONAL
          then Inl (Biz RESOURCE_NOT_FOUND)
          else if availableActionQty record db < an_qty item then Inl (Biz STOCK_CONFLICT)
          else Inr (acc @
            [\<lparr>an_borrowRecordId = an_borrowRecordId item, an_qty = an_qty item,
              an_writeOffType = (if requestType = ''WRITE_OFF'' then an_writeOffType item else None),
              an_reason = an_reason item\<rparr>]))"

definition createAction :: "int \<Rightarrow> action_line \<Rightarrow> asset_db \<Rightarrow> err + asset_db" where
  "createAction headId line db =
     insertActionItem
       \<lparr>ai_id = 0, ai_requestId = headId, ai_recordId = an_borrowRecordId line, ai_qty = an_qty line,
        ai_writeOffType = an_writeOffType line, ai_reason = an_reason line\<rparr> db"

definition submitBorrowAction ::
    "operator \<Rightarrow> json \<Rightarrow> string \<Rightarrow> action_line list \<Rightarrow> int \<Rightarrow> nat \<Rightarrow> asset_db
      \<Rightarrow> err + ((int \<times> string) \<times> asset_db)" where
  "submitBorrowAction operator departments requestType items now suffix db =
     (if \<not> distinct (map an_borrowRecordId items) then Inl (Biz ITEM_DUPLICATED)
      else bindR (foldR (prepare_action operator requestType db) items []) (\<lambda>prepared.
           bindR (createRequestHead now suffix
                    \<lparr>rq_requestType = requestType, rq_applicantId = fst operator, rq_applicantName = snd operator,
                     rq_departmentSnapshot = departments, rq_refRequestId = None, rq_proxyId = None,
                     rq_proxyName = None, rq_remark = None\<rparr> db) (\<lambda>(head, db1).
           bindR (foldR (createAction (fst head)) prepared db1) (\<lambda>db2.
           Inr (head, db2)))))"

section \<open>Putting goods back\<close>

text \<open>The rows of the join of allocations and batches, \<open>ORDER BY ba.id DESC\<close>: an allocation with the item of its batch.\<close>

definition restore_rows :: "int \<Rightarrow> asset_db \<Rightarrow> (alloc_row \<times> int) list" where
  "restore_rows recordId db =
     concat (map (\<lambda>a. map (\<lambda>b. (a, ba_itemId b)) (filter (\<lambda>b. ba_id b = al_batchId a) (db_batches db)))
       (rev (sort_key al_id (filter (\<lambda>a. al_recordId a = recordId) (db_allocs db)))))"

definition al_open :: "alloc_row \<Rightarrow> int" where
  "al_open a = al_issuedQty a - al_returnedQty a"

definition restore_step ::
    "item_lock \<Rightarrow> string \<Rightarrow> int \<Rightarrow> operator \<Rightarrow> alloc_row \<Rightarrow> int \<Rightarrow> int \<Rightarrow> asset_db \<Rightarrow> err + (int \<times> asset_db)" where
  "restore_step itemRow refType refId operator a taken bookQty db =
     bindR (addAlloc (al_id a) taken db) (\<lambda>db1.
     bindR (addBatch (al_batchId a) taken db1) (\<lambda>db2.
     bindR (addItem (lk_id itemRow) taken 0 db2) (\<lambda>db3.
     writeStockFlow
       \<lparr>fi_type = flow_type.RETURN, fi_direction = IN, fi_item = itemRow, fi_batchId = Some (al_batchId a),
        fi_qty = taken, fi_bookBefore = bookQty, fi_bookAfter = bookQty + taken, fi_refType = refType,
        fi_refId = refId, fi_operator = operator\<rparr> db3)))"

fun restore_loop ::
    "item_lock \<Rightarrow> string \<Rightarrow> int \<Rightarrow> operator \<Rightarrow> (alloc_row \<times> int) list \<Rightarrow> int \<Rightarrow> int \<Rightarrow> int list \<Rightarrow> asset_db
      \<Rightarrow> err + (int \<times> int list \<times> asset_db)" where
  "restore_loop itemRow refType refId operator [] remaining bookQty flowIds db = Inr (remaining, flowIds, db)"
| "restore_loop itemRow refType refId operator (x # xs) remaining bookQty flowIds db =
     (if remaining \<le> 0 then Inr (remaining, flowIds, db)
      else if al_open (fst x) \<le> 0 then restore_loop itemRow refType refId operator xs remaining bookQty flowIds db
      else let taken = min (al_open (fst x)) remaining in
        bindR (restore_step itemRow refType refId operator (fst x) taken bookQty db)
          (\<lambda>(flowId, db'). restore_loop itemRow refType refId operator xs (remaining - taken) (bookQty + taken)
             (flowIds @ [flowId]) db'))"

definition restoreRecord ::
    "borrow_row \<Rightarrow> int \<Rightarrow> string \<Rightarrow> int \<Rightarrow> operator \<Rightarrow> asset_db \<Rightarrow> err + (int list \<times> asset_db)" where
  "restoreRecord record qty refType refId operator db =
     (if availableActionQty record db < qty then Inl (Biz STOCK_CONFLICT)
      else let peek = restore_rows (br_id record) db in
        if peek = [] \<or> (\<exists>x \<in> set peek. snd x \<noteq> br_itemId record) then Inl (Biz STOCK_CONFLICT)
        else (case lockInventoryItem (br_itemId record) db of
            None \<Rightarrow> Inl (Biz RESOURCE_NOT_FOUND)
          | Some itemRow \<Rightarrow>
              let allocations = restore_rows (br_id record) db;
                  allocatedQty = sum_list (map (\<lambda>x. al_open (fst x)) allocations)
              in if allocatedQty < qty \<or> (\<exists>x \<in> set allocations. snd x \<noteq> br_itemId record)
                 then Inl (Biz STOCK_CONFLICT)
                 else bindR (restore_loop itemRow refType refId operator allocations qty (lk_bookQty itemRow) [] db)
                   (\<lambda>(remaining, flowIds, db1).
                      if remaining > 0 then Inl (Biz STOCK_CONFLICT)
                      else bindR (addBorrow (br_id record) qty 0 db1) (\<lambda>db2. Inr (flowIds, db2)))))"

definition writeOffRecord :: "borrow_row \<Rightarrow> int \<Rightarrow> asset_db \<Rightarrow> err + asset_db" where
  "writeOffRecord record qty db =
     (if availableActionQty record db < qty then Inl (Biz STOCK_CONFLICT)
      else addBorrow (br_id record) 0 qty db)"

section \<open>Approval\<close>

definition actionLines :: "int \<Rightarrow> asset_db \<Rightarrow> action_item list" where
  "actionLines i db = sort_key ai_id (filter (\<lambda>a. ai_requestId a = i) (db_actionItems db))"

definition returnApplyLine :: "side_head \<Rightarrow> action_item \<Rightarrow> asset_db \<Rightarrow> err + asset_db" where
  "returnApplyLine head item db =
     (case lockBorrowRecord (ai_recordId item) db of
        None \<Rightarrow> Inl (Biz RESOURCE_NOT_FOUND)
      | Some record \<Rightarrow>
          if availableActionQty record db < ai_qty item then Inl (Biz STOCK_CONFLICT)
          else bindR (restoreRecord record (ai_qty item) ''RETURN'' (sh_id head) (change_operator head) db)
                 (\<lambda>(flowIds, db'). Inr db'))"

definition applyReturnApproved :: "side_head \<Rightarrow> asset_db \<Rightarrow> err + asset_db" where
  "applyReturnApproved head db = foldR (returnApplyLine head) (actionLines (sh_id head) db) db"

definition writeOffApplyLine :: "action_item \<Rightarrow> asset_db \<Rightarrow> err + asset_db" where
  "writeOffApplyLine item db =
     (case lockBorrowRecord (ai_recordId item) db of
        None \<Rightarrow> Inl (Biz RESOURCE_NOT_FOUND)
      | Some record \<Rightarrow> writeOffRecord record (ai_qty item) db)"

definition applyWriteOffApproved :: "side_head \<Rightarrow> asset_db \<Rightarrow> err + asset_db" where
  "applyWriteOffApproved head db = foldR writeOffApplyLine (actionLines (sh_id head) db) db"

section \<open>Settling the list of an agent\<close>

record settle_line =
  se_borrowRecordId :: int
  se_qty :: int
  se_method :: settle_method
  se_writeOffType :: "write_off_type option"
  se_reason :: "string option"

definition insertSettlementItem :: "settlement_item \<Rightarrow> asset_db \<Rightarrow> err + asset_db" where
  "insertSettlementItem r db =
     (let (i, db1) = nextval TSettlementItems db
      in bindR (insert_row (\<lambda>r. 0 < si_qty r \<and> int4 (si_qty r))
             (\<lambda>r r'. si_requestId r = si_requestId r' \<and> si_recordId r = si_recordId r' \<and> si_method r = si_method r')
             [''request_id'', ''borrow_record_id'', ''method''] (r\<lparr>si_id := i\<rparr>) (db_settlementItems db1))
           (\<lambda>rs. Inr (db1\<lparr>db_settlementItems := rs\<rparr>)))"

text \<open>The open records of an agent's request, and what the items claim of a record.\<close>

definition open_records :: "int \<Rightarrow> asset_db \<Rightarrow> borrow_row list" where
  "open_records refRequestId db =
     sort_key br_id (filter (\<lambda>b. br_type b = AGENT \<and> br_agentRequestId b = Some refRequestId \<and> br_open b > 0)
       (db_borrows db))"

definition claimed_of :: "settle_line list \<Rightarrow> int \<Rightarrow> int option" where
  "claimed_of items recordId =
     (if \<exists>l \<in> set items. se_borrowRecordId l = recordId
      then Some (sum_where (\<lambda>l. se_borrowRecordId l = recordId) se_qty items) else None)"

definition check_coverage :: "settle_line list \<Rightarrow> int \<Rightarrow> asset_db \<Rightarrow> err + unit" where
  "check_coverage items refRequestId db =
     (let openRecords = open_records refRequestId db in
      if openRecords = [] \<or> (\<exists>l \<in> set items. se_borrowRecordId l \<notin> br_id ` set openRecords)
      then Inl (Biz RESOURCE_NOT_FOUND)
      else if \<exists>b \<in> set openRecords. claimed_of items (br_id b) \<noteq> Some (br_open b)
      then Inl (Biz SETTLEMENT_COVERAGE_INCOMPLETE)
      else Inr ())"

definition createSettlement :: "int \<Rightarrow> settle_line \<Rightarrow> asset_db \<Rightarrow> err + asset_db" where
  "createSettlement headId l db =
     insertSettlementItem
       \<lparr>si_id = 0, si_requestId = headId, si_recordId = se_borrowRecordId l, si_qty = se_qty l,
        si_method = se_method l,
        si_writeOffType = (if se_method l = WRITE_OFF then se_writeOffType l else None),
        si_reason = se_reason l\<rparr> db"

definition settlementSubmit ::
    "operator \<Rightarrow> json \<Rightarrow> int \<Rightarrow> settle_line list \<Rightarrow> int \<Rightarrow> nat \<Rightarrow> asset_db
      \<Rightarrow> err + ((int \<times> string) \<times> asset_db)" where
  "settlementSubmit operator departments refRequestId items now suffix db =
     (case find (\<lambda>h. ah_id h = refRequestId) (sd_heads db) of
        None \<Rightarrow> Inl (Biz RESOURCE_NOT_FOUND)
      | Some source \<Rightarrow>
          if ah_requestType source \<noteq> ''AGENT_REQUEST'' \<or> ah_applicantId source \<noteq> fst operator
          then Inl (Biz RESOURCE_NOT_FOUND)
          else bindR (check_coverage items refRequestId db) (\<lambda>u.
               bindR (createRequestHead now suffix
                        \<lparr>rq_requestType = ''AGENT_SETTLEMENT'', rq_applicantId = fst operator,
                         rq_applicantName = snd operator, rq_departmentSnapshot = departments,
                         rq_refRequestId = Some refRequestId, rq_proxyId = None, rq_proxyName = None,
                         rq_remark = None\<rparr> db) (\<lambda>(head, db1).
               bindR (foldR (createSettlement (fst head)) items db1) (\<lambda>db2.
               Inr (head, db2)))))"

definition settlementLines :: "int \<Rightarrow> asset_db \<Rightarrow> settlement_item list" where
  "settlementLines i db = sort_key si_id (filter (\<lambda>s. si_requestId s = i) (db_settlementItems db))"

text \<open>The records are locked first; the loop works on the rows read then.\<close>

definition lock_records :: "int list \<Rightarrow> asset_db \<Rightarrow> err + borrow_row list" where
  "lock_records ids db =
     foldR (\<lambda>i acc. case lockBorrowRecord i db of
                None \<Rightarrow> Inl (Biz RESOURCE_NOT_FOUND)
              | Some r \<Rightarrow> Inr (acc @ [r])) (sort (remdups ids)) []"

definition settleLine ::
    "string \<Rightarrow> int \<Rightarrow> operator \<Rightarrow> borrow_row list \<Rightarrow> settlement_item \<Rightarrow> asset_db \<Rightarrow> err + asset_db" where
  "settleLine refType refId operator locked item db =
     (case find (\<lambda>r. br_id r = si_recordId item) locked of
        None \<Rightarrow> Inl PlainError
      | Some record \<Rightarrow>
          if si_method item = settle_method.RETURN
          then bindR (restoreRecord record (si_qty item) refType refId operator db) (\<lambda>(flowIds, db'). Inr db')
          else writeOffRecord record (si_qty item) db)"

definition settlementApplyApproved :: "side_head \<Rightarrow> int \<Rightarrow> asset_db \<Rightarrow> err + asset_db" where
  "settlementApplyApproved head processorId db =
     (let items = settlementLines (sh_id head) db in
      bindR (lock_records (map si_recordId items) db) (\<lambda>locked.
      foldR (settleLine ''AGENT_SETTLEMENT'' (sh_id head) (processorId, processor_name head) locked) items db))"

definition listOpenBorrowRecords :: "operator \<Rightarrow> int \<Rightarrow> asset_db \<Rightarrow> err + (int \<times> int) list" where
  "listOpenBorrowRecords operator refRequestId db =
     (case find (\<lambda>h. ah_id h = refRequestId) (sd_heads db) of
        None \<Rightarrow> Inl (Biz RESOURCE_NOT_FOUND)
      | Some request \<Rightarrow>
          if ah_requestType request \<noteq> ''AGENT_REQUEST'' \<or> ah_applicantId request \<noteq> fst operator
          then Inl (Biz RESOURCE_NOT_FOUND)
          else Inr (map (\<lambda>b. (br_id b, br_open b)) (open_records refRequestId db)))"

end
