(* ===== verification/Disposal.thy ===== *)
theory Disposal
  imports Borrowing
begin

text \<open>
  Disposing directly of what a deactivated account still holds, and settling the list of a
  deactivated agent (\<open>disposal.service.ts\<close>).
\<close>

section \<open>Who may dispose\<close>

definition rat_closure :: "int list \<Rightarrow> rat set" where
  "rat_closure closure = set (map of_int closure)"

definition approverScope :: "int \<Rightarrow> function_access \<Rightarrow> directory \<Rightarrow> approver_scope" where
  "approverScope userId access dir =
     (case toApproverScope (fa_dataScope access) {} of
        CompanyScope \<Rightarrow> CompanyScope
      | DepartmentScope ids \<Rightarrow> DepartmentScope (rat_closure (closureOfUser userId dir)))"

definition is_deactivated :: "int \<Rightarrow> directory \<Rightarrow> bool" where
  "is_deactivated userId dir \<longleftrightarrow>
     (case find (\<lambda>a. ua_userId a = userId) (dir_accounts dir) of
        None \<Rightarrow> False | Some a \<Rightarrow> ua_status a = ''DEACTIVATED'')"

text \<open>The departments of a snapshot that can be read; the others are filtered away.\<close>

definition known_departments :: "json \<Rightarrow> rat list" where
  "known_departments snapshot = List.map_filter id (extractDepartmentIdsFromSnapshot snapshot)"

definition assertDisposable ::
    "borrow_row \<Rightarrow> approver_scope \<Rightarrow> rat set \<Rightarrow> directory \<Rightarrow> asset_db \<Rightarrow> err + unit" where
  "assertDisposable record scope closure dir db =
     (case (br_type record, br_userId record) of
        (PERSONAL, Some userId) \<Rightarrow>
          if \<not> is_deactivated userId dir then Inl (Biz DISPOSAL_FORBIDDEN)
          else if scope \<noteq> CompanyScope then
            (let deptIds = (case lockBorrowRecord (br_id record) db of
                              None \<Rightarrow> known_departments JNull
                            | Some r \<Rightarrow> known_departments (br_departmentSnapshot r))
             in if deptIds = [] \<or> \<not> set deptIds \<subseteq> closure then Inl (Biz RESOURCE_NOT_FOUND) else Inr ())
          else Inr ()
      | _ \<Rightarrow> Inl (Biz RESOURCE_NOT_FOUND))"

section \<open>Records of disposals\<close>

record dispose_line =
  dl_borrowRecordId :: int
  dl_qty :: int
  dl_method :: settle_method
  dl_writeOffType :: "write_off_type option"
  dl_reason :: "string option"

definition insertDisposal :: "disposal_row \<Rightarrow> asset_db \<Rightarrow> err + (int \<times> asset_db)" where
  "insertDisposal r db =
     (let (i, db1) = nextval TDisposals db
      in bindR (insert_row (\<lambda>r. int4 (dp_qty r)) (\<lambda>r r'. False) [] (r\<lparr>dp_id := i\<rparr>) (db_disposals db1))
           (\<lambda>rs. Inr (i, db1\<lparr>db_disposals := rs\<rparr>)))"

definition setFlowRefs :: "int \<Rightarrow> int list \<Rightarrow> asset_db \<Rightarrow> err + asset_db" where
  "setFlowRefs i ids db =
     bindR (update_row dp_id (\<lambda>r. True) i (\<lambda>r. r\<lparr>dp_flowRefs := Some ids\<rparr>) (db_disposals db))
       (\<lambda>rs. Inr (db\<lparr>db_disposals := rs\<rparr>))"

definition disposal_of ::
    "disposal_type \<Rightarrow> int option \<Rightarrow> int option \<Rightarrow> string option \<Rightarrow> operator \<Rightarrow> dispose_line \<Rightarrow> borrow_row
      \<Rightarrow> disposal_row" where
  "disposal_of ty agentRequestId userId userName operator item record =
     \<lparr>dp_id = 0, dp_type = ty, dp_recordId = Some (br_id record), dp_agentRequestId = agentRequestId,
      dp_userId = userId, dp_userName = userName, dp_departmentSnapshot = or_json_null (br_departmentSnapshot record),
      dp_itemId = br_itemId record, dp_consumableName = br_consumableName record, dp_spec = br_spec record,
      dp_warehouseName = br_warehouseName record, dp_warehousePath = br_warehousePath record,
      dp_qty = dl_qty item,
      dp_writeOffType = (if dl_method item = WRITE_OFF then dl_writeOffType item else None),
      dp_reason = dl_reason item, dp_processorId = fst operator, dp_processorName = snd operator,
      dp_flowRefs = None\<rparr>"

text \<open>One item: the record of the disposal, then the goods go back with its flows, or are written off.\<close>

definition dispose_record ::
    "operator \<Rightarrow> disposal_row \<Rightarrow> dispose_line \<Rightarrow> borrow_row \<Rightarrow> asset_db \<Rightarrow> err + (int \<times> asset_db)" where
  "dispose_record operator row item record db =
     bindR (insertDisposal row db) (\<lambda>(disposalId, db1).
       if dl_method item = settle_method.RETURN then
         bindR (restoreRecord record (dl_qty item) ''DIRECT_DISPOSAL'' disposalId operator db1) (\<lambda>(flowIds, db2).
         bindR (setFlowRefs disposalId flowIds db2) (\<lambda>db3. Inr (disposalId, db3)))
       else bindR (writeOffRecord record (dl_qty item) db1) (\<lambda>db2. Inr (disposalId, db2)))"

definition disposal_kind :: "settle_method \<Rightarrow> disposal_type" where
  "disposal_kind m = (if m = settle_method.RETURN then DISPOSE_RETURN else DISPOSE_WRITE_OFF)"

definition disposePersonalLine ::
    "operator \<Rightarrow> approver_scope \<Rightarrow> rat set \<Rightarrow> directory \<Rightarrow> borrow_row list \<Rightarrow> dispose_line \<Rightarrow> int list \<times> asset_db
      \<Rightarrow> err + (int list \<times> asset_db)" where
  "disposePersonalLine operator scope closure dir locked item acc =
     (case find (\<lambda>r. br_id r = dl_borrowRecordId item) locked of
        None \<Rightarrow> Inl PlainError
      | Some record \<Rightarrow>
          bindR (assertDisposable record scope closure dir (snd acc)) (\<lambda>u.
          bindR (dispose_record operator
                   (disposal_of (disposal_kind (dl_method item)) None (br_userId record) (br_userName record)
                      operator item record)
                   item record (snd acc)) (\<lambda>(i, db').
          Inr (fst acc @ [i], db'))))"

definition disposePersonal ::
    "operator \<Rightarrow> approver_scope \<Rightarrow> rat set \<Rightarrow> directory \<Rightarrow> dispose_line list \<Rightarrow> asset_db
      \<Rightarrow> err + (int list \<times> asset_db)" where
  "disposePersonal operator scope closure dir items db =
     (if items = [] then Inl (Biz VALIDATION_FAILED)
      else if \<not> distinct (map dl_borrowRecordId items) then Inl (Biz ITEM_DUPLICATED)
      else bindR (lock_records (map dl_borrowRecordId items) db) (\<lambda>locked.
           foldR (disposePersonalLine operator scope closure dir locked) items ([], db)))"

section \<open>The list of an agent\<close>

definition settle_of :: "dispose_line \<Rightarrow> settle_line" where
  "settle_of l = \<lparr>se_borrowRecordId = dl_borrowRecordId l, se_qty = dl_qty l, se_method = dl_method l,
     se_writeOffType = dl_writeOffType l, se_reason = dl_reason l\<rparr>"

definition disposeAgentLine ::
    "operator \<Rightarrow> int \<Rightarrow> borrow_row list \<Rightarrow> dispose_line \<Rightarrow> int list \<times> asset_db \<Rightarrow> err + (int list \<times> asset_db)" where
  "disposeAgentLine operator agentRequestId locked item acc =
     (case find (\<lambda>r. br_id r = dl_borrowRecordId item) locked of
        None \<Rightarrow> Inl PlainError
      | Some record \<Rightarrow>
          bindR (dispose_record operator
                   (disposal_of AGENT_SETTLE (Some agentRequestId) None None operator item record)
                   item record (snd acc)) (\<lambda>(i, db').
          Inr (fst acc @ [i], db')))"

definition disposeAgentSettle ::
    "operator \<Rightarrow> int \<Rightarrow> dispose_line list \<Rightarrow> approver_scope \<Rightarrow> rat set \<Rightarrow> directory \<Rightarrow> asset_db
      \<Rightarrow> err + (int list \<times> asset_db)" where
  "disposeAgentSettle operator agentRequestId items scope closure dir db =
     (case find (\<lambda>h. ah_id h = agentRequestId) (sd_heads db) of
        None \<Rightarrow> Inl (Biz RESOURCE_NOT_FOUND)
      | Some source \<Rightarrow>
          if ah_requestType source \<noteq> ''AGENT_REQUEST'' then Inl (Biz RESOURCE_NOT_FOUND)
          else if \<not> is_deactivated (ah_applicantId source) dir then Inl (Biz DISPOSAL_FORBIDDEN)
          else if \<exists>h \<in> set (sd_heads db). ar_refRequestId h = Some agentRequestId
                \<and> ah_requestType h = ''AGENT_SETTLEMENT'' \<and> ah_status h = PENDING
          then Inl (Biz DISPOSAL_FORBIDDEN)
          else
            (let allDeptIds = concat (map (\<lambda>r. known_departments (rc_departmentSnapshot r))
                   (filter (\<lambda>r. rc_requestId r = agentRequestId) (db_recipients db)))
             in if scope \<noteq> CompanyScope \<and> (allDeptIds = [] \<or> \<not> set allDeptIds \<subseteq> closure)
                then Inl (Biz RESOURCE_NOT_FOUND)
                else bindR (check_coverage (map settle_of items) agentRequestId db) (\<lambda>u.
                     bindR (lock_records (map dl_borrowRecordId items) db) (\<lambda>locked.
                     foldR (disposeAgentLine operator agentRequestId locked) items ([], db)))))"

section \<open>The operation\<close>

record dispose_input =
  dt_agentSettle :: bool
  dt_items :: "dispose_line list option"
  dt_agentRequestId :: "int option"
  dt_agentItems :: "dispose_line list option"

definition dispose_run ::
    "operator \<Rightarrow> approver_scope \<Rightarrow> rat set \<Rightarrow> directory \<Rightarrow> dispose_input \<Rightarrow> asset_db
      \<Rightarrow> err + (int list \<times> asset_db)" where
  "dispose_run operator scope closure dir dto db =
     (if dt_agentSettle dto then
        (case (dt_agentRequestId dto, dt_agentItems dto) of
           (Some agentRequestId, Some (l # ls)) \<Rightarrow>
             disposeAgentSettle operator agentRequestId (l # ls) scope closure dir db
         | _ \<Rightarrow> Inl (Biz VALIDATION_FAILED))
      else (case dt_items dto of
          None \<Rightarrow> Inl (Biz VALIDATION_FAILED)
        | Some items \<Rightarrow> disposePersonal operator scope closure dir items db))"

definition CONSUMABLE_APPROVAL_FUNCTION_CODE :: string where
  "CONSUMABLE_APPROVAL_FUNCTION_CODE = ''consumable_approval''"

end
