(* ===== verification/Idempotency.thy ===== *)
theory Idempotency
  imports Submissions
begin

text \<open>
  Idempotent operations (\<open>shared/asset-operation-log.util.ts\<close>): the fingerprint of a payload, the
  operation log with its unique index, the replay of a recorded result, and clients that race
  with the same key.
\<close>

section \<open>Fingerprints\<close>

text \<open>
  A stable sort by a comparison of the host (\<open>localeCompare\<close> on texts). \<open>JSON.stringify\<close>, the
  comparison and SHA-256 are arguments.
\<close>

fun insert_cmp :: "('a \<Rightarrow> 'a \<Rightarrow> int) \<Rightarrow> 'a \<Rightarrow> 'a list \<Rightarrow> 'a list" where
  "insert_cmp cmp x [] = [x]"
| "insert_cmp cmp x (y # ys) = (if cmp x y \<le> 0 then x # y # ys else y # insert_cmp cmp x ys)"

definition sort_cmp :: "('a \<Rightarrow> 'a \<Rightarrow> int) \<Rightarrow> 'a list \<Rightarrow> 'a list" where
  "sort_cmp cmp xs = foldr (insert_cmp cmp) xs []"

fun canonicalize :: "(string \<Rightarrow> string \<Rightarrow> int) \<Rightarrow> (json \<Rightarrow> string) \<Rightarrow> json \<Rightarrow> json" where
  "canonicalize lc stringify (JArr es) =
     JArr (sort_cmp (\<lambda>a b. lc (stringify a) (stringify b)) (map (canonicalize lc stringify) es))"
| "canonicalize lc stringify (JObj ps) =
     JObj (sort_cmp (\<lambda>a b. lc (fst a) (fst b))
       (map (\<lambda>(k, v). (k, canonicalize lc stringify v)) (filter (\<lambda>(k, v). v \<noteq> JUndef) ps)))"
| "canonicalize lc stringify v = v"

definition fingerprintPayload ::
    "(string \<Rightarrow> string \<Rightarrow> int) \<Rightarrow> (json \<Rightarrow> string) \<Rightarrow> (string \<Rightarrow> string) \<Rightarrow> json \<Rightarrow> string" where
  "fingerprintPayload lc stringify sha256hex payload = sha256hex (stringify (canonicalize lc stringify payload))"

section \<open>The operator\<close>

definition loadOperatorDepartments :: "directory \<Rightarrow> int \<Rightarrow> (int \<times> string) list" where
  "loadOperatorDepartments dir userId =
     sort_key fst (remdups (map (\<lambda>o'. (uo_departmentId o', uo_departmentName o'))
       (filter (\<lambda>o'. uo_userId o' = userId) (dir_orgs dir))))"

definition loadAssetOperationLogOperator ::
    "directory \<Rightarrow> int \<Rightarrow> err + (operator \<times> (int \<times> string) list)" where
  "loadAssetOperationLogOperator dir operatorId =
     (case loadSessionUser operatorId dir of
        None \<Rightarrow> Inl (Biz UNAUTHORIZED)
      | Some user \<Rightarrow> Inr ((operatorId, loadUserName operatorId dir), loadOperatorDepartments dir operatorId))"

section \<open>The operation log\<close>

record 'r outcome =
  oc_result :: 'r
  oc_action :: log_action
  oc_summary :: string

text \<open>
  The unique index on the operator, the system, the scope and the key, for rows with a key; rows
  without a scope never conflict.
\<close>

definition log_clash :: "log_row \<Rightarrow> log_row \<Rightarrow> bool" where
  "log_clash a b \<longleftrightarrow> lo_key a \<noteq> None \<and> lo_key b \<noteq> None \<and> lo_scope a \<noteq> None
     \<and> (case lo_operatorId a of None \<Rightarrow> 0 | Some i \<Rightarrow> i) = (case lo_operatorId b of None \<Rightarrow> 0 | Some i \<Rightarrow> i)
     \<and> lo_system a = lo_system b \<and> lo_scope a = lo_scope b \<and> lo_key a = lo_key b"

definition writeAssetOperationLog :: "log_row \<Rightarrow> asset_db \<Rightarrow> err + asset_db" where
  "writeAssetOperationLog entry db =
     bindR (insert_row (\<lambda>r. True) log_clash [''idempotency_scope'', ''idempotency_key''] entry (db_logs db))
       (\<lambda>ls. Inr (db\<lparr>db_logs := ls\<rparr>))"

definition is_record :: "int \<Rightarrow> string \<Rightarrow> string \<Rightarrow> log_row \<Rightarrow> bool" where
  "is_record operatorId scope key l \<longleftrightarrow> lo_operatorId l = Some operatorId \<and> lo_system l = ''ASSET''
     \<and> lo_scope l = Some scope \<and> lo_key l = Some key"

definition findIdempotencyRecord :: "int \<Rightarrow> string \<Rightarrow> string \<Rightarrow> asset_db \<Rightarrow> log_row option" where
  "findIdempotencyRecord operatorId scope key db = find (is_record operatorId scope key) (db_logs db)"

definition replayIdempotencyRecord :: "log_row \<Rightarrow> string \<Rightarrow> err + json" where
  "replayIdempotencyRecord record fingerprint =
     (if lo_fingerprint record \<noteq> Some fingerprint then Inl (Biz IDEMPOTENCY_KEY_REUSED) else Inr (lo_result record))"

definition tryReplayIdempotentResult ::
    "int \<Rightarrow> string \<Rightarrow> string \<Rightarrow> string \<Rightarrow> asset_db \<Rightarrow> err + json option" where
  "tryReplayIdempotentResult operatorId scope key fingerprint db =
     (case findIdempotencyRecord operatorId scope key db of
        None \<Rightarrow> Inr None
      | Some existing \<Rightarrow> bindR (replayIdempotencyRecord existing fingerprint) (\<lambda>r. Inr (Some r)))"

text \<open>What an operation is called with; an empty key counts as none.\<close>

record idem_options =
  io_operator :: operator
  io_feature :: string
  io_scope :: string
  io_key :: "string option"
  io_fingerprint :: string
  io_run :: "asset_db \<Rightarrow> err + (json outcome \<times> asset_db)"

text \<open>An undefined result leaves the column empty, which reads back as \<open>null\<close>.\<close>

definition column_json :: "json \<Rightarrow> json" where
  "column_json v = (if v = JUndef then JNull else v)"

definition plain_log :: "idem_options \<Rightarrow> json outcome \<Rightarrow> log_row" where
  "plain_log opts out =
     \<lparr>lo_operatorId = Some (fst (io_operator opts)), lo_operatorName = Some (snd (io_operator opts)),
      lo_system = ''ASSET'', lo_feature = io_feature opts, lo_action = oc_action out, lo_summary = oc_summary out,
      lo_scope = None, lo_key = None, lo_fingerprint = None, lo_result = JNull\<rparr>"

definition keyed_log :: "idem_options \<Rightarrow> string \<Rightarrow> json outcome \<Rightarrow> log_row" where
  "keyed_log opts key out =
     (plain_log opts out)\<lparr>lo_scope := Some (io_scope opts), lo_key := Some key,
       lo_fingerprint := Some (io_fingerprint opts), lo_result := column_json (oc_result out)\<rparr>"

definition run_logged ::
    "idem_options \<Rightarrow> (json outcome \<Rightarrow> log_row) \<Rightarrow> asset_db \<Rightarrow> err + (json \<times> asset_db)" where
  "run_logged opts row db =
     bindR (io_run opts db) (\<lambda>(out, db1).
     bindR (writeAssetOperationLog (row out) db1) (\<lambda>db2. Inr (oc_result out, db2)))"

definition commitIdempotentOperation :: "idem_options \<Rightarrow> asset_db \<Rightarrow> err + (json \<times> asset_db)" where
  "commitIdempotentOperation opts db =
     (case io_key opts of
        Some (c # cs) \<Rightarrow>
          (case run_logged opts (keyed_log opts (c # cs)) db of
             Inr r \<Rightarrow> Inr r
           | Inl e \<Rightarrow>
               if isPrismaUniqueViolation e then
                 (case findIdempotencyRecord (fst (io_operator opts)) (io_scope opts) (c # cs) db of
                    Some concurrent \<Rightarrow> bindR (replayIdempotencyRecord concurrent (io_fingerprint opts)) (\<lambda>r. Inr (r, db))
                  | None \<Rightarrow> Inl e)
               else Inl e)
      | _ \<Rightarrow> run_logged opts (plain_log opts) db)"

definition executeIdempotentOperation :: "idem_options \<Rightarrow> asset_db \<Rightarrow> err + (json \<times> asset_db)" where
  "executeIdempotentOperation opts db =
     (case io_key opts of
        Some (c # cs) \<Rightarrow>
          bindR (tryReplayIdempotentResult (fst (io_operator opts)) (io_scope opts) (c # cs) (io_fingerprint opts) db)
            (\<lambda>replayed. case replayed of Some r \<Rightarrow> Inr (r, db) | None \<Rightarrow> commitIdempotentOperation opts db)
      | _ \<Rightarrow> commitIdempotentOperation opts db)"

end
