(* ===== verification/AssetApproval.thy ===== *)
theory AssetApproval
  imports Disposal Idempotency
begin

text \<open>
  The approval centre of the asset module (\<open>asset-approval.service.ts\<close> and
  \<open>asset-approval-side-effect.ts\<close>): who may process a request, the decision with its side
  effects, the cancellation, and which requests a departmental approver is shown.
\<close>

section \<open>Side effects\<close>

definition applyApprove ::
    "(json list \<Rightarrow> json list) \<Rightarrow> int \<Rightarrow> side_head \<Rightarrow> int \<Rightarrow> asset_db \<Rightarrow> err + asset_db" where
  "applyApprove jsort now head processorId db =
     (if sh_requestType head = ''STOCK_IN'' then stockInApplyApproved head processorId db
      else if sh_requestType head = ''STOCK_CHANGE'' then changeApplyApproved head db
      else if sh_requestType head = ''CONSUMABLE_REQUEST'' then claimApplyApproved now head processorId db
      else if sh_requestType head = ''AGENT_REQUEST'' then agentApplyApproved jsort now head processorId db
      else if sh_requestType head = ''RETURN'' then applyReturnApproved head db
      else if sh_requestType head = ''WRITE_OFF'' then applyWriteOffApproved head db
      else if sh_requestType head = ''AGENT_SETTLEMENT'' then settlementApplyApproved head processorId db
      else Inr db)"

text \<open>A stock-in, a return, a write-off and a settlement hold nothing that could be released.\<close>

definition applyRelease :: "side_head \<Rightarrow> asset_db \<Rightarrow> err + asset_db" where
  "applyRelease head db =
     (if sh_requestType head = ''STOCK_CHANGE'' then changeApplyRelease head db
      else if sh_requestType head = ''CONSUMABLE_REQUEST'' then claimApplyRelease head db
      else if sh_requestType head = ''AGENT_REQUEST'' then agentApplyRelease head db
      else Inr db)"

section \<open>Who may process\<close>

definition ALL_ASSET_TYPES :: "string list" where
  "ALL_ASSET_TYPES =
     [''STOCK_IN'', ''STOCK_CHANGE'', ''CONSUMABLE_REQUEST'', ''AGENT_REQUEST'', ''RETURN'', ''WRITE_OFF'',
      ''AGENT_SETTLEMENT'']"

definition assertCanAccessRequest :: "int \<Rightarrow> string \<Rightarrow> directory \<Rightarrow> err + unit" where
  "assertCanAccessRequest userId requestType dir =
     (let access = getFunctionAccess True userId CONSUMABLE_APPROVAL_FUNCTION_CODE dir in
      if \<not> fa_registered access then Inl (Biz RESOURCE_NOT_FOUND)
      else if \<not> fa_systemOpen access then Inl (Biz SYSTEM_NOT_OPEN)
      else if \<not> fa_allowed access then Inl (Biz RESOURCE_NOT_FOUND)
      else if fa_dataScope access = Some DEPARTMENT \<and> isCompanyOnlyRequestType requestType
      then Inl (Biz RESOURCE_NOT_FOUND)
      else Inr ())"

text \<open>The departments a request is about, by its type.\<close>

definition request_departments :: "int \<Rightarrow> string \<Rightarrow> asset_db \<Rightarrow> rat option list" where
  "request_departments headId requestType db =
     (if requestType = ''AGENT_REQUEST'' \<or> requestType = ''AGENT_SETTLEMENT'' then
        (let refId = (if requestType = ''AGENT_SETTLEMENT''
               then (case find (\<lambda>h. ah_id h = headId) (sd_heads db) of None \<Rightarrow> None | Some h \<Rightarrow> ar_refRequestId h)
               else Some headId)
         in case refId of
             None \<Rightarrow> []
           | Some i \<Rightarrow> concat (map (\<lambda>r. extractDepartmentIdsFromSnapshot (rc_departmentSnapshot r))
               (filter (\<lambda>r. rc_requestId r = i) (db_recipients db))))
      else if requestType = ''RETURN'' \<or> requestType = ''WRITE_OFF'' then
        concat (map (\<lambda>a. concat (map (\<lambda>b. extractDepartmentIdsFromSnapshot (br_departmentSnapshot b))
                   (filter (\<lambda>b. br_id b = ai_recordId a) (db_borrows db))))
          (filter (\<lambda>a. ai_requestId a = headId) (db_actionItems db)))
      else extractDepartmentIdsFromSnapshot
             (case find (\<lambda>h. ah_id h = headId) (sd_heads db) of None \<Rightarrow> JUndef | Some h \<Rightarrow> ah_departmentSnapshot h))"

definition assertScopeCovers :: "int \<Rightarrow> string \<Rightarrow> int \<Rightarrow> directory \<Rightarrow> asset_db \<Rightarrow> err + unit" where
  "assertScopeCovers headId requestType userId dir db =
     (let access = getFunctionAccess True userId CONSUMABLE_APPROVAL_FUNCTION_CODE dir in
      if fa_dataScope access \<noteq> Some DEPARTMENT then Inr ()
      else assertScopeCoversAll
             (toApproverScope (fa_dataScope access) (rat_closure (closureOfUser userId dir)))
             (request_departments headId requestType db) (Some requestType))"

section \<open>Deciding\<close>

definition find_head :: "int \<Rightarrow> asset_db \<Rightarrow> approval_request option" where
  "find_head i db = find (\<lambda>h. ah_id h = i) (sd_heads db)"

definition side_of :: "approval_request \<Rightarrow> int option \<Rightarrow> string option \<Rightarrow> side_head" where
  "side_of head processorId processorName =
     \<lparr>sh_id = ah_id head, sh_requestType = ah_requestType head, sh_applicantId = ah_applicantId head,
      sh_applicantName = ar_applicantName head, sh_departmentSnapshot = ah_departmentSnapshot head,
      sh_processorId = processorId, sh_processorName = processorName\<rparr>"

definition decided ::
    "approval_status \<Rightarrow> int \<Rightarrow> string \<Rightarrow> int \<Rightarrow> string option \<Rightarrow> approval_request \<Rightarrow> approval_request" where
  "decided status processorId processorName now opinion h =
     h\<lparr>ah_status := status, ah_updatedAt := now, ar_processorId := Some processorId,
       ar_processorName := Some processorName, ar_processedAt := Some now, ar_opinion := opinion\<rparr>"

definition cancelled_by :: "int \<Rightarrow> int \<Rightarrow> approval_request \<Rightarrow> approval_request" where
  "cancelled_by actorId now h =
     h\<lparr>ah_status := CANCELLED, ah_updatedAt := now, ah_cancelledAt := Some now, ah_cancelSource := Some USER,
       ar_cancelledBy := Some actorId\<rparr>"

definition add_action :: "action_row \<Rightarrow> asset_db \<Rightarrow> asset_db" where
  "add_action a db = db\<lparr>sd_acts := sd_acts db @ [a]\<rparr>"

text \<open>
  \<open>updateMany\<close> with the version the head was read at; the count decides whether the transition is
  lost to another one.
\<close>

definition transition_head ::
    "int \<Rightarrow> int \<Rightarrow> (approval_request \<Rightarrow> approval_request) \<Rightarrow> asset_db \<Rightarrow> err + asset_db" where
  "transition_head i v f db =
     (let (n, hs) = cas_head i v f (sd_heads db)
      in bindR (throwIfTransitionLost n) (\<lambda>u. Inr (db\<lparr>sd_heads := hs\<rparr>)))"

definition side_effect ::
    "(json list \<Rightarrow> json list) \<Rightarrow> int \<Rightarrow> process_action \<Rightarrow> side_head \<Rightarrow> int \<Rightarrow> asset_db \<Rightarrow> err + asset_db" where
  "side_effect jsort now action sideHead processorId db =
     (if action = process_action.APPROVE then applyApprove jsort now sideHead processorId db
      else applyRelease sideHead db)"

definition processInner ::
    "(json list \<Rightarrow> json list) \<Rightarrow> directory \<Rightarrow> int \<Rightarrow> int \<Rightarrow> process_action \<Rightarrow> resolved_transition \<Rightarrow> int
      \<Rightarrow> string option \<Rightarrow> asset_db \<Rightarrow> err + asset_db" where
  "processInner jsort dir now i action transition processorId opinion db =
     (case find_head i db of
        None \<Rightarrow> Inl (Biz RESOURCE_NOT_FOUND)
      | Some head \<Rightarrow>
          bindR (assertCanAccessRequest processorId (ah_requestType head) dir) (\<lambda>u1.
          if ah_status head \<noteq> PENDING then Inl (Biz STATUS_CONFLICT)
          else
            bindR (assertTransitionAllowed (ah_status head) (rt_status transition)) (\<lambda>u2.
            bindR (assertScopeCovers (ah_id head) (ah_requestType head) processorId dir db) (\<lambda>u3.
            let processorName = loadUserName processorId dir in
            bindR (transition_head i (ah_version head)
                     (decided (rt_status transition) processorId processorName now opinion) db) (\<lambda>db1.
            let sideHead = side_of head (Some processorId) (Some processorName) in
            bindR (side_effect jsort now action sideHead processorId db1) (\<lambda>db2.
            Inr (add_action
              \<lparr>ac_requestId = i, ac_action = rt_action transition, ac_actorId = processorId,
               ac_actorName = processorName, ac_opinion = opinion, ac_cancelSource = None,
               ac_createdAt = now\<rparr> db2)))))))"

definition process_run ::
    "(json list \<Rightarrow> json list) \<Rightarrow> directory \<Rightarrow> int \<Rightarrow> int \<Rightarrow> process_action \<Rightarrow> int \<Rightarrow> string option \<Rightarrow> asset_db
      \<Rightarrow> err + (json outcome \<times> asset_db)" where
  "process_run jsort dir now i action processorId opinion db =
     bindR (resolveProcessTransition action None) (\<lambda>transition.
     bindR (assertOpinionIfRequired (rt_requiresOpinion transition) opinion) (\<lambda>u.
     bindR (processInner jsort dir now i action transition processorId opinion db) (\<lambda>db'.
     Inr (\<lparr>oc_result = JUndef, oc_action = UPDATE, oc_summary = ''processed''\<rparr>, db'))))"

definition cancelInner ::
    "directory \<Rightarrow> int \<Rightarrow> int \<Rightarrow> int \<Rightarrow> resolved_transition \<Rightarrow> asset_db \<Rightarrow> err + asset_db" where
  "cancelInner dir now i actorId transition db =
     (case find_head i db of
        None \<Rightarrow> Inl (Biz RESOURCE_NOT_FOUND)
      | Some head \<Rightarrow>
          if ah_applicantId head \<noteq> actorId \<and> ah_proxyId head \<noteq> Some actorId then Inl (Biz RESOURCE_NOT_FOUND)
          else
            bindR (assertPending (ah_status head)) (\<lambda>u1.
            bindR (assertTransitionAllowed (ah_status head) (rt_status transition)) (\<lambda>u2.
            bindR (transition_head i (ah_version head) (cancelled_by actorId now) db) (\<lambda>db1.
            bindR (applyRelease (side_of head None None) db1) (\<lambda>db2.
            Inr (add_action
              \<lparr>ac_requestId = i, ac_action = approval_action.CANCEL, ac_actorId = actorId,
               ac_actorName = loadUserName actorId dir, ac_opinion = None, ac_cancelSource = Some USER,
               ac_createdAt = now\<rparr> db2))))))"

definition cancel_run ::
    "directory \<Rightarrow> int \<Rightarrow> int \<Rightarrow> int \<Rightarrow> asset_db \<Rightarrow> err + (json outcome \<times> asset_db)" where
  "cancel_run dir now i actorId db =
     bindR (resolveProcessTransition process_action.CANCEL (Some USER)) (\<lambda>transition.
     bindR (cancelInner dir now i actorId transition db) (\<lambda>db'.
     Inr (\<lparr>oc_result = JUndef, oc_action = UPDATE, oc_summary = ''cancelled''\<rparr>, db')))"

text \<open>The operations of the controller: the operator is loaded, then the run is made idempotent.\<close>

definition process_op ::
    "(json list \<Rightarrow> json list) \<Rightarrow> (json \<Rightarrow> string) \<Rightarrow> directory \<Rightarrow> int \<Rightarrow> int \<Rightarrow> process_action \<Rightarrow> int \<Rightarrow> string option
      \<Rightarrow> string option \<Rightarrow> asset_db \<Rightarrow> err + (json \<times> asset_db)" where
  "process_op jsort fingerprint dir now i action processorId opinion idempotencyKey db =
     bindR (loadAssetOperationLogOperator dir processorId) (\<lambda>(operator, departments).
     executeIdempotentOperation
       \<lparr>io_operator = operator, io_feature = CONSUMABLE_APPROVAL_FUNCTION_CODE,
        io_scope = ''asset.approval.process/'' @ int_str i, io_key = idempotencyKey,
        io_fingerprint = fingerprint (JObj
          [(''action'', JStr (if action = process_action.APPROVE then ''APPROVE'' else ''REJECT'')),
           (''opinion'', case opinion of None \<Rightarrow> JNull | Some s \<Rightarrow> JStr s)]),
        io_run = process_run jsort dir now i action processorId opinion\<rparr> db)"

definition cancel_op ::
    "(json \<Rightarrow> string) \<Rightarrow> directory \<Rightarrow> int \<Rightarrow> int \<Rightarrow> int \<Rightarrow> string option \<Rightarrow> asset_db \<Rightarrow> err + (json \<times> asset_db)" where
  "cancel_op fingerprint dir now i actorId idempotencyKey db =
     bindR (loadAssetOperationLogOperator dir actorId) (\<lambda>(operator, departments).
     executeIdempotentOperation
       \<lparr>io_operator = operator, io_feature = CONSUMABLE_APPROVAL_FUNCTION_CODE,
        io_scope = ''asset.approval.cancel/'' @ int_str i, io_key = idempotencyKey,
        io_fingerprint = fingerprint (JObj [(''cancel'', JBool True)]),
        io_run = cancel_run dir now i actorId\<rparr> db)"

section \<open>What an approver is shown\<close>

definition resolveVisibleTypes ::
    "bool \<Rightarrow> int \<Rightarrow> directory \<Rightarrow> (string \<times> data_scope option) list" where
  "resolveVisibleTypes explicitGrantsOnly userId dir =
     (let access = getFunctionAccess (\<not> explicitGrantsOnly) userId CONSUMABLE_APPROVAL_FUNCTION_CODE dir in
      if \<not> fa_registered access \<or> \<not> fa_systemOpen access then []
      else
        let isSuperAdmin = (\<not> explicitGrantsOnly \<and>
              (case loadSessionUser userId dir of None \<Rightarrow> False | Some u \<Rightarrow> ua_isSuperAdmin u))
        in if \<not> isSuperAdmin \<and> \<not> fa_allowed access then []
           else
             let dataScope = (if isSuperAdmin then None else fa_dataScope access)
             in if dataScope = None \<or> dataScope = Some COMPANY
                then map (\<lambda>t. (t, dataScope)) ALL_ASSET_TYPES
                else map (\<lambda>t. (t, dataScope)) (filter (\<lambda>t. \<not> isCompanyOnlyRequestType t) ALL_ASSET_TYPES))"

text \<open>
  The conditions of the queries on a snapshot: it has an element, and no element has an \<open>id\<close>
  outside the closure. An element without \<open>id\<close> compares as NULL, which excludes nothing. The cast
  of an \<open>id\<close> to an integer is the argument \<open>cast\<close>; it may fail (a fraction written as text, a number
  beyond the range), and then the whole query fails. Elements and rows are looked at in their order,
  and \<open>NOT EXISTS\<close> and \<open>EXISTS\<close> stop at the first that decides them.
\<close>

definition element_id :: "(json \<Rightarrow> err + rat) \<Rightarrow> json \<Rightarrow> err + rat option" where
  "element_id cast el =
     (case el of
        JObj ps \<Rightarrow> (if nullish (jget ''id'' ps) then Inr None else bindR (cast (jget ''id'' ps)) (\<lambda>i. Inr (Some i)))
      | _ \<Rightarrow> Inr None)"

definition element_outside :: "(json \<Rightarrow> err + rat) \<Rightarrow> rat set \<Rightarrow> json \<Rightarrow> err + bool" where
  "element_outside cast closure el =
     bindR (element_id cast el) (\<lambda>i. Inr (case i of None \<Rightarrow> False | Some k \<Rightarrow> k \<notin> closure))"

definition snapshot_listed :: "(json \<Rightarrow> err + rat) \<Rightarrow> rat set \<Rightarrow> json \<Rightarrow> err + bool" where
  "snapshot_listed cast closure s =
     (if snapshot_elements s = [] then Inr False
      else bindR (existsR (element_outside cast closure) (snapshot_elements s)) (\<lambda>b. Inr (\<not> b)))"

definition covered_of_type ::
    "(json \<Rightarrow> err + rat) \<Rightarrow> rat set \<Rightarrow> asset_db \<Rightarrow> string \<Rightarrow> err + int list" where
  "covered_of_type cast closure db ty =
     (if ty = ''RETURN'' \<or> ty = ''WRITE_OFF'' then
        bindR (filterR (\<lambda>(a, b). if br_departmentSnapshot b = JUndef then Inr False
                          else snapshot_listed cast closure (br_departmentSnapshot b))
            (concat (map (\<lambda>a. map (Pair a) (filter (\<lambda>b. br_id b = ai_recordId a) (db_borrows db))) (db_actionItems db))))
          (\<lambda>rows. Inr (remdups (map (\<lambda>(a, b). ai_requestId a) rows)))
      else if ty = ''AGENT_REQUEST'' then
        bindR (filterR (\<lambda>h. existsR (\<lambda>r. snapshot_listed cast closure (rc_departmentSnapshot r))
              (filter (\<lambda>r. rc_requestId r = ah_id h) (db_recipients db)))
            (filter (\<lambda>h. ah_requestType h = ''AGENT_REQUEST'') (sd_heads db)))
          (\<lambda>hs. Inr (remdups (map ah_id hs)))
      else if ty = ''AGENT_SETTLEMENT'' then
        bindR (filterR (\<lambda>h. existsR (\<lambda>r. snapshot_listed cast closure (rc_departmentSnapshot r))
              (filter (\<lambda>r. ar_refRequestId h = Some (rc_requestId r)) (db_recipients db)))
            (filter (\<lambda>h. ah_requestType h = ''AGENT_SETTLEMENT'') (sd_heads db)))
          (\<lambda>hs. Inr (remdups (map ah_id hs)))
      else
        bindR (filterR (\<lambda>h. if ah_departmentSnapshot h = JUndef then Inr False
                          else snapshot_listed cast closure (ah_departmentSnapshot h))
            (filter (\<lambda>h. ah_requestType h = ty) (sd_heads db)))
          (\<lambda>hs. Inr (map ah_id hs)))"

definition findCoveredRequestIds ::
    "(json \<Rightarrow> err + rat) \<Rightarrow> int list \<Rightarrow> (string \<times> data_scope option) list \<Rightarrow> asset_db \<Rightarrow> err + int list" where
  "findCoveredRequestIds cast closure visibleTypes db =
     (let departmentScoped = filter (\<lambda>e. snd e = Some DEPARTMENT) visibleTypes in
      if closure = [] \<or> departmentScoped = [] then Inr []
      else bindR (foldR (\<lambda>e ids. bindR (covered_of_type cast (rat_closure closure) db (fst e)) (\<lambda>rows. Inr (ids @ rows)))
             departmentScoped [])
           (\<lambda>ids. Inr (remdups ids)))"

end
