(* ===== verification/Decisions.thy ===== *)
theory Decisions
  imports AssetApproval
begin

text \<open>
  Deciding and cancelling requests keeps stock and reservations in order, and a request that is
  pending can always be released and, when it only takes what it reserved, always be approved.
\<close>

section \<open>Borrowed goods going back\<close>

lemma restore_rows_mem:
  "x \<in> set (restore_rows r db) \<longleftrightarrow>
    (\<exists>a b. x = (a, ba_itemId b) \<and> a \<in> set (db_allocs db) \<and> al_recordId a = r
      \<and> b \<in> set (db_batches db) \<and> ba_id b = al_batchId a)"
  by (auto simp: restore_rows_def)

lemma addAlloc_Inr_iff:
  "addAlloc k d db = Inr db' \<longleftrightarrow>
    (\<exists>a \<in> set (db_allocs db). al_id a = k) \<and> (\<forall>a \<in> set (db_allocs db). al_id a = k \<longrightarrow> alloc_ok (alloc_add d a))
    \<and> db' = db\<lparr>db_allocs := update_where (\<lambda>a. al_id a = k) (alloc_add d) (db_allocs db)\<rparr>"
  by (auto simp: addAlloc_def bindR_Inr_iff update_row_Inr_iff)

lemma addBorrow_Inr_iff:
  "addBorrow k r w db = Inr db' \<longleftrightarrow>
    (\<exists>b \<in> set (db_borrows db). br_id b = k) \<and> (\<forall>b \<in> set (db_borrows db). br_id b = k \<longrightarrow> borrow_ok (borrow_add r w b))
    \<and> db' = db\<lparr>db_borrows := update_where (\<lambda>b. br_id b = k) (borrow_add r w) (db_borrows db)\<rparr>"
  by (auto simp: addBorrow_def bindR_Inr_iff update_row_Inr_iff)

lemma addAlloc_frame:
  assumes "addAlloc k d db = Inr db'" and "tables_ok db"
  shows "shifts db db' none0 none0 none0 none0" and "same_requests db db'"
  using assms by (auto simp: addAlloc_Inr_iff same_requests_def intro!: shifts_frame)

lemma addBorrow_frame:
  assumes "addBorrow k r w db = Inr db'" and "tables_ok db"
  shows "shifts db db' none0 none0 none0 none0" and "same_requests db db'"
  using assms by (auto simp: addBorrow_Inr_iff same_requests_def intro!: shifts_frame)

text \<open>The batch a step of the loop puts goods into belongs to the item \<open>k\<close>.\<close>

definition batch_at :: "asset_db \<Rightarrow> int \<Rightarrow> int \<Rightarrow> bool" where
  "batch_at db i k \<longleftrightarrow> (\<exists>b \<in> set (db_batches db). ba_id b = i \<and> ba_itemId b = k)"

lemma restore_step_shifts:
  assumes "restore_step row rt ri opr a t bq db = Inr (f, db')" and "tables_ok db"
    and "batch_at db (al_batchId a) (lk_id row)"
  shows "shifts db db' (atk (lk_id row) t) none0 (atk (lk_id row) t) (atk (lk_id row) t)"
    and "same_requests db db'" and "batch_at db i k \<Longrightarrow> batch_at db' i k"
    and "db_borrows db' = db_borrows db"
    and "db_allocs db' = update_where (\<lambda>x. al_id x = al_id a) (alloc_add t) (db_allocs db)"
proof -
  obtain d1 d2 d3 where s1: "addAlloc (al_id a) t db = Inr d1" and s2: "addBatch (al_batchId a) t d1 = Inr d2"
    and s3: "addItem (lk_id row) t 0 d2 = Inr d3"
    and s4: "insertFlow \<lparr>fl_id = 0, fl_type = flow_type.RETURN, fl_direction = IN, fl_itemId = lk_id row,
        fl_batchId = Some (al_batchId a), fl_consumableName = lk_consumableName row, fl_spec = lk_spec row,
        fl_warehouseName = lk_warehouseName row, fl_warehousePath = lk_warehousePath row, fl_qty = t,
        fl_bookBefore = bq, fl_bookAfter = bq + t, fl_refType = rt, fl_refId = ri,
        fl_operatorId = fst opr, fl_operatorName = snd opr\<rparr> d3 = Inr (f, db')"
    using assms(1) by (auto simp: restore_step_def writeStockFlow_def bindR_Inr_iff)
  obtain b where b: "b \<in> set (db_batches db)" "ba_id b = al_batchId a" "ba_itemId b = lk_id row"
    using assms(3) by (auto simp: batch_at_def)
  have b1: "db_batches d1 = db_batches db" using s1 by (auto simp: addAlloc_Inr_iff)
  note f1 = addAlloc_frame [OF s1 assms(2)]
  note f2 = addBatch_shifts [OF s2 shifts_tables_ok [OF f1(1)], of b, unfolded b1, OF b(1,2)]
  note f3 = addItem_shifts [OF s3 shifts_tables_ok [OF f2(1)]]
  note f4 = insertFlow_shifts [OF s4 shifts_tables_ok [OF f3(1)]]
  show "shifts db db' (atk (lk_id row) t) none0 (atk (lk_id row) t) (atk (lk_id row) t)"
    using shifts_trans [OF shifts_trans [OF shifts_trans [OF f1(1) f2(1)] f3(1)] f4(1)] b(3)
    by (simp add: flow_signed_def)
  show "same_requests db db'"
    by (rule same_requests_trans [OF f1(2) same_requests_trans [OF same_rest_requests [OF f2(2)]
          same_requests_trans [OF same_rest_requests [OF f3(2)] same_rest_requests [OF f4(2)]]]])
  have bs: "db_batches db' = update_where (\<lambda>b. ba_id b = al_batchId a) (batch_add t) (db_batches db)"
    using s2 s3 f4(4) b1 by (auto simp: addBatch_Inr_iff addItem_Inr_iff)
  show "batch_at db' i k" if at: "batch_at db i k"
  proof -
    obtain c where c: "c \<in> set (db_batches db)" "ba_id c = i" "ba_itemId c = k"
      using at by (auto simp: batch_at_def)
    let ?c = "if ba_id c = al_batchId a then batch_add t c else c"
    have "?c \<in> set (db_batches db')" using c(1) unfolding bs by (auto simp: set_update_where)
    moreover have "ba_id ?c = i" "ba_itemId ?c = k" using c(2,3) by simp_all
    ultimately show ?thesis unfolding batch_at_def by blast
  qed
  show "db_borrows db' = db_borrows db"
    and "db_allocs db' = update_where (\<lambda>x. al_id x = al_id a) (alloc_add t) (db_allocs db)"
    using s1 s2 s3 s4 by (auto simp: addAlloc_Inr_iff addBatch_Inr_iff addItem_Inr_iff insertFlow_Inr_iff)
qed

lemma restore_loop_shifts:
  assumes "restore_loop row rt ri opr xs q bq ids db = Inr (rest, ids', db')" and "tables_ok db" and "0 \<le> q"
    and "\<And>x. x \<in> set xs \<Longrightarrow> batch_at db (al_batchId (fst x)) (lk_id row)"
  shows "shifts db db' (atk (lk_id row) (q - rest)) none0 (atk (lk_id row) (q - rest)) (atk (lk_id row) (q - rest))
    \<and> same_requests db db' \<and> 0 \<le> rest \<and> db_borrows db' = db_borrows db"
  using assms
proof (induction xs arbitrary: q bq ids db)
  case Nil
  then show ?case by (simp add: shifts_refl)
next
  case (Cons x xs)
  consider "q \<le> 0" | "0 < q" "al_open (fst x) \<le> 0" | "0 < q" "0 < al_open (fst x)" by linarith
  then show ?case
  proof cases
    case 1
    then show ?thesis using Cons.prems by (simp add: shifts_refl)
  next
    case 2
    then show ?thesis using Cons.prems by (intro Cons.IH [of q bq ids db]) auto
  next
    case 3
    let ?t = "min (al_open (fst x)) q"
    obtain f d where d: "restore_step row rt ri opr (fst x) ?t bq db = Inr (f, d)"
      and r: "restore_loop row rt ri opr xs (q - ?t) (bq + ?t) (ids @ [f]) d = Inr (rest, ids', db')"
      using Cons.prems(1) 3 by (auto simp: bindR_Inr_iff Let_def)
    note s = restore_step_shifts [OF d Cons.prems(2) Cons.prems(4) [of x, simplified]]
    have "shifts d db' (atk (lk_id row) (q - ?t - rest)) none0 (atk (lk_id row) (q - ?t - rest))
        (atk (lk_id row) (q - ?t - rest)) \<and> same_requests d db' \<and> 0 \<le> rest \<and> db_borrows db' = db_borrows d"
      by (rule Cons.IH [OF r shifts_tables_ok [OF s(1)]]) (use 3 Cons.prems(4) s(3) in auto)
    then show ?thesis
      using shifts_trans [OF s(1)] same_requests_trans [OF s(2)] s(4) by fastforce
  qed
qed

lemma lockInventoryItem_id: "lockInventoryItem k db = Some row \<Longrightarrow> lk_id row = k"
proof -
  let ?L = "concat (map (\<lambda>i. map (lock_row i) (filter (\<lambda>c. co_id c = it_consumableId i) (db_consumables db)))
             (filter (\<lambda>i. it_id i = k) (db_items db)))"
  assume "lockInventoryItem k db = Some row"
  then have "\<exists>rows. ?L = row # rows" by (simp add: lockInventoryItem_def split: list.splits)
  then have "row \<in> set ?L" by (metis list.set_intros(1))
  then show "lk_id row = k" by (auto simp: lock_row_def)
qed

lemma restoreRecord_shifts:
  assumes "restoreRecord r q rt ri opr db = Inr (ids, db')" and "tables_ok db" and "0 \<le> q"
  shows "shifts db db' (atk (br_itemId r) q) none0 (atk (br_itemId r) q) (atk (br_itemId r) q)"
    and "same_requests db db'"
    and "db_borrows db' = update_where (\<lambda>b. br_id b = br_id r) (borrow_add q 0) (db_borrows db)"
proof -
  let ?xs = "restore_rows (br_id r) db"
  obtain row rest d where row: "lockInventoryItem (br_itemId r) db = Some row"
    and item: "\<forall>x \<in> set ?xs. snd x = br_itemId r"
    and lp: "restore_loop row rt ri opr ?xs q (lk_bookQty row) [] db = Inr (rest, ids, d)"
    and le: "rest \<le> 0" and up: "addBorrow (br_id r) q 0 d = Inr db'"
    using assms(1) by (auto simp: restoreRecord_def Let_def bindR_Inr_iff split: if_splits option.splits)
  note k = lockInventoryItem_id [OF row]
  have at: "batch_at db (al_batchId (fst x)) (lk_id row)" if "x \<in> set ?xs" for x
    using that item by (force simp: restore_rows_mem batch_at_def k)
  have s: "shifts db d (atk (lk_id row) (q - rest)) none0 (atk (lk_id row) (q - rest)) (atk (lk_id row) (q - rest))
    \<and> same_requests db d \<and> 0 \<le> rest \<and> db_borrows d = db_borrows db"
    by (rule restore_loop_shifts [OF lp assms(2,3) at])
  note u = addBorrow_frame [OF up shifts_tables_ok [OF s [THEN conjunct1]]]
  have "rest = 0" using s le by simp
  then show "shifts db db' (atk (br_itemId r) q) none0 (atk (br_itemId r) q) (atk (br_itemId r) q)"
    using shifts_trans [OF s [THEN conjunct1] u(1)] k by simp
  show "same_requests db db'" using s u(2) same_requests_trans by blast
  show "db_borrows db' = update_where (\<lambda>b. br_id b = br_id r) (borrow_add q 0) (db_borrows db)"
    using up s by (simp add: addBorrow_Inr_iff)
qed

section \<open>Which batches get the goods back\<close>

text \<open>
  What the loop gives back, as a function of its rows: the latest allocation first, each up to what it
  still has out. \<open>given f plan k\<close> is what the plan gives to the key \<open>k\<close>.
\<close>

fun restore_plan :: "(alloc_row \<times> int) list \<Rightarrow> int \<Rightarrow> (alloc_row \<times> int) list" where
  "restore_plan [] q = []"
| "restore_plan (x # xs) q =
     (if q \<le> 0 then []
      else if al_open (fst x) \<le> 0 then restore_plan xs q
      else (fst x, min (al_open (fst x)) q) # restore_plan xs (q - min (al_open (fst x)) q))"

definition given :: "(alloc_row \<Rightarrow> int) \<Rightarrow> (alloc_row \<times> int) list \<Rightarrow> int \<Rightarrow> int" where
  "given f plan k = sum_list (map snd (filter (\<lambda>x. f (fst x) = k) plan))"

lemma given_simps [simp]:
  "given f [] k = 0"
  "given f (x # plan) k = (if f (fst x) = k then snd x else 0) + given f plan k"
  by (simp_all add: given_def)

lemma restore_plan_mem:
  "(a, t) \<in> set (restore_plan xs q) \<Longrightarrow> a \<in> fst ` set xs \<and> 0 < t \<and> t \<le> al_open a"
  by (induction xs q rule: restore_plan.induct) (auto split: if_splits)

lemma alloc_add_simps: "alloc_add 0 a = a" "alloc_add d (alloc_add e a) = alloc_add (e + d) a" "al_id (alloc_add d a) = al_id a"
  by (simp_all add: alloc_add_def)

lemma restore_step_tables:
  assumes "restore_step row rt ri opr a t bq db = Inr (f, db')"
  shows "db_allocs db' = update_where (\<lambda>x. al_id x = al_id a) (alloc_add t) (db_allocs db)"
    and "db_batches db' = update_where (\<lambda>b. ba_id b = al_batchId a) (batch_add t) (db_batches db)"
  using assms
  by (auto simp: restore_step_def writeStockFlow_def bindR_Inr_iff addAlloc_Inr_iff addBatch_Inr_iff addItem_Inr_iff insertFlow_Inr_iff)

lemma restore_loop_tables:
  assumes "restore_loop row rt ri opr xs q bq ids db = Inr (rest, ids', db')"
  shows "db_allocs db' = map (\<lambda>a. alloc_add (given al_id (restore_plan xs q) (al_id a)) a) (db_allocs db)
    \<and> db_batches db' = map (\<lambda>b. batch_add (given al_batchId (restore_plan xs q) (ba_id b)) b) (db_batches db)
    \<and> rest = q - sum_list (map snd (restore_plan xs q))"
  using assms
proof (induction xs arbitrary: q bq ids db)
  case (Cons x xs)
  consider "q \<le> 0" | "0 < q" "al_open (fst x) \<le> 0" | "0 < q" "0 < al_open (fst x)" by linarith
  then show ?case
  proof cases
    case 3
    let ?t = "min (al_open (fst x)) q"
    obtain f d where d: "restore_step row rt ri opr (fst x) ?t bq db = Inr (f, d)"
      and r: "restore_loop row rt ri opr xs (q - ?t) (bq + ?t) (ids @ [f]) d = Inr (rest, ids', db')"
      using Cons.prems 3 by (auto simp: bindR_Inr_iff Let_def)
    show ?thesis
      using Cons.IH [OF r] 3 by (auto simp: restore_step_tables [OF d] update_where_def comp_def alloc_add_simps)
  qed (use Cons in \<open>auto simp: alloc_add_simps\<close>)
qed (simp add: alloc_add_simps)

lemma restoreRecord_tables:
  assumes run: "restoreRecord r q rt ri opr db = Inr (ids, db')" and ok: "tables_ok db" and q: "0 \<le> q"
    and plan: "plan = restore_plan (restore_rows (br_id r) db) q"
  shows "sum_list (map snd plan) = q"
    and "db_allocs db' = map (\<lambda>a. alloc_add (given al_id plan (al_id a)) a) (db_allocs db)"
    and "db_batches db' = map (\<lambda>b. batch_add (given al_batchId plan (ba_id b)) b) (db_batches db)"
    and "(a, t) \<in> set plan \<Longrightarrow> a \<in> set (db_allocs db) \<and> al_recordId a = br_id r \<and> 0 < t \<and> t \<le> al_open a
      \<and> (\<exists>b \<in> set (db_batches db). ba_id b = al_batchId a \<and> ba_itemId b = br_itemId r)"
proof -
  let ?xs = "restore_rows (br_id r) db"
  obtain row rest d where row: "lockInventoryItem (br_itemId r) db = Some row"
    and item: "\<forall>x \<in> set ?xs. snd x = br_itemId r"
    and lp: "restore_loop row rt ri opr ?xs q (lk_bookQty row) [] db = Inr (rest, ids, d)"
    and le: "rest \<le> 0" and up: "addBorrow (br_id r) q 0 d = Inr db'"
    using run by (auto simp: restoreRecord_def Let_def bindR_Inr_iff split: if_splits option.splits)
  note k = lockInventoryItem_id [OF row]
  have at: "batch_at db (al_batchId (fst x)) (lk_id row)" if "x \<in> set ?xs" for x
    using that item by (force simp: restore_rows_mem batch_at_def k)
  have "0 \<le> rest" using restore_loop_shifts [OF lp ok q at] by simp
  note t = restore_loop_tables [OF lp, folded plan]
  show "sum_list (map snd plan) = q" using t \<open>0 \<le> rest\<close> le by simp
  show "db_allocs db' = map (\<lambda>a. alloc_add (given al_id plan (al_id a)) a) (db_allocs db)"
    and "db_batches db' = map (\<lambda>b. batch_add (given al_batchId plan (ba_id b)) b) (db_batches db)"
    using t up by (auto simp: addBorrow_Inr_iff)
  assume "(a, t) \<in> set plan"
  then have "a \<in> fst ` set ?xs \<and> 0 < t \<and> t \<le> al_open a" unfolding plan by (rule restore_plan_mem)
  then show "a \<in> set (db_allocs db) \<and> al_recordId a = br_id r \<and> 0 < t \<and> t \<le> al_open a
      \<and> (\<exists>b \<in> set (db_batches db). ba_id b = al_batchId a \<and> ba_itemId b = br_itemId r)"
    using item by (force simp: restore_rows_mem)
qed

section \<open>Writing off\<close>

lemma writeOffRecord_frame:
  assumes "writeOffRecord r q db = Inr db'" and "tables_ok db"
  shows "shifts db db' none0 none0 none0 none0" and "same_requests db db'"
    and "db_borrows db' = update_where (\<lambda>b. br_id b = br_id r) (borrow_add 0 q) (db_borrows db)"
  using assms addBorrow_frame [of "br_id r" 0 q db db']
  by (auto simp: writeOffRecord_def addBorrow_Inr_iff split: if_splits)

section \<open>A request leaves the pending state\<close>

definition leaves :: "asset_db \<Rightarrow> asset_db \<Rightarrow> approval_request \<Rightarrow> bool" where
  "leaves db db' h \<longleftrightarrow> h \<in> set (sd_heads db) \<and> ah_status h = PENDING
     \<and> (\<forall>types i. is_pending types (sd_heads db') i \<longleftrightarrow> is_pending types (sd_heads db) i \<and> i \<noteq> ah_id h)
     \<and> map ah_id (sd_heads db') = map ah_id (sd_heads db)
     \<and> db_requestItems db' = db_requestItems db \<and> db_changeItems db' = db_changeItems db
     \<and> db_items db' = db_items db \<and> db_batches db' = db_batches db \<and> db_flows db' = db_flows db
     \<and> db_consumables db' = db_consumables db \<and> db_allocs db' = db_allocs db \<and> db_seq db' = db_seq db"

lemma is_pending_update:
  assumes "distinct (map ah_id hs)" and "h \<in> set hs" and "pending_at i v h"
    and "\<And>g. ah_id (f g) = ah_id g" and "\<And>g. ah_status (f g) \<noteq> PENDING"
  shows "is_pending types (update_where (pending_at i v) (\<lambda>g. (f g)\<lparr>ah_version := ah_version g + 1\<rparr>) hs) j
    \<longleftrightarrow> is_pending types hs j \<and> j \<noteq> i"
proof -
  have only: "g = h" if "g \<in> set hs" "ah_id g = i" for g
    using that assms(1,2,3) by (metis distinct_map inj_onD pending_at_def)
  have "\<not> pending_at i v g" if "g \<in> set hs" "ah_id g \<noteq> i" for g using that by (simp add: pending_at_def)
  then show ?thesis
    using only assms(3,4,5) by (auto simp: is_pending_def set_update_where pending_at_def)
qed

lemma transition_head_leaves:
  assumes "transition_head i v f db = Inr db'" and "requests_ok db" and "find_head i db = Some h"
    and "ah_version h = v" and "\<And>g. ah_id (f g) = ah_id g" and "\<And>g. ah_status (f g) \<noteq> PENDING"
  shows "leaves db db' h" and "ah_id h = i"
proof -
  have d: "distinct (map ah_id (sd_heads db))" using assms(2) by (simp add: requests_ok_def keyed_def)
  have h: "h \<in> set (sd_heads db)" "ah_id h = i" using assms(3) by (auto simp: find_head_def find_Some_iff)
  have n: "0 < count_where (pending_at i v) (sd_heads db)"
    and db': "db' = db\<lparr>sd_heads := update_where (pending_at i v) (\<lambda>g. (f g)\<lparr>ah_version := ah_version g + 1\<rparr>) (sd_heads db)\<rparr>"
    using assms(1) by (auto simp: transition_head_def cas_head_def throwIfTransitionLost_def split: if_splits)
  obtain g where g: "g \<in> set (sd_heads db)" "pending_at i v g" using n by (auto simp: count_where_pos_iff)
  have "g = h" using g h d by (metis distinct_map inj_onD pending_at_def)
  with g have p: "pending_at i v h" by simp
  have "map ah_id (sd_heads db') = map ah_id (sd_heads db)"
    using assms(5) by (simp add: db' map_update_where)
  moreover have "is_pending types (sd_heads db') j \<longleftrightarrow> is_pending types (sd_heads db) j \<and> j \<noteq> i" for types j
    using is_pending_update [OF d h(1) p assms(5,6)] by (simp add: db')
  ultimately show "leaves db db' h" using h p by (simp add: leaves_def) (simp add: db' pending_at_def)
  show "ah_id h = i" by (rule h(2))
qed

lemma leaves_facts:
  assumes "leaves db db' h" and "reserve_inv db"
  shows "pend db k = pend db' k + req_part db (ah_requestType h) (ah_id h) k"
    and "requests_ok db'" and "stock_inv db'" and "reserved db' = reserved db" and "links_ok db \<Longrightarrow> links_ok db'"
    and "claim_part db' = claim_part db" and "change_part db' = change_part db"
proof -
  have r: "requests_ok db" "stock_inv db" using assms(2) by (simp_all add: reserve_inv_def)
  have "distinct (map ah_id (sd_heads db))" using r(1) by (simp add: requests_ok_def keyed_def)
  then show "pend db k = pend db' k + req_part db (ah_requestType h) (ah_id h) k"
    using assms(1) by (intro pend_leave) (auto simp: leaves_def)
  have m: "map ah_id (sd_heads db') = map ah_id (sd_heads db)" using assms(1) by (simp add: leaves_def)
  have "keyed ah_id TRequests (sd_heads db') db'"
  proof -
    have "\<forall>i \<in> set (map ah_id (sd_heads db')). i < db_seq db TRequests"
      unfolding m using r(1) by (auto simp: requests_ok_def keyed_def)
    then have "ah_id g < db_seq db TRequests" if "g \<in> set (sd_heads db')" for g using that by simp
    moreover have "distinct (map ah_id (sd_heads db'))" using r(1) m by (simp add: requests_ok_def keyed_def)
    moreover have "db_seq db' = db_seq db" using assms(1) by (simp add: leaves_def)
    ultimately show ?thesis by (simp add: keyed_def)
  qed
  then show "requests_ok db'" using r(1) assms(1) by (auto simp: requests_ok_def leaves_def)
  have s: "shifts db db' none0 none0 none0 none0"
    using r(2) assms(1) by (intro shifts_frame) (auto simp: stock_inv_def leaves_def)
  then show "stock_inv db'" by (rule shifts_stock_inv) (rule r(2))
  show "reserved db' = reserved db" using s by (simp add: shifts_def)
  show "links_ok db \<Longrightarrow> links_ok db'" using assms(1) by (auto simp: leaves_def links_ok_def)
  show "claim_part db' = claim_part db" "change_part db' = change_part db"
    using assms(1) by (simp_all add: fun_eq_iff claim_part_def change_part_def leaves_def)
qed

text \<open>The reservation is given up, with or without the goods.\<close>

lemma leaves_done:
  assumes "leaves db db1 h" and "reserve_inv db"
    and "issued db1 db2 (req_part db (ah_requestType h) (ah_id h))
      \<or> released db1 db2 (req_part db (ah_requestType h) (ah_id h))"
  shows "reserve_inv db2"
proof -
  note f = leaves_facts [OF assms(1,2)]
  have same: "same_requests db1 db2" and inv: "stock_inv db2"
    using assms(3) by (auto simp: issued_def released_def intro: shifts_stock_inv [OF _ f(3)])
  have res: "reserved db2 = (\<lambda>k. reserved db1 k - req_part db (ah_requestType h) (ah_id h) k)"
    using assms(3) by (auto simp: issued_def released_def shifts_def padd_def fun_eq_iff)
  have "reserved db2 = pend db1"
    using assms(2) f(1,4) unfolding res by (auto simp: fun_eq_iff reserve_inv_def)
  then show ?thesis
    using inv f(2) same_requests_ok [OF same] same_requests_pend [OF same] by (simp add: reserve_inv_def)
qed

lemma leaves_free:
  assumes "leaves db db1 h" and "reserve_inv db"
    and "ah_requestType h \<notin> set CLAIM_TYPES" "ah_requestType h \<notin> set CHANGE_TYPES"
  shows "reserve_inv db1"
proof -
  note f = leaves_facts [OF assms(1,2)]
  have "pend db1 = pend db" using f(1) assms(3,4) by (simp add: fun_eq_iff req_part_def)
  then show ?thesis using assms(2) f(2,3,4) by (simp add: reserve_inv_def)
qed

text \<open>What a pending request reserves is there.\<close>

lemma leaves_within:
  assumes "leaves db db1 h" and "reserve_inv db"
  shows "req_part db (ah_requestType h) (ah_id h) k \<le> reserved db1 k"
  using leaves_facts(1,2,4) [OF assms] pend_nonneg [of db1 k] assms(2) by (auto simp: reserve_inv_def)

section \<open>Side effects\<close>

lemma restore_balanced:
  "restoreRecord r q rt ri opr db = Inr (ids, db') \<Longrightarrow> tables_ok db \<Longrightarrow> 0 \<le> q \<Longrightarrow> balanced db db'"
  by (intro balancedI [OF restoreRecord_shifts(1,2)])

lemma writeOff_balanced:
  "writeOffRecord r q db = Inr db' \<Longrightarrow> tables_ok db \<Longrightarrow> balanced db db'"
  by (intro balancedI [OF writeOffRecord_frame(1,2)])

lemma return_balanced:
  assumes "applyReturnApproved head db = Inr db'" and "tables_ok db" and "\<forall>a \<in> set (db_actionItems db). 0 < ai_qty a"
  shows "balanced db db'"
proof (rule balanced_foldR [OF assms(1) [unfolded applyReturnApproved_def] assms(2)])
  fix l d d'
  assume l: "l \<in> set (actionLines (sh_id head) db)" "tables_ok d" "returnApplyLine head l d = Inr d'"
  then have "0 \<le> ai_qty l" using assms(3) by (auto simp: actionLines_def intro: less_imp_le)
  with l(2,3) show "balanced d d'"
    by (auto simp: returnApplyLine_def bindR_Inr_iff split: option.splits if_splits
        intro: restore_balanced)
qed

lemma write_off_balanced:
  assumes "applyWriteOffApproved head db = Inr db'" and "tables_ok db"
  shows "balanced db db'"
proof (rule balanced_foldR [OF assms(1) [unfolded applyWriteOffApproved_def] assms(2)])
  fix l d d'
  assume "tables_ok d" "writeOffApplyLine l d = Inr d'"
  then show "balanced d d'"
    by (auto simp: writeOffApplyLine_def split: option.splits intro: writeOff_balanced)
qed

lemma settleLine_balanced:
  assumes "settleLine rt ri opr locked l d = Inr d'" and "tables_ok d" and "0 \<le> si_qty l"
  shows "balanced d d'"
  using assms
  by (auto simp: settleLine_def bindR_Inr_iff split: option.splits if_splits
      intro: restore_balanced writeOff_balanced)

lemma settlement_balanced:
  assumes "settlementApplyApproved head p db = Inr db'" and "tables_ok db"
    and "\<forall>s \<in> set (db_settlementItems db). 0 < si_qty s"
  shows "balanced db db'"
proof -
  obtain locked where "foldR (settleLine ''AGENT_SETTLEMENT'' (sh_id head) (p, processor_name head) locked)
      (settlementLines (sh_id head) db) db = Inr db'"
    using assms(1) by (auto simp: settlementApplyApproved_def Let_def bindR_Inr_iff)
  then show ?thesis
  proof (rule balanced_foldR [OF _ assms(2)])
    fix l d d'
    assume l: "l \<in> set (settlementLines (sh_id head) db)" "tables_ok d"
      "settleLine ''AGENT_SETTLEMENT'' (sh_id head) (p, processor_name head) locked l d = Inr d'"
    then have "0 \<le> si_qty l" using assms(3) by (auto simp: settlementLines_def intro: less_imp_le)
    with l(2,3) show "balanced d d'" by (intro settleLine_balanced)
  qed
qed

lemma request_types:
  "set CLAIM_TYPES = {''CONSUMABLE_REQUEST'', ''AGENT_REQUEST''}" "set CHANGE_TYPES = {''STOCK_CHANGE''}"
  by (auto simp: CLAIM_TYPES_def CHANGE_TYPES_def)

text \<open>Every quantity of a return, a write-off and a settlement is positive, as their tables demand.\<close>

definition actions_ok :: "asset_db \<Rightarrow> bool" where
  "actions_ok db \<longleftrightarrow> (\<forall>a \<in> set (db_actionItems db). 0 < ai_qty a) \<and> (\<forall>s \<in> set (db_settlementItems db). 0 < si_qty s)"

text \<open>What becomes of the stock when a request is decided.\<close>

definition resolved :: "asset_db \<Rightarrow> asset_db \<Rightarrow> approval_request \<Rightarrow> (int \<Rightarrow> int) \<Rightarrow> bool" where
  "resolved db1 db2 h part \<longleftrightarrow> issued db1 db2 part \<or> released db1 db2 part
     \<or> balanced db1 db2 \<and> ah_requestType h \<notin> set CLAIM_TYPES \<and> ah_requestType h \<notin> set CHANGE_TYPES"

lemma resolved_reserve_inv:
  assumes "leaves db db1 h" and "reserve_inv db" and "resolved db1 db2 h (req_part db (ah_requestType h) (ah_id h))"
  shows "reserve_inv db2"
  using assms(3) leaves_done [OF assms(1,2)] leaves_free [OF assms(1,2)] balanced_reserve_inv
  unfolding resolved_def by blast

lemma applyApprove_resolved:
  assumes "leaves db db1 h" and "reserve_inv db" and "actions_ok db1"
    and "applyApprove jsort now (side_of h p n) q db1 = Inr db2"
  shows "resolved db1 db2 h (req_part db (ah_requestType h) (ah_id h))"
proof -
  note f = leaves_facts [OF assms(1,2)]
  have ok: "tables_ok db1" using f(3) by (simp add: stock_inv_def)
  let ?t = "ah_requestType h"
  have part: "?t \<in> set CLAIM_TYPES \<Longrightarrow> req_part db ?t (ah_id h) = claim_part db1 (ah_id h)"
    "?t \<in> set CHANGE_TYPES \<Longrightarrow> req_part db ?t (ah_id h) = change_part db1 (ah_id h)"
    by (auto simp: req_part_def f(6,7) fun_eq_iff request_types)
  show ?thesis
  proof (cases "?t \<in> set CLAIM_TYPES \<or> ?t \<in> set CHANGE_TYPES")
    case True
    then have "issued db1 db2 (req_part db ?t (ah_id h))"
      using assms(4) part claim_approved [OF _ ok f(2)] agent_approved [OF _ ok f(2)] change_approved [OF _ ok f(2)]
      by (fastforce simp: request_types applyApprove_def side_of_def)
    then show ?thesis by (simp add: resolved_def)
  next
    case False
    have "balanced db1 db2"
      using assms(3,4) False stock_in_balanced [OF _ ok] return_balanced [OF _ ok] write_off_balanced [OF _ ok]
        settlement_balanced [OF _ ok] balanced_refl [OF ok]
      by (auto simp: request_types applyApprove_def side_of_def actions_ok_def split: if_splits)
    then show ?thesis using False by (simp add: resolved_def)
  qed
qed

text \<open>A release never fails, and gives back exactly what the request held.\<close>

lemma applyRelease_resolved:
  assumes "leaves db db1 h" and "reserve_inv db" and "links_ok db"
  shows "\<exists>db2. applyRelease (side_of h p n) db1 = Inr db2 \<and> links_ok db2
    \<and> resolved db1 db2 h (req_part db (ah_requestType h) (ah_id h))
    \<and> reserved db2 = (\<lambda>k. reserved db k - req_part db (ah_requestType h) (ah_id h) k) \<and> book db2 = book db"
proof -
  note f = leaves_facts [OF assms(1,2)]
  have ok: "tables_ok db1" using f(3) by (simp add: stock_inv_def)
  have l1: "links_ok db1" by (rule f(5) [OF assms(3)])
  let ?t = "ah_requestType h"
  have bk: "book db1 = book db" using assms(1) by (intro quantities_cong) (simp add: leaves_def)
  have within: "req_part db ?t (ah_id h) k \<le> reserved db1 k" for k by (rule leaves_within [OF assms(1,2)])
  show ?thesis
  proof (cases "?t \<in> set CLAIM_TYPES \<or> ?t \<in> set CHANGE_TYPES")
    case True
    have "\<exists>db2. applyRelease (side_of h p n) db1 = Inr db2 \<and> released db1 db2 (req_part db ?t (ah_id h)) \<and> links_ok db2"
    proof (cases "?t \<in> set CLAIM_TYPES")
      case True
      have part: "req_part db ?t (ah_id h) = claim_part db1 (ah_id h)"
        using True by (auto simp: req_part_def f(6) fun_eq_iff request_types)
      have w: "claim_part db1 (sh_id (side_of h p n)) k \<le> reserved db1 k" for k
        using within [of k] by (simp add: part side_of_def)
      show ?thesis
        using True claim_release_total [OF ok f(2) l1 w] releaseLines_total [OF ok f(2) l1 w] unfolding part
        by (auto simp: request_types applyRelease_def agentApplyRelease_def side_of_def)
    next
      case False
      with \<open>?t \<in> set CLAIM_TYPES \<or> ?t \<in> set CHANGE_TYPES\<close> have t: "?t \<in> set CHANGE_TYPES" by simp
      have part: "req_part db ?t (ah_id h) = change_part db1 (ah_id h)"
        using t by (auto simp: req_part_def f(7) fun_eq_iff request_types)
      have w: "change_part db1 (sh_id (side_of h p n)) k \<le> reserved db1 k" for k
        using within [of k] by (simp add: part side_of_def)
      show ?thesis
        using t change_release_total [OF ok f(2) l1 w] unfolding part
        by (auto simp: request_types applyRelease_def side_of_def)
    qed
    then obtain db2 where db2: "applyRelease (side_of h p n) db1 = Inr db2"
      "released db1 db2 (req_part db ?t (ah_id h))" "links_ok db2" by blast
    have "reserved db2 = (\<lambda>k. reserved db k - req_part db ?t (ah_id h) k)" "book db2 = book db"
      using db2(2) f(4) bk by (auto simp: released_def shifts_def padd_def none0_def)
    then show ?thesis using db2 by (auto simp: resolved_def)
  next
    case False
    then have "applyRelease (side_of h p n) db1 = Inr db1"
      by (auto simp: request_types applyRelease_def side_of_def)
    moreover have "req_part db ?t (ah_id h) = (\<lambda>k. 0)" using False by (auto simp: req_part_def fun_eq_iff)
    ultimately show ?thesis using False l1 f(4) bk balanced_refl [OF ok] by (auto simp: resolved_def)
  qed
qed

lemma applyRelease_total:
  assumes "leaves db db1 h" and "reserve_inv db" and "links_ok db"
  shows "\<exists>db2. applyRelease (side_of h p n) db1 = Inr db2 \<and> reserve_inv db2 \<and> links_ok db2
    \<and> reserved db2 = (\<lambda>k. reserved db k - req_part db (ah_requestType h) (ah_id h) k) \<and> book db2 = book db"
  using applyRelease_resolved [OF assms] resolved_reserve_inv [OF assms(1,2)] by blast

text \<open>A request that only takes what it reserved is always approved.\<close>

lemma applyApprove_total:
  assumes "leaves db db1 h" and "reserve_inv db" and "links_ok db"
    and "ah_requestType h \<in> set CLAIM_TYPES \<or> ah_requestType h \<in> set CHANGE_TYPES"
  shows "\<exists>db2. applyApprove jsort now (side_of h p n) q db1 = Inr db2 \<and> links_ok db2"
proof -
  note f = leaves_facts [OF assms(1,2)]
  have l1: "links_ok db1" by (rule f(5) [OF assms(3)])
  let ?t = "ah_requestType h"
  have within: "req_part db ?t (ah_id h) k \<le> reserved db1 k" for k by (rule leaves_within [OF assms(1,2)])
  show ?thesis
  proof (cases "?t \<in> set CLAIM_TYPES")
    case True
    have w: "claim_part db1 (sh_id (side_of h p n)) k \<le> reserved db1 k" for k
      using within [of k] True by (auto simp: req_part_def f(6) request_types side_of_def split: if_splits)
    show ?thesis
      using True claim_approval_total [OF f(3,2) l1 w] agent_approval_total [OF f(3,2) l1 w]
      by (auto simp: request_types applyApprove_def side_of_def)
  next
    case False
    have w: "change_part db1 (sh_id (side_of h p n)) k \<le> reserved db1 k" for k
      using within [of k] False assms(4) by (auto simp: req_part_def f(7) request_types side_of_def split: if_splits)
    show ?thesis
      using False assms(4) change_approval_total [OF f(3,2) l1 w]
      by (auto simp: request_types applyApprove_def side_of_def)
  qed
qed

section \<open>The operations\<close>

lemma add_action_balanced: "tables_ok db \<Longrightarrow> balanced db (add_action a db)"
  by (intro balancedI [of _ _ none0] shifts_frame) (simp_all add: add_action_def same_requests_def)

lemma add_action_inv: "reserve_inv db \<Longrightarrow> reserve_inv (add_action a db)"
  by (rule balanced_reserve_inv [OF add_action_balanced]) (simp_all add: reserve_inv_def stock_inv_def)

lemma transition_head_ex:
  assumes "find_head i db = Some h" and "ah_status h = PENDING"
  shows "\<exists>db'. transition_head i (ah_version h) f db = Inr db'"
proof -
  have "h \<in> set (sd_heads db)" "pending_at i (ah_version h) h"
    using assms by (auto simp: find_head_def find_Some_iff pending_at_def)
  then have "0 < count_where (pending_at i (ah_version h)) (sd_heads db)" by (auto simp: count_where_pos_iff)
  then show ?thesis by (simp add: transition_head_def cas_head_def throwIfTransitionLost_def)
qed

lemma transition_head_actions:
  "transition_head i v f db = Inr db' \<Longrightarrow> db_actionItems db' = db_actionItems db
    \<and> db_settlementItems db' = db_settlementItems db"
  by (auto simp: transition_head_def bindR_Inr_iff Let_def split: prod.splits)

lemma decided_simps: "ah_id (decided s p n t o' g) = ah_id g" "ah_status (decided s p n t o' g) = s"
  by (simp_all add: decided_def)

lemma cancelled_by_simps: "ah_id (cancelled_by a t g) = ah_id g" "ah_status (cancelled_by a t g) \<noteq> PENDING"
  by (simp_all add: cancelled_by_def)

lemma terminal_not_pending: "isTerminalApprovalStatus s \<Longrightarrow> s \<noteq> PENDING"
  by (auto simp: isTerminalApprovalStatus_def TERMINAL_APPROVAL_STATUSES_def)

lemma processInner_resolved:
  assumes "processInner jsort dir now i action t p op db = Inr db'" and inv: "reserve_inv db" and "links_ok db"
    and "actions_ok db" and "isTerminalApprovalStatus (rt_status t)"
  shows "\<exists>h db1 db2 a. find_head i db = Some h \<and> leaves db db1 h
    \<and> resolved db1 db2 h (req_part db (ah_requestType h) (ah_id h)) \<and> db' = add_action a db2"
proof -
  obtain h db1 db2 a where h: "find_head i db = Some h"
    and tr: "transition_head i (ah_version h) (decided (rt_status t) p (loadUserName p dir) now op) db = Inr db1"
    and eff: "side_effect jsort now action (side_of h (Some p) (Some (loadUserName p dir))) p db1 = Inr db2"
    and db': "db' = add_action a db2"
    using assms(1) by (auto simp: processInner_def Let_def bindR_Inr_iff split: option.splits if_splits)
  have r: "requests_ok db" using inv by (simp add: reserve_inv_def)
  have lv: "leaves db db1 h"
    by (rule transition_head_leaves(1) [OF tr r h])
      (simp_all add: decided_simps terminal_not_pending [OF assms(5)])
  have act: "actions_ok db1" using assms(4) transition_head_actions [OF tr] by (simp add: actions_ok_def)
  have "resolved db1 db2 h (req_part db (ah_requestType h) (ah_id h))"
    using eff applyApprove_resolved [OF lv inv act]
      applyRelease_resolved [OF lv inv assms(3), of "Some p" "Some (loadUserName p dir)"]
    by (cases "action = process_action.APPROVE") (auto simp: side_effect_def)
  then show ?thesis using h lv db' by blast
qed

lemma process_run_resolved:
  assumes "process_run jsort dir now i action p op db = Inr (out, db')" and "reserve_inv db" and "links_ok db"
    and "actions_ok db"
  shows "\<exists>h db1 db2 a. find_head i db = Some h \<and> leaves db db1 h
    \<and> resolved db1 db2 h (req_part db (ah_requestType h) (ah_id h)) \<and> db' = add_action a db2"
proof -
  obtain t where "resolveProcessTransition action None = Inr t"
    "processInner jsort dir now i action t p op db = Inr db'"
    using assms(1) by (auto simp: process_run_def bindR_Inr_iff)
  then show ?thesis using processInner_resolved assms(2-4) resolveProcessTransition_terminal by blast
qed

lemma process_run_reserve_inv:
  assumes "process_run jsort dir now i action p op db = Inr (out, db')" and "reserve_inv db" and "links_ok db"
    and "actions_ok db"
  shows "reserve_inv db'"
  using process_run_resolved [OF assms] resolved_reserve_inv [OF _ assms(2)] add_action_inv by blast

text \<open>An applicant can always withdraw a pending request, and what it held is free again.\<close>

lemma cancel_run_total:
  assumes inv: "reserve_inv db" and "links_ok db" and h: "find_head i db = Some h" and "ah_status h = PENDING"
    and "ah_applicantId h = actor \<or> ah_proxyId h = Some actor"
  shows "\<exists>out db'. cancel_run dir now i actor db = Inr (out, db') \<and> reserve_inv db' \<and> links_ok db'
    \<and> reserved db' = (\<lambda>k. reserved db k - req_part db (ah_requestType h) i k) \<and> book db' = book db"
proof -
  have r: "requests_ok db" using inv by (simp add: reserve_inv_def)
  obtain db1 where tr: "transition_head i (ah_version h) (cancelled_by actor now) db = Inr db1"
    using transition_head_ex [OF h assms(4)] by blast
  have lv: "leaves db db1 h" and i: "ah_id h = i"
    by (rule transition_head_leaves [OF tr r h], simp_all add: cancelled_by_simps)+
  obtain db2 where db2: "applyRelease (side_of h None None) db1 = Inr db2" "reserve_inv db2" "links_ok db2"
    "reserved db2 = (\<lambda>k. reserved db k - req_part db (ah_requestType h) (ah_id h) k)" "book db2 = book db"
    using applyRelease_total [OF lv inv assms(2)] by blast
  have res: "reserved (add_action a db2) = reserved db2" "links_ok (add_action a db2)"
    "book (add_action a db2) = book db2" for a
    using db2(3) by (auto simp: fun_eq_iff reserved_def book_def add_action_def links_ok_def)
  have actor: "\<not> (ah_applicantId h \<noteq> actor \<and> ah_proxyId h \<noteq> Some actor)" using assms(5) by blast
  have "\<exists>out a. cancel_run dir now i actor db = Inr (out, add_action a db2)"
    unfolding cancel_run_def cancelInner_def h option.case if_not_P [OF actor]
    by (auto simp: assms(4) tr db2(1) assertPending_def assertTransitionAllowed_def)
  then show ?thesis using add_action_inv [OF db2(2)] res db2(4,5) i by auto
qed

lemma cancel_run_pending:
  assumes "cancel_run dir now i actor db = Inr (out, db')"
  obtains h where "find_head i db = Some h" and "ah_status h = PENDING"
    and "ah_applicantId h = actor \<or> ah_proxyId h = Some actor"
  using assms by (auto simp: cancel_run_def cancelInner_def bindR_Inr_iff assertPending_def
      split: option.splits if_splits)

lemma cancel_run_resolved:
  assumes "cancel_run dir now i actor db = Inr (out, db')" and inv: "reserve_inv db" and "links_ok db"
  shows "\<exists>h db1 db2 a. find_head i db = Some h \<and> leaves db db1 h
    \<and> resolved db1 db2 h (req_part db (ah_requestType h) (ah_id h)) \<and> db' = add_action a db2"
proof -
  obtain h db1 db2 a where h: "find_head i db = Some h"
    and tr: "transition_head i (ah_version h) (cancelled_by actor now) db = Inr db1"
    and rel: "applyRelease (side_of h None None) db1 = Inr db2" and db': "db' = add_action a db2"
    using assms(1) by (auto simp: cancel_run_def cancelInner_def bindR_Inr_iff split: option.splits if_splits)
  have r: "requests_ok db" using inv by (simp add: reserve_inv_def)
  have lv: "leaves db db1 h"
    by (rule transition_head_leaves(1) [OF tr r h]) (simp_all add: cancelled_by_simps)
  show ?thesis using applyRelease_resolved [OF lv inv assms(3), of None None] rel h lv db' by auto
qed

lemma cancel_run_reserve_inv:
  assumes "cancel_run dir now i actor db = Inr (out, db')" and "reserve_inv db" and "links_ok db"
  shows "reserve_inv db'"
  using cancel_run_resolved [OF assms] resolved_reserve_inv [OF _ assms(2)] add_action_inv by blast

text \<open>A pending claim or write-down that its approver may process is approved.\<close>

lemma process_run_total:
  assumes inv: "reserve_inv db" and "links_ok db" and h: "find_head i db = Some h" and "ah_status h = PENDING"
    and "ah_requestType h \<in> set CLAIM_TYPES \<or> ah_requestType h \<in> set CHANGE_TYPES"
    and "assertCanAccessRequest p (ah_requestType h) dir = Inr ()"
    and "assertScopeCovers (ah_id h) (ah_requestType h) p dir db = Inr ()"
  shows "\<exists>out db'. process_run jsort dir now i process_action.APPROVE p op db = Inr (out, db')"
proof -
  have r: "requests_ok db" using inv by (simp add: reserve_inv_def)
  obtain db1 where tr: "transition_head i (ah_version h) (decided APPROVED p (loadUserName p dir) now op) db = Inr db1"
    using transition_head_ex [OF h assms(4)] by blast
  have lv: "leaves db db1 h"
    by (rule transition_head_leaves(1) [OF tr r h]) (simp_all add: decided_simps)
  let ?t = "\<lparr>rt_status = APPROVED, rt_action = approval_action.APPROVE, rt_cancelSource = None, rt_requiresOpinion = False\<rparr>"
  obtain db2 where db2: "applyApprove jsort now (side_of h (Some p) (Some (loadUserName p dir))) p db1 = Inr db2"
    using applyApprove_total [OF lv inv assms(2,5)] by blast
  have ok: "assertTransitionAllowed PENDING APPROVED = Inr ()" by (simp add: assertTransitionAllowed_def)
  have "\<exists>db'. processInner jsort dir now i process_action.APPROVE ?t p op db = Inr db'"
    unfolding processInner_def h option.case assms(4,6,7) Let_def bindR_simps side_effect_def
    using tr db2 ok by simp
  then show ?thesis by (auto simp: process_run_def assertOpinionIfRequired_def)
qed

section \<open>Idempotent operations\<close>

text \<open>One execution replays and changes nothing, or it is the run and a row of the log.\<close>

lemma execute_cases:
  assumes "executeIdempotentOperation opts db = Inr (r, db')"
  shows "db' = db \<or> (\<exists>out d ls. io_run opts db = Inr (out, d) \<and> db' = d\<lparr>db_logs := ls\<rparr> \<and> r = oc_result out)"
proof -
  have logged: "\<exists>out d ls. io_run opts db = Inr (out, d) \<and> db' = d\<lparr>db_logs := ls\<rparr> \<and> x = oc_result out"
    if "run_logged opts row db = Inr (x, db')" for row x
    using that by (auto simp: run_logged_def writeAssetOperationLog_def bindR_Inr_iff)
  have commit: "db' = db \<or> (\<exists>row. run_logged opts row db = Inr (x, db'))"
    if "commitIdempotentOperation opts db = Inr (x, db')" for x
    using that
    by (auto simp: commitIdempotentOperation_def bindR_Inr_iff split: option.splits list.splits sum.splits if_splits)
  have "db' = db \<or> commitIdempotentOperation opts db = Inr (r, db')"
    using assms(1) by (auto simp: executeIdempotentOperation_def bindR_Inr_iff split: option.splits list.splits)
  then show ?thesis using commit logged by blast
qed

end
