(* ===== verification/Transfers.thy ===== *)
theory Transfers
  imports Submissions
begin

text \<open>
  Moving stock: the transfer of a quantity to another warehouse (\<open>transfer.service.ts\<close>) and the
  correction of a batch (\<open>inventory.service.ts\<close>).
\<close>

section \<open>Transfer\<close>

record transfer_input =
  tn_fromInventoryItemId :: int
  tn_toWarehouseId :: int
  tn_qty :: int
  tn_remark :: "string option"

definition insertTransfer :: "transfer_row \<Rightarrow> asset_db \<Rightarrow> err + (int \<times> asset_db)" where
  "insertTransfer r db =
     (let (i, db1) = nextval TTransfers db
      in bindR (insert_row (\<lambda>r. 0 < tr_qty r \<and> int4 (tr_qty r)) (\<lambda>r r'. False) [] (r\<lparr>tr_id := i\<rparr>) (db_transfers db1))
           (\<lambda>rs. Inr (i, db1\<lparr>db_transfers := rs\<rparr>)))"

definition insertTransferItem :: "transfer_item \<Rightarrow> asset_db \<Rightarrow> err + asset_db" where
  "insertTransferItem r db =
     (let (i, db1) = nextval TTransferItems db
      in bindR (insert_row (\<lambda>r. 0 < ti_qty r \<and> int4 (ti_qty r)) (\<lambda>r r'. False) [] (r\<lparr>ti_id := i\<rparr>)
             (db_transferItems db1))
           (\<lambda>rs. Inr (db1\<lparr>db_transferItems := rs\<rparr>)))"

text \<open>The head of the transfer with its items: source row, target id and target warehouse.\<close>

record transfer_ctx =
  tx_source :: item_lock
  tx_targetId :: int
  tx_targetBook :: int
  tx_warehouse :: warehouse_path
  tx_transferId :: int
  tx_operator :: operator

definition sub_batch :: "transfer_ctx \<Rightarrow> batch_row \<Rightarrow> int \<Rightarrow> batch_row" where
  "sub_batch c b qty =
     \<lparr>ba_id = 0, ba_itemId = tx_targetId c, ba_sourceBatchId = Some (ba_id b),
      ba_consumableId = ba_consumableId b, ba_consumableName = ba_consumableName b, ba_spec = ba_spec b,
      ba_warehouseName = wp_name (tx_warehouse c), ba_warehousePath = wp_path (tx_warehouse c),
      ba_supplierId = ba_supplierId b, ba_supplierName = ba_supplierName b,
      ba_brandId = ba_brandId b, ba_brandName = ba_brandName b, ba_unitPrice = ba_unitPrice b,
      ba_remark = None, ba_receivedAt = ba_receivedAt b, ba_remainingQty = qty, ba_updatedBy = None\<rparr>"

definition target_row :: "transfer_ctx \<Rightarrow> item_lock" where
  "target_row c =
     \<lparr>lk_id = tx_targetId c, lk_consumableId = lk_consumableId (tx_source c),
      lk_consumableName = lk_consumableName (tx_source c), lk_spec = lk_spec (tx_source c),
      lk_warehouseId = Some (wp_id (tx_warehouse c)), lk_warehouseName = wp_name (tx_warehouse c),
      lk_warehousePath = wp_path (tx_warehouse c), lk_bookQty = tx_targetBook c, lk_reservedQty = 0\<rparr>"

fun transfer_loop ::
    "transfer_ctx \<Rightarrow> batch_allocation list \<Rightarrow> int \<Rightarrow> int \<Rightarrow> asset_db \<Rightarrow> err + asset_db" where
  "transfer_loop c [] outBefore inBefore db = Inr db"
| "transfer_loop c (a # as) outBefore inBefore db =
     (case find (\<lambda>b. ba_id b = fst a) (db_batches db) of
        None \<Rightarrow> Inl (Biz RESOURCE_NOT_FOUND)
      | Some sourceBatch \<Rightarrow>
          bindR (insertBatch (sub_batch c sourceBatch (snd a)) db) (\<lambda>(subId, db1).
          bindR (insertTransferItem \<lparr>ti_id = 0, ti_transferId = tx_transferId c, ti_sourceBatchId = fst a,
                   ti_targetBatchId = subId, ti_qty = snd a\<rparr> db1) (\<lambda>db2.
          bindR (addItem (lk_id (tx_source c)) (- snd a) 0 db2) (\<lambda>db3.
          bindR (addItem (tx_targetId c) (snd a) 0 db3) (\<lambda>db4.
          bindR (writeStockFlow
                   \<lparr>fi_type = TRANSFER_OUT, fi_direction = OUT, fi_item = tx_source c, fi_batchId = Some (fst a),
                    fi_qty = snd a, fi_bookBefore = outBefore, fi_bookAfter = outBefore - snd a,
                    fi_refType = ''TRANSFER'', fi_refId = tx_transferId c, fi_operator = tx_operator c\<rparr> db4)
            (\<lambda>(f, db5).
          bindR (writeStockFlow
                   \<lparr>fi_type = TRANSFER_IN, fi_direction = IN, fi_item = target_row c, fi_batchId = Some subId,
                    fi_qty = snd a, fi_bookBefore = inBefore, fi_bookAfter = inBefore + snd a,
                    fi_refType = ''TRANSFER'', fi_refId = tx_transferId c, fi_operator = tx_operator c\<rparr> db5)
            (\<lambda>(g, db6). transfer_loop c as (outBefore - snd a) (inBefore + snd a) db6)))))))"

definition transfer_target ::
    "item_lock \<Rightarrow> warehouse_path \<Rightarrow> (int \<times> int) option \<Rightarrow> asset_db \<Rightarrow> err + ((int \<times> int) \<times> asset_db)" where
  "transfer_target sourceItem targetWarehouse target db =
     (case target of
        Some t \<Rightarrow> Inr (t, db)
      | None \<Rightarrow> lockOrCreateItem
          \<lparr>ik_consumableId = lk_consumableId sourceItem, ik_spec = lk_spec sourceItem,
           ik_warehouseId = Some (wp_id targetWarehouse), ik_warehouseName = wp_name targetWarehouse,
           ik_warehousePath = wp_path targetWarehouse\<rparr> db)"

definition transfer_move ::
    "operator \<Rightarrow> transfer_input \<Rightarrow> item_lock \<Rightarrow> warehouse_path \<Rightarrow> (int \<times> int) option \<Rightarrow> asset_db
      \<Rightarrow> err + ((int \<times> int \<times> int) \<times> asset_db)" where
  "transfer_move operator dto sourceItem targetWarehouse target db =
     bindR (allocateFifoBatches (lk_id sourceItem) (tn_qty dto) db) (\<lambda>(allocations, db1).
     bindR (transfer_target sourceItem targetWarehouse target db1) (\<lambda>((targetId, targetBook), db2).
     bindR (insertTransfer
              \<lparr>tr_id = 0, tr_fromItemId = lk_id sourceItem, tr_toItemId = targetId,
               tr_fromWarehouseName = lk_warehouseName sourceItem, tr_fromWarehousePath = lk_warehousePath sourceItem,
               tr_toWarehouseName = wp_name targetWarehouse, tr_toWarehousePath = wp_path targetWarehouse,
               tr_qty = tn_qty dto, tr_remark = tn_remark dto,
               tr_operatorId = fst operator, tr_operatorName = snd operator\<rparr> db2) (\<lambda>(transferId, db3).
     bindR (transfer_loop
              \<lparr>tx_source = sourceItem, tx_targetId = targetId, tx_targetBook = targetBook,
               tx_warehouse = targetWarehouse, tx_transferId = transferId, tx_operator = operator\<rparr>
              allocations (lk_bookQty sourceItem) targetBook db3) (\<lambda>db4.
     Inr ((transferId, lk_id sourceItem, targetId), cleanupEmptyItem (lk_id sourceItem) db4)))))"

definition transfer_create ::
    "operator \<Rightarrow> transfer_input \<Rightarrow> asset_db \<Rightarrow> err + ((int \<times> int \<times> int) \<times> asset_db)" where
  "transfer_create operator dto db =
     (case find (\<lambda>i. it_id i = tn_fromInventoryItemId dto) (db_items db) of
        None \<Rightarrow> Inl (Biz RESOURCE_NOT_FOUND)
      | Some sourcePeek \<Rightarrow>
          (case loadWarehouseWithPath (Some (tn_toWarehouseId dto)) db of
             None \<Rightarrow> Inl (Biz LOCATION_INVALID_TARGET)
           | Some targetWarehouse \<Rightarrow>
               if it_warehouseId sourcePeek = Some (wp_id targetWarehouse) then Inl (Biz LOCATION_INVALID_TARGET)
               else
                 let candidate = find (\<lambda>i. it_consumableId i = it_consumableId sourcePeek
                       \<and> it_spec i = it_spec sourcePeek \<and> it_warehouseId i = Some (wp_id targetWarehouse)) (db_items db);
                     lockIds = (case candidate of None \<Rightarrow> [it_id sourcePeek]
                       | Some t \<Rightarrow> sort (remdups [it_id sourcePeek, it_id t]));
                     lockedItems = lockInventoryItems lockIds db
                 in case find_lock (it_id sourcePeek) lockedItems of
                     None \<Rightarrow> Inl (Biz RESOURCE_NOT_FOUND)
                   | Some sourceItem \<Rightarrow>
                       if lk_consumableId sourceItem \<noteq> it_consumableId sourcePeek
                         \<or> lk_spec sourceItem \<noteq> it_spec sourcePeek
                         \<or> lk_warehouseId sourceItem \<noteq> it_warehouseId sourcePeek
                       then Inl (Biz VALIDATION_FAILED)
                       else
                         let target = (case candidate of None \<Rightarrow> None
                               | Some t \<Rightarrow> map_option (\<lambda>r. (lk_id r, lk_bookQty r)) (find_lock (it_id t) lockedItems))
                         in if candidate \<noteq> None \<and> target = None then Inl (Biz RESOURCE_NOT_FOUND)
                            else if lk_bookQty sourceItem \<le> 0
                              \<or> tn_qty dto > lk_bookQty sourceItem - lk_reservedQty sourceItem
                            then Inl (Biz STOCK_CONFLICT)
                            else transfer_move operator dto sourceItem targetWarehouse target db))"

section \<open>Correction of a batch\<close>

text \<open>
  A field of the input is \<open>None\<close> when the client leaves it out; a field that may be cleared is
  \<open>Some None\<close> when it is sent as \<open>null\<close>.
\<close>

record correction_input =
  cn_supplierId :: "int option option"
  cn_brandId :: "int option option"
  cn_unitPrice :: "rat option option"
  cn_remark :: "string option option"
  cn_spec :: "string option"
  cn_warehouseId :: "int option"
  cn_reason :: string

definition correction_dict :: "int option option \<Rightarrow> string \<Rightarrow> asset_db \<Rightarrow> err + (int \<times> string) option" where
  "correction_dict dictId dictType db =
     (case dictId of
        Some (Some i) \<Rightarrow> if i = 0 then Inr None
          else bindR (loadDictName i dictType db) (\<lambda>x. Inr (Some x))
      | _ \<Rightarrow> Inr None)"

text \<open>\<open>input || null\<close>: zero and null both clear the reference.\<close>

definition or_null :: "int option \<Rightarrow> int option" where
  "or_null v = (if v = Some 0 then None else v)"

definition update_batch :: "int \<Rightarrow> (batch_row \<Rightarrow> batch_row) \<Rightarrow> asset_db \<Rightarrow> err + asset_db" where
  "update_batch k f db =
     bindR (update_row ba_id batch_ok k f (db_batches db)) (\<lambda>bs. Inr (db\<lparr>db_batches := bs\<rparr>))"

definition insertCorrection :: "correction_row \<Rightarrow> asset_db \<Rightarrow> err + asset_db" where
  "insertCorrection r db =
     (let (i, db1) = nextval TCorrections db
      in Inr (db1\<lparr>db_corrections := db_corrections db1 @ [r\<lparr>cr_id := i\<rparr>]\<rparr>))"

definition correction_flow ::
    "flow_direction \<Rightarrow> int \<Rightarrow> batch_row \<Rightarrow> string \<Rightarrow> string \<times> string \<Rightarrow> int \<Rightarrow> int \<Rightarrow> operator \<Rightarrow> flow_row" where
  "correction_flow dir itemId b spec wh bookBefore bookAfter operator =
     \<lparr>fl_id = 0, fl_type = CORRECTION, fl_direction = dir, fl_itemId = itemId, fl_batchId = Some (ba_id b),
      fl_consumableName = ba_consumableName b, fl_spec = spec, fl_warehouseName = fst wh,
      fl_warehousePath = snd wh, fl_qty = ba_remainingQty b, fl_bookBefore = bookBefore, fl_bookAfter = bookAfter,
      fl_refType = ''batch-correction'', fl_refId = ba_id b, fl_operatorId = fst operator,
      fl_operatorName = snd operator\<rparr>"

text \<open>The stock of the batch moves to the item of its new place.\<close>

definition correction_move ::
    "operator \<Rightarrow> batch_row \<Rightarrow> item_lock \<Rightarrow> int \<times> int \<Rightarrow> string \<Rightarrow> warehouse_path \<Rightarrow> asset_db \<Rightarrow> err + asset_db" where
  "correction_move operator b sourceItem target finalSpec w db =
     (let moved = ba_remainingQty b in
      if fst target = lk_id sourceItem \<or> moved \<le> 0 then Inr db
      else
        bindR (addItem (lk_id sourceItem) (- moved) 0 db) (\<lambda>db1.
        bindR (addItem (fst target) moved 0 db1) (\<lambda>db2.
        bindR (insertFlow (correction_flow OUT (lk_id sourceItem) b (ba_spec b)
                 (ba_warehouseName b, ba_warehousePath b) (lk_bookQty sourceItem) (lk_bookQty sourceItem - moved)
                 operator) db2) (\<lambda>(f, db3).
        bindR (insertFlow (correction_flow IN (fst target) b finalSpec (wp_name w, wp_path w)
                 (snd target) (snd target + moved) operator) db3) (\<lambda>(g, db4).
        bindR (update_batch (ba_id b)
                 (\<lambda>r. r\<lparr>ba_itemId := fst target, ba_spec := finalSpec, ba_warehouseName := wp_name w,
                       ba_warehousePath := wp_path w\<rparr>) db4) (\<lambda>db5.
        Inr (cleanupEmptyItem (lk_id sourceItem) db5)))))))"

definition correction_place ::
    "operator \<Rightarrow> batch_row \<Rightarrow> item_lock \<Rightarrow> (int \<times> int) option \<Rightarrow> string \<Rightarrow> int option \<Rightarrow> asset_db
      \<Rightarrow> err + ((string \<times> string) \<times> asset_db)" where
  "correction_place operator b sourceItem target finalSpec finalWarehouseId db =
     (if finalSpec \<noteq> ba_spec b \<or> finalWarehouseId \<noteq> lk_warehouseId sourceItem then
        (if (\<exists>f \<in> set (db_flows db). fl_batchId f = Some (ba_id b) \<and> fl_type f \<noteq> STOCK_IN)
            \<or> lk_reservedQty sourceItem > 0
         then Inl (Biz BATCH_CORRECTION_FORBIDDEN)
         else case loadWarehouseWithPath finalWarehouseId db of
             None \<Rightarrow> Inl (Biz VALIDATION_FAILED)
           | Some w \<Rightarrow>
               bindR (case target of
                   Some t \<Rightarrow> Inr (t, db)
                 | None \<Rightarrow> lockOrCreateItem
                     \<lparr>ik_consumableId = ba_consumableId b, ik_spec = finalSpec, ik_warehouseId = Some (wp_id w),
                      ik_warehouseName = wp_name w, ik_warehousePath = wp_path w\<rparr> db) (\<lambda>(t, db1).
               bindR (correction_move operator b sourceItem t finalSpec w db1) (\<lambda>db2.
               Inr ((wp_name w, wp_path w), db2))))
      else Inr ((ba_warehouseName b, ba_warehousePath b), db))"

definition correction_apply ::
    "operator \<Rightarrow> correction_input \<Rightarrow> batch_row \<Rightarrow> item_lock \<Rightarrow> (int \<times> int) option \<Rightarrow> asset_db \<Rightarrow> err + asset_db" where
  "correction_apply operator input b sourceItem target db =
     bindR (correction_dict (cn_supplierId input) ''SUPPLIER'' db) (\<lambda>supplier.
     bindR (correction_dict (cn_brandId input) ''BRAND'' db) (\<lambda>brand.
     let finalSupplierId = (case cn_supplierId input of None \<Rightarrow> ba_supplierId b | Some v \<Rightarrow> or_null v);
         finalSupplierName = (case cn_supplierId input of None \<Rightarrow> ba_supplierName b | Some v \<Rightarrow> map_option snd supplier);
         finalBrandId = (case cn_brandId input of None \<Rightarrow> ba_brandId b | Some v \<Rightarrow> or_null v);
         finalBrandName = (case cn_brandId input of None \<Rightarrow> ba_brandName b | Some v \<Rightarrow> map_option snd brand);
         finalUnitPrice = (case cn_unitPrice input of None \<Rightarrow> ba_unitPrice b | Some v \<Rightarrow> v);
         finalRemark = (case cn_remark input of None \<Rightarrow> ba_remark b | Some v \<Rightarrow> v);
         finalSpec = (case cn_spec input of None \<Rightarrow> ba_spec b | Some s \<Rightarrow> s);
         finalWarehouseId = (case cn_warehouseId input of None \<Rightarrow> lk_warehouseId sourceItem | Some w \<Rightarrow> Some w)
     in bindR (correction_place operator b sourceItem target finalSpec finalWarehouseId db)
       (\<lambda>((finalWarehouseName, finalWarehousePath), db1).
        bindR (update_batch (ba_id b)
                 (\<lambda>r. r\<lparr>ba_supplierId := finalSupplierId, ba_supplierName := finalSupplierName,
                       ba_brandId := finalBrandId, ba_brandName := finalBrandName, ba_unitPrice := finalUnitPrice,
                       ba_remark := finalRemark, ba_spec := finalSpec, ba_warehouseName := finalWarehouseName,
                       ba_warehousePath := finalWarehousePath, ba_updatedBy := Some (fst operator)\<rparr>) db1) (\<lambda>db2.
        insertCorrection
          \<lparr>cr_id = 0, cr_batchId = ba_id b,
           cr_before = \<lparr>cv_supplierId = ba_supplierId b, cv_supplierName = ba_supplierName b,
             cv_brandId = ba_brandId b, cv_brandName = ba_brandName b, cv_unitPrice = ba_unitPrice b,
             cv_remark = ba_remark b, cv_spec = ba_spec b, cv_warehouseId = lk_warehouseId sourceItem,
             cv_warehouseName = ba_warehouseName b\<rparr>,
           cr_after = \<lparr>cv_supplierId = finalSupplierId, cv_supplierName = finalSupplierName,
             cv_brandId = finalBrandId, cv_brandName = finalBrandName, cv_unitPrice = finalUnitPrice,
             cv_remark = finalRemark, cv_spec = finalSpec, cv_warehouseId = finalWarehouseId,
             cv_warehouseName = finalWarehouseName\<rparr>,
           cr_reason = cn_reason input, cr_operatorId = fst operator, cr_operatorName = snd operator\<rparr> db2))))"

definition assertBatchStillExists :: "int \<Rightarrow> asset_db \<Rightarrow> err + unit" where
  "assertBatchStillExists batchId db =
     (if \<exists>b \<in> set (db_batches db). ba_id b = batchId then Inl (Biz VALIDATION_FAILED) else Inr ())"

definition correctBatch :: "operator \<Rightarrow> int \<Rightarrow> correction_input \<Rightarrow> asset_db \<Rightarrow> err + asset_db" where
  "correctBatch operator batchId input db =
     (case find (\<lambda>b. ba_id b = batchId) (db_batches db) of
        None \<Rightarrow> Inl (Biz RESOURCE_NOT_FOUND)
      | Some peek \<Rightarrow>
          (case find (\<lambda>i. it_id i = ba_itemId peek) (db_items db) of
             None \<Rightarrow> bindR (assertBatchStillExists batchId db) (\<lambda>u. Inl (Biz RESOURCE_NOT_FOUND))
           | Some sourcePeek \<Rightarrow>
               let specGuess = (case cn_spec input of None \<Rightarrow> ba_spec peek | Some s \<Rightarrow> s);
                   warehouseGuess = (case cn_warehouseId input of None \<Rightarrow> it_warehouseId sourcePeek | Some w \<Rightarrow> Some w);
                   candidate = (if specGuess \<noteq> ba_spec peek \<or> warehouseGuess \<noteq> it_warehouseId sourcePeek
                     then find (\<lambda>i. it_consumableId i = ba_consumableId peek \<and> it_spec i = specGuess
                            \<and> it_warehouseId i = warehouseGuess) (db_items db)
                     else None);
                   lockIds = sort (remdups (ba_itemId peek # (case candidate of None \<Rightarrow> [] | Some t \<Rightarrow> [it_id t])));
                   lockedItems = lockInventoryItems lockIds db
               in case find_lock (ba_itemId peek) lockedItems of
                   None \<Rightarrow> bindR (assertBatchStillExists batchId db) (\<lambda>u. Inl (Biz RESOURCE_NOT_FOUND))
                 | Some sourceItem \<Rightarrow>
                     let target = (case candidate of None \<Rightarrow> None
                           | Some t \<Rightarrow> map_option (\<lambda>r. (lk_id r, lk_bookQty r)) (find_lock (it_id t) lockedItems))
                     in if candidate \<noteq> None \<and> target = None then Inl (Biz RESOURCE_NOT_FOUND)
                        else (case find (\<lambda>b. ba_id b = batchId) (db_batches db) of
                            None \<Rightarrow> Inl (Biz RESOURCE_NOT_FOUND)
                          | Some b \<Rightarrow>
                              if ba_itemId b \<noteq> ba_itemId peek \<or> ba_spec b \<noteq> ba_spec peek
                                \<or> ba_warehouseName b \<noteq> ba_warehouseName peek
                              then Inl (Biz VALIDATION_FAILED)
                              else correction_apply operator input b sourceItem target db)))"

end
