(* ===== verification/Movements.thy ===== *)
theory Movements
  imports Decisions Transfers
begin

text \<open>
  Transfers, corrections, disposals and the submissions of returns and settlements keep stock and
  reservations in order.
\<close>

section \<open>Transfers\<close>

lemma shifts_cong:
  assumes "shifts a b f r s l" and "\<And>k. f k = f' k" "\<And>k. r k = r' k" "\<And>k. s k = s' k" "\<And>k. l k = l' k"
  shows "shifts a b f' r' s' l'"
proof -
  have "f = f'" "r = r'" "s = s'" "l = l'" using assms(2-) by auto
  then show ?thesis using assms(1) by simp
qed

lemmas shift_apply = padd_apply atk_apply none0_apply

lemma insertTransfer_frame:
  assumes "insertTransfer r db = Inr (i, db')" and "tables_ok db"
  shows "shifts db db' none0 none0 none0 none0" and "same_requests db db'"
  using assms
  by (auto simp: insertTransfer_def nextval_def Let_def bindR_Inr_iff insert_row_Inr_iff same_requests_def
      intro!: shifts_frame)

lemma insertTransferItem_frame:
  assumes "insertTransferItem r db = Inr db'" and "tables_ok db"
  shows "shifts db db' none0 none0 none0 none0" and "same_requests db db'"
  using assms
  by (auto simp: insertTransferItem_def nextval_def Let_def bindR_Inr_iff insert_row_Inr_iff same_requests_def
      intro!: shifts_frame)

lemma transfer_loop_shifts:
  assumes "transfer_loop c as out inb db = Inr db'" and "tables_ok db"
  shows "shifts db db' (padd (atk (lk_id (tx_source c)) (- allocated as)) (atk (tx_targetId c) (allocated as))) none0
      (atk (tx_targetId c) (allocated as))
      (padd (atk (lk_id (tx_source c)) (- allocated as)) (atk (tx_targetId c) (allocated as)))
    \<and> same_requests db db'"
  using assms
proof (induction as arbitrary: out inb db)
  case Nil
  then show ?case by (simp add: shifts_refl)
next
  case (Cons a as)
  let ?s = "lk_id (tx_source c)" and ?t = "tx_targetId c" and ?q = "snd a"
  obtain b sub d1 d2 d3 d4 f d5 g d6 where
    s1: "insertBatch (sub_batch c b ?q) db = Inr (sub, d1)"
    and s2: "insertTransferItem \<lparr>ti_id = 0, ti_transferId = tx_transferId c, ti_sourceBatchId = fst a,
                   ti_targetBatchId = sub, ti_qty = ?q\<rparr> d1 = Inr d2"
    and s3: "addItem ?s (- ?q) 0 d2 = Inr d3" and s4: "addItem ?t ?q 0 d3 = Inr d4"
    and s5: "writeStockFlow
                   \<lparr>fi_type = TRANSFER_OUT, fi_direction = OUT, fi_item = tx_source c, fi_batchId = Some (fst a),
                    fi_qty = ?q, fi_bookBefore = out, fi_bookAfter = out - ?q,
                    fi_refType = ''TRANSFER'', fi_refId = tx_transferId c, fi_operator = tx_operator c\<rparr> d4 = Inr (f, d5)"
    and s6: "writeStockFlow
                   \<lparr>fi_type = TRANSFER_IN, fi_direction = IN, fi_item = target_row c, fi_batchId = Some sub,
                    fi_qty = ?q, fi_bookBefore = inb, fi_bookAfter = inb + ?q,
                    fi_refType = ''TRANSFER'', fi_refId = tx_transferId c, fi_operator = tx_operator c\<rparr> d5 = Inr (g, d6)"
    and rest: "transfer_loop c as (out - ?q) (inb + ?q) d6 = Inr db'"
    using Cons.prems(1) by (auto simp: bindR_Inr_iff split: option.splits)
  note f1 = insertBatch_shifts [OF s1 Cons.prems(2)]
  note f2 = insertTransferItem_frame [OF s2 shifts_tables_ok [OF f1(1)]]
  note f3 = addItem_shifts [OF s3 shifts_tables_ok [OF f2(1)]]
  note f4 = addItem_shifts [OF s4 shifts_tables_ok [OF f3(1)]]
  note f5 = insertFlow_shifts(1,2) [OF s5 [unfolded writeStockFlow_def] shifts_tables_ok [OF f4(1)]]
  note f6 = insertFlow_shifts(1,2) [OF s6 [unfolded writeStockFlow_def] shifts_tables_ok [OF f5(1)]]
  note ih = Cons.IH [OF rest shifts_tables_ok [OF f6(1)]]
  note all = shifts_trans [OF shifts_trans [OF shifts_trans [OF shifts_trans [OF shifts_trans [OF shifts_trans
      [OF f1(1) f2(1)] f3(1)] f4(1)] f5(1)] f6(1)] ih [THEN conjunct1]]
  have "shifts db db' (padd (atk ?s (- allocated (a # as))) (atk ?t (allocated (a # as)))) none0
      (atk ?t (allocated (a # as))) (padd (atk ?s (- allocated (a # as))) (atk ?t (allocated (a # as))))"
    by (rule shifts_cong [OF all]) (auto simp: shift_apply sub_batch_def target_row_def flow_signed_def)
  then show ?case
    using same_requests_trans [OF same_rest_requests [OF f1(2)] same_requests_trans [OF f2(2)
          same_requests_trans [OF same_rest_requests [OF f3(2)] same_requests_trans [OF same_rest_requests [OF f4(2)]
          same_requests_trans [OF same_rest_requests [OF f5(2)] same_requests_trans [OF same_rest_requests [OF f6(2)]
          ih [THEN conjunct2]]]]]]]
    by simp
qed

lemma transfer_target_shifts:
  assumes "transfer_target row w t db = Inr ((i, b), db')" and "tables_ok db"
  shows "shifts db db' none0 none0 none0 none0 \<and> same_rest db db'"
  using assms lockOrCreate_shifts(1,2) [OF _ assms(2)]
  by (auto simp: transfer_target_def shifts_refl split: option.splits)

definition moves :: "asset_db \<Rightarrow> asset_db \<Rightarrow> int \<Rightarrow> int \<Rightarrow> int \<Rightarrow> bool" where
  "moves db db' s t q \<longleftrightarrow> shifts db db' (padd (atk s (- q)) (atk t q)) none0 (padd (atk s (- q)) (atk t q))
     (padd (atk s (- q)) (atk t q)) \<and> same_requests db db'"

lemma transfer_move_moves:
  assumes "transfer_move opr dto row w t db = Inr (x, db')" and "tables_ok db" and "0 \<le> tn_qty dto"
  shows "moves db db' (lk_id row) (snd (snd x)) (tn_qty dto) \<and> fst (snd x) = lk_id row"
proof -
  let ?s = "lk_id row" and ?q = "tn_qty dto"
  obtain as d1 ti tb d2 tid d3 d4 where al: "allocateFifoBatches ?s ?q db = Inr (as, d1)"
    and tg: "transfer_target row w t d1 = Inr ((ti, tb), d2)"
    and it: "insertTransfer
              \<lparr>tr_id = 0, tr_fromItemId = ?s, tr_toItemId = ti,
               tr_fromWarehouseName = lk_warehouseName row, tr_fromWarehousePath = lk_warehousePath row,
               tr_toWarehouseName = wp_name w, tr_toWarehousePath = wp_path w,
               tr_qty = ?q, tr_remark = tn_remark dto,
               tr_operatorId = fst opr, tr_operatorName = snd opr\<rparr> d2 = Inr (tid, d3)"
    and lp: "transfer_loop
              \<lparr>tx_source = row, tx_targetId = ti, tx_targetBook = tb, tx_warehouse = w, tx_transferId = tid,
               tx_operator = opr\<rparr> as (lk_bookQty row) tb d3 = Inr d4"
    and db': "db' = cleanupEmptyItem ?s d4" and x: "x = (tid, ?s, ti)"
    using assms(1) by (auto simp: transfer_move_def bindR_Inr_iff)
  note a = allocate_shifts [OF al assms(2,3)]
  note b = transfer_target_shifts [OF tg shifts_tables_ok [OF a(1)]]
  note c = insertTransfer_frame [OF it shifts_tables_ok [OF b [THEN conjunct1]]]
  note d = transfer_loop_shifts [OF lp shifts_tables_ok [OF c(1)]]
  note e = cleanup_shifts(1) [OF shifts_tables_ok [OF d [THEN conjunct1]], of ?s]
  note all = shifts_trans [OF shifts_trans [OF shifts_trans [OF shifts_trans [OF a(1) b [THEN conjunct1]] c(1)]
      d [THEN conjunct1]] e]
  have "shifts db db' (padd (atk ?s (- ?q)) (atk ti ?q)) none0 (padd (atk ?s (- ?q)) (atk ti ?q))
      (padd (atk ?s (- ?q)) (atk ti ?q))"
    unfolding db' by (rule shifts_cong [OF all]) (auto simp: shift_apply a(3))
  moreover have "same_requests db db'"
    unfolding db'
    using same_requests_trans [OF same_rest_requests [OF a(2)] same_requests_trans [OF same_rest_requests
          [OF b [THEN conjunct2]] same_requests_trans [OF c(2) same_requests_trans [OF d [THEN conjunct2] cleanup_requests]]]] .
  ultimately show ?thesis by (simp add: moves_def x)
qed

lemma find_lock_id: "find_lock k rows = Some row \<Longrightarrow> lk_id row = k"
  by (auto simp: find_lock_def find_Some_iff)

lemma transfer_moves:
  assumes "transfer_create opr dto db = Inr (x, db')" and "tables_ok db" and "0 \<le> tn_qty dto"
  shows "moves db db' (tn_fromInventoryItemId dto) (snd (snd x)) (tn_qty dto)"
    and "fst (snd x) = tn_fromInventoryItemId dto"
proof -
  obtain peek row rows w t where "find (\<lambda>i. it_id i = tn_fromInventoryItemId dto) (db_items db) = Some peek"
    and "find_lock (it_id peek) rows = Some row" and mv: "transfer_move opr dto row w t db = Inr (x, db')"
    using assms(1) by (auto simp: transfer_create_def Let_def split: option.splits if_splits)
  then have "lk_id row = tn_fromInventoryItemId dto" by (auto dest: find_lock_id simp: find_Some_iff)
  with transfer_move_moves [OF mv assms(2,3)]
  show "moves db db' (tn_fromInventoryItemId dto) (snd (snd x)) (tn_qty dto)"
    and "fst (snd x) = tn_fromInventoryItemId dto" by simp_all
qed

lemma moves_balanced: "moves db db' s t q \<Longrightarrow> balanced db db'"
  by (auto simp: moves_def intro: balancedI)

lemmas transfer_balanced = moves_balanced [OF transfer_moves(1)]

section \<open>Where a transfer puts the goods\<close>

text \<open>An item with its place, and what a batch split off for a transfer has of the batch it comes from.\<close>

definition placed :: "int \<Rightarrow> int \<Rightarrow> string \<Rightarrow> int option \<Rightarrow> asset_db \<Rightarrow> bool" where
  "placed i co sp w db \<longleftrightarrow> (\<exists>j \<in> set (db_items db). it_id j = i \<and> it_consumableId j = co \<and> it_spec j = sp \<and> it_warehouseId j = w)"

definition split_of :: "int \<Rightarrow> batch_row list \<Rightarrow> batch_allocation \<Rightarrow> batch_row \<Rightarrow> bool" where
  "split_of i bs a b \<longleftrightarrow> ba_itemId b = i \<and> ba_sourceBatchId b = Some (fst a) \<and> ba_remainingQty b = snd a
     \<and> (\<exists>p \<in> set bs. ba_id p = fst a \<and> ba_consumableId b = ba_consumableId p \<and> ba_spec b = ba_spec p
          \<and> ba_supplierId b = ba_supplierId p \<and> ba_brandId b = ba_brandId p \<and> ba_unitPrice b = ba_unitPrice p
          \<and> ba_receivedAt b = ba_receivedAt p)"

lemma placed_cong: "db_items db' = db_items db \<Longrightarrow> placed i co sp w db' = placed i co sp w db"
  by (simp add: placed_def)

lemma placed_addItem: "addItem k b r db = Inr db' \<Longrightarrow> placed i co sp w db \<Longrightarrow> placed i co sp w db'"
  unfolding placed_def
proof (elim bexE conjE)
  fix j assume a: "addItem k b r db = Inr db'" and j: "j \<in> set (db_items db)" "it_id j = i" "it_consumableId j = co"
    "it_spec j = sp" "it_warehouseId j = w"
  have "(if it_id j = k then item_add b r j else j) \<in> set (db_items db')"
    using a j(1) by (auto simp: addItem_Inr_iff intro: update_where_mem update_where_keep)
  then show "\<exists>j \<in> set (db_items db'). it_id j = i \<and> it_consumableId j = co \<and> it_spec j = sp \<and> it_warehouseId j = w"
    using j by (intro bexI) (auto simp: item_add_def split: if_splits)
qed

lemma placed_unique:
  assumes "distinct (map it_id (db_items db))" and "placed i co sp w db" and "placed i co' sp' w' db"
  shows "w = w'"
  using assms unfolding placed_def by (metis distinct_map inj_onD)

lemma find_append_front: "find P xs = Some x \<Longrightarrow> find P (xs @ ys) = Some x"
  by (induction xs) auto

lemma transfer_loop_batches:
  assumes "transfer_loop c as out inb db = Inr db'" and "db_batches db = bs @ us"
    and "\<And>a. a \<in> set as \<Longrightarrow> fst a \<in> ba_id ` set bs"
  shows "\<exists>subs. db_batches db' = db_batches db @ subs \<and> list_all2 (split_of (tx_targetId c) bs) as subs"
    and "placed i co sp w db \<Longrightarrow> placed i co sp w db'"
proof -
  have "(\<exists>subs. db_batches db' = db_batches db @ subs \<and> list_all2 (split_of (tx_targetId c) bs) as subs)
    \<and> (placed i co sp w db \<longrightarrow> placed i co sp w db')"
    using assms
  proof (induction as arbitrary: out inb db us)
    case (Cons a as)
    let ?s = "lk_id (tx_source c)" and ?t = "tx_targetId c" and ?q = "snd a"
    obtain b sub d1 d2 d3 d4 f d5 g d6 where
      b: "find (\<lambda>b. ba_id b = fst a) (db_batches db) = Some b"
      and s1: "insertBatch (sub_batch c b ?q) db = Inr (sub, d1)"
      and s2: "insertTransferItem \<lparr>ti_id = 0, ti_transferId = tx_transferId c, ti_sourceBatchId = fst a,
                     ti_targetBatchId = sub, ti_qty = ?q\<rparr> d1 = Inr d2"
      and s3: "addItem ?s (- ?q) 0 d2 = Inr d3" and s4: "addItem ?t ?q 0 d3 = Inr d4"
      and s5: "writeStockFlow
                     \<lparr>fi_type = TRANSFER_OUT, fi_direction = OUT, fi_item = tx_source c, fi_batchId = Some (fst a),
                      fi_qty = ?q, fi_bookBefore = out, fi_bookAfter = out - ?q,
                      fi_refType = ''TRANSFER'', fi_refId = tx_transferId c, fi_operator = tx_operator c\<rparr> d4 = Inr (f, d5)"
      and s6: "writeStockFlow
                     \<lparr>fi_type = TRANSFER_IN, fi_direction = IN, fi_item = target_row c, fi_batchId = Some sub,
                      fi_qty = ?q, fi_bookBefore = inb, fi_bookAfter = inb + ?q,
                      fi_refType = ''TRANSFER'', fi_refId = tx_transferId c, fi_operator = tx_operator c\<rparr> d5 = Inr (g, d6)"
      and rest: "transfer_loop c as (out - ?q) (inb + ?q) d6 = Inr db'"
      using Cons.prems(1) by (auto simp: bindR_Inr_iff split: option.splits)
    obtain n where d1: "db_batches d1 = db_batches db @ [(sub_batch c b ?q)\<lparr>ba_id := n\<rparr>]" "db_items d1 = db_items db"
      using s1 by (auto simp: insertBatch_Inr_iff)
    have d2: "db_batches d2 = db_batches d1" "db_items d2 = db_items d1"
      using s2 by (auto simp: insertTransferItem_def nextval_def Let_def bindR_Inr_iff)
    have d4: "db_batches d4 = db_batches d2" using s3 s4 by (auto simp: addItem_Inr_iff)
    have d6: "db_batches d6 = db_batches d4" "db_items d6 = db_items d4"
      using s5 s6 by (auto simp: writeStockFlow_def insertFlow_Inr_iff)
    have new: "split_of ?t bs a ((sub_batch c b ?q)\<lparr>ba_id := n\<rparr>)"
    proof -
      have "find (\<lambda>b. ba_id b = fst a) bs \<noteq> None" using Cons.prems(3) [of a] by (auto simp: find_None_iff)
      then have "find (\<lambda>b. ba_id b = fst a) bs = Some b" using b Cons.prems(2) find_append_front by fastforce
      then have "b \<in> set bs" "ba_id b = fst a" by (auto simp: find_Some_iff)
      then show ?thesis by (auto simp: split_of_def sub_batch_def intro!: bexI [of _ b])
    qed
    have "db_batches d6 = bs @ (us @ [(sub_batch c b ?q)\<lparr>ba_id := n\<rparr>])" using d1 d2 d4 d6 Cons.prems(2) by simp
    from Cons.IH [OF rest this] Cons.prems(3) obtain subs where
      subs: "db_batches db' = db_batches d6 @ subs" "list_all2 (split_of ?t bs) as subs"
      and keep: "placed i co sp w d6 \<longrightarrow> placed i co sp w db'" by auto
    have "placed i co sp w db \<longrightarrow> placed i co sp w d6"
    proof
      assume "placed i co sp w db"
      then have "placed i co sp w d2" unfolding placed_def d2(2) d1(2) .
      from placed_addItem [OF s4 placed_addItem [OF s3 this]] show "placed i co sp w d6" unfolding placed_def d6(2) .
    qed
    moreover have "db_batches db' = db_batches db @ ((sub_batch c b ?q)\<lparr>ba_id := n\<rparr> # subs)"
      using subs(1) d1(1) d2(1) d4 d6(1) by simp
    moreover have "list_all2 (split_of ?t bs) (a # as) ((sub_batch c b ?q)\<lparr>ba_id := n\<rparr> # subs)"
      using new subs(2) by simp
    ultimately show ?case using keep by blast
  qed simp
  then show "\<exists>subs. db_batches db' = db_batches db @ subs \<and> list_all2 (split_of (tx_targetId c) bs) as subs"
    and "placed i co sp w db \<Longrightarrow> placed i co sp w db'" by auto
qed

lemma lockOrCreate_placed:
  assumes "lockOrCreateItem k db = Inr ((i, b), db')"
  shows "placed i (ik_consumableId k) (ik_spec k) (ik_warehouseId k) db'" and "db_batches db' = db_batches db"
    and "placed j co sp w db \<Longrightarrow> placed j co sp w db'"
proof -
  have "placed i (ik_consumableId k) (ik_spec k) (ik_warehouseId k) db' \<and> db_batches db' = db_batches db
    \<and> (placed j co sp w db \<longrightarrow> placed j co sp w db')"
  proof (cases "find (item_at k) (db_items db)")
    case None
    then show ?thesis using assms
      by (auto simp: lockOrCreateItem_def insertItem_Inr_iff placed_def split: sum.splits if_splits)
  next
    case (Some j)
    then have "j \<in> set (db_items db)" "item_at k j" by (auto simp: find_Some_iff)
    then show ?thesis using assms Some by (auto simp: lockOrCreateItem_def item_at_def placed_def)
  qed
  then show "placed i (ik_consumableId k) (ik_spec k) (ik_warehouseId k) db'" and "db_batches db' = db_batches db"
    and "placed j co sp w db \<Longrightarrow> placed j co sp w db'" by auto
qed

lemma split_of_drain: "split_of i (drain as bs) a b = split_of i bs a b"
  by (simp add: split_of_def drain_def batch_add_def)

lemma transfer_move_places:
  assumes mv: "transfer_move opr dto row w t db = Inr ((tid, s, i), db')" and ok: "tables_ok db" and q: "0 \<le> tn_qty dto"
    and t: "\<And>j b. t = Some (j, b) \<Longrightarrow> placed j (lk_consumableId row) (lk_spec row) (Some (wp_id w)) db"
    and other: "lk_warehouseId row \<noteq> Some (wp_id w)"
    and row: "placed (lk_id row) (lk_consumableId row) (lk_spec row) (lk_warehouseId row) db"
  shows "placed i (lk_consumableId row) (lk_spec row) (Some (wp_id w)) db'"
    and "\<exists>subs. db_batches db' = drain (fifo_plan (fifo_rows (lk_id row) db) (tn_qty dto)) (db_batches db) @ subs
      \<and> list_all2 (split_of i (db_batches db)) (fifo_plan (fifo_rows (lk_id row) db) (tn_qty dto)) subs"
proof -
  let ?s = "lk_id row" and ?q = "tn_qty dto"
  let ?as = "fifo_plan (fifo_rows ?s db) ?q"
  obtain as d1 tb d2 d3 d4 where al: "allocateFifoBatches ?s ?q db = Inr (as, d1)"
    and tg: "transfer_target row w t d1 = Inr ((i, tb), d2)"
    and it: "insertTransfer
              \<lparr>tr_id = 0, tr_fromItemId = ?s, tr_toItemId = i,
               tr_fromWarehouseName = lk_warehouseName row, tr_fromWarehousePath = lk_warehousePath row,
               tr_toWarehouseName = wp_name w, tr_toWarehousePath = wp_path w,
               tr_qty = ?q, tr_remark = tn_remark dto,
               tr_operatorId = fst opr, tr_operatorName = snd opr\<rparr> d2 = Inr (tid, d3)"
    and lp: "transfer_loop
              \<lparr>tx_source = row, tx_targetId = i, tx_targetBook = tb, tx_warehouse = w, tx_transferId = tid,
               tx_operator = opr\<rparr> as (lk_bookQty row) tb d3 = Inr d4"
    and db': "db' = cleanupEmptyItem ?s d4"
    using mv by (auto simp: transfer_move_def bindR_Inr_iff)
  have as: "as = ?as" and d1: "d1 = db\<lparr>db_batches := drain ?as (db_batches db)\<rparr>"
    using al allocate_eq [OF ok q, of ?s] by (auto split: if_splits)
  have p2: "placed i (lk_consumableId row) (lk_spec row) (Some (wp_id w)) d2 \<and> db_batches d2 = db_batches d1
    \<and> placed ?s (lk_consumableId row) (lk_spec row) (lk_warehouseId row) d2"
  proof (cases t)
    case None
    let ?k = "\<lparr>ik_consumableId = lk_consumableId row, ik_spec = lk_spec row, ik_warehouseId = Some (wp_id w),
      ik_warehouseName = wp_name w, ik_warehousePath = wp_path w\<rparr>"
    have "lockOrCreateItem ?k d1 = Inr ((i, tb), d2)" using tg None by (simp add: transfer_target_def)
    from lockOrCreate_placed [OF this] row show ?thesis by (simp add: placed_def d1)
  next
    case (Some x)
    then show ?thesis using tg t [of i tb] row by (auto simp: transfer_target_def d1 placed_def)
  qed
  have d3: "db_batches d3 = db_batches d2" "db_items d3 = db_items d2"
    using it by (auto simp: insertTransfer_def nextval_def Let_def bindR_Inr_iff)
  have d: "distinct (map ba_id (db_batches db))" and bok: "\<And>b. b \<in> set (db_batches db) \<Longrightarrow> batch_ok b"
    using ok by (simp_all add: tables_ok_def keyed_def)
  note rows = fifo_rows_facts [OF d bok, where k = ?s]
  have bs: "db_batches d3 = drain ?as (db_batches db) @ []" using d3 p2 d1 by simp
  have ids: "fst a \<in> ba_id ` set (drain ?as (db_batches db))" if "a \<in> set as" for a
  proof -
    have "fst a \<in> ba_id ` set (fifo_rows ?s db)" using fifo_plan_pos(2) [of "fifo_rows ?s db" a ?q] rows(3) that as by auto
    then have "fst a \<in> set (map ba_id (db_batches db))" using rows(2) by auto
    then show ?thesis using drain_keys [of ?as "db_batches db"] by (metis list.set_map)
  qed
  note lb = transfer_loop_batches [OF lp bs ids]
  have "placed i (lk_consumableId row) (lk_spec row) (Some (wp_id w)) d4"
    using lb(2) p2 d3(2) unfolding placed_def by simp
  then obtain j where j: "j \<in> set (db_items d4)" "it_id j = i" "it_consumableId j = lk_consumableId row"
    "it_spec j = lk_spec row" "it_warehouseId j = Some (wp_id w)" by (auto simp: placed_def)
  have keep: "db_items db' = filter (\<lambda>x. \<not> removable ?s d4 x) (db_items d4)" "db_batches db' = db_batches d4"
    by (simp_all add: db' cleanupEmptyItem_def)
  have "i \<noteq> ?s"
  proof
    assume same: "i = ?s"
    have "distinct (map it_id (db_items d2))"
      using transfer_target_shifts [OF tg shifts_tables_ok [OF allocate_shifts(1) [OF al ok q]]]
      by (auto dest: shifts_tables_ok tables_okD)
    then show False using p2 same other placed_unique by metis
  qed
  then show "placed i (lk_consumableId row) (lk_spec row) (Some (wp_id w)) db'"
    using j keep(1) by (auto simp: placed_def removable_def)
  show "\<exists>subs. db_batches db' = drain ?as (db_batches db) @ subs
      \<and> list_all2 (split_of i (db_batches db)) ?as subs"
    using lb(1) bs keep(2) as by (simp add: split_of_drain [abs_def])
qed

lemma loadWarehouse_id: "loadWarehouseWithPath v db = Some w \<Longrightarrow> v = Some (wp_id w)"
  by (auto simp: loadWarehouseWithPath_def split: option.splits)

lemma transfer_places:
  assumes "transfer_create opr dto db = Inr ((tid, s, i), db')" and ok: "tables_ok db" and "0 \<le> tn_qty dto"
  obtains src where "src \<in> set (db_items db)" "it_id src = tn_fromInventoryItemId dto"
    "it_warehouseId src \<noteq> Some (tn_toWarehouseId dto)"
    "placed i (it_consumableId src) (it_spec src) (Some (tn_toWarehouseId dto)) db'"
    "\<exists>subs. db_batches db' = drain (fifo_plan (fifo_rows (tn_fromInventoryItemId dto) db) (tn_qty dto)) (db_batches db) @ subs
      \<and> list_all2 (split_of i (db_batches db)) (fifo_plan (fifo_rows (tn_fromInventoryItemId dto) db) (tn_qty dto)) subs"
proof -
  obtain peek w rows row cand t where peek: "find (\<lambda>i. it_id i = tn_fromInventoryItemId dto) (db_items db) = Some peek"
    and w: "loadWarehouseWithPath (Some (tn_toWarehouseId dto)) db = Some w"
    and other: "it_warehouseId peek \<noteq> Some (wp_id w)"
    and row: "find_lock (it_id peek) rows = Some row" "lk_consumableId row = it_consumableId peek"
      "lk_spec row = it_spec peek" "lk_warehouseId row = it_warehouseId peek"
    and cand: "cand = find (\<lambda>i. it_consumableId i = it_consumableId peek
                       \<and> it_spec i = it_spec peek \<and> it_warehouseId i = Some (wp_id w)) (db_items db)"
    and t: "t = (case cand of None \<Rightarrow> None | Some t \<Rightarrow> map_option (\<lambda>r. (lk_id r, lk_bookQty r)) (find_lock (it_id t) rows))"
    and mv: "transfer_move opr dto row w t db = Inr ((tid, s, i), db')"
    using assms(1) unfolding transfer_create_def Let_def
    by (auto split: option.split_asm if_split_asm)
  have p: "peek \<in> set (db_items db)" "it_id peek = tn_fromInventoryItemId dto" using peek by (auto simp: find_Some_iff)
  have to: "wp_id w = tn_toWarehouseId dto" using loadWarehouse_id [OF w] by simp
  have id: "lk_id row = it_id peek" using find_lock_id [OF row(1)] .
  have tp: "placed j (lk_consumableId row) (lk_spec row) (Some (wp_id w)) db" if tj: "t = Some (j, b)" for j b
  proof -
    obtain c r where c: "cand = Some c" "find_lock (it_id c) rows = Some r" "lk_id r = j"
      using tj unfolding t by (auto split: option.split_asm)
    have "c \<in> set (db_items db) \<and> it_consumableId c = it_consumableId peek \<and> it_spec c = it_spec peek \<and> it_warehouseId c = Some (wp_id w)"
      using c(1) unfolding cand by (auto simp: find_Some_iff)
    then show ?thesis using find_lock_id [OF c(2)] c(3) row by (auto simp: placed_def)
  qed
  have rp: "placed (lk_id row) (lk_consumableId row) (lk_spec row) (lk_warehouseId row) db"
    using p row id by (auto simp: placed_def)
  from transfer_move_places [OF mv ok assms(3) tp _ rp] other row id p to show ?thesis
    by (intro that [of peek]) simp_all
qed

section \<open>Corrections\<close>

lemma sum_where_update_key:
  assumes "distinct (map key rs)" and "r \<in> set rs" and "key r = k"
  shows "sum_where P q (update_where (\<lambda>r. key r = k) f rs)
    = sum_where P q rs - (if P r then q r else 0) + (if P (f r) then q (f r) else (0 :: int))"
  using assms
proof (induction rs)
  case (Cons a rs)
  show ?case
  proof (cases "a = r")
    case True
    have "key x \<noteq> k" if "x \<in> set rs" for x using that True Cons.prems by (simp, metis imageI)
    then have "update_where (\<lambda>r. key r = k) f rs = rs" by (rule update_where_none)
    then show ?thesis using True Cons.prems by simp
  next
    case False
    then have "key a \<noteq> k" using Cons.prems by force
    then show ?thesis using False Cons by simp
  qed
qed simp

text \<open>A batch changes its place or its data, never its key or its stock.\<close>

lemma update_batch_shifts:
  assumes "update_batch k f db = Inr db'" and "tables_ok db" and "b \<in> set (db_batches db)" and "ba_id b = k"
    and "\<And>r. ba_id (f r) = ba_id r" and "\<And>r. ba_remainingQty (f r) = ba_remainingQty r"
  shows "shifts db db' none0 none0
      (padd (atk (ba_itemId b) (- ba_remainingQty b)) (atk (ba_itemId (f b)) (ba_remainingQty b))) none0"
    and "same_rest db db'"
proof -
  note ok = tables_okD [OF assms(2)]
  have db': "db' = db\<lparr>db_batches := update_where (\<lambda>b. ba_id b = k) f (db_batches db)\<rparr>"
    and new: "\<forall>b \<in> set (db_batches db). ba_id b = k \<longrightarrow> batch_ok (f b)"
    using assms(1) by (auto simp: update_batch_def bindR_Inr_iff update_row_Inr_iff)
  have "tables_ok db'"
  proof (rule tables_okI)
    show "distinct (map ba_id (db_batches db'))"
      using ok(2) assms(5) by (simp add: db' map_update_where)
    show "batch_ok c \<and> ba_id c < db_seq db' TBatches" if "c \<in> set (db_batches db')" for c
      using that new ok(4) assms(5) by (auto simp: db' set_update_where)
  qed (use ok in \<open>simp_all add: db'\<close>)
  moreover have "stock db' = padd (stock db)
      (padd (atk (ba_itemId b) (- ba_remainingQty b)) (atk (ba_itemId (f b)) (ba_remainingQty b)))"
    using sum_where_update_key [OF ok(2) assms(3,4)] assms(6)
    by (auto simp: fun_eq_iff stock_def db' shift_apply)
  ultimately show "shifts db db' none0 none0
      (padd (atk (ba_itemId b) (- ba_remainingQty b)) (atk (ba_itemId (f b)) (ba_remainingQty b))) none0"
    by (simp add: shifts_def) (simp add: db')
  show "same_rest db db'" by (simp add: db' same_rest_def strip_stock_def)
qed

lemma correction_move_balanced:
  assumes "correction_move opr b row t spec w db = Inr db'" and "tables_ok db"
    and "b \<in> set (db_batches db)" and "lk_id row = ba_itemId b"
  shows "balanced db db' \<and> (\<exists>c \<in> set (db_batches db'). ba_id c = ba_id b)"
proof (cases "fst t = lk_id row \<or> ba_remainingQty b \<le> 0")
  case True
  then show ?thesis using assms by (auto simp: correction_move_def balanced_refl)
next
  case False
  let ?m = "ba_remainingQty b" and ?s = "lk_id row" and ?t = "fst t"
  let ?f = "\<lambda>r. r\<lparr>ba_itemId := ?t, ba_spec := spec, ba_warehouseName := wp_name w, ba_warehousePath := wp_path w\<rparr>"
  obtain d1 d2 f d3 g d4 d5 where s1: "addItem ?s (- ?m) 0 db = Inr d1" and s2: "addItem ?t ?m 0 d1 = Inr d2"
    and s3: "insertFlow (correction_flow OUT ?s b (ba_spec b) (ba_warehouseName b, ba_warehousePath b)
        (lk_bookQty row) (lk_bookQty row - ?m) opr) d2 = Inr (f, d3)"
    and s4: "insertFlow (correction_flow IN ?t b spec (wp_name w, wp_path w) (snd t) (snd t + ?m) opr) d3 = Inr (g, d4)"
    and s5: "update_batch (ba_id b) ?f d4 = Inr d5" and db': "db' = cleanupEmptyItem ?s d5"
    using assms(1) False by (auto simp: correction_move_def Let_def bindR_Inr_iff)
  note f1 = addItem_shifts [OF s1 assms(2)]
  note f2 = addItem_shifts [OF s2 shifts_tables_ok [OF f1(1)]]
  note f3 = insertFlow_shifts [OF s3 shifts_tables_ok [OF f2(1)]]
  note f4 = insertFlow_shifts [OF s4 shifts_tables_ok [OF f3(1)]]
  have b4: "b \<in> set (db_batches d4)" using assms(3) s1 s2 f3(4) f4(4) by (auto simp: addItem_Inr_iff)
  have f5: "shifts d4 d5 none0 none0 (padd (atk (ba_itemId b) (- ?m)) (atk ?t ?m)) none0" "same_rest d4 d5"
    using update_batch_shifts [OF s5 shifts_tables_ok [OF f4(1)] b4] by simp_all
  note f6 = cleanup_shifts [OF shifts_tables_ok [OF f5(1)], of ?s]
  note all = shifts_trans [OF shifts_trans [OF shifts_trans [OF shifts_trans [OF shifts_trans
      [OF f1(1) f2(1)] f3(1)] f4(1)] f5(1)] f6(1)]
  have "shifts db db' (padd (atk ?s (- ?m)) (atk ?t ?m)) none0 (padd (atk ?s (- ?m)) (atk ?t ?m))
      (padd (atk ?s (- ?m)) (atk ?t ?m))"
    unfolding db'
    by (rule shifts_cong [OF all]) (auto simp: shift_apply correction_flow_def flow_signed_def assms(4))
  moreover have "same_rest db db'"
    unfolding db'
    using same_rest_trans [OF f1(2) same_rest_trans [OF f2(2) same_rest_trans [OF f3(2) same_rest_trans [OF f4(2)
          same_rest_trans [OF f5(2) f6(2)]]]]] .
  moreover have "\<exists>c \<in> set (db_batches db'). ba_id c = ba_id b"
  proof -
    have "?f b \<in> set (db_batches d5)"
      using s5 b4 by (auto simp: update_batch_def bindR_Inr_iff update_row_Inr_iff set_update_where)
    then show ?thesis by (intro bexI [of _ "?f b"]) (simp_all add: db' cleanupEmptyItem_def)
  qed
  ultimately show ?thesis using balancedI same_rest_requests by blast
qed

lemma correction_place_balanced:
  assumes "correction_place opr b row t spec wid db = Inr (wh, db')" and "tables_ok db"
    and "b \<in> set (db_batches db)" and "lk_id row = ba_itemId b"
  shows "balanced db db' \<and> (\<exists>c \<in> set (db_batches db'). ba_id c = ba_id b)"
proof (cases "spec \<noteq> ba_spec b \<or> wid \<noteq> lk_warehouseId row")
  case False
  then show ?thesis using assms by (auto simp: correction_place_def balanced_refl)
next
  case True
  obtain w t' d where tg: "(case t of Some t \<Rightarrow> Inr (t, db) | None \<Rightarrow> lockOrCreateItem
        \<lparr>ik_consumableId = ba_consumableId b, ik_spec = spec, ik_warehouseId = Some (wp_id w),
         ik_warehouseName = wp_name w, ik_warehousePath = wp_path w\<rparr> db) = Inr (t', d)"
    and mv: "correction_move opr b row t' spec w d = Inr db'"
    using assms(1) True by (auto simp: correction_place_def bindR_Inr_iff split: option.splits if_splits)
  have one: "shifts db d none0 none0 none0 none0 \<and> same_rest db d"
    using tg lockOrCreate_shifts(1,2) [OF _ assms(2)] shifts_refl [OF assms(2)]
    by (cases t'; cases t) auto
  have "db_batches d = db_batches db"
    using tg by (auto simp: lockOrCreateItem_def insertItem_Inr_iff split: option.splits sum.splits if_splits)
  then have two: "balanced d db' \<and> (\<exists>c \<in> set (db_batches db'). ba_id c = ba_id b)"
    using correction_move_balanced [OF mv shifts_tables_ok [OF one [THEN conjunct1]] _ assms(4)] assms(3) by simp
  have "balanced db d" using one by (intro balancedI [of _ _ none0]) (auto intro: same_rest_requests)
  then show ?thesis using two balanced_trans by blast
qed

lemma relabel_balanced:
  assumes "update_batch k f db = Inr db'" and "tables_ok db" and "\<exists>c \<in> set (db_batches db). ba_id c = k"
    and "\<And>r. ba_id (f r) = ba_id r" and "\<And>r. ba_remainingQty (f r) = ba_remainingQty r"
    and "\<And>r. ba_itemId (f r) = ba_itemId r"
  shows "balanced db db'"
proof -
  obtain c where c: "c \<in> set (db_batches db)" "ba_id c = k" using assms(3) by blast
  note s = update_batch_shifts [OF assms(1,2) c assms(4,5)]
  show ?thesis
    by (rule balancedI [of _ _ none0]) (use s assms(6) in \<open>auto intro: same_rest_requests\<close>)
qed

lemma insertCorrection_balanced:
  assumes "insertCorrection r db = Inr db'" and "tables_ok db"
  shows "balanced db db'"
  using assms
  by (auto simp: insertCorrection_def nextval_def same_requests_def intro!: balancedI [of _ _ none0] shifts_frame)

lemma correction_apply_balanced:
  assumes "correction_apply opr inp b row t db = Inr db'" and "tables_ok db"
    and "b \<in> set (db_batches db)" and "lk_id row = ba_itemId b"
  shows "balanced db db'"
proof -
  obtain spec wid wn wp d1 f d2 r where pl: "correction_place opr b row t spec wid db = Inr ((wn, wp), d1)"
    and up: "update_batch (ba_id b) f d1 = Inr d2"
    and f: "\<And>r. ba_id (f r) = ba_id r" "\<And>r. ba_remainingQty (f r) = ba_remainingQty r" "\<And>r. ba_itemId (f r) = ba_itemId r"
    and co: "insertCorrection r d2 = Inr db'"
  proof -
    note outer = that
    obtain sup br spec wid wn wp d1 sn bn un rm sid bid d2 r where
      a: "correction_place opr b row t spec wid db = Inr ((wn, wp), d1)"
      and c: "update_batch (ba_id b) (\<lambda>r. r\<lparr>ba_supplierId := sid, ba_supplierName := sn,
                       ba_brandId := bid, ba_brandName := bn, ba_unitPrice := un,
                       ba_remark := rm, ba_spec := spec, ba_warehouseName := wn,
                       ba_warehousePath := wp, ba_updatedBy := Some (fst opr)\<rparr>) d1 = Inr d2"
      and e: "insertCorrection r d2 = Inr db'"
      using assms(1) by (auto simp: correction_apply_def Let_def bindR_Inr_iff)
    show thesis by (rule outer [OF a c _ _ _ e]) simp_all
  qed
  note p = correction_place_balanced [OF pl assms(2-4)]
  have q: "balanced d1 d2"
    by (rule relabel_balanced [OF up balanced_tables [OF p [THEN conjunct1]] p [THEN conjunct2] f])
  show ?thesis
    using p q insertCorrection_balanced [OF co balanced_tables [OF q]] balanced_trans by blast
qed

lemma correct_balanced:
  assumes "correctBatch opr i inp db = Inr db'" and "tables_ok db"
  shows "balanced db db'"
proof -
  obtain b where b: "find (\<lambda>b. ba_id b = i) (db_batches db) = Some b"
    using assms(1) by (cases "find (\<lambda>b. ba_id b = i) (db_batches db)") (auto simp: correctBatch_def)
  have mem: "b \<in> set (db_batches db)" using b by (auto simp: find_Some_iff)
  obtain src where src: "find (\<lambda>i. it_id i = ba_itemId b) (db_items db) = Some src"
    using assms(1) b by (cases "find (\<lambda>i. it_id i = ba_itemId b) (db_items db)") (auto simp: correctBatch_def bindR_Inr_iff)
  obtain locked row t where "find_lock (ba_itemId b) locked = Some row" and ap: "correction_apply opr inp b row t db = Inr db'"
    using assms(1) unfolding correctBatch_def b src option.case Let_def
    by (auto simp: bindR_Inr_iff split: option.splits if_splits)
  then show ?thesis
    using correction_apply_balanced [OF ap assms(2) mem] find_lock_Some(1) by blast
qed

section \<open>Disposals\<close>

lemma insertDisposal_frame:
  assumes "insertDisposal r db = Inr (i, db')" and "tables_ok db"
  shows "balanced db db'"
  using assms
  by (auto simp: insertDisposal_def nextval_def Let_def bindR_Inr_iff insert_row_Inr_iff same_requests_def
      intro!: balancedI [of _ _ none0] shifts_frame)

lemma setFlowRefs_frame:
  assumes "setFlowRefs i ids db = Inr db'" and "tables_ok db"
  shows "balanced db db'"
  using assms
  by (auto simp: setFlowRefs_def bindR_Inr_iff same_requests_def intro!: balancedI [of _ _ none0] shifts_frame)

lemma dispose_record_balanced:
  assumes "dispose_record opr row item r db = Inr (i, db')" and "tables_ok db" and "0 \<le> dl_qty item"
  shows "balanced db db'"
proof -
  obtain d where d: "insertDisposal row db = Inr (i, d)"
    using assms(1) by (auto simp: dispose_record_def bindR_Inr_iff split: if_splits)
  have one: "balanced db d" by (rule insertDisposal_frame [OF d assms(2)])
  note ok = balanced_tables [OF one]
  show ?thesis
  proof (cases "dl_method item = settle_method.RETURN")
    case True
    obtain ids e where e: "restoreRecord r (dl_qty item) ''DIRECT_DISPOSAL'' i opr d = Inr (ids, e)"
      "setFlowRefs i ids e = Inr db'"
      using assms(1) d True by (auto simp: dispose_record_def bindR_Inr_iff)
    have "balanced d e" by (rule restore_balanced [OF e(1) ok assms(3)])
    then show ?thesis
      using one setFlowRefs_frame [OF e(2)] balanced_tables balanced_trans by blast
  next
    case False
    then have "writeOffRecord r (dl_qty item) d = Inr db'"
      using assms(1) d by (auto simp: dispose_record_def bindR_Inr_iff)
    then show ?thesis using one writeOff_balanced ok balanced_trans by blast
  qed
qed

text \<open>The loops carry the ids of the disposals beside the database.\<close>

lemma balanced_fold_pairs:
  assumes "foldR f xs (ids, db) = Inr (ids', db')" and "tables_ok db"
    and "\<And>x i d i' d'. x \<in> set xs \<Longrightarrow> tables_ok d \<Longrightarrow> f x (i, d) = Inr (i', d') \<Longrightarrow> balanced d d'"
  shows "balanced db db'"
  using assms
proof (induction xs arbitrary: ids db)
  case (Cons x xs)
  obtain i d where d: "f x (ids, db) = Inr (i, d)" "foldR f xs (i, d) = Inr (ids', db')"
    using Cons.prems(1) by (auto simp: bindR_Inr_iff)
  have one: "balanced db d" using Cons.prems(3) [OF _ Cons.prems(2) d(1)] by simp
  have "balanced d db'"
    by (rule Cons.IH [OF d(2) balanced_tables [OF one]]) (rule Cons.prems(3), auto)
  with one show ?case by (rule balanced_trans)
qed (simp add: balanced_refl)

lemma disposePersonal_balanced:
  assumes "disposePersonal opr scope cl dir items db = Inr (ids, db')" and "tables_ok db"
    and "\<And>l. l \<in> set items \<Longrightarrow> 0 \<le> dl_qty l"
  shows "balanced db db'"
proof -
  obtain locked where "foldR (disposePersonalLine opr scope cl dir locked) items ([], db) = Inr (ids, db')"
    using assms(1) by (auto simp: disposePersonal_def bindR_Inr_iff split: if_splits)
  then show ?thesis
    by (rule balanced_fold_pairs [OF _ assms(2)])
      (auto simp: disposePersonalLine_def bindR_Inr_iff split: option.splits intro: dispose_record_balanced assms(3))
qed

lemma disposeAgentSettle_balanced:
  assumes "disposeAgentSettle opr i items scope cl dir db = Inr (ids, db')" and "tables_ok db"
    and "\<And>l. l \<in> set items \<Longrightarrow> 0 \<le> dl_qty l"
  shows "balanced db db'"
proof -
  obtain locked where "foldR (disposeAgentLine opr i locked) items ([], db) = Inr (ids, db')"
    using assms(1) by (auto simp: disposeAgentSettle_def Let_def bindR_Inr_iff split: option.splits if_splits)
  then show ?thesis
    by (rule balanced_fold_pairs [OF _ assms(2)])
      (auto simp: disposeAgentLine_def bindR_Inr_iff split: option.splits intro: dispose_record_balanced assms(3))
qed

definition dispose_lines :: "dispose_input \<Rightarrow> dispose_line list" where
  "dispose_lines dto = (case dt_items dto of None \<Rightarrow> [] | Some ls \<Rightarrow> ls)
     @ (case dt_agentItems dto of None \<Rightarrow> [] | Some ls \<Rightarrow> ls)"

lemma dispose_balanced:
  assumes run: "dispose_run opr scope cl dir dto db = Inr (ids, db')" and "tables_ok db"
    and "\<And>l. l \<in> set (dispose_lines dto) \<Longrightarrow> 0 \<le> dl_qty l"
  shows "balanced db db'"
proof (cases "dt_agentSettle dto")
  case True
  obtain i items where "dt_agentItems dto = Some items" "disposeAgentSettle opr i items scope cl dir db = Inr (ids, db')"
    using run True by (auto simp: dispose_run_def split: option.splits list.splits)
  then show ?thesis
    using disposeAgentSettle_balanced [OF _ assms(2)] assms(3) by (simp add: dispose_lines_def)
next
  case False
  obtain items where "dt_items dto = Some items" "disposePersonal opr scope cl dir items db = Inr (ids, db')"
    using run False by (auto simp: dispose_run_def split: option.splits)
  then show ?thesis
    using disposePersonal_balanced [OF _ assms(2)] assms(3) by (simp add: dispose_lines_def)
qed

section \<open>Submissions of returns and settlements\<close>

lemma createActions_Inr:
  assumes "foldR (createAction i) ls db = Inr db'"
  shows "\<exists>n rs. db' = db\<lparr>db_seq := (db_seq db)(TActionItems := n), db_actionItems := db_actionItems db @ rs\<rparr>
    \<and> (\<forall>r \<in> set rs. ai_requestId r = i \<and> 0 < ai_qty r)
    \<and> (\<forall>k. demand ai_recordId ai_qty rs k = demand an_borrowRecordId an_qty ls k)"
  using assms
proof (induction ls arbitrary: db)
  case Nil
  show ?case by (intro exI [of _ "db_seq db TActionItems"] exI [of _ "[]"]) (use Nil in simp)
next
  case (Cons l ls)
  obtain d where d: "createAction i l db = Inr d" "foldR (createAction i) ls d = Inr db'"
    using Cons.prems by (auto simp: bindR_Inr_iff)
  obtain q where q: "d = db\<lparr>db_seq := (db_seq db)(TActionItems := db_seq db TActionItems + 1), db_actionItems := db_actionItems db @ [q]\<rparr>"
    "ai_requestId q = i" "ai_recordId q = an_borrowRecordId l" "ai_qty q = an_qty l" "0 < an_qty l"
    using d(1) by (auto simp: createAction_def insertActionItem_def nextval_def Let_def bindR_Inr_iff insert_row_Inr_iff)
  obtain n rs where ih: "db' = d\<lparr>db_seq := (db_seq d)(TActionItems := n), db_actionItems := db_actionItems d @ rs\<rparr>"
    "\<forall>r \<in> set rs. ai_requestId r = i \<and> 0 < ai_qty r"
    "\<forall>k. demand ai_recordId ai_qty rs k = demand an_borrowRecordId an_qty ls k"
    using Cons.IH [OF d(2)] by blast
  show ?case
    by (intro exI [of _ n] exI [of _ "q # rs"]) (use ih q in \<open>simp add: fun_upd_def cong: if_cong\<close>)
qed

lemma createSettlements_Inr:
  assumes "foldR (createSettlement i) ls db = Inr db'"
  shows "\<exists>n rs. db' = db\<lparr>db_seq := (db_seq db)(TSettlementItems := n), db_settlementItems := db_settlementItems db @ rs\<rparr>
    \<and> (\<forall>r \<in> set rs. si_requestId r = i \<and> 0 < si_qty r)
    \<and> (\<forall>k. demand si_recordId si_qty rs k = demand se_borrowRecordId se_qty ls k)"
  using assms
proof (induction ls arbitrary: db)
  case Nil
  show ?case by (intro exI [of _ "db_seq db TSettlementItems"] exI [of _ "[]"]) (use Nil in simp)
next
  case (Cons l ls)
  obtain d where d: "createSettlement i l db = Inr d" "foldR (createSettlement i) ls d = Inr db'"
    using Cons.prems by (auto simp: bindR_Inr_iff)
  obtain q where q: "d = db\<lparr>db_seq := (db_seq db)(TSettlementItems := db_seq db TSettlementItems + 1),
      db_settlementItems := db_settlementItems db @ [q]\<rparr>"
    "si_requestId q = i" "si_recordId q = se_borrowRecordId l" "si_qty q = se_qty l" "0 < se_qty l"
    using d(1) by (auto simp: createSettlement_def insertSettlementItem_def nextval_def Let_def bindR_Inr_iff insert_row_Inr_iff)
  obtain n rs where ih: "db' = d\<lparr>db_seq := (db_seq d)(TSettlementItems := n), db_settlementItems := db_settlementItems d @ rs\<rparr>"
    "\<forall>r \<in> set rs. si_requestId r = i \<and> 0 < si_qty r"
    "\<forall>k. demand si_recordId si_qty rs k = demand se_borrowRecordId se_qty ls k"
    using Cons.IH [OF d(2)] by blast
  show ?case
    by (intro exI [of _ n] exI [of _ "q # rs"]) (use ih q in \<open>simp add: fun_upd_def cong: if_cong\<close>)
qed

lemma submitBorrowAction_submits:
  assumes "submitBorrowAction opr deps ty items now suffix db = Inr ((i, no), db')" and ok: "tables_ok db"
    and ty: "ty \<in> {''RETURN'', ''WRITE_OFF''}"
  shows "submits db db' i (fst opr) none0"
proof -
  obtain lines db1 where head: "createRequestHead now suffix
        \<lparr>rq_requestType = ty, rq_applicantId = fst opr, rq_applicantName = snd opr,
         rq_departmentSnapshot = deps, rq_refRequestId = None, rq_proxyId = None, rq_proxyName = None,
         rq_remark = None\<rparr> db = Inr ((i, no), db1)"
    and lin: "foldR (createAction i) lines db1 = Inr db'"
    using assms(1) by (auto simp: submitBorrowAction_def bindR_Inr_iff split: if_splits)
  obtain m qs where qs: "db' = db1\<lparr>db_seq := (db_seq db1)(TActionItems := m), db_actionItems := qs\<rparr>"
    using createActions_Inr [OF lin] by blast
  show ?thesis
    by (rule other_submits [OF head ok, simplified]) (use ty in \<open>auto simp: qs request_types\<close>)
qed

lemma settlementSubmit_submits:
  assumes "settlementSubmit opr deps ref items now suffix db = Inr ((i, no), db')" and ok: "tables_ok db"
  shows "submits db db' i (fst opr) none0"
proof -
  obtain db1 where head: "createRequestHead now suffix
        \<lparr>rq_requestType = ''AGENT_SETTLEMENT'', rq_applicantId = fst opr, rq_applicantName = snd opr,
         rq_departmentSnapshot = deps, rq_refRequestId = Some ref, rq_proxyId = None, rq_proxyName = None,
         rq_remark = None\<rparr> db = Inr ((i, no), db1)"
    and lin: "foldR (createSettlement i) items db1 = Inr db'"
    using assms(1) by (auto simp: settlementSubmit_def bindR_Inr_iff split: option.splits if_splits)
  obtain m qs where qs: "db' = db1\<lparr>db_seq := (db_seq db1)(TSettlementItems := m), db_settlementItems := qs\<rparr>"
    using createSettlements_Inr [OF lin] by blast
  show ?thesis
    by (rule other_submits [OF head ok, simplified]) (auto simp: qs request_types)
qed

end
