(* ===== verification/TimeoutRelease.thy ===== *)
theory TimeoutRelease
  imports Submissions
begin

text \<open>
  What the nightly scan does in the asset schema (\<open>apps/worker/src/processors\<close>): the hook that
  releases reservations and quotas of a request cancelled for its age, and the setting it reads.
\<close>

record release_stats =
  rs_inventoryItems :: nat
  rs_quotaOccupations :: nat
  rs_skipped :: nat

text \<open>
  \<open>UPDATE inventory_items ... FROM (SELECT ... SUM(qty) ... GROUP BY inventory_item_id)\<close>: every item
  with lines of the request loses what they sum up to, unless a row breaks a constraint.
\<close>

definition line_sums :: "('l \<Rightarrow> int) \<Rightarrow> ('l \<Rightarrow> int) \<Rightarrow> 'l list \<Rightarrow> int \<Rightarrow> int option" where
  "line_sums item qty ls k =
     (if \<exists>l \<in> set ls. item l = k then Some (sum_where (\<lambda>l. item l = k) qty ls) else None)"

definition release_update :: "(int \<Rightarrow> int option) \<Rightarrow> asset_db \<Rightarrow> err + (nat \<times> asset_db)" where
  "release_update amount db =
     (let hit = (\<lambda>i. amount (it_id i) \<noteq> None);
          upd = (\<lambda>i. item_add 0 (- the (amount (it_id i))) i)
      in bindR (sql_update item_ok hit upd (db_items db))
           (\<lambda>is. Inr (count_where hit (db_items db), db\<lparr>db_items := is\<rparr>)))"

definition quota_update :: "int \<Rightarrow> asset_db \<Rightarrow> nat \<times> asset_db" where
  "quota_update requestId db =
     (let hit = (\<lambda>q. qo_requestId q = requestId \<and> qo_status q = RESERVED)
      in (count_where hit (db_quotas db),
          db\<lparr>db_quotas := update_where hit (\<lambda>q. q\<lparr>qo_status := RELEASED\<rparr>) (db_quotas db)\<rparr>))"

definition onAutoCancel ::
    "overdue_row \<Rightarrow> int \<Rightarrow> release_stats \<Rightarrow> asset_db \<Rightarrow> (err + release_stats) \<times> asset_db" where
  "onAutoCancel row now stats db =
     (if or_requestType row = ''STOCK_CHANGE'' then
        (case release_update (line_sums ch_itemId ch_qty
               (filter (\<lambda>c. ch_requestId c = or_id row) (db_changeItems db))) db of
           Inl e \<Rightarrow> (Inl e, db)
         | Inr (n, db1) \<Rightarrow> (Inr (stats\<lparr>rs_inventoryItems := rs_inventoryItems stats + n\<rparr>), db1))
      else if or_requestType row = ''CONSUMABLE_REQUEST'' \<or> or_requestType row = ''AGENT_REQUEST'' then
        (case release_update (line_sums ri_itemId ri_qty
               (filter (\<lambda>r. ri_requestId r = or_id row) (db_requestItems db))) db of
           Inl e \<Rightarrow> (Inl e, db)
         | Inr (n, db1) \<Rightarrow>
             let stats1 = stats\<lparr>rs_inventoryItems := rs_inventoryItems stats + n\<rparr> in
             if or_requestType row = ''CONSUMABLE_REQUEST'' then
               (let (m, db2) = quota_update (or_id row) db1
                in (Inr (stats1\<lparr>rs_quotaOccupations := rs_quotaOccupations stats1 + m\<rparr>), db2))
             else (Inr stats1, db1))
      else (Inr (stats\<lparr>rs_skipped := rs_skipped stats + 1\<rparr>), db))"

text \<open>The hook as the scan sees it; the counters only feed a log line.\<close>

definition asset_hook :: "overdue_row \<Rightarrow> int \<Rightarrow> asset_db \<Rightarrow> (err + unit) \<times> asset_db" where
  "asset_hook row now db =
     (case onAutoCancel row now \<lparr>rs_inventoryItems = 0, rs_quotaOccupations = 0, rs_skipped = 0\<rparr> db of
        (Inl e, db') \<Rightarrow> (Inl e, db')
      | (Inr stats, db') \<Rightarrow> (Inr (), db'))"

interpretation asset_release: release_hook asset_hook
proof
  show "sd_heads db' = sd_heads db \<and> sd_acts db' = sd_acts db" if "asset_hook r now db = (res, db')" for r now db res db'
    using that
    by (auto simp: asset_hook_def onAutoCancel_def release_update_def quota_update_def Let_def bindR_def
        split: if_splits sum.splits prod.splits)
qed

definition DEFAULT_APPROVAL_TIMEOUT_DAYS :: int where
  "DEFAULT_APPROVAL_TIMEOUT_DAYS = 30"

text \<open>\<open>parsed\<close> is \<open>Number\<close> of the setting, \<open>None\<close> when that is not finite.\<close>

definition readTimeoutDays :: "rat option \<Rightarrow> int" where
  "readTimeoutDays parsed =
     (case parsed of
        Some d \<Rightarrow> if 1 \<le> d \<and> d \<le> 365 then \<lfloor>d\<rfloor> else DEFAULT_APPROVAL_TIMEOUT_DAYS
      | None \<Rightarrow> DEFAULT_APPROVAL_TIMEOUT_DAYS)"

text \<open>
  The scan runs with the client of the worker, which implements \<open>transaction\<close>; only the asset
  schema has a hook. Of the other two schemas the approval tables alone play a part.
\<close>

definition scan_hooks :: "approval_schema \<Rightarrow> overdue_row \<Rightarrow> int \<Rightarrow> asset_db \<Rightarrow> (err + unit) \<times> asset_db" where
  "scan_hooks s = (if s = Asset then asset_hook else no_hook)"

definition processApprovalTimeoutScan ::
    "rat option \<Rightarrow> int \<Rightarrow> (approval_schema \<Rightarrow> asset_db)
      \<Rightarrow> (err + (approval_schema \<Rightarrow> nat)) \<times> (approval_schema \<Rightarrow> asset_db)" where
  "processApprovalTimeoutScan parsed now st =
     scanAndAutoCancelOverdue True scan_hooks (Some (of_int (readTimeoutDays parsed))) now st"

section \<open>The hook releases what a cancellation releases\<close>

definition lowered :: "(int \<Rightarrow> int) \<Rightarrow> asset_db \<Rightarrow> asset_db" where
  "lowered part db = db\<lparr>db_items := map (\<lambda>i. item_add 0 (- part (it_id i)) i) (db_items db)\<rparr>"

lemma item_add_simps: "item_add 0 0 i = i" "item_add a b (item_add c d i) = item_add (c + a) (d + b) i"
  "it_id (item_add a b i) = it_id i"
  by (simp_all add: item_add_def)

lemma lowered_none: "lowered (\<lambda>k. 0) db = db"
  by (simp add: lowered_def item_add_simps)

lemma lowered_add: "lowered f (lowered g db) = lowered (\<lambda>k. g k + f k) db"
  by (simp add: lowered_def item_add_simps comp_def algebra_simps)

lemma releaseReserved_lowered:
  assumes ok: "tables_ok db" and q: "0 < q" "q \<le> reserved db k"
  shows "releaseReserved k q db = Inr (lowered (\<lambda>j. if j = k then q else 0) db)"
proof -
  have row: "it_reservedQty i = reserved db k" if "i \<in> set (db_items db)" "it_id i = k" for i
    using book_row(2) [OF ok that(1)] that(2) by simp
  obtain db' where db': "releaseReserved k q db = Inr db'" using releaseReserved_total [OF ok q] by blast
  have "update_where (\<lambda>i. it_id i = k \<and> q \<le> it_reservedQty i) (item_add 0 (- q)) (db_items db)
    = map (\<lambda>i. item_add 0 (- (if it_id i = k then q else 0)) i) (db_items db)"
    unfolding update_where_def using row q(2) by (intro map_cong) (auto simp: item_add_simps)
  then show ?thesis
    using db' by (auto simp: releaseReserved_def sql_update_def lowered_def bindR_def split: if_splits)
qed

lemma release_lines_lowered:
  assumes "distinct (map item ls)" and "\<And>l. l \<in> set ls \<Longrightarrow> 0 < qty l \<and> qty l \<le> reserved db (item l)"
    and "tables_ok db"
  shows "foldR (\<lambda>l. releaseReserved (item l) (qty l)) ls db = Inr (lowered (demand item qty ls) db)"
  using assms
proof (induction ls arbitrary: db)
  case Nil
  have "demand item qty [] = (\<lambda>k. 0)" by (rule ext) simp
  then show ?case by (simp add: lowered_none)
next
  case (Cons l ls)
  let ?d = "lowered (\<lambda>j. if j = item l then qty l else 0) db"
  have q: "0 < qty l" "qty l \<le> reserved db (item l)" using Cons.prems(2) [of l] by simp_all
  have d: "releaseReserved (item l) (qty l) db = Inr ?d"
    by (rule releaseReserved_lowered [OF Cons.prems(3) q])
  have s: "shifts db ?d none0 (atk (item l) (- qty l)) none0 none0"
    using releaseReserved_total [OF Cons.prems(3) q] d by auto
  have ne: "item m \<noteq> item l" if "m \<in> set ls" for m using Cons.prems(1) that by (simp, metis imageI)
  have same: "reserved ?d k = reserved db k" if "k \<noteq> item l" for k
    using s that by (simp add: shifts_def padd_apply atk_apply)
  have "foldR (\<lambda>l. releaseReserved (item l) (qty l)) ls ?d = Inr (lowered (demand item qty ls) ?d)"
    using Cons.prems(1,2) same ne shifts_tables_ok [OF s] by (intro Cons.IH) auto
  moreover have "(\<lambda>k. (if k = item l then qty l else 0) + demand item qty ls k) = demand item qty (l # ls)"
    by (rule ext) simp
  ultimately show ?case using d by (simp add: lowered_add del: demand_simps)
qed

lemma release_update_lowered:
  assumes "tables_ok (lowered part db)" and "\<And>k. amount k = None \<Longrightarrow> part k = 0"
    and "\<And>k q. amount k = Some q \<Longrightarrow> part k = q"
  shows "release_update amount db = Inr (count_where (\<lambda>i. amount (it_id i) \<noteq> None) (db_items db), lowered part db)"
proof -
  have new: "item_ok (item_add 0 (- part (it_id i)) i)" if "i \<in> set (db_items db)" for i
    using tables_okD(3) [OF assms(1)] that by (auto simp: lowered_def)
  have part: "part k = (case amount k of None \<Rightarrow> 0 | Some q \<Rightarrow> q)" for k
    using assms(2,3) by (auto split: option.splits)
  have upd: "update_where (\<lambda>i. amount (it_id i) \<noteq> None) (\<lambda>i. item_add 0 (- the (amount (it_id i))) i) (db_items db)
    = map (\<lambda>i. item_add 0 (- part (it_id i)) i) (db_items db)"
    unfolding update_where_def by (intro map_cong) (auto simp: part item_add_simps)
  have nb: "\<not> (\<exists>i \<in> set (db_items db). amount (it_id i) \<noteq> None \<and> \<not> item_ok (item_add 0 (- the (amount (it_id i))) i))"
    using new by (force simp: part)
  show ?thesis
    unfolding release_update_def sql_update_def Let_def if_not_P [OF nb] upd lowered_def by simp
qed

lemma line_sums_demand:
  assumes "mset ls' = mset ls"
  shows "line_sums item qty ls' k = None \<Longrightarrow> demand item qty ls k = 0"
    and "line_sums item qty ls' k = Some q \<Longrightarrow> demand item qty ls k = q"
proof -
  have set: "set ls' = set ls" using assms by (rule mset_eq_setD)
  have "sum_where (\<lambda>l. item l = k) qty ls' = demand item qty ls' k" by (induction ls') auto
  also have "\<dots> = demand item qty ls k"
  proof -
    let ?f = "\<lambda>l. if item l = k then qty l else 0"
    have "mset (map ?f ls') = mset (map ?f ls)" using assms by simp
    then show ?thesis unfolding demand_def by (metis sum_mset_sum_list)
  qed
  finally have eq: "sum_where (\<lambda>l. item l = k) qty ls' = demand item qty ls k" .
  show "line_sums item qty ls' k = Some q \<Longrightarrow> demand item qty ls k = q"
    by (auto simp: line_sums_def eq split: if_splits)
  have "\<not> (\<exists>l \<in> set ls. item l = k) \<Longrightarrow> demand item qty ls k = 0"
    by (induction ls) auto
  then show "line_sums item qty ls' k = None \<Longrightarrow> demand item qty ls k = 0"
    by (auto simp: line_sums_def set split: if_splits)
qed

text \<open>The update of the hook and the loop of a cancellation leave the same items.\<close>

lemma hook_release_eq:
  assumes "distinct (map item ls)" and "\<And>l. l \<in> set ls \<Longrightarrow> 0 < qty l \<and> qty l \<le> reserved db (item l)"
    and "tables_ok db" and "links_ok db" and "mset ls' = mset ls"
  shows "\<exists>n d. release_update (line_sums item qty ls') db = Inr (n, d)
    \<and> foldR (\<lambda>l. releaseReserved (item l) (qty l)) ls db = Inr d"
proof -
  obtain d where d: "foldR (\<lambda>l. releaseReserved (item l) (qty l)) ls db = Inr d"
    "shifts db d none0 (\<lambda>k. - demand item qty ls k) none0 none0"
    using release_lines_total [OF assms(1-4)] by blast
  have dl: "d = lowered (demand item qty ls) db"
    using release_lines_lowered [OF assms(1-3)] d(1) by simp
  have "tables_ok (lowered (demand item qty ls) db)" using shifts_tables_ok [OF d(2)] dl by simp
  from release_update_lowered [OF this line_sums_demand [OF assms(5)]]
  show ?thesis using d(1) dl by blast
qed

end
