(* ===== verification/Handlers.thy ===== *)
theory Handlers
  imports Movements TimeoutRelease
begin

text \<open>
  What the statements of the handlers keep, the handlers keep: the interface of an invariant of the
  database, and every operation of the services inside it.
\<close>

section \<open>Results that keep an invariant\<close>

definition keepsD :: "('s \<Rightarrow> bool) \<Rightarrow> 'e + 's \<Rightarrow> bool" where
  "keepsD P m \<longleftrightarrow> (\<forall>d. m = Inr d \<longrightarrow> P d)"

definition keepsP :: "('s \<Rightarrow> bool) \<Rightarrow> 'e + ('x \<times> 's) \<Rightarrow> bool" where
  "keepsP P m \<longleftrightarrow> (\<forall>x d. m = Inr (x, d) \<longrightarrow> P d)"

lemma keeps_simps [simp]:
  "keepsD P (Inr d) = P d" "keepsD P (Inl e)" "keepsP P (Inr (x, d)) = P d" "keepsP P (Inl e)"
  by (simp_all add: keepsD_def keepsP_def)

lemma keepsD_I: "(\<And>d. m = Inr d \<Longrightarrow> P d) \<Longrightarrow> keepsD P m"
  by (simp add: keepsD_def)

lemma keepsP_I: "(\<And>x d. m = Inr (x, d) \<Longrightarrow> P d) \<Longrightarrow> keepsP P m"
  by (simp add: keepsP_def)

lemma keepsD_D: "keepsD P m \<Longrightarrow> m = Inr d \<Longrightarrow> P d"
  by (simp add: keepsD_def)

lemma keepsP_D: "keepsP P m \<Longrightarrow> m = Inr (x, d) \<Longrightarrow> P d"
  by (simp add: keepsP_def)

lemma keeps_bind:
  "keepsD P m \<Longrightarrow> (\<And>d. P d \<Longrightarrow> keepsD P (f d)) \<Longrightarrow> keepsD P (bindR m f)"
  "keepsP P n \<Longrightarrow> (\<And>x d. P d \<Longrightarrow> keepsD P (g (x, d))) \<Longrightarrow> keepsD P (bindR n g)"
  "keepsD P m \<Longrightarrow> (\<And>d. P d \<Longrightarrow> keepsP P (h d)) \<Longrightarrow> keepsP P (bindR m h)"
  "keepsP P n \<Longrightarrow> (\<And>x d. P d \<Longrightarrow> keepsP P (k (x, d))) \<Longrightarrow> keepsP P (bindR n k)"
  by (auto simp: keepsD_def keepsP_def bindR_Inr_iff)

lemma keeps_bind_any:
  "(\<And>x. keepsD P (f x)) \<Longrightarrow> keepsD P (bindR m f)" "(\<And>x. keepsP P (g x)) \<Longrightarrow> keepsP P (bindR m g)"
  by (auto simp: keepsD_def keepsP_def bindR_Inr_iff)

lemma keeps_foldR: "P s \<Longrightarrow> (\<And>x d. P d \<Longrightarrow> keepsD P (f x d)) \<Longrightarrow> keepsD P (foldR f xs s)"
  by (induction xs arbitrary: s) (auto intro!: keeps_bind)

lemma keeps_foldR_pairs:
  "P (snd s) \<Longrightarrow> (\<And>x a. P (snd a) \<Longrightarrow> keepsP P (f x a)) \<Longrightarrow> keepsP P (foldR f xs s)"
  by (induction xs arbitrary: s) (auto intro!: keeps_bind)

text \<open>A binding of something that is not a state.\<close>

lemmas keeps_any =
  keeps_bind_any(1) [where m = "m :: err + unit" for m]
  keeps_bind_any(2) [where m = "m :: err + unit" for m]
  keeps_bind_any(1) [where m = "m :: err + (claim_line list)" for m]
  keeps_bind_any(2) [where m = "m :: err + (claim_line list)" for m]
  keeps_bind_any(1) [where m = "m :: err + (claim_line list \<times> quota_check list)" for m]
  keeps_bind_any(2) [where m = "m :: err + (claim_line list \<times> quota_check list)" for m]
  keeps_bind_any(1) [where m = "m :: err + (recipient list)" for m]
  keeps_bind_any(2) [where m = "m :: err + (recipient list)" for m]
  keeps_bind_any(1) [where m = "m :: err + (stock_in_item list)" for m]
  keeps_bind_any(2) [where m = "m :: err + (stock_in_item list)" for m]
  keeps_bind_any(1) [where m = "m :: err + (change_item list)" for m]
  keeps_bind_any(2) [where m = "m :: err + (change_item list)" for m]
  keeps_bind_any(1) [where m = "m :: err + (action_line list)" for m]
  keeps_bind_any(2) [where m = "m :: err + (action_line list)" for m]
  keeps_bind_any(1) [where m = "m :: err + (borrow_row list)" for m]
  keeps_bind_any(2) [where m = "m :: err + (borrow_row list)" for m]
  keeps_bind_any(1) [where m = "m :: err + ((int \<times> string) option)" for m]
  keeps_bind_any(2) [where m = "m :: err + ((int \<times> string) option)" for m]
  keeps_bind_any(1) [where m = "m :: err + resolved_transition" for m]
  keeps_bind_any(2) [where m = "m :: err + resolved_transition" for m]

lemmas keeps_rules = keeps_bind keeps_any keeps_foldR keeps_foldR_pairs

section \<open>Invariants that the statements keep\<close>

text \<open>
  The interface: the invariant does not depend on the quantities of stock, and each statement that
  writes something else keeps it. A request head only ever leaves the pending state.
\<close>

definition leaving :: "(approval_request \<Rightarrow> approval_request) \<Rightarrow> bool" where
  "leaving f \<longleftrightarrow> (\<forall>g. ah_id (f g) = ah_id g \<and> ah_status (f g) \<noteq> PENDING \<and> ah_requestType (f g) = ah_requestType g
     \<and> ar_applicationNo (f g) = ar_applicationNo g \<and> ar_refRequestId (f g) = ar_refRequestId g)"

locale statement_inv =
  fixes P :: "asset_db \<Rightarrow> bool"
  assumes addItem: "P d \<Longrightarrow> addItem k a b d = Inr d' \<Longrightarrow> P d'"
    and releaseReserved: "P d \<Longrightarrow> releaseReserved k q d = Inr d' \<Longrightarrow> P d'"
    and insertItem: "P d \<Longrightarrow> insertItem i d = Inr (k, d') \<Longrightarrow> P d'"
    and cleanup: "P d \<Longrightarrow> P (cleanupEmptyItem k d)"
    and batches: "P d \<Longrightarrow> P (d\<lparr>db_seq := (db_seq d)(TBatches := n), db_batches := bs\<rparr>)"
    and flows: "P d \<Longrightarrow> P (d\<lparr>db_seq := (db_seq d)(TFlows := n), db_flows := fs\<rparr>)"
    and openBorrow: "P d \<Longrightarrow> openBorrow br allocs d = Inr d' \<Longrightarrow> P d'"
    and addAlloc: "P d \<Longrightarrow> addAlloc k q d = Inr d' \<Longrightarrow> P d'"
    and addBorrow: "P d \<Longrightarrow> addBorrow k a b d = Inr d' \<Longrightarrow> P d'"
    and head: "P d \<Longrightarrow> createRequestHead now suffix input d = Inr (res, d') \<Longrightarrow> P d'"
    and transition: "P d \<Longrightarrow> leaving f \<Longrightarrow> transition_head j v f d = Inr d' \<Longrightarrow> P d'"
    and actionItem: "P d \<Longrightarrow> insertActionItem ai d = Inr d' \<Longrightarrow> P d'"
    and settlementItem: "P d \<Longrightarrow> insertSettlementItem si d = Inr d' \<Longrightarrow> P d'"
    and requestItem: "P d \<Longrightarrow> insertRequestItem ri d = Inr d' \<Longrightarrow> P d'"
    and changeItem: "P d \<Longrightarrow> insertChangeItem ch d = Inr d' \<Longrightarrow> P d'"
    and stockInItem: "P d \<Longrightarrow> insertStockInItem sn d = Inr d' \<Longrightarrow> P d'"
    and recipients: "P d \<Longrightarrow> insertRecipient rc d = Inr d' \<Longrightarrow> P d'"
    and quotas: "P d \<Longrightarrow> P (d\<lparr>db_seq := (db_seq d)(TQuotas := n), db_quotas := qs\<rparr>)"
    and actions: "P d \<Longrightarrow> P (add_action act d)"
    and transfers: "P d \<Longrightarrow> P (d\<lparr>db_seq := (db_seq d)(TTransfers := n), db_transfers := ts\<rparr>)"
    and transferItems: "P d \<Longrightarrow> P (d\<lparr>db_seq := (db_seq d)(TTransferItems := n), db_transferItems := tis\<rparr>)"
    and disposals: "P d \<Longrightarrow> P (d\<lparr>db_seq := (db_seq d)(TDisposals := n), db_disposals := ds\<rparr>)"
    and corrections: "P d \<Longrightarrow> P (d\<lparr>db_seq := (db_seq d)(TCorrections := n), db_corrections := cs\<rparr>)"
begin

lemma same_seq: "(db_seq d)(t := db_seq d t) = db_seq d"
  by simp

lemma batches0: "P d \<Longrightarrow> P (d\<lparr>db_batches := bs\<rparr>)"
  using batches [of d bs "db_seq d TBatches"] by simp

lemma quotas0: "P d \<Longrightarrow> P (d\<lparr>db_quotas := qs\<rparr>)"
  using quotas [of d qs "db_seq d TQuotas"] by simp

lemma disposals0: "P d \<Longrightarrow> P (d\<lparr>db_disposals := ds\<rparr>)"
  using disposals [of d ds "db_seq d TDisposals"] by simp

lemma statements:
  assumes "P d"
  shows "keepsD P (addItem k a b d)" "keepsD P (releaseReserved k q d)" "keepsP P (insertItem i d)"
    "keepsD P (openBorrow br allocs d)" "keepsD P (addAlloc k q d)" "keepsD P (addBorrow k a b d)"
    "keepsP P (createRequestHead now suffix input d)"
    "keepsD P (insertActionItem ai d)" "keepsD P (insertSettlementItem si d)"
    "keepsD P (insertRequestItem ri d)" "keepsD P (insertChangeItem ch d)" "keepsD P (insertStockInItem sn d)"
    "keepsD P (insertRecipient rc d)"
  by (rule keepsD_I keepsP_I, erule addItem [OF assms] releaseReserved [OF assms] insertItem [OF assms] openBorrow [OF assms] addAlloc [OF assms] addBorrow [OF assms]
      head [OF assms] actionItem [OF assms] settlementItem [OF assms] requestItem [OF assms] changeItem [OF assms] stockInItem [OF assms] recipients [OF assms])+

lemma table_statements:
  assumes "P d"
  shows "keepsP P (insertFlow fl d)" "keepsP P (insertBatch b d)" "keepsD P (takeBatch k q d)"
    "keepsD P (addBatch k q d)" "keepsD P (update_batch k f d)" "keepsD P (insertQuota qo d)"
    "keepsP P (insertTransfer t d)" "keepsD P (insertTransferItem ti d)" "keepsP P (insertDisposal dp d)"
    "keepsD P (setFlowRefs k ids d)" "keepsD P (insertCorrection cr d)" "P (setQuotas k s d)"
  using assms
  by (auto simp: insertFlow_def insertBatch_def takeBatch_def addBatch_def update_batch_def insertQuota_def
      insertTransfer_def insertTransferItem_def insertDisposal_def setFlowRefs_def insertCorrection_def
      setQuotas_def nextval_def Let_def keepsD_def keepsP_def bindR_Inr_iff
      intro!: batches flows quotas transfers transferItems disposals corrections
      intro: batches0 quotas0 disposals0)

lemmas keeps = statements table_statements cleanup actions keeps_rules


subsection \<open>Stock\<close>

lemma flow: "P d \<Longrightarrow> keepsP P (writeStockFlow f d)"
  by (simp add: writeStockFlow_def keeps)

lemma fifoLoop: "P d \<Longrightarrow> fifo_loop rows q acc d = Inr (as, r, d') \<Longrightarrow> P d'"
proof (induction rows arbitrary: q acc d)
  case (Cons row rows)
  then show ?case
    by (auto simp: Let_def bindR_Inr_iff split: if_splits
        dest!: keepsD_D [OF table_statements(3) [OF Cons.prems(1)]] intro: Cons.IH)
qed simp

lemma fifo: "P d \<Longrightarrow> keepsP P (allocateFifoBatches k q d)"
  using fifoLoop [of d] by (auto simp: allocateFifoBatches_def keepsP_def bindR_Inr_iff split: if_splits)

lemma issueFlows: "P d \<Longrightarrow> keepsD P (issueFlows ty rt ri opr row as b d)"
  by (induction as arbitrary: b d) (auto simp: Let_def intro!: keeps flow)

lemma issueLine: "P d \<Longrightarrow> keepsP P (issueLine ty rt ri opr row k q d)"
  by (auto simp: issueLine_def intro!: keeps fifo issueFlows)

lemma createItem: "P d \<Longrightarrow> keepsP P (lockOrCreateItem k d)"
  using insertItem [of d] by (auto simp: lockOrCreateItem_def keepsP_def split: option.splits sum.splits)

lemma openReusable: "P d \<Longrightarrow> keepsD P (openIfReusable mk c as d)"
  by (auto simp: openIfReusable_def intro!: keeps split: option.splits)

lemma restoreStep: "P d \<Longrightarrow> keepsP P (restore_step row rt ri opr a q b d)"
  by (auto simp: restore_step_def intro!: keeps flow)

lemma restoreLoop: "P d \<Longrightarrow> restore_loop row rt ri opr xs q b ids d = Inr (r, fs, d') \<Longrightarrow> P d'"
proof (induction xs arbitrary: q b ids d)
  case (Cons x xs)
  then show ?case
    by (auto simp: Let_def bindR_Inr_iff split: if_splits
        dest!: keepsP_D [OF restoreStep [OF Cons.prems(1)]] intro: Cons.IH)
qed simp

lemma restore: "P d \<Longrightarrow> keepsP P (restoreRecord r q rt ri opr d)"
proof (rule keepsP_I)
  fix ids d' assume "P d" and "restoreRecord r q rt ri opr d = Inr (ids, d')"
  then obtain row rows rem fs d1 where "restore_loop row rt ri opr rows q (lk_bookQty row) [] d = Inr (rem, fs, d1)"
    "addBorrow (br_id r) q 0 d1 = Inr d'"
    by (auto simp: restoreRecord_def Let_def bindR_Inr_iff split: if_splits option.splits)
  then show "P d'" using restoreLoop [OF \<open>P d\<close>] addBorrow by blast
qed

lemma writeOff: "P d \<Longrightarrow> keepsD P (writeOffRecord r q d)"
  by (simp add: writeOffRecord_def keeps)

subsection \<open>Approval\<close>

lemmas kernel = flow fifo issueFlows issueLine createItem openReusable restore writeOff

lemma claimLine: "P d \<Longrightarrow> keepsD P (claimApplyLine now h p locked l d)"
  by (auto simp: claimApplyLine_def intro!: keeps kernel split: option.splits)

lemma agentLine: "P d \<Longrightarrow> keepsD P (agentApplyLine jsort now h p locked l d)"
  by (auto simp: agentApplyLine_def intro!: keeps kernel split: option.splits)

lemma changeLine: "P d \<Longrightarrow> keepsD P (changeApplyLine h locked l d)"
  by (auto simp: changeApplyLine_def intro!: keeps kernel split: option.splits)

lemma stockInLine: "P d \<Longrightarrow> keepsD P (stockInApplyLine h p existing locked l d)"
  by (auto simp: stockInApplyLine_def stockInItemOf_def intro!: keeps kernel split: option.splits)

lemma returnLine: "P d \<Longrightarrow> keepsD P (returnApplyLine h l d)"
  by (auto simp: returnApplyLine_def intro!: keeps kernel split: option.splits)

lemma writeOffLine: "P d \<Longrightarrow> keepsD P (writeOffApplyLine l d)"
  by (auto simp: writeOffApplyLine_def intro!: keeps kernel split: option.splits)

lemma settlementLine: "P d \<Longrightarrow> keepsD P (settleLine rt ri opr locked l d)"
  by (auto simp: settleLine_def intro!: keeps kernel split: option.splits)

lemmas lines = claimLine agentLine changeLine stockInLine returnLine writeOffLine settlementLine

lemma approve: "P d \<Longrightarrow> keepsD P (applyApprove jsort now h p d)"
  by (auto simp: applyApprove_def claimApplyApproved_def agentApplyApproved_def changeApplyApproved_def
      stockInApplyApproved_def applyReturnApproved_def applyWriteOffApproved_def settlementApplyApproved_def Let_def
      intro!: keeps lines)

lemma release: "P d \<Longrightarrow> keepsD P (applyRelease h d)"
  by (auto simp: applyRelease_def claimApplyRelease_def agentApplyRelease_def changeApplyRelease_def releaseLines_def
      intro!: keeps)

lemma leaving_simps [simp]:
  "s \<noteq> PENDING \<Longrightarrow> leaving (decided s p n t o')" "leaving (cancelled_by a t)"
  by (simp_all add: leaving_def decided_def cancelled_by_def)

lemma processing: "P d \<Longrightarrow> keepsP P (process_run jsort dir now i action p op d)"
proof (rule keepsP_I)
  fix out d' assume d: "P d" and run: "process_run jsort dir now i action p op d = Inr (out, d')"
  obtain t h d1 d2 a where t: "resolveProcessTransition action None = Inr t"
    and tr: "transition_head i (ah_version h) (decided (rt_status t) p (loadUserName p dir) now op) d = Inr d1"
    and eff: "side_effect jsort now action (side_of h (Some p) (Some (loadUserName p dir))) p d1 = Inr d2"
    and d': "d' = add_action a d2"
    using run by (auto simp: process_run_def processInner_def Let_def bindR_Inr_iff split: option.splits if_splits)
  have "rt_status t \<noteq> PENDING" using resolveProcessTransition_terminal [OF t] terminal_not_pending by blast
  then have "P d1" using transition [OF d _ tr] by simp
  then have "P d2"
    using eff by (auto simp: side_effect_def dest: keepsD_D [OF approve] keepsD_D [OF release] split: if_splits)
  then show "P d'" unfolding d' by (rule actions)
qed

lemma cancelling: "P d \<Longrightarrow> keepsP P (cancel_run dir now i a d)"
proof (rule keepsP_I)
  fix out d' assume d: "P d" and run: "cancel_run dir now i a d = Inr (out, d')"
  obtain h d1 d2 x where tr: "transition_head i (ah_version h) (cancelled_by a now) d = Inr d1"
    and eff: "applyRelease (side_of h None None) d1 = Inr d2" and d': "d' = add_action x d2"
    using run by (auto simp: cancel_run_def cancelInner_def Let_def bindR_Inr_iff split: option.splits if_splits)
  have "P d1" using transition [OF d _ tr] by simp
  then have "P d2" by (rule keepsD_D [OF release eff])
  then show "P d'" unfolding d' by (rule actions)
qed

subsection \<open>Submission\<close>

lemma claiming: "P d \<Longrightarrow> keepsP P (claimSubmit opr deps items rd now suffix d)"
  by (auto simp: claimSubmit_def reserveLine_def createLine_def createQuota_def Let_def intro!: keeps)

lemma claimingFor: "P d \<Longrightarrow> keepsP P (agentSubmit opr deps code dir rs items now suffix d)"
  by (auto simp: agentSubmit_def reserveLine_def createLine_def createRecipient_def Let_def intro!: keeps)

lemma takingIn: "P d \<Longrightarrow> keepsP P (stockInSubmit opr deps items t rm now suffix d)"
  by (auto simp: stockInSubmit_def Let_def intro!: keeps)

lemma writingDown: "P d \<Longrightarrow> keepsP P (stockChangeSubmit opr deps items t rm now suffix d)"
  by (auto simp: stockChangeSubmit_def reserveChange_def Let_def intro!: keeps)

lemma givingBack: "P d \<Longrightarrow> keepsP P (submitBorrowAction opr deps ty items now suffix d)"
  by (auto simp: submitBorrowAction_def createAction_def intro!: keeps)

lemma settling: "P d \<Longrightarrow> keepsP P (settlementSubmit opr deps ref items now suffix d)"
  by (auto simp: settlementSubmit_def createSettlement_def intro!: keeps split: option.splits)

subsection \<open>Movements\<close>

lemma transferLoop: "P d \<Longrightarrow> keepsD P (transfer_loop c as ob ib d)"
  by (induction as arbitrary: ob ib d) (auto simp del: padd_simps intro!: keeps kernel split: option.splits)

lemma transferring: "P d \<Longrightarrow> keepsP P (transfer_create opr dto d)"
  by (auto simp: transfer_create_def transfer_move_def transfer_target_def Let_def
      intro!: keeps kernel transferLoop split: option.splits)

lemma moving: "P d \<Longrightarrow> keepsD P (correction_move opr b src t spec w d)"
  by (auto simp: correction_move_def Let_def intro!: keeps)

lemma placing: "P d \<Longrightarrow> keepsP P (correction_place opr b src t spec w d)"
  by (auto simp: correction_place_def intro!: keeps kernel moving split: option.splits)

lemma correctionApply: "P d \<Longrightarrow> keepsD P (correction_apply opr input b src t d)"
  unfolding correction_apply_def Let_def by (intro keeps placing allI impI | assumption | simp only: split_paired_all prod.case)+

lemma correcting: "P d \<Longrightarrow> keepsD P (correctBatch opr i input d)"
proof (rule keepsD_I)
  fix d' assume d: "P d" and "correctBatch opr i input d = Inr d'"
  then obtain b src t where "correction_apply opr input b src t d = Inr d'"
    by (auto simp: correctBatch_def assertBatchStillExists_def Let_def split: option.splits if_splits)
  then show "P d'" by (rule keepsD_D [OF correctionApply [OF d]])
qed

lemma disposeRecord: "P d \<Longrightarrow> keepsP P (dispose_record opr row item r d)"
  by (auto simp: dispose_record_def intro!: keeps kernel)

lemma disposePersonalLines: "P (snd acc) \<Longrightarrow> keepsP P (disposePersonalLine opr scope cl dir locked l acc)"
  unfolding disposePersonalLine_def
  by (cases "find (\<lambda>r. br_id r = dl_borrowRecordId l) locked") (auto intro!: keeps_bind keeps_any disposeRecord)

lemma disposeAgentLines: "P (snd acc) \<Longrightarrow> keepsP P (disposeAgentLine opr i locked l acc)"
  unfolding disposeAgentLine_def
  by (cases "find (\<lambda>r. br_id r = dl_borrowRecordId l) locked") (auto intro!: keeps_bind disposeRecord)

lemma disposePersonals: "P d \<Longrightarrow> keepsP P (disposePersonal opr scope cl dir items d)"
  unfolding disposePersonal_def by (auto intro!: keeps disposePersonalLines)

lemma disposeAgents: "P d \<Longrightarrow> keepsP P (disposeAgentSettle opr i items scope cl dir d)"
  unfolding disposeAgentSettle_def Let_def by (auto intro!: keeps disposeAgentLines split: option.splits)

lemma disposing: "P d \<Longrightarrow> keepsP P (dispose_run opr scope cl dir dto d)"
  by (auto simp: dispose_run_def intro: disposePersonals disposeAgents split: option.splits list.splits)

end

end
