(* ===== verification/Links.thy ===== *)
theory Links
  imports Handlers
begin

text \<open>
  Two invariants that every handler keeps because every statement does: the references between the
  tables, and the uniqueness of request heads; then the timeout as a release.
\<close>

section \<open>References between the tables\<close>

definition linked :: "asset_db \<Rightarrow> bool" where
  "linked db \<longleftrightarrow> links_ok db \<and> actions_ok db"

lemma linked_def':
  "linked db \<longleftrightarrow> (\<forall>a \<in> set (db_allocs db). al_recordId a < db_seq db TBorrows)
     \<and> (\<forall>i \<in> set (db_items db). \<exists>c \<in> set (db_consumables db). co_id c = it_consumableId i)
     \<and> (\<forall>a \<in> set (db_actionItems db). 0 < ai_qty a) \<and> (\<forall>s \<in> set (db_settlementItems db). 0 < si_qty s)"
  by (auto simp: linked_def links_ok_def actions_ok_def)

lemma linked_items:
  assumes "linked d" and "\<And>i. i \<in> set is \<Longrightarrow> \<exists>j \<in> set (db_items d). it_consumableId j = it_consumableId i"
  shows "linked (d\<lparr>db_items := is\<rparr>)"
  using assms unfolding linked_def' by simp metis

lemma createRequestHead_row:
  assumes "createRequestHead now suffix input d = Inr (res, d')"
  defines "h \<equiv> last (sd_heads d')"
  shows "sd_heads d' = sd_heads d @ [h]" and "\<forall>g \<in> set (sd_heads d). ar_applicationNo g \<noteq> ar_applicationNo h"
    and "ah_requestType h = ''AGENT_SETTLEMENT'' \<longrightarrow>
        (\<forall>g \<in> set (sd_heads d). ah_requestType g = ''AGENT_SETTLEMENT'' \<and> ah_status g = PENDING
          \<longrightarrow> ar_refRequestId g \<noteq> ar_refRequestId h)"
    and "db_allocs d' = db_allocs d" "db_items d' = db_items d" "db_consumables d' = db_consumables d"
      "db_actionItems d' = db_actionItems d" "db_settlementItems d' = db_settlementItems d"
      "db_seq d' TBorrows = db_seq d TBorrows"
  using assms(1) unfolding h_def
  by (auto simp: createRequestHead_def withPendingLimitMapping_def insertHead_def nextval_def Let_def bindR_Inr_iff
      split: if_splits sum.splits)

interpretation linked_inv: statement_inv linked
proof
  fix d d' :: asset_db
  assume d: "linked d"
  have same: "linked (d\<lparr>db_items := update_where p (item_add x y) (db_items d)\<rparr>)" for p x y
    by (rule linked_items [OF d]) (auto simp: set_update_where item_add_def)
  show "linked d'" if "addItem k a b d = Inr d'" for k a b using that same by (auto simp: addItem_Inr_iff)
  show "linked d'" if "releaseReserved k q d = Inr d'" for k q
    using that same by (auto simp: releaseReserved_def sql_update_def bindR_Inr_iff split: if_splits)
  show "linked d'" if "insertItem i d = Inr (k, d')" for i k
    using that d by (auto simp: insertItem_Inr_iff linked_def')
  show "linked (cleanupEmptyItem k d)" for k
    unfolding cleanupEmptyItem_def by (rule linked_items [OF d]) auto
  show "linked d'" if "openBorrow br allocs d = Inr d'" for br allocs
  proof -
    note op = that
    obtain r d1 where b: "insertBorrow br d = Inr (r, d1)" and al: "foldR (\<lambda>a. insertAlloc (alloc_of r a)) allocs d1 = Inr d'"
      using op by (auto simp: openBorrow_alt bindR_Inr_iff)
    have d1: "linked d1" "r < db_seq d1 TBorrows" using b d by (auto simp: insertBorrow_Inr_iff linked_def')
    have one: "linked e' \<and> r < db_seq e' TBorrows" if "linked e \<and> r < db_seq e TBorrows"
      and "insertAlloc (alloc_of r a) e = Inr e'" for a e e'
      using that by (auto simp: insertAlloc_Inr_iff linked_def' alloc_of_def)
    from foldR_invariant [where I = "\<lambda>e. linked e \<and> r < db_seq e TBorrows", OF al] d1 one
    show ?thesis by blast
  qed
  show "linked d'" if "addAlloc k q d = Inr d'" for k q
    using that d by (auto simp: addAlloc_Inr_iff linked_def' set_update_where alloc_add_def)
  show "linked d'" if "addBorrow k a b d = Inr d'" for k a b
    using that d by (auto simp: addBorrow_Inr_iff linked_def')
  show "linked d'" if "createRequestHead now suffix input d = Inr (res, d')" for now suffix input res
    using createRequestHead_row(4-9) [OF that] d by (simp add: linked_def')
  show "linked d'" if "transition_head j v f d = Inr d'" for j v f
    using that d by (auto simp: transition_head_def bindR_Inr_iff Let_def linked_def' split: prod.splits)
qed (auto simp: linked_def' insertActionItem_def insertSettlementItem_def insertRequestItem_def insertChangeItem_def
    insertStockInItem_def insertRecipient_def add_action_def nextval_def Let_def bindR_Inr_iff insert_row_Inr_iff)

section \<open>Unique heads\<close>

definition open_settlement :: "approval_request \<Rightarrow> int \<Rightarrow> bool" where
  "open_settlement h i \<longleftrightarrow> ah_requestType h = ''AGENT_SETTLEMENT'' \<and> ah_status h = PENDING \<and> ar_refRequestId h = Some i"

definition heads_unique :: "asset_db \<Rightarrow> bool" where
  "heads_unique db \<longleftrightarrow> distinct (map ar_applicationNo (sd_heads db))
     \<and> (\<forall>h \<in> set (sd_heads db). \<forall>h' \<in> set (sd_heads db). \<forall>i. open_settlement h i \<and> open_settlement h' i
          \<longrightarrow> ah_id h = ah_id h')"

lemma heads_unique_frame: "heads_unique d \<Longrightarrow> sd_heads d' = sd_heads d \<Longrightarrow> heads_unique d'"
  by (simp add: heads_unique_def)

interpretation heads_inv: statement_inv heads_unique
proof
  fix d d' :: asset_db
  assume d: "heads_unique d"
  have frame: "heads_unique d'" if "sd_heads d' = sd_heads d" by (rule heads_unique_frame [OF d that])
  show "heads_unique d'" if "addItem k a b d = Inr d'" for k a b using that frame by (auto simp: addItem_Inr_iff)
  show "heads_unique d'" if "releaseReserved k q d = Inr d'" for k q
    using that frame by (auto simp: releaseReserved_def bindR_Inr_iff)
  show "heads_unique d'" if "insertItem i d = Inr (k, d')" for i k using that frame by (auto simp: insertItem_Inr_iff)
  show "heads_unique d'" if "openBorrow br allocs d = Inr d'" for br allocs
  proof -
    note op = that
    obtain r d1 where b: "insertBorrow br d = Inr (r, d1)" and al: "foldR (\<lambda>a. insertAlloc (alloc_of r a)) allocs d1 = Inr d'"
      using op by (auto simp: openBorrow_alt bindR_Inr_iff)
    from al have "sd_heads d' = sd_heads d1"
      by (induction allocs arbitrary: d1) (auto simp: bindR_Inr_iff insertAlloc_Inr_iff)
    then show ?thesis using frame b by (auto simp: insertBorrow_Inr_iff)
  qed
  show "heads_unique d'" if "addAlloc k q d = Inr d'" for k q using that frame by (auto simp: addAlloc_Inr_iff)
  show "heads_unique d'" if "addBorrow k a b d = Inr d'" for k a b using that frame by (auto simp: addBorrow_Inr_iff)
  show "heads_unique d'" if "createRequestHead now suffix input d = Inr (res, d')" for now suffix input res
  proof -
    let ?h = "last (sd_heads d')"
    note h = createRequestHead_row(1-3) [OF that]
    have "\<not> (open_settlement ?h i \<and> open_settlement h' i)" if "h' \<in> set (sd_heads d)" for h' i
      using that h(3) by (auto simp: open_settlement_def)
    then show ?thesis using d h(2) unfolding heads_unique_def by (subst (1 2 3) h(1)) auto
  qed
  show "heads_unique d'" if f: "leaving f" and tr: "transition_head j v f d = Inr d'" for j v f
  proof -
    let ?u = "\<lambda>g. (f g)\<lparr>ah_version := ah_version g + 1\<rparr>"
    have hs: "sd_heads d' = update_where (pending_at j v) ?u (sd_heads d)"
      using tr by (auto simp: transition_head_def cas_head_def bindR_Inr_iff)
    have no: "ar_applicationNo (?u g) = ar_applicationNo g" "\<not> open_settlement (?u g) i" for g i
      using f by (simp_all add: leaving_def open_settlement_def)
    have "map ar_applicationNo (sd_heads d') = map ar_applicationNo (sd_heads d)"
      unfolding hs by (rule map_update_where) (rule no)
    moreover have "\<exists>g' \<in> set (sd_heads d). g' = g" if "g \<in> set (sd_heads d')" "open_settlement g i" for g i
      using that no(2) unfolding hs by (auto simp: set_update_where)
    ultimately show ?thesis using d unfolding heads_unique_def by metis
  qed
qed (auto intro: heads_unique_frame simp: cleanupEmptyItem_def insertActionItem_def insertSettlementItem_def insertRequestItem_def
    insertChangeItem_def insertStockInItem_def insertRecipient_def add_action_def nextval_def Let_def bindR_Inr_iff)

section \<open>The timeout releases what a cancellation releases\<close>

lemma quota_update_eq:
  "quota_update i d = (count_where (\<lambda>q. qo_requestId q = i \<and> qo_status q = RESERVED) (db_quotas d), setQuotas i RELEASED d)"
  by (simp add: quota_update_def setQuotas_def Let_def)

lemma asset_hook_release:
  assumes lv: "leaves db db1 h" and inv: "reserve_inv db" and "links_ok db"
    and r: "or_id r = ah_id h" "or_requestType r = ah_requestType h"
  shows "\<exists>d. applyRelease (side_of h None None) db1 = Inr d \<and> asset_hook r now db1 = (Inr (), d)"
proof -
  note f = leaves_facts [OF lv inv]
  have ok: "tables_ok db1" using f(3) by (simp add: stock_inv_def)
  have l1: "links_ok db1" by (rule f(5) [OF assms(3)])
  let ?i = "ah_id h" and ?t = "ah_requestType h"
  have within: "req_part db ?t ?i k \<le> reserved db1 k" for k by (rule leaves_within [OF lv inv])
  have claim: "\<exists>n d. release_update (line_sums ri_itemId ri_qty (filter (\<lambda>r. ri_requestId r = ?i) (db_requestItems db1))) db1
      = Inr (n, d) \<and> releaseLines (requestLines ?i db1) db1 = Inr d" if "?t \<in> set CLAIM_TYPES"
  proof -
    have w: "claim_part db1 ?i k \<le> reserved db1 k" for k
      using within [of k] that by (auto simp: req_part_def f(6) request_types split: if_splits)
    have q: "0 < ri_qty l \<and> ri_qty l \<le> reserved db1 (ri_itemId l)" if "l \<in> set (requestLines ?i db1)" for l
      using request_lines_ready [OF f(2) w that] by simp
    show ?thesis unfolding releaseLines_def
      by (rule hook_release_eq [OF requestLines_distinct [OF f(2)] q ok l1]) (simp_all add: requestLines_def)
  qed
  have change: "\<exists>n d. release_update (line_sums ch_itemId ch_qty (filter (\<lambda>c. ch_requestId c = ?i) (db_changeItems db1))) db1
      = Inr (n, d) \<and> foldR (\<lambda>line. releaseReserved (ch_itemId line) (ch_qty line)) (changeLines ?i db1) db1 = Inr d"
    if "?t \<in> set CHANGE_TYPES"
  proof -
    have w: "change_part db1 ?i k \<le> reserved db1 k" for k
      using within [of k] that by (auto simp: req_part_def f(7) request_types split: if_splits)
    have q: "0 < ch_qty l \<and> ch_qty l \<le> reserved db1 (ch_itemId l)" if "l \<in> set (changeLines ?i db1)" for l
      using change_lines_ready [OF f(2) w that] by simp
    show ?thesis
      by (rule hook_release_eq [OF changeLines_distinct [OF f(2)] q ok l1]) (simp_all add: changeLines_def)
  qed
  consider "?t = ''CONSUMABLE_REQUEST''" | "?t = ''AGENT_REQUEST''" | "?t = ''STOCK_CHANGE''"
    | "?t \<noteq> ''CONSUMABLE_REQUEST''" "?t \<noteq> ''AGENT_REQUEST''" "?t \<noteq> ''STOCK_CHANGE''" by blast
  then show ?thesis
  proof cases
    case 1
    then show ?thesis using claim r
      by (auto simp: asset_hook_def onAutoCancel_def applyRelease_def claimApplyRelease_def side_of_def request_types
          quota_update_eq)
  next
    case 2
    then show ?thesis using claim r
      by (auto simp: asset_hook_def onAutoCancel_def applyRelease_def agentApplyRelease_def side_of_def request_types)
  next
    case 3
    then show ?thesis using change r
      by (auto simp: asset_hook_def onAutoCancel_def applyRelease_def changeApplyRelease_def side_of_def request_types)
  next
    case 4
    then show ?thesis using r by (simp add: asset_hook_def onAutoCancel_def applyRelease_def side_of_def)
  qed
qed

text \<open>The row of the scan as the head leaves the pending state.\<close>

lemma cas_cancel_leaves:
  assumes "requests_ok db" and h: "h \<in> set (sd_heads db)" and p: "pending_at i v h"
    and cas: "cas_head i v (cancelled_overdue now) (sd_heads db) = (n, hs)"
  shows "leaves db (db\<lparr>sd_heads := hs, sd_acts := acts\<rparr>) h" and "n \<noteq> 0" and "ah_id h = i"
proof -
  have d: "distinct (map ah_id (sd_heads db))" using assms(1) by (simp add: requests_ok_def keyed_def)
  have hs: "hs = update_where (pending_at i v) (\<lambda>g. (cancelled_overdue now g)\<lparr>ah_version := ah_version g + 1\<rparr>) (sd_heads db)"
    and n: "n = count_where (pending_at i v) (sd_heads db)"
    using cas by (simp_all add: cas_head_def)
  have "map ah_id hs = map ah_id (sd_heads db)"
    unfolding hs by (rule map_update_where) (simp add: cancelled_overdue_def)
  moreover have "is_pending types hs j \<longleftrightarrow> is_pending types (sd_heads db) j \<and> j \<noteq> i" for types j
    unfolding hs by (rule is_pending_update [OF d h p]) (simp_all add: cancelled_overdue_def)
  ultimately show "leaves db (db\<lparr>sd_heads := hs, sd_acts := acts\<rparr>) h"
    using h p by (simp add: leaves_def pending_at_def)
  show "n \<noteq> 0" using h p n count_where_pos_iff [of "pending_at i v" "sd_heads db"] by auto
  show "ah_id h = i" using p by (simp add: pending_at_def)
qed

text \<open>
  A row the scan has listed: it is cancelled and releases as a cancellation does, or it is no longer
  pending at its version and nothing happens. It never fails.
\<close>

lemma timeout_row:
  assumes inv: "reserve_inv db" and lk: "links_ok db" and h: "h \<in> set (sd_heads db)"
    and r: "or_id r = ah_id h" "or_requestType r = ah_requestType h"
    and run: "autoCancelOverdueRow tx asset_hook now r db = (res, db')"
  shows "(\<not> pending_at (or_id r) (or_version r) h \<and> res = Inr False \<and> db' = db)
    \<or> (\<exists>db1. db1 = db\<lparr>sd_heads := cancel_ids now {or_id r} (sd_heads db), sd_acts := sd_acts db @ [auto_cancel_action now r]\<rparr>
        \<and> leaves db db1 h \<and> applyRelease (side_of h None None) db1 = Inr db' \<and> res = Inr True)"
proof (cases "pending_at (or_id r) (or_version r) h")
  case True
  have ok: "requests_ok db" using inv by (simp add: reserve_inv_def)
  then have d: "distinct (map ah_id (sd_heads db))" by (simp add: requests_ok_def keyed_def)
  note cas = cas_head_cancel [OF d h True, of now]
  let ?db1 = "db\<lparr>sd_heads := cancel_ids now {or_id r} (sd_heads db), sd_acts := sd_acts db @ [auto_cancel_action now r]\<rparr>"
  have lv: "leaves db ?db1 h" by (rule cas_cancel_leaves(1) [OF ok h True cas])
  obtain d where d: "applyRelease (side_of h None None) ?db1 = Inr d" "asset_hook r now ?db1 = (Inr (), d)"
    using asset_hook_release [OF lv inv lk r] by blast
  have "res = Inr True \<and> db' = d"
    using run d(2) by (simp add: autoCancelOverdueRow_def cancel_row_def cas)
  then show ?thesis using lv d(1) by simp
next
  case False
  have inj: "inj_on ah_id (set (sd_heads db))"
    using inv by (simp add: reserve_inv_def requests_ok_def keyed_def distinct_map)
  have "\<not> pending_at (or_id r) (or_version r) g" if "g \<in> set (sd_heads db)" for g
  proof
    assume "pending_at (or_id r) (or_version r) g"
    moreover from this have "ah_id g = ah_id h" using r(1) by (simp add: pending_at_def)
    then have "g = h" using inj_onD [OF inj _ that h] by simp
    ultimately show False using False by simp
  qed
  then have "count_where (pending_at (or_id r) (or_version r)) (sd_heads db) = 0" by (intro count_where_none)
  then show ?thesis
    using False run by (simp add: autoCancelOverdueRow_def cancel_row_def cas_head_def)
qed

end
