(* ===== verification/Operations.thy ===== *)
theory Operations
  imports Links
begin

text \<open>
  The endpoints that write: access, the operator, the idempotent execution of the run (controllers
  and services under \<open>apps/asset/src/modules\<close>); the steps of the system they make up, with the
  timeout of the worker; and the invariant of every reachable database.
\<close>

section \<open>Function codes\<close>

definition CONSUMABLE_APPLY_FUNCTION_CODE :: string where
  "CONSUMABLE_APPLY_FUNCTION_CODE = ''consumable_apply''"

definition PROXY_APPLY_FUNCTION_CODE :: string where
  "PROXY_APPLY_FUNCTION_CODE = ''proxy_apply''"

definition MY_BORROW_FUNCTION_CODE :: string where
  "MY_BORROW_FUNCTION_CODE = ''my_borrow''"

definition INVENTORY_MANAGE_FUNCTION_CODE :: string where
  "INVENTORY_MANAGE_FUNCTION_CODE = ''inventory_manage''"

definition STOCK_IN_APPLY_FUNCTION_CODE :: string where
  "STOCK_IN_APPLY_FUNCTION_CODE = ''stock_in_apply''"

definition STOCK_CHANGE_APPLY_FUNCTION_CODE :: string where
  "STOCK_CHANGE_APPLY_FUNCTION_CODE = ''stock_change_apply''"

section \<open>Endpoints\<close>

text \<open>
  What a call carries beside its payload: the idempotency key, the fingerprint of the payload, the
  clock and the random suffix of an application number. The text of a summary is kept short.
\<close>

record call =
  ca_key :: "string option"
  ca_fingerprint :: string
  ca_now :: int
  ca_suffix :: nat

type_synonym operator_context = "operator \<times> (int \<times> string) list"

definition departments_json :: "(int \<times> string) list \<Rightarrow> json" where
  "departments_json ds = JArr (map (\<lambda>(i, n). JObj [(''id'', JNum (of_int i)), (''name'', JStr n)]) ds)"

definition with_outcome ::
    "('x \<Rightarrow> json outcome) \<Rightarrow> (asset_db \<Rightarrow> err + ('x \<times> asset_db)) \<Rightarrow> asset_db \<Rightarrow> err + (json outcome \<times> asset_db)" where
  "with_outcome f run db = bindR (run db) (\<lambda>(x, db'). Inr (f x, db'))"

definition head_outcome :: "string \<Rightarrow> int \<times> string \<Rightarrow> json outcome" where
  "head_outcome what head =
     \<lparr>oc_result = JObj [(''requestId'', JNum (of_int (fst head))), (''applicationNo'', JStr (snd head))],
      oc_action = CREATE, oc_summary = what @ snd head\<rparr>"

definition idempotent ::
    "operator \<Rightarrow> string \<Rightarrow> string \<Rightarrow> call \<Rightarrow> (asset_db \<Rightarrow> err + (json outcome \<times> asset_db)) \<Rightarrow> asset_db
      \<Rightarrow> err + (json \<times> asset_db)" where
  "idempotent operator feature scope c run db =
     executeIdempotentOperation
       \<lparr>io_operator = operator, io_feature = feature, io_scope = scope, io_key = ca_key c,
        io_fingerprint = ca_fingerprint c, io_run = run\<rparr> db"

definition endpoint ::
    "directory \<Rightarrow> int \<Rightarrow> string \<Rightarrow> (operator_context \<Rightarrow> asset_db \<Rightarrow> err + (json \<times> asset_db)) \<Rightarrow> asset_db
      \<Rightarrow> err + (json \<times> asset_db)" where
  "endpoint dir userId code service db =
     bindR (assertFunctionAccess userId code dir) (\<lambda>access.
     bindR (loadAssetOperationLogOperator dir userId) (\<lambda>operator. service operator db))"

definition claim_submit :: "call \<Rightarrow> claim_item list \<Rightarrow> int \<Rightarrow> operator_context \<Rightarrow> asset_db \<Rightarrow> err + (json \<times> asset_db)" where
  "claim_submit c items resetDay operator =
     idempotent (fst operator) CONSUMABLE_APPLY_FUNCTION_CODE ''asset.claim.submit'' c
       (with_outcome (head_outcome ''claim '')
         (claimSubmit (fst operator) (departments_json (snd operator)) items resetDay (ca_now c) (ca_suffix c)))"

definition agent_submit ::
    "call \<Rightarrow> directory \<Rightarrow> int list \<Rightarrow> claim_item list \<Rightarrow> operator_context \<Rightarrow> asset_db \<Rightarrow> err + (json \<times> asset_db)" where
  "agent_submit c dir recipientIds items operator =
     idempotent (fst operator) PROXY_APPLY_FUNCTION_CODE ''asset.agent-claim.submit'' c
       (with_outcome (head_outcome ''agent claim '')
         (agentSubmit (fst operator) (departments_json (snd operator)) PROXY_APPLY_FUNCTION_CODE dir recipientIds
            items (ca_now c) (ca_suffix c)))"

definition stock_in_submit ::
    "call \<Rightarrow> stock_in_line list \<Rightarrow> int option \<Rightarrow> string option \<Rightarrow> operator_context \<Rightarrow> asset_db \<Rightarrow> err + (json \<times> asset_db)" where
  "stock_in_submit c items receivedAt remark operator =
     idempotent (fst operator) STOCK_IN_APPLY_FUNCTION_CODE ''asset.stock-in.submit'' c
       (with_outcome (head_outcome ''stock-in '')
         (stockInSubmit (fst operator) (departments_json (snd operator)) items receivedAt remark (ca_now c) (ca_suffix c)))"

definition stock_change_submit ::
    "call \<Rightarrow> change_line list \<Rightarrow> int option \<Rightarrow> string option \<Rightarrow> operator_context \<Rightarrow> asset_db \<Rightarrow> err + (json \<times> asset_db)" where
  "stock_change_submit c items changedAt remark operator =
     idempotent (fst operator) STOCK_CHANGE_APPLY_FUNCTION_CODE ''asset.stock-change.submit'' c
       (with_outcome (head_outcome ''stock change '')
         (stockChangeSubmit (fst operator) (departments_json (snd operator)) items changedAt remark (ca_now c) (ca_suffix c)))"

definition borrow_action ::
    "string \<Rightarrow> string \<Rightarrow> call \<Rightarrow> action_line list \<Rightarrow> operator_context \<Rightarrow> asset_db \<Rightarrow> err + (json \<times> asset_db)" where
  "borrow_action requestType scope c items operator =
     idempotent (fst operator) MY_BORROW_FUNCTION_CODE scope c
       (with_outcome (head_outcome requestType)
         (submitBorrowAction (fst operator) (departments_json (snd operator)) requestType items (ca_now c) (ca_suffix c)))"

definition submitReturn :: "call \<Rightarrow> action_line list \<Rightarrow> operator_context \<Rightarrow> asset_db \<Rightarrow> err + (json \<times> asset_db)" where
  "submitReturn = borrow_action ''RETURN'' ''asset.borrow.return.submit''"

definition submitWriteOff :: "call \<Rightarrow> action_line list \<Rightarrow> operator_context \<Rightarrow> asset_db \<Rightarrow> err + (json \<times> asset_db)" where
  "submitWriteOff = borrow_action ''WRITE_OFF'' ''asset.borrow.write_off.submit''"

definition settlement_submit ::
    "call \<Rightarrow> int \<Rightarrow> settle_line list \<Rightarrow> operator_context \<Rightarrow> asset_db \<Rightarrow> err + (json \<times> asset_db)" where
  "settlement_submit c refRequestId items operator =
     idempotent (fst operator) PROXY_APPLY_FUNCTION_CODE ''asset.agent-settlement.submit'' c
       (with_outcome (head_outcome ''settlement '')
         (settlementSubmit (fst operator) (departments_json (snd operator)) refRequestId items (ca_now c) (ca_suffix c)))"

definition transfer_outcome :: "transfer_input \<Rightarrow> int \<times> int \<times> int \<Rightarrow> json outcome" where
  "transfer_outcome dto r =
     \<lparr>oc_result = JObj [(''transferId'', JNum (of_int (fst r))), (''fromInventoryItemId'', JNum (of_int (fst (snd r)))),
        (''toInventoryItemId'', JNum (of_int (snd (snd r)))), (''qty'', JNum (of_int (tn_qty dto)))],
      oc_action = CREATE, oc_summary = ''transfer''\<rparr>"

definition transfer_service :: "call \<Rightarrow> transfer_input \<Rightarrow> operator_context \<Rightarrow> asset_db \<Rightarrow> err + (json \<times> asset_db)" where
  "transfer_service c dto operator =
     idempotent (fst operator) INVENTORY_MANAGE_FUNCTION_CODE ''asset.transfer.create'' c
       (with_outcome (transfer_outcome dto) (transfer_create (fst operator) dto))"

definition correct_batch :: "call \<Rightarrow> int \<Rightarrow> correction_input \<Rightarrow> operator_context \<Rightarrow> asset_db \<Rightarrow> err + (json \<times> asset_db)" where
  "correct_batch c batchId dto operator =
     idempotent (fst operator) INVENTORY_MANAGE_FUNCTION_CODE ''asset.batch.correct'' c
       (\<lambda>db. bindR (correctBatch (fst operator) batchId dto db) (\<lambda>db'.
          Inr (\<lparr>oc_result = JObj [(''ok'', JBool True)], oc_action = UPDATE, oc_summary = cn_reason dto\<rparr>, db')))"

definition dispose_outcome :: "int list \<Rightarrow> json outcome" where
  "dispose_outcome ids =
     \<lparr>oc_result = JObj [(''id'', case ids of [] \<Rightarrow> JUndef | i # js \<Rightarrow> JNum (of_int i)),
        (''recordIds'', JArr (map (\<lambda>i. JNum (of_int i)) ids))],
      oc_action = CREATE, oc_summary = ''disposal''\<rparr>"

definition dispose ::
    "call \<Rightarrow> directory \<Rightarrow> int \<Rightarrow> dispose_input \<Rightarrow> operator_context \<Rightarrow> asset_db \<Rightarrow> err + (json \<times> asset_db)" where
  "dispose c dir userId dto operator db =
     bindR (assertFunctionAccess userId CONSUMABLE_APPROVAL_FUNCTION_CODE dir) (\<lambda>access.
     idempotent (fst operator) CONSUMABLE_APPROVAL_FUNCTION_CODE ''asset.disposal.execute'' c
       (with_outcome dispose_outcome
         (dispose_run (fst operator) (approverScope userId access dir) (rat_closure (closureOfUser userId dir)) dir dto)) db)"

section \<open>Steps of the system\<close>

text \<open>
  One transaction of an endpoint that succeeded, with the quantities the transfer objects admit; a
  row of the timeout scan, read at some earlier time; or a change of the master data that keeps the
  consumables there are.
\<close>

inductive endpoint_step :: "(operator_context \<Rightarrow> asset_db \<Rightarrow> err + (json \<times> asset_db)) \<Rightarrow> bool" where
  ep_claim: "endpoint_step (claim_submit c items rd)"
| ep_agent: "endpoint_step (agent_submit c dir rs items)"
| ep_stock_in: "endpoint_step (stock_in_submit c lines t rm)"
| ep_change: "endpoint_step (stock_change_submit c changes t rm)"
| ep_return: "endpoint_step (submitReturn c actions)"
| ep_write_off: "endpoint_step (submitWriteOff c actions)"
| ep_settle: "endpoint_step (settlement_submit c i settles)"
| ep_transfer: "0 < tn_qty dto \<Longrightarrow> endpoint_step (transfer_service c dto)"
| ep_correct: "endpoint_step (correct_batch c i correction)"
| ep_dispose: "(\<forall>l \<in> set (dispose_lines dp). 0 < dl_qty l) \<Longrightarrow> endpoint_step (dispose c dir userId dp)"

inductive asset_step :: "asset_db \<Rightarrow> asset_db \<Rightarrow> bool" where
  submit: "endpoint_step service \<Longrightarrow> endpoint dir userId code service db = Inr (r, db') \<Longrightarrow> asset_step db db'"
| decide: "process_op jsort fp dir now i action p op key db = Inr (r, db') \<Longrightarrow> asset_step db db'"
| withdraw: "cancel_op fp dir now i a key db = Inr (r, db') \<Longrightarrow> asset_step db db'"
| expire: "h \<in> set (sd_heads db) \<Longrightarrow> or_id row = ah_id h \<Longrightarrow> or_requestType row = ah_requestType h \<Longrightarrow>
    autoCancelOverdueRow True asset_hook now row db = (res, db') \<Longrightarrow> asset_step db db'"
| configure: "co_id ` set (db_consumables db) \<subseteq> co_id ` set cs \<Longrightarrow>
    asset_step db (db\<lparr>db_consumables := cs, db_warehouses := ws, db_dict := ds\<rparr>)"

definition initial_db :: "asset_db \<Rightarrow> bool" where
  "initial_db db \<longleftrightarrow> sd_heads db = [] \<and> db_items db = [] \<and> db_batches db = [] \<and> db_flows db = []
     \<and> db_allocs db = [] \<and> db_requestItems db = [] \<and> db_changeItems db = [] \<and> db_actionItems db = []
     \<and> db_settlementItems db = []"

inductive asset_reach :: "asset_db \<Rightarrow> bool" where
  start: "initial_db db \<Longrightarrow> asset_reach db"
| step: "asset_reach db \<Longrightarrow> asset_step db db' \<Longrightarrow> asset_reach db'"

inductive_cases asset_stepE: "asset_step db db'"

section \<open>The invariant\<close>

definition asset_inv :: "asset_db \<Rightarrow> bool" where
  "asset_inv db \<longleftrightarrow> reserve_inv db \<and> linked db \<and> heads_unique db"

lemma asset_inv_logs: "asset_inv db \<Longrightarrow> asset_inv (db\<lparr>db_logs := ls\<rparr>)"
proof -
  assume inv: "asset_inv db"
  then have "balanced db (db\<lparr>db_logs := ls\<rparr>)"
    by (intro balancedI [of _ _ none0] shifts_frame) (simp_all add: asset_inv_def reserve_inv_def stock_inv_def same_requests_def)
  then show ?thesis
    using inv balanced_reserve_inv by (auto simp: asset_inv_def linked_def' heads_unique_def)
qed

lemma asset_inv_tables: "asset_inv db \<Longrightarrow> tables_ok db"
  by (simp add: asset_inv_def reserve_inv_def stock_inv_def)

text \<open>
  What a run does to stock and reservations: it submits a request, moves stock without touching the
  requests, or resolves a pending request.
\<close>

definition effect :: "asset_db \<Rightarrow> asset_db \<Rightarrow> bool" where
  "effect db d \<longleftrightarrow> (\<exists>i a dem. submits db d i a dem) \<or> balanced db d
     \<or> (\<exists>h db1 db2. leaves db db1 h \<and> resolved db1 db2 h (req_part db (ah_requestType h) (ah_id h))
          \<and> (d = db2 \<or> (\<exists>a. d = add_action a db2)))"

lemma effect_submits: "submits db d i a dem \<Longrightarrow> effect db d"
  by (auto simp: effect_def)

lemma effect_balanced: "balanced db d \<Longrightarrow> effect db d"
  by (simp add: effect_def)

lemma effect_reserve_inv: "reserve_inv db \<Longrightarrow> effect db d \<Longrightarrow> reserve_inv d"
  using submits_reserve_inv balanced_reserve_inv resolved_reserve_inv add_action_inv
  unfolding effect_def by blast

text \<open>A run that keeps the invariant has such an effect; an execution of it may also replay.\<close>

definition sound :: "asset_db \<Rightarrow> asset_db \<Rightarrow> bool" where
  "sound db d \<longleftrightarrow> asset_inv d \<and> effect db d"

definition sound_step :: "asset_db \<Rightarrow> asset_db \<Rightarrow> bool" where
  "sound_step db db' \<longleftrightarrow> asset_inv db' \<and> (db' = db \<or> (\<exists>d ls. effect db d \<and> db' = d\<lparr>db_logs := ls\<rparr>))"

lemma soundI:
  assumes "asset_inv d" and "effect d d'" and "linked d'" and "heads_unique d'"
  shows "sound d d'"
  using assms effect_reserve_inv by (auto simp: sound_def asset_inv_def)

lemma execute_sound:
  assumes "executeIdempotentOperation opts db = Inr (r, db')" and "asset_inv db"
    and "\<And>out d. io_run opts db = Inr (out, d) \<Longrightarrow> sound db d"
  shows "sound_step db db'"
  using execute_cases [OF assms(1)] assms(2,3) asset_inv_logs unfolding sound_step_def sound_def by blast

lemma idempotent_sound:
  assumes "idempotent opr f s c run db = Inr (r, db')" and "asset_inv db"
    and "\<And>out d. run db = Inr (out, d) \<Longrightarrow> sound db d"
  shows "sound_step db db'"
  using assms(1) unfolding idempotent_def by (rule execute_sound) (use assms(2,3) in auto)

lemma with_outcome_Inr: "with_outcome f run d = Inr (out, d') \<Longrightarrow> \<exists>x. run d = Inr (x, d')"
  by (auto simp: with_outcome_def bindR_Inr_iff)

text \<open>Each service runs such a run.\<close>

lemma submissions_sound:
  assumes "asset_inv d"
  shows "claimSubmit opr deps items rd now suffix d = Inr (x, d') \<Longrightarrow> sound d d'"
    and "agentSubmit opr deps code dir rs items now suffix d = Inr (x, d') \<Longrightarrow> sound d d'"
    and "stockInSubmit opr deps sls t rm now suffix d = Inr (x, d') \<Longrightarrow> sound d d'"
    and "stockChangeSubmit opr deps cls t rm now suffix d = Inr (x, d') \<Longrightarrow> sound d d'"
    and "ty \<in> {''RETURN'', ''WRITE_OFF''} \<Longrightarrow> submitBorrowAction opr deps ty als now suffix d = Inr (x, d') \<Longrightarrow> sound d d'"
    and "settlementSubmit opr deps ref ses now suffix d = Inr (x, d') \<Longrightarrow> sound d d'"
proof -
  have inv: "linked d" "heads_unique d" using assms by (simp_all add: asset_inv_def)
  note ok = asset_inv_tables [OF assms] and sound = soundI [OF assms effect_submits]
  obtain i no where x: "x = (i, no)" by (cases x)
  show "sound d d'" if "claimSubmit opr deps items rd now suffix d = Inr (x, d')"
    by (rule sound [OF claimSubmit_submits [OF that [unfolded x] ok] keepsP_D [OF linked_inv.claiming [OF inv(1)] that]
        keepsP_D [OF heads_inv.claiming [OF inv(2)] that]])
  show "sound d d'" if "agentSubmit opr deps code dir rs items now suffix d = Inr (x, d')"
    by (rule sound [OF agentSubmit_submits [OF that [unfolded x] ok] keepsP_D [OF linked_inv.claimingFor [OF inv(1)] that]
        keepsP_D [OF heads_inv.claimingFor [OF inv(2)] that]])
  show "sound d d'" if "stockInSubmit opr deps sls t rm now suffix d = Inr (x, d')"
    by (rule sound [OF stockInSubmit_submits [OF that [unfolded x] ok] keepsP_D [OF linked_inv.takingIn [OF inv(1)] that]
        keepsP_D [OF heads_inv.takingIn [OF inv(2)] that]])
  show "sound d d'" if "stockChangeSubmit opr deps cls t rm now suffix d = Inr (x, d')"
    by (rule sound [OF stockChangeSubmit_submits [OF that [unfolded x] ok] keepsP_D [OF linked_inv.writingDown [OF inv(1)] that]
        keepsP_D [OF heads_inv.writingDown [OF inv(2)] that]])
  show "sound d d'" if ty: "ty \<in> {''RETURN'', ''WRITE_OFF''}" and op: "submitBorrowAction opr deps ty als now suffix d = Inr (x, d')"
    by (rule sound [OF submitBorrowAction_submits [OF op [unfolded x] ok ty] keepsP_D [OF linked_inv.givingBack [OF inv(1)] op]
        keepsP_D [OF heads_inv.givingBack [OF inv(2)] op]])
  show "sound d d'" if "settlementSubmit opr deps ref ses now suffix d = Inr (x, d')"
    by (rule sound [OF settlementSubmit_submits [OF that [unfolded x] ok] keepsP_D [OF linked_inv.settling [OF inv(1)] that]
        keepsP_D [OF heads_inv.settling [OF inv(2)] that]])
qed

lemma movements_sound:
  assumes "asset_inv d"
  shows "0 < tn_qty dto \<Longrightarrow> transfer_create opr dto d = Inr (x, d') \<Longrightarrow> sound d d'"
    and "correctBatch opr i inp d = Inr d' \<Longrightarrow> sound d d'"
    and "\<forall>l \<in> set (dispose_lines dp). 0 < dl_qty l \<Longrightarrow> dispose_run opr scope cl dir dp d = Inr (ids, d') \<Longrightarrow> sound d d'"
proof -
  have inv: "linked d" "heads_unique d" using assms by (simp_all add: asset_inv_def)
  note ok = asset_inv_tables [OF assms] and sound = soundI [OF assms effect_balanced]
  show "sound d d'" if q: "0 < tn_qty dto" and op: "transfer_create opr dto d = Inr (x, d')"
    by (rule sound [OF transfer_balanced [OF op ok less_imp_le [OF q]] keepsP_D [OF linked_inv.transferring [OF inv(1)] op]
        keepsP_D [OF heads_inv.transferring [OF inv(2)] op]])
  show "sound d d'" if "correctBatch opr i inp d = Inr d'"
    by (rule sound [OF correct_balanced [OF that ok] keepsD_D [OF linked_inv.correcting [OF inv(1)] that]
        keepsD_D [OF heads_inv.correcting [OF inv(2)] that]])
  show "sound d d'" if q: "\<forall>l \<in> set (dispose_lines dp). 0 < dl_qty l" and op: "dispose_run opr scope cl dir dp d = Inr (ids, d')"
    by (rule sound [OF dispose_balanced [OF op ok] keepsP_D [OF linked_inv.disposing [OF inv(1)] op]
        keepsP_D [OF heads_inv.disposing [OF inv(2)] op]]) (use q in force)
qed

lemma decisions_sound:
  assumes "asset_inv d"
  shows "process_run jsort dir now i action p op d = Inr (out, d') \<Longrightarrow> sound d d'"
    and "cancel_run dir now i a d = Inr (out, d') \<Longrightarrow> sound d d'"
proof -
  have inv: "reserve_inv d" "linked d" "heads_unique d" "links_ok d" "actions_ok d"
    using assms by (simp_all add: asset_inv_def linked_def)
  show "sound d d'" if "process_run jsort dir now i action p op d = Inr (out, d')"
  proof -
    have "effect d d'" using process_run_resolved [OF that inv(1,4,5)] unfolding effect_def by blast
    then show ?thesis
      by (rule soundI [OF assms _ keepsP_D [OF linked_inv.processing [OF inv(2)] that]
          keepsP_D [OF heads_inv.processing [OF inv(3)] that]])
  qed
  show "sound d d'" if "cancel_run dir now i a d = Inr (out, d')"
  proof -
    have "effect d d'" using cancel_run_resolved [OF that inv(1,4)] unfolding effect_def by blast
    then show ?thesis
      by (rule soundI [OF assms _ keepsP_D [OF linked_inv.cancelling [OF inv(2)] that]
          keepsP_D [OF heads_inv.cancelling [OF inv(3)] that]])
  qed
qed

lemma endpoint_step_sound:
  assumes "endpoint_step service" and "service opr d = Inr (r, d')" and inv: "asset_inv d"
  shows "sound_step d d'"
  using assms(1)
proof cases
  case (ep_claim c items rd)
  show ?thesis
    by (rule idempotent_sound [OF assms(2) [unfolded ep_claim claim_submit_def] inv])
      (blast dest: with_outcome_Inr intro: submissions_sound(1) [OF inv])
next
  case (ep_agent c dir rs items)
  show ?thesis
    by (rule idempotent_sound [OF assms(2) [unfolded ep_agent agent_submit_def] inv])
      (blast dest: with_outcome_Inr intro: submissions_sound(2) [OF inv])
next
  case (ep_stock_in c lines t rm)
  show ?thesis
    by (rule idempotent_sound [OF assms(2) [unfolded ep_stock_in stock_in_submit_def] inv])
      (blast dest: with_outcome_Inr intro: submissions_sound(3) [OF inv])
next
  case (ep_change c changes t rm)
  show ?thesis
    by (rule idempotent_sound [OF assms(2) [unfolded ep_change stock_change_submit_def] inv])
      (blast dest: with_outcome_Inr intro: submissions_sound(4) [OF inv])
next
  case (ep_return c actions)
  show ?thesis
    by (rule idempotent_sound [OF assms(2) [unfolded ep_return submitReturn_def borrow_action_def] inv])
      (blast dest: with_outcome_Inr intro: submissions_sound(5) [OF inv])
next
  case (ep_write_off c actions)
  show ?thesis
    by (rule idempotent_sound [OF assms(2) [unfolded ep_write_off submitWriteOff_def borrow_action_def] inv])
      (blast dest: with_outcome_Inr intro: submissions_sound(5) [OF inv])
next
  case (ep_settle c i settles)
  show ?thesis
    by (rule idempotent_sound [OF assms(2) [unfolded ep_settle settlement_submit_def] inv])
      (blast dest: with_outcome_Inr intro: submissions_sound(6) [OF inv])
next
  case (ep_transfer dto c)
  show ?thesis
    by (rule idempotent_sound [OF assms(2) [unfolded ep_transfer(1) transfer_service_def] inv])
      (blast dest: with_outcome_Inr intro: movements_sound(1) [OF inv] ep_transfer(2))
next
  case (ep_correct c i correction)
  show ?thesis
    by (rule idempotent_sound [OF assms(2) [unfolded ep_correct correct_batch_def] inv])
      (auto simp: bindR_Inr_iff intro: movements_sound(2) [OF inv])
next
  case (ep_dispose dp c dir userId)
  obtain access where "idempotent (fst opr) CONSUMABLE_APPROVAL_FUNCTION_CODE ''asset.disposal.execute'' c
     (with_outcome dispose_outcome (dispose_run (fst opr) (approverScope userId access dir)
        (rat_closure (closureOfUser userId dir)) dir dp)) d = Inr (r, d')"
    using assms(2) by (auto simp: ep_dispose(1) dispose_def bindR_Inr_iff)
  then show ?thesis
    by (rule idempotent_sound [OF _ inv]) (use movements_sound(3) [OF inv ep_dispose(2)] in \<open>blast dest: with_outcome_Inr\<close>)
qed

lemma heads_unique_cancel:
  assumes "heads_unique db"
  shows "heads_unique (db\<lparr>sd_heads := cancel_ids now {i} (sd_heads db), sd_acts := acts\<rparr>)"
proof -
  have no: "map ar_applicationNo (cancel_ids now {i} hs) = map ar_applicationNo hs" for hs
    by (simp add: cancel_ids_def cancelled_overdue_def comp_def if_distrib)
  have "h \<in> set hs" if "h \<in> set (cancel_ids now {i} hs)" "open_settlement h k" for h hs k
    using that by (auto simp: cancel_ids_def open_settlement_def cancelled_overdue_def split: if_splits)
  then show ?thesis using assms unfolding heads_unique_def by (simp add: no) blast
qed

text \<open>Every step is sound, or changes master data only.\<close>

lemma asset_step_sound:
  assumes "asset_step db db'" and inv: "asset_inv db"
  shows "sound_step db db' \<or> asset_inv db' \<and> (\<exists>cs ws ds. db' = db\<lparr>db_consumables := cs, db_warehouses := ws, db_dict := ds\<rparr>)"
  using assms(1)
proof cases
  case (submit service dir userId code r)
  then obtain opr where "service opr db = Inr (r, db')" by (auto simp: endpoint_def bindR_Inr_iff)
  then show ?thesis using endpoint_step_sound [OF submit(1) _ inv] by blast
next
  case (decide jsort fp dir now i action p op key r)
  then obtain opts where "executeIdempotentOperation opts db = Inr (r, db')"
    and run: "io_run opts = process_run jsort dir now i action p op"
    by (auto simp: process_op_def bindR_Inr_iff)
  then have "sound_step db db'" using execute_sound [OF _ inv] decisions_sound(1) [OF inv] by metis
  then show ?thesis by blast
next
  case (withdraw fp dir now i a key r)
  then obtain opts where "executeIdempotentOperation opts db = Inr (r, db')" and run: "io_run opts = cancel_run dir now i a"
    by (auto simp: cancel_op_def bindR_Inr_iff)
  then have "sound_step db db'" using execute_sound [OF _ inv] decisions_sound(2) [OF inv] by metis
  then show ?thesis by blast
next
  case (expire h row now res)
  have i: "reserve_inv db" "links_ok db" "linked db" "heads_unique db" using inv by (simp_all add: asset_inv_def linked_def)
  from timeout_row [OF i(1,2) expire] show ?thesis
  proof (elim disjE exE conjE)
    fix db1
    assume db1: "db1 = db\<lparr>sd_heads := cancel_ids now {or_id row} (sd_heads db), sd_acts := sd_acts db @ [auto_cancel_action now row]\<rparr>"
      and lv: "leaves db db1 h" and rel: "applyRelease (side_of h None None) db1 = Inr db'"
    have "resolved db1 db' h (req_part db (ah_requestType h) (ah_id h))"
      using applyRelease_resolved [OF lv i(1,2), of None None] rel by auto
    then have eff: "effect db db'" using lv unfolding effect_def by blast
    have "linked db1" using i(3) by (simp add: db1 linked_def')
    moreover have "heads_unique db1" using heads_unique_cancel [OF i(4)] by (simp add: db1)
    ultimately have "sound db db'"
      using soundI [OF inv eff] keepsD_D [OF linked_inv.release rel] keepsD_D [OF heads_inv.release rel] by blast
    moreover have "db' = db'\<lparr>db_logs := db_logs db'\<rparr>" by simp
    ultimately show ?thesis unfolding sound_step_def sound_def by blast
  qed (use inv in \<open>simp add: sound_step_def\<close>)
next
  case (configure cs ws ds)
  have "reserve_inv db'"
    using inv by (simp add: configure(1) asset_inv_def reserve_inv_def stock_inv_def tables_ok_def keyed_def requests_ok_def
        book_def reserved_def stock_def ledger_def pend_def fun_eq_iff)
  moreover have "linked db'"
  proof -
    have "\<exists>c \<in> set cs. co_id c = it_consumableId j" if "j \<in> set (db_items db)" for j
    proof -
      obtain c where "c \<in> set (db_consumables db)" "co_id c = it_consumableId j"
        using inv \<open>j \<in> set (db_items db)\<close> by (auto simp: asset_inv_def linked_def')
      then show ?thesis using configure(2) by (metis imageE imageI subsetD)
    qed
    then show ?thesis using inv by (simp add: configure(1) asset_inv_def linked_def')
  qed
  ultimately have "asset_inv db'" using inv by (simp add: configure(1) asset_inv_def heads_unique_def)
  then show ?thesis using configure(1) by blast
qed

lemma asset_step_inv: "asset_step db db' \<Longrightarrow> asset_inv db \<Longrightarrow> asset_inv db'"
  using asset_step_sound unfolding sound_step_def by blast

lemma asset_reach_inv: "asset_reach db \<Longrightarrow> asset_inv db"
proof (induction rule: asset_reach.induct)
  case (start db)
  then show ?case
    by (simp add: initial_db_def asset_inv_def reserve_inv_def stock_inv_def tables_ok_def keyed_def requests_ok_def
        book_def reserved_def stock_def ledger_def pend_def fun_eq_iff linked_def' heads_unique_def)
next
  case (step db db')
  then show ?case by (blast intro: asset_step_inv)
qed

end
