(* ===== verification/Sample.thy ===== *)
theory Sample
  imports Operations
begin

text \<open>
  A concrete run: goods are taken into stock and an employee claims some of them, to be
  decided by the head of the department.
\<close>

definition sample_dir :: directory where
  "sample_dir =
     \<lparr>dir_accounts =
        [\<lparr>ua_userId = 1, ua_name = ''admin'', ua_status = ''ACTIVE'', ua_sessionVersion = 1, ua_isSuperAdmin = True, ua_deleted = False\<rparr>,
         \<lparr>ua_userId = 2, ua_name = ''ann'', ua_status = ''ACTIVE'', ua_sessionVersion = 1, ua_isSuperAdmin = False, ua_deleted = False\<rparr>,
         \<lparr>ua_userId = 3, ua_name = ''bob'', ua_status = ''ACTIVE'', ua_sessionVersion = 1, ua_isSuperAdmin = False, ua_deleted = False\<rparr>],
      dir_orgs =
        [\<lparr>uo_userId = 2, uo_departmentId = 7, uo_departmentName = ''sales''\<rparr>,
         \<lparr>uo_userId = 3, uo_departmentId = 7, uo_departmentName = ''sales''\<rparr>],
      dir_functions = map (\<lambda>c. \<lparr>fn_code = c, fn_systemCode = ''asset'', fn_systemName = ''assets'', fn_productStatus = ''OPEN''\<rparr>)
        [CONSUMABLE_APPLY_FUNCTION_CODE, MY_BORROW_FUNCTION_CODE, STOCK_IN_APPLY_FUNCTION_CODE, CONSUMABLE_APPROVAL_FUNCTION_CODE],
      dir_grants =
        [\<lparr>gr_userId = 2, gr_functionCode = CONSUMABLE_APPLY_FUNCTION_CODE, gr_dataScope = SELF\<rparr>,
         \<lparr>gr_userId = 2, gr_functionCode = MY_BORROW_FUNCTION_CODE, gr_dataScope = SELF\<rparr>,
         \<lparr>gr_userId = 3, gr_functionCode = CONSUMABLE_APPROVAL_FUNCTION_CODE, gr_dataScope = DEPARTMENT\<rparr>],
      dir_closure = [(7, 7)]\<rparr>"

definition sample_start :: asset_db where
  "sample_start =
     \<lparr>sd_heads = [], sd_acts = [], db_items = [], db_batches = [], db_flows = [], db_borrows = [], db_allocs = [],
      db_requestItems = [], db_stockInItems = [], db_changeItems = [], db_actionItems = [], db_settlementItems = [],
      db_recipients = [], db_quotas = [], db_transfers = [], db_transferItems = [], db_disposals = [], db_corrections = [],
      db_consumables =
        [\<lparr>co_id = 1, co_name = ''drill'', co_type = REUSABLE, co_quotaCycle = None, co_quotaLimit = None,
          co_returnDays = Some 30, co_maxHolding = Some 5, co_status = ACTIVE\<rparr>],
      db_warehouses = [\<lparr>wh_id = 1, wh_parentId = None, wh_name = ''main'', wh_status = ACTIVE\<rparr>],
      db_dict = [], db_logs = [], db_seq = (\<lambda>t. 1)\<rparr>"

definition state_after :: "err + ('x \<times> asset_db) \<Rightarrow> asset_db" where
  "state_after r = (case r of Inl e \<Rightarrow> sample_start | Inr (x, db) \<Rightarrow> db)"

definition accepted :: "err + 'x \<Rightarrow> bool" where
  "accepted r = (case r of Inl e \<Rightarrow> False | Inr x \<Rightarrow> True)"

definition sample_call :: "string \<Rightarrow> string \<Rightarrow> int \<Rightarrow> call" where
  "sample_call key fp now = \<lparr>ca_key = Some key, ca_fingerprint = fp, ca_now = now, ca_suffix = 5\<rparr>"

definition sample_stock_in :: "asset_db \<Rightarrow> err + (json \<times> asset_db)" where
  "sample_stock_in =
     endpoint sample_dir 1 STOCK_IN_APPLY_FUNCTION_CODE
       (stock_in_submit (sample_call ''k1'' ''f1'' 1000)
          [\<lparr>st_consumableId = 1, st_spec = ''M'', st_warehouseId = 1, st_supplierId = None, st_brandId = None, st_qty = 10,
            st_unitPrice = None\<rparr>] None None)"

definition sample_decide :: "int \<Rightarrow> process_action \<Rightarrow> int \<Rightarrow> asset_db \<Rightarrow> err + (json \<times> asset_db)" where
  "sample_decide i a p = process_op (\<lambda>js. js) (\<lambda>j. ''f'') sample_dir 2000 i a p (Some ''fine'') None"

definition sample_claim :: "int \<Rightarrow> asset_db \<Rightarrow> err + (json \<times> asset_db)" where
  "sample_claim q =
     endpoint sample_dir 2 CONSUMABLE_APPLY_FUNCTION_CODE
       (claim_submit (sample_call ''k2'' ''f2'' 3000) [\<lparr>cm_inventoryItemId = 1, cm_qty = q, cm_purpose = None\<rparr>] 1)"

definition sample_stocked :: asset_db where
  "sample_stocked = state_after (sample_decide 1 process_action.APPROVE 1 (state_after (sample_stock_in sample_start)))"

definition sample_claimed :: asset_db where
  "sample_claimed = state_after (sample_claim 4 sample_stocked)"

section \<open>The run is accepted\<close>

lemma accepted_Inr: "accepted r \<Longrightarrow> \<exists>x. r = Inr (x, state_after r)"
  by (auto simp: accepted_def state_after_def split: sum.splits)

lemma sample_runs:
  "case sample_stock_in sample_start of
     Inl e \<Rightarrow> False
   | Inr (r1, d1) \<Rightarrow>
       (case sample_decide 1 process_action.APPROVE 1 d1 of
          Inl e \<Rightarrow> False
        | Inr (r2, d2) \<Rightarrow> (case sample_claim 4 d2 of Inl e \<Rightarrow> False | Inr r3 \<Rightarrow> True))"
  by code_simp

lemma sample_accepted:
  "accepted (sample_stock_in sample_start)"
  "accepted (sample_decide 1 process_action.APPROVE 1 (state_after (sample_stock_in sample_start)))"
  "accepted (sample_claim 4 sample_stocked)"
  using sample_runs by (auto simp: accepted_def state_after_def sample_stocked_def split: sum.splits)

lemma sample_steps:
  "asset_step sample_start (state_after (sample_stock_in sample_start))"
  "asset_step (state_after (sample_stock_in sample_start)) sample_stocked"
  "asset_step sample_stocked sample_claimed"
proof -
  let ?s1 = "state_after (sample_stock_in sample_start)"
  obtain r where "sample_stock_in sample_start = Inr (r, ?s1)" using accepted_Inr [OF sample_accepted(1)] by blast
  then show "asset_step sample_start ?s1"
    unfolding sample_stock_in_def by (rule submit [rotated]) (rule endpoint_step.intros)
  obtain r where "sample_decide 1 process_action.APPROVE 1 ?s1 = Inr (r, sample_stocked)"
    using accepted_Inr [OF sample_accepted(2)] unfolding sample_stocked_def by blast
  then show "asset_step ?s1 sample_stocked" unfolding sample_decide_def by (rule decide)
  obtain r where "sample_claim 4 sample_stocked = Inr (r, sample_claimed)"
    using accepted_Inr [OF sample_accepted(3)] unfolding sample_claimed_def by blast
  then show "asset_step sample_stocked sample_claimed"
    unfolding sample_claim_def by (rule submit [rotated]) (rule endpoint_step.intros)
qed

lemma sample_reach: "asset_reach sample_start" "asset_reach sample_stocked" "asset_reach sample_claimed"
proof -
  show s: "asset_reach sample_start" by (rule start) (simp add: initial_db_def sample_start_def)
  show s2: "asset_reach sample_stocked" by (rule step [OF step [OF s sample_steps(1)] sample_steps(2)])
  show "asset_reach sample_claimed" by (rule step [OF s2 sample_steps(3)])
qed

lemma evaluated: "(case r of Inl e \<Rightarrow> False | Inr (x, d) \<Rightarrow> P d) \<Longrightarrow> P (state_after r)"
  by (auto simp: state_after_def split: sum.splits)

lemma sample_evaluated:
  "case sample_claim 4 sample_stocked of
     Inl e \<Rightarrow> False
   | Inr (r, d) \<Rightarrow>
       map (\<lambda>h. (ah_id h, ah_status h, ah_version h)) (sd_heads d) = [(1, APPROVED, 2), (2, PENDING, 1)]
       \<and> map (\<lambda>h. (ah_requestType h, ah_applicantId h)) (sd_heads d) = [(''STOCK_IN'', 1), (''CONSUMABLE_REQUEST'', 2)]
       \<and> book d 1 = 10 \<and> reserved d 1 = 4 \<and> req_part d ''CONSUMABLE_REQUEST'' 2 1 = 4
       \<and> assertScopeCovers 2 ''CONSUMABLE_REQUEST'' 3 sample_dir d = Inr ()"
  by code_simp

lemma sample_facts:
  obtains g h where "sd_heads sample_claimed = [g, h]" and "find_head 2 sample_claimed = Some h"
    and "ah_id h = 2" and "ah_status h = PENDING" and "ah_version h = 1"
    and "ah_requestType h = ''CONSUMABLE_REQUEST''" and "ah_applicantId h = 2"
proof -
  have "map (\<lambda>h. (ah_id h, ah_status h, ah_version h)) (sd_heads sample_claimed) = [(1, APPROVED, 2), (2, PENDING, 1)]"
    "map (\<lambda>h. (ah_requestType h, ah_applicantId h)) (sd_heads sample_claimed) = [(''STOCK_IN'', 1), (''CONSUMABLE_REQUEST'', 2)]"
    using evaluated [OF sample_evaluated] by (simp_all add: sample_claimed_def)
  then show ?thesis using that by (auto simp: map_eq_Cons_conv find_head_def)
qed

lemma sample_quantities:
  "book sample_claimed 1 = 10" "reserved sample_claimed 1 = 4" "req_part sample_claimed ''CONSUMABLE_REQUEST'' 2 1 = 4"
  "assertScopeCovers 2 ''CONSUMABLE_REQUEST'' 3 sample_dir sample_claimed = Inr ()"
  using evaluated [OF sample_evaluated] by (simp_all add: sample_claimed_def)

lemma sample_stocked_quantities: "book sample_stocked 1 = 10" "reserved sample_stocked 1 = 0"
proof -
  have e: "case sample_decide 1 process_action.APPROVE 1 (state_after (sample_stock_in sample_start)) of
     Inl e \<Rightarrow> False | Inr (r, d) \<Rightarrow> book d 1 = 10 \<and> reserved d 1 = 0"
    by code_simp
  show "book sample_stocked 1 = 10" "reserved sample_stocked 1 = 0"
    using evaluated [OF e] by (simp_all add: sample_stocked_def)
qed

end
