(* ===== verification/Replay.thy ===== *)
theory Replay
  imports Idempotency
begin

text \<open>
  What the operation log promises: a call that is repeated with its key is answered from the log, and
  the fingerprint of a payload does not depend on the order of its keys.
\<close>

section \<open>Replays\<close>

lemma find_skip: "(\<And>x. x \<in> set xs \<Longrightarrow> \<not> P x) \<Longrightarrow> P y \<Longrightarrow> find P (xs @ y # ys) = Some y"
  by (induction xs) auto

lemma run_logged_clash:
  assumes "run_logged opts (keyed_log opts key) db = Inr (r, db1)"
  shows "find (is_record (fst (io_operator opts)) (io_scope opts) key) (db_logs db1 @ later) =
      Some (last (db_logs db1))"
    and "lo_fingerprint (last (db_logs db1)) = Some (io_fingerprint opts)"
    and "lo_result (last (db_logs db1)) = column_json r"
proof -
  obtain out d where d: "io_run opts db = Inr (out, d)" and r: "r = oc_result out"
    and l: "writeAssetOperationLog (keyed_log opts key out) d = Inr db1"
    using assms by (auto simp: run_logged_def bindR_Inr_iff)
  let ?row = "keyed_log opts key out"
  have logs: "db_logs db1 = db_logs d @ [?row]" and no: "\<And>l. l \<in> set (db_logs d) \<Longrightarrow> \<not> log_clash ?row l"
    using l by (auto simp: writeAssetOperationLog_def bindR_Inr_iff insert_row_Inr_iff)
  have none: "\<not> is_record (fst (io_operator opts)) (io_scope opts) key l" if "l \<in> set (db_logs d)" for l
    using no [OF that] by (auto simp: is_record_def log_clash_def keyed_log_def plain_log_def)
  have "find (is_record (fst (io_operator opts)) (io_scope opts) key) (db_logs d @ ?row # later) = Some ?row"
    by (rule find_skip) (simp_all add: none, simp add: is_record_def keyed_log_def plain_log_def)
  then show "find (is_record (fst (io_operator opts)) (io_scope opts) key) (db_logs db1 @ later) =
      Some (last (db_logs db1))"
    by (simp add: logs)
  show "lo_fingerprint (last (db_logs db1)) = Some (io_fingerprint opts)"
    and "lo_result (last (db_logs db1)) = column_json r"
    by (simp_all add: logs keyed_log_def r)
qed

lemma execute_first:
  assumes "executeIdempotentOperation opts db = Inr (r, db1)" and "io_key opts = Some key" and "key \<noteq> []"
    and "findIdempotencyRecord (fst (io_operator opts)) (io_scope opts) key db = None"
  shows "run_logged opts (keyed_log opts key) db = Inr (r, db1)"
  using assms
  by (auto simp: executeIdempotentOperation_def commitIdempotentOperation_def tryReplayIdempotentResult_def
      bindR_Inr_iff split: list.splits sum.splits if_splits)

lemma execute_again:
  assumes first: "executeIdempotentOperation opts db = Inr (r, db1)" and key: "io_key opts = Some key" "key \<noteq> []"
    and new: "findIdempotencyRecord (fst (io_operator opts)) (io_scope opts) key db = None"
    and later: "db_logs db2 = db_logs db1 @ rest"
    and same: "fst (io_operator opts') = fst (io_operator opts)" "io_scope opts' = io_scope opts" "io_key opts' = io_key opts"
  shows "executeIdempotentOperation opts' db2 =
    (if io_fingerprint opts' = io_fingerprint opts then Inr (column_json r, db2) else Inl (Biz IDEMPOTENCY_KEY_REUSED))"
proof -
  note log = run_logged_clash [OF execute_first [OF first key new]]
  obtain c cs where k: "key = c # cs" using key(2) by (cases key) auto
  have "findIdempotencyRecord (fst (io_operator opts')) (io_scope opts') key db2 = Some (last (db_logs db1))"
    using log(1) by (simp add: findIdempotencyRecord_def same later)
  then show ?thesis
    using log(2,3) k same(3) key(1)
    by (simp add: executeIdempotentOperation_def tryReplayIdempotentResult_def replayIdempotencyRecord_def)
qed

section \<open>Fingerprints\<close>

text \<open>A comparison that orders distinct texts strictly, as \<open>localeCompare\<close> does on ASCII keys.\<close>

definition orders :: "('a \<Rightarrow> 'a \<Rightarrow> int) \<Rightarrow> 'a set \<Rightarrow> bool" where
  "orders cmp A \<longleftrightarrow> (\<forall>x \<in> A. \<forall>y \<in> A. x \<noteq> y \<longrightarrow> (cmp x y \<le> 0) \<noteq> (cmp y x \<le> 0))
     \<and> (\<forall>x \<in> A. \<forall>y \<in> A. \<forall>z \<in> A. cmp x y \<le> 0 \<longrightarrow> cmp y z \<le> 0 \<longrightarrow> cmp x z \<le> 0) \<and> (\<forall>x \<in> A. cmp x x \<le> 0)"

lemma insert_cmp_mset: "mset (insert_cmp cmp x ys) = add_mset x (mset ys)"
  by (induction ys) auto

lemma sort_cmp_mset: "mset (sort_cmp cmp xs) = mset xs"
  by (induction xs) (simp_all add: sort_cmp_def insert_cmp_mset)

lemma sort_cmp_set: "set (sort_cmp cmp xs) = set xs"
  by (rule mset_eq_setD [OF sort_cmp_mset])

lemma insert_cmp_set: "set (insert_cmp cmp x ys) = insert x (set ys)"
  by (induction ys) auto

lemma insert_cmp_sorted:
  assumes "orders cmp A" and "set (x # ys) \<subseteq> A" and "sorted_wrt (\<lambda>a b. cmp a b \<le> 0) ys"
  shows "sorted_wrt (\<lambda>a b. cmp a b \<le> 0) (insert_cmp cmp x ys)"
  using assms(2,3)
proof (induction ys)
  case (Cons y ys)
  have A: "x \<in> A" "y \<in> A" "set ys \<subseteq> A" using Cons.prems(1) by auto
  show ?case
  proof (cases "cmp x y \<le> 0")
    case True
    then have "cmp x z \<le> 0" if "z \<in> set ys" for z
      using that Cons.prems A assms(1) unfolding orders_def by (metis (no_types, lifting) sorted_wrt.simps(2) subsetD)
    then show ?thesis using True Cons.prems(2) by auto
  next
    case False
    then have "cmp y x \<le> 0" using assms(1) A unfolding orders_def by metis
    then show ?thesis using False Cons.IH Cons.prems by (auto simp: insert_cmp_set)
  qed
qed simp

lemma sort_cmp_sorted:
  assumes "orders cmp A" and "set xs \<subseteq> A"
  shows "sorted_wrt (\<lambda>a b. cmp a b \<le> 0) (sort_cmp cmp xs)"
  using assms(2)
proof (induction xs)
  case (Cons x xs)
  have "set (sort_cmp cmp xs) \<subseteq> A" using Cons.prems by (auto simp: sort_cmp_set)
  then show ?case
    using Cons insert_cmp_sorted [OF assms(1), of x "sort_cmp cmp xs"] by (auto simp: sort_cmp_def)
qed (simp add: sort_cmp_def)

lemma sorted_unique:
  assumes "orders cmp A" and "set xs \<subseteq> A" and "mset xs = mset ys"
    and "sorted_wrt (\<lambda>a b. cmp a b \<le> 0) xs" and "sorted_wrt (\<lambda>a b. cmp a b \<le> 0) ys"
  shows "xs = ys"
  using assms(2-)
proof (induction xs arbitrary: ys)
  case (Cons x xs)
  obtain y ys' where ys: "ys = y # ys'" using Cons.prems(2) by (cases ys) auto
  have mem: "y \<in> set (x # xs)" "x \<in> set ys" using Cons.prems(2) mset_eq_setD ys by fastforce+
  have "x = y"
  proof (rule ccontr)
    assume "x \<noteq> y"
    then have "cmp x y \<le> 0" "cmp y x \<le> 0" using mem Cons.prems(3,4) ys by auto
    then show False using assms(1) \<open>x \<noteq> y\<close> mem(1) Cons.prems(1) unfolding orders_def
      by (metis list.set_intros(1) subset_code(1))
  qed
  then show ?case using Cons.IH [of ys'] Cons.prems ys by auto
qed simp

lemma sort_cmp_cong:
  assumes "orders cmp (set xs)" and "mset xs = mset ys"
  shows "sort_cmp cmp xs = sort_cmp cmp ys"
proof (rule sorted_unique [OF assms(1)])
  have "set ys = set xs" using assms(2) by (metis mset_eq_setD)
  then show "sorted_wrt (\<lambda>a b. cmp a b \<le> 0) (sort_cmp cmp xs)" "sorted_wrt (\<lambda>a b. cmp a b \<le> 0) (sort_cmp cmp ys)"
    using sort_cmp_sorted [OF assms(1)] by auto
qed (simp_all add: sort_cmp_set sort_cmp_mset assms(2))


text \<open>A payload with the keys of its objects, all of them texts of \<open>K\<close>, in another order at any depth.\<close>

inductive reordered :: "string set \<Rightarrow> json \<Rightarrow> json \<Rightarrow> bool" for K where
  reordered_refl: "reordered K v v"
| reordered_arr: "list_all2 (reordered K) es fs \<Longrightarrow> reordered K (JArr es) (JArr fs)"
| reordered_obj: "list_all2 (\<lambda>p q. fst p = fst q \<and> reordered K (snd p) (snd q)) ps rs \<Longrightarrow> mset rs = mset qs \<Longrightarrow>
    distinct (map fst qs) \<Longrightarrow> fst ` set qs \<subseteq> K \<Longrightarrow> reordered K (JObj ps) (JObj qs)"

lemma reordered_undef: "reordered K v w \<Longrightarrow> v = JUndef \<longleftrightarrow> w = JUndef"
  by (auto elim: reordered.cases)

abbreviation canon_entries :: "(string \<Rightarrow> string \<Rightarrow> int) \<Rightarrow> (json \<Rightarrow> string) \<Rightarrow> (string \<times> json) list \<Rightarrow> (string \<times> json) list" where
  "canon_entries lc st ps \<equiv> map (\<lambda>(k, v). (k, canonicalize lc st v)) (filter (\<lambda>(k, v). v \<noteq> JUndef) ps)"

lemma canonicalize_reordered:
  assumes "orders lc K" and "reordered K v w"
  shows "canonicalize lc st v = canonicalize lc st w"
  using assms(2)
proof (induction rule: reordered.induct)
  case (reordered_arr es fs)
  then have "map (canonicalize lc st) es = map (canonicalize lc st) fs"
    by (induction rule: list_all2_induct) simp_all
  then show ?case by simp
next
  case (reordered_obj ps rs qs)
  have entries: "canon_entries lc st ps = canon_entries lc st rs"
    using reordered_obj.IH(1)
    by (induction rule: list_all2_induct) (auto dest: reordered_undef)
  have "mset (canon_entries lc st rs) = mset (canon_entries lc st qs)"
    using reordered_obj.hyps(1) by (simp add: mset_filter)
  moreover have "orders (\<lambda>a b. lc (fst a) (fst b)) (set (canon_entries lc st qs))"
  proof -
    have keys: "map fst (canon_entries lc st qs) = map fst (filter (\<lambda>(k, v). v \<noteq> JUndef) qs)" by auto
    have dist: "distinct (map fst (canon_entries lc st qs))"
      unfolding keys using reordered_obj.hyps(2) by (rule distinct_map_filter)
    have inj: "fst x \<noteq> fst y" if "x \<in> set (canon_entries lc st qs)" "y \<in> set (canon_entries lc st qs)" "x \<noteq> y" for x y
      using that dist by (meson distinct_map inj_onD)
    have sub: "fst x \<in> K" if "x \<in> set (canon_entries lc st qs)" for x
      using that reordered_obj.hyps(3) by auto
    show ?thesis unfolding orders_def
    proof (intro conjI ballI impI)
      fix x y assume "x \<in> set (canon_entries lc st qs)" "y \<in> set (canon_entries lc st qs)" "x \<noteq> y"
      then have "fst x \<in> K" "fst y \<in> K" "fst x \<noteq> fst y" using sub inj by blast+
      then show "(lc (fst x) (fst y) \<le> 0) \<noteq> (lc (fst y) (fst x) \<le> 0)" using assms(1) unfolding orders_def by blast
    next
      fix x y z
      assume "x \<in> set (canon_entries lc st qs)" "y \<in> set (canon_entries lc st qs)" "z \<in> set (canon_entries lc st qs)"
        and "lc (fst x) (fst y) \<le> 0" "lc (fst y) (fst z) \<le> 0"
      then show "lc (fst x) (fst z) \<le> 0" using assms(1) sub unfolding orders_def by blast
    next
      fix x assume "x \<in> set (canon_entries lc st qs)"
      then show "lc (fst x) (fst x) \<le> 0" using assms(1) sub unfolding orders_def by blast
    qed
  qed
  ultimately show ?case
    unfolding canonicalize.simps entries using sort_cmp_cong [of _ "canon_entries lc st qs" "canon_entries lc st rs"] by simp
qed simp

end
