(* ===== verification/Withdrawal.thy ===== *)
theory Withdrawal
  imports Links
begin

text \<open>
  The nightly timeout against a cancellation by the applicant: up to the journal and the fields of
  the head that say who cancelled, the two leave the same database.
\<close>

section \<open>A timeout is a cancellation\<close>

definition relabel :: "approval_request list \<Rightarrow> action_row list \<Rightarrow> asset_db \<Rightarrow> asset_db" where
  "relabel hs as d = d\<lparr>sd_heads := hs, sd_acts := as\<rparr>"

lemma relabel_simps [simp]:
  "relabel (sd_heads d) (sd_acts d) d = d" "sd_heads (relabel hs as d) = hs" "sd_acts (relabel hs as d) = as"
  "requestLines i (relabel hs as d) = requestLines i d" "changeLines i (relabel hs as d) = changeLines i d"
  "relabel hs as (relabel hs' as' d) = relabel hs as d"
  by (simp_all add: relabel_def requestLines_def changeLines_def)

lemma foldR_commute:
  assumes "foldR f xs s = Inr s'" and "\<And>x s s'. f x s = Inr s' \<Longrightarrow> f x (g s) = Inr (g s')"
  shows "foldR f xs (g s) = Inr (g s')"
  using assms(1)
proof (induction xs arbitrary: s)
  case (Cons x xs)
  then obtain t where "f x s = Inr t" "foldR f xs t = Inr s'" by (auto simp: bindR_Inr_iff)
  then show ?case using Cons.IH assms(2) by simp
qed simp

lemma releaseReserved_relabel:
  "releaseReserved k q d = Inr d' \<Longrightarrow> releaseReserved k q (relabel hs as d) = Inr (relabel hs as d')"
  by (auto simp: releaseReserved_def relabel_def bindR_Inr_iff)

lemma applyRelease_relabel:
  assumes "applyRelease s d = Inr d'"
  shows "applyRelease s (relabel hs as d) = Inr (relabel hs as d')"
proof -
  have one: "releaseReserved k q e = Inr e' \<Longrightarrow> releaseReserved k q (relabel hs as e) = Inr (relabel hs as e')" for k q e e'
    by (rule releaseReserved_relabel)
  have lines: "releaseLines ls e = Inr e' \<Longrightarrow> releaseLines ls (relabel hs as e) = Inr (relabel hs as e')" for ls e e'
    unfolding releaseLines_def by (rule foldR_commute) (auto intro: one)
  have quota: "setQuotas i RELEASED (relabel hs as e) = relabel hs as (setQuotas i RELEASED e)" for i e
    by (simp add: setQuotas_def relabel_def)
  have change: "changeApplyRelease s e = Inr e' \<Longrightarrow> changeApplyRelease s (relabel hs as e) = Inr (relabel hs as e')" for e e'
    unfolding changeApplyRelease_def relabel_simps by (rule foldR_commute) (auto intro: one)
  show ?thesis
    using assms lines change
    by (auto simp: applyRelease_def claimApplyRelease_def agentApplyRelease_def bindR_Inr_iff quota split: if_splits)
qed

lemma applyRelease_heads:
  assumes "applyRelease s d = Inr d'"
  shows "sd_heads d' = sd_heads d" and "sd_acts d' = sd_acts d"
proof -
  have "Inr d' = (Inr (relabel (sd_heads d) (sd_acts d) d') :: err + asset_db)"
    using applyRelease_relabel [OF assms, of "sd_heads d" "sd_acts d"] assms by simp
  then have "d' = relabel (sd_heads d) (sd_acts d) d'" by simp
  then show "sd_heads d' = sd_heads d" and "sd_acts d' = sd_acts d" by (metis relabel_simps(2,3))+
qed

lemma cancel_run_eq:
  assumes "find_head i db = Some h" and "ah_status h = PENDING" and "ah_applicantId h = actor \<or> ah_proxyId h = Some actor"
  shows "cancel_run dir now i actor db =
    bindR (transition_head i (ah_version h) (cancelled_by actor now) db) (\<lambda>db1.
    bindR (applyRelease (side_of h None None) db1) (\<lambda>db2.
    Inr (\<lparr>oc_result = JUndef, oc_action = UPDATE, oc_summary = ''cancelled''\<rparr>,
      add_action \<lparr>ac_requestId = i, ac_action = approval_action.CANCEL, ac_actorId = actor,
               ac_actorName = loadUserName actor dir, ac_opinion = None, ac_cancelSource = Some USER,
               ac_createdAt = now\<rparr> db2)))"
proof -
  have actor: "\<not> (ah_applicantId h \<noteq> actor \<and> ah_proxyId h \<noteq> Some actor)" using assms(3) by blast
  have bind: "bindR (bindR m f) g = bindR m (\<lambda>x. bindR (f x) g)" for m :: "err + 'x" and f :: "'x \<Rightarrow> err + 'y" and g :: "'y \<Rightarrow> err + 'z"
    by (cases m) simp_all
  show ?thesis
    unfolding cancel_run_def cancelInner_def assms(1) option.case if_not_P [OF actor]
    by (simp add: assms(2) assertPending_def assertTransitionAllowed_def bind)
qed

lemma timeout_cancel:
  assumes inv: "reserve_inv db" and lk: "links_ok db" and h: "find_head i db = Some h" and p: "ah_status h = PENDING"
    and actor: "ah_applicantId h = actor \<or> ah_proxyId h = Some actor"
    and row: "or_id row = i" "or_version row = ah_version h" "or_requestType row = ah_requestType h"
  obtains out db1 db2 where "cancel_run dir now i actor db = Inr (out, db1)"
    and "autoCancelOverdueRow tx asset_hook now row db = (Inr True, db2)"
    and "db2 = relabel (sd_heads db2) (sd_acts db2) db1"
    and "map (\<lambda>g. (ah_id g, ah_status g, ah_version g)) (sd_heads db2) =
      map (\<lambda>g. (ah_id g, ah_status g, ah_version g)) (sd_heads db1)"
proof -
  have mem: "h \<in> set (sd_heads db)" "ah_id h = i" using h by (auto simp: find_head_def find_Some_iff)
  have pend: "pending_at (or_id row) (or_version row) h" using mem p row by (simp add: pending_at_def)
  obtain res db2 where run: "autoCancelOverdueRow tx asset_hook now row db = (res, db2)"
    by (cases "autoCancelOverdueRow tx asset_hook now row db")
  let ?t = "db\<lparr>sd_heads := cancel_ids now {or_id row} (sd_heads db), sd_acts := sd_acts db @ [auto_cancel_action now row]\<rparr>"
  from timeout_row [OF inv lk mem(1) _ row(3) run] mem(2) row(1) pend
  have res: "res = Inr True" and rel: "applyRelease (side_of h None None) ?t = Inr db2" by auto
  obtain d1 where tr: "transition_head i (ah_version h) (cancelled_by actor now) db = Inr d1"
    using transition_head_ex [OF h p] by blast
  let ?f = "\<lambda>g. (cancelled_by actor now g)\<lparr>ah_version := ah_version g + 1\<rparr>"
  have d1: "d1 = db\<lparr>sd_heads := update_where (pending_at i (ah_version h)) ?f (sd_heads db)\<rparr>"
    using tr by (auto simp: transition_head_def cas_head_def bindR_Inr_iff)
  then have d1_rel: "d1 = relabel (sd_heads d1) (sd_acts d1) ?t" by (simp add: relabel_def)
  have rel1: "applyRelease (side_of h None None) d1 = Inr (relabel (sd_heads d1) (sd_acts d1) db2)"
    by (subst d1_rel) (rule applyRelease_relabel [OF rel])
  let ?a = "\<lparr>ac_requestId = i, ac_action = approval_action.CANCEL, ac_actorId = actor,
      ac_actorName = loadUserName actor dir, ac_opinion = None, ac_cancelSource = Some USER, ac_createdAt = now\<rparr>"
  let ?c = "add_action ?a (relabel (sd_heads d1) (sd_acts d1) db2)"
  have run1: "\<exists>out. cancel_run dir now i actor db = Inr (out, ?c)"
    unfolding cancel_run_eq [OF h p actor] tr bindR_simps rel1 by blast
  have "sd_heads db2 = cancel_ids now {i} (sd_heads db)" using applyRelease_heads(1) [OF rel] row(1) by simp
  moreover have "cancel_ids now {i} (sd_heads db) =
      update_where (pending_at i (ah_version h)) (\<lambda>g. (cancelled_overdue now g)\<lparr>ah_version := ah_version g + 1\<rparr>) (sd_heads db)"
  proof -
    have d: "distinct (map ah_id (sd_heads db))" using inv by (simp add: reserve_inv_def requests_ok_def keyed_def)
    have "cas_head i (ah_version h) (cancelled_overdue now) (sd_heads db) = (1, cancel_ids now {i} (sd_heads db))"
      by (rule cas_head_cancel [OF d mem(1)]) (use pend row in simp)
    then show ?thesis by (simp add: cas_head_def)
  qed
  moreover have "sd_heads ?c = update_where (pending_at i (ah_version h)) ?f (sd_heads db)" by (simp add: add_action_def d1)
  ultimately have "map (\<lambda>g. (ah_id g, ah_status g, ah_version g)) (sd_heads db2) =
      map (\<lambda>g. (ah_id g, ah_status g, ah_version g)) (sd_heads ?c)"
    by (simp add: update_where_def cancelled_overdue_def cancelled_by_def)
  moreover have "db2 = relabel (sd_heads db2) (sd_acts db2) ?c" by (simp add: add_action_def relabel_def)
  ultimately show ?thesis using run res run1 that by blast
qed

end
