(* ===== verification/Refinement.thy ===== *)
theory Refinement
  imports Withdrawal Operations
begin

text \<open>
  The abstract promise of the stock: how much of each item is there, and how much of it each pending
  request holds. Every step of the system is a step of this machine or leaves it alone.
\<close>

section \<open>The abstract machine\<close>

record stock_view =
  sv_stock :: "int \<Rightarrow> int"
  sv_held :: "int \<Rightarrow> int \<Rightarrow> int"

inductive view_step :: "stock_view \<Rightarrow> stock_view \<Rightarrow> bool" where
  hold: "sv_held s i = none0 \<Longrightarrow> (\<And>k. 0 \<le> d k) \<Longrightarrow> view_step s (s\<lparr>sv_held := (sv_held s)(i := d)\<rparr>)"
| free: "view_step s (s\<lparr>sv_held := (sv_held s)(i := none0)\<rparr>)"
| issue: "view_step s (s\<lparr>sv_stock := (\<lambda>k. sv_stock s k - sv_held s i k), sv_held := (sv_held s)(i := none0)\<rparr>)"
| adjust: "view_step s (s\<lparr>sv_stock := padd (sv_stock s) f\<rparr>)"

definition held :: "asset_db \<Rightarrow> int \<Rightarrow> int \<Rightarrow> int" where
  "held db i k = (if is_pending CLAIM_TYPES (sd_heads db) i then claim_part db i k else 0)
     + (if is_pending CHANGE_TYPES (sd_heads db) i then change_part db i k else 0)"

definition view :: "asset_db \<Rightarrow> stock_view" where
  "view db = \<lparr>sv_stock = stock db, sv_held = held db\<rparr>"

text \<open>What the requests hold is there, item by item; only finitely many requests hold anything.\<close>

definition view_ok :: "stock_view \<Rightarrow> bool" where
  "view_ok s \<longleftrightarrow> (\<exists>I. finite I \<and> (\<forall>i. i \<notin> I \<longrightarrow> sv_held s i = none0) \<and> (\<forall>i k. 0 \<le> sv_held s i k)
     \<and> (\<forall>k. (\<Sum>i \<in> I. sv_held s i k) \<le> sv_stock s k))"

section \<open>The reservations are what the requests hold\<close>

lemma sum_where_group:
  assumes "finite I" and "\<And>r. r \<in> set rs \<Longrightarrow> P (key r) \<Longrightarrow> key r \<in> I"
  shows "sum_where (\<lambda>r. Q r \<and> P (key r)) q rs = (\<Sum>i \<in> I. if P i then sum_where (\<lambda>r. Q r \<and> key r = i) q rs else 0)"
  using assms(2)
proof (induction rs)
  case (Cons a rs)
  have "(\<Sum>i \<in> I. if P i then sum_where (\<lambda>r. Q r \<and> key r = i) q (a # rs) else 0)
    = (\<Sum>i \<in> I. (if key a = i then (if Q a \<and> P i then q a else 0) else 0) + (if P i then sum_where (\<lambda>r. Q r \<and> key r = i) q rs else 0))"
    by (rule sum.cong) auto
  also have "\<dots> = (if Q a \<and> P (key a) then q a else 0) + sum_where (\<lambda>r. Q r \<and> P (key r)) q rs"
    using Cons assms(1) by (auto simp: sum.distrib)
  finally show ?case by simp
qed (simp add: sum_where_def cong: if_cong)

lemma pend_held:
  "pend db k = (\<Sum>i \<in> set (map ah_id (sd_heads db)). held db i k)"
proof -
  let ?I = "set (map ah_id (sd_heads db))"
  have mem: "is_pending types (sd_heads db) i \<Longrightarrow> i \<in> ?I" for types i by (auto simp: is_pending_def)
  show ?thesis
    unfolding pend_def held_def claim_part_def change_part_def sum.distrib
    by (subst (1 2) sum_where_group [where I = ?I]) (use mem in auto)
qed

lemma part_nonneg: "requests_ok db \<Longrightarrow> 0 \<le> claim_part db i k" "requests_ok db \<Longrightarrow> 0 \<le> change_part db i k"
  by (auto simp: claim_part_def change_part_def requests_ok_def intro!: sum_where_nonneg intro: less_imp_le)

lemma reserved_range:
  assumes "tables_ok db"
  shows "0 \<le> reserved db k" and "reserved db k \<le> book db k"
proof -
  have "0 \<le> reserved db k \<and> reserved db k \<le> book db k"
  proof (cases "\<exists>i \<in> set (db_items db). it_id i = k")
    case True
    then obtain i where i: "i \<in> set (db_items db)" "it_id i = k" by blast
    have "item_ok i" using tables_okD(3) [OF assms i(1)] by simp
    then show ?thesis using book_row [OF assms i(1)] i(2) by (auto simp: item_ok_def)
  next
    case False
    then show ?thesis using book_absent [OF False] by simp
  qed
  then show "0 \<le> reserved db k" and "reserved db k \<le> book db k" by simp_all
qed

lemma asset_inv_view_ok:
  assumes "asset_inv db"
  shows "view_ok (view db)"
proof -
  have inv: "stock_inv db" "requests_ok db" "reserved db = pend db" using assms by (simp_all add: asset_inv_def reserve_inv_def)
  show ?thesis unfolding view_ok_def
  proof (intro exI [of _ "set (map ah_id (sd_heads db))"] conjI allI impI)
    fix i assume "i \<notin> set (map ah_id (sd_heads db))"
    then have "\<not> is_pending types (sd_heads db) i" for types by (auto simp: is_pending_def)
    then show "sv_held (view db) i = none0" by (simp add: view_def fun_eq_iff held_def none0_def)
  next
    fix i k show "0 \<le> sv_held (view db) i k" using part_nonneg [OF inv(2)] by (simp add: view_def held_def)
  next
    fix k
    have "reserved db k \<le> stock db k" using inv(1) reserved_range(2) [of db k] by (simp add: stock_inv_def)
    then show "(\<Sum>i \<in> set (map ah_id (sd_heads db)). sv_held (view db) i k) \<le> sv_stock (view db) k"
      using inv(3) pend_held [of db k] by (simp add: view_def)
  qed simp
qed

section \<open>Simulation\<close>

lemma held_frame: "same_requests db db' \<Longrightarrow> held db' = held db"
  by (simp add: fun_eq_iff held_def same_requests_def claim_part_def change_part_def)

lemma view_logs: "view (db\<lparr>db_logs := ls\<rparr>) = view db"
  by (simp add: view_def fun_eq_iff held_def claim_part_def change_part_def stock_def)

lemma view_action: "view (add_action a db) = view db"
  by (simp add: view_def fun_eq_iff held_def claim_part_def change_part_def stock_def add_action_def)

lemma balanced_view: "balanced db db' \<Longrightarrow> view_step (view db) (view db')"
proof -
  assume b: "balanced db db'"
  then obtain f where "stock db' = padd (stock db) f" "same_requests db db'" by (auto simp: balanced_def shifts_def)
  then have "view db' = (view db)\<lparr>sv_stock := padd (sv_stock (view db)) f\<rparr>" by (simp add: view_def held_frame)
  then show ?thesis using adjust [of "view db" f] by simp
qed

lemma held_claim_change: "held db i k = req_part db t i k"
  if "distinct (map ah_id (sd_heads db))" "h \<in> set (sd_heads db)" "ah_id h = i" "ah_status h = PENDING" "ah_requestType h = t"
proof -
  have "is_pending types (sd_heads db) i \<longleftrightarrow> t \<in> set types" for types
    using that unfolding is_pending_def by (metis (no_types, lifting) distinct_map inj_onD)
  then show ?thesis by (simp add: held_def req_part_def)
qed

lemma leaves_held:
  assumes lv: "leaves db db1 h" and "reserve_inv db"
  shows "held db1 = (held db)(ah_id h := none0)" and "held db (ah_id h) = req_part db (ah_requestType h) (ah_id h)"
proof -
  have "distinct (map ah_id (sd_heads db))" using assms(2) by (simp add: reserve_inv_def requests_ok_def keyed_def)
  then show "held db (ah_id h) = req_part db (ah_requestType h) (ah_id h)"
    using lv held_claim_change [of db h] by (auto simp: leaves_def)
  show "held db1 = (held db)(ah_id h := none0)"
    using lv by (auto simp: fun_eq_iff held_def leaves_def claim_part_def change_part_def none0_def)
qed

lemma resolved_view:
  assumes lv: "leaves db db1 h" and inv: "reserve_inv db"
    and res: "resolved db1 db2 h (req_part db (ah_requestType h) (ah_id h))"
  shows "view_step (view db) (view db2)"
proof -
  note held = leaves_held [OF lv inv]
  have st: "stock db1 = stock db" using lv by (simp add: fun_eq_iff stock_def leaves_def)
  let ?p = "req_part db (ah_requestType h) (ah_id h)"
  from res [unfolded resolved_def] show ?thesis
  proof (elim disjE conjE)
    assume "issued db1 db2 ?p"
    then have "stock db2 = (\<lambda>k. stock db k - held db (ah_id h) k)" "held db2 = (held db)(ah_id h := none0)"
      using held held_frame st by (auto simp: issued_def shifts_def padd_def)
    then show ?thesis using issue [of "view db" "ah_id h"] by (simp add: view_def)
  next
    assume "released db1 db2 ?p"
    then have "stock db2 = stock db" "held db2 = (held db)(ah_id h := none0)"
      using held held_frame st by (auto simp: released_def shifts_def)
    then show ?thesis using free [of "view db" "ah_id h"] by (simp add: view_def)
  next
    assume b: "balanced db1 db2" and no: "ah_requestType h \<notin> set CLAIM_TYPES" "ah_requestType h \<notin> set CHANGE_TYPES"
    have "?p = none0" using no by (simp add: fun_eq_iff req_part_def none0_def)
    then have "held db1 = held db" using held by auto
    then have "view db1 = view db" using st by (simp add: view_def)
    then show ?thesis using balanced_view [OF b] by simp
  qed
qed

lemma submits_view:
  assumes r: "requests_ok db" and "submits db db' i a d"
  shows "view_step (view db) (view db')"
proof -
  obtain h rs cs where sub: "submitted db db' h rs cs" and i: "ah_id h = i" and sh: "shifts db db' none0 d none0 none0"
    and d: "\<And>k. d k = (if ah_requestType h \<in> set CLAIM_TYPES then demand ri_itemId ri_qty rs k else 0)
          + (if ah_requestType h \<in> set CHANGE_TYPES then demand ch_itemId ch_qty cs k else 0)"
    using assms(2) by (auto simp: submits_def)
  have new: "i = db_seq db TRequests" using sub i by (simp add: submitted_def)
  note p = submitted_pending [OF r sub]
  have tabs: "db_requestItems db' = db_requestItems db @ rs" "db_changeItems db' = db_changeItems db @ cs"
    using sub by (simp_all add: submitted_def)
  have old: "\<not> is_pending types (sd_heads db) i" for types
    using r new by (auto simp: is_pending_def requests_ok_def keyed_def)
  have none: "held db i = none0" by (simp add: fun_eq_iff held_def old none0_def)
  have other: "sum_where (\<lambda>r. ri_itemId r = k \<and> ri_requestId r = j) ri_qty rs = 0"
    "sum_where (\<lambda>c. ch_itemId c = k \<and> ch_requestId c = j) ch_qty cs = 0" if "j \<noteq> i" for j k
    using that sub i by (intro sum_where_none; auto simp: submitted_def)+
  have gone: "\<not> is_pending types (sd_heads db') j = (\<not> is_pending types (sd_heads db) j)" if "j \<noteq> i" for types j
    using that sub i by (auto simp: is_pending_def submitted_def)
  have same: "held db' j k = held db j k" if "j \<noteq> i" for j k
    using gone [OF that] other [OF that, of k] by (simp add: held_def claim_part_def change_part_def tabs)
  have "held db' i = d"
  proof -
    obtain h' where "find (\<lambda>h. ah_id h = i) (sd_heads db') = Some h'" "ah_status h' = PENDING"
      "req_part db' (ah_requestType h') i = d"
      using submits_head [OF assms] by blast
    moreover have "distinct (map ah_id (sd_heads db'))"
      using submitted_requests_ok [OF r sub] by (simp add: requests_ok_def keyed_def)
    ultimately show ?thesis using held_claim_change [of db' h'] by (auto simp: find_Some_iff fun_eq_iff)
  qed
  then have "held db' = (held db)(i := d)" using same by (auto simp: fun_eq_iff)
  moreover have "stock db' = stock db" using sh by (simp add: shifts_def)
  moreover have "0 \<le> d k" for k
  proof -
    have "0 \<le> demand ri_itemId ri_qty rs k" "0 \<le> demand ch_itemId ch_qty cs k"
      using sub by (auto simp: submitted_def less_imp_le intro!: demand_nonneg)
    then show ?thesis by (simp add: d)
  qed
  ultimately show ?thesis using hold [of "view db" i d] none by (simp add: view_def)
qed

text \<open>Every effect is one step of the machine, and so is every step of the system.\<close>

lemma effect_view: "reserve_inv db \<Longrightarrow> effect db d \<Longrightarrow> view_step (view db) (view d)"
  unfolding effect_def
  using submits_view balanced_view resolved_view by (auto simp: view_action reserve_inv_def)

lemma view_stay: "view_step s s"
  using adjust [of s none0] by simp

lemma view_config: "view (db\<lparr>db_consumables := cs, db_warehouses := ws, db_dict := ds\<rparr>) = view db"
  by (simp add: view_def fun_eq_iff held_def claim_part_def change_part_def stock_def)

lemma asset_step_view:
  assumes "asset_step db db'" and "asset_inv db"
  shows "view_step (view db) (view db')"
proof -
  have inv: "reserve_inv db" using assms(2) by (simp add: asset_inv_def)
  show ?thesis
    using asset_step_sound [OF assms] effect_view [OF inv] view_stay view_logs view_config
    unfolding sound_step_def by metis
qed

end
