(* ===== verification/HrDb.thy ===== *)
theory HrDb
  imports AssetApproval
begin

text \<open>
  The tables of the \<open>hr\<close> schema (\<open>apps/hr/prisma/hr.prisma\<close>) that the organisation, the overtime
  requests and their approval read or write, the view of the organisation the access decisions
  use, and the idempotent execution of \<open>apps/hr/src/shared/hr-operation-log.util.ts\<close>. Columns
  that only say who wrote a row and when are left out. A day is its number since the epoch.
\<close>

section \<open>Rows\<close>

record department_row =
  de_id :: int
  de_parentId :: "int option"
  de_name :: string
  de_sort :: int
  de_status :: dict_status

record leader_row =
  dl_departmentId :: int
  dl_userId :: int
  dl_userName :: string

record position_row =
  po_id :: int
  po_name :: string
  po_description :: "string option"
  po_status :: dict_status
  po_sort :: int
  po_allowSelfApply :: bool

record user_position =
  up_userId :: int
  up_positionId :: "int option"
  up_assignedBy :: int

record hr_request = approval_head +
  hq_applicationNo :: string
  hq_applicantName :: string
  hq_proxyName :: "string option"
  hq_cancelledBy :: "int option"
  hq_processorId :: "int option"
  hq_processorName :: "string option"
  hq_processedAt :: "int option"
  hq_opinion :: "string option"

record overtime_item =
  oi_requestId :: int
  oi_userId :: int
  oi_userName :: string
  oi_departmentSnapshot :: json
  oi_positionIdSnapshot :: "int option"
  oi_positionNameSnapshot :: "string option"
  oi_overtimeDate :: int
  oi_startMinute :: int
  oi_endMinute :: int
  oi_reason :: string
  oi_holidaySnapshot :: json
  oi_isBackfill :: bool

record position_change =
  pc_requestId :: int
  pc_userId :: int
  pc_userName :: string
  pc_departmentSnapshot :: json
  pc_targetDepartmentId :: int
  pc_targetDepartmentName :: string
  pc_targetPositionId :: int
  pc_targetPositionName :: string

record compat_row =
  ct_userId :: int
  ct_restoreRequestId :: string
  ct_clearedDepartments :: "(int \<times> string) list option"
  ct_positionCleared :: bool

datatype hr_table = HRequests | HDepartments | HPositions

text \<open>
  The tables that only relate two rows are lists of pairs: a position with a department it applies
  to, a user with a department.
\<close>

record hr_db = "(unit hr_request_ext) schema_db" +
  hd_departments :: "department_row list"
  hd_leaders :: "leader_row list"
  hd_positions :: "position_row list"
  hd_positionDepartments :: "(int \<times> int) list"
  hd_userDepartments :: "(int \<times> int) list"
  hd_userPositions :: "user_position list"
  hd_overtime :: "overtime_item list"
  hd_changes :: "position_change list"
  hd_compat :: "compat_row list"
  hd_orgMeta :: "(int \<times> int) option"
  hd_logs :: "log_row list"
  hd_seq :: "hr_table \<Rightarrow> int"

definition hr_nextval :: "hr_table \<Rightarrow> hr_db \<Rightarrow> int \<times> hr_db" where
  "hr_nextval t db = (hd_seq db t, db\<lparr>hd_seq := (hd_seq db)(t := hd_seq db t + 1)\<rparr>)"

section \<open>Versions of the organisation\<close>

text \<open>An upsert of the single row: the user and the tree version, both 0 by default.\<close>

definition bumpUserOrgVersion :: "hr_db \<Rightarrow> hr_db" where
  "bumpUserOrgVersion db =
     db\<lparr>hd_orgMeta := Some (case hd_orgMeta db of None \<Rightarrow> (1, 0) | Some (u, t) \<Rightarrow> (u + 1, t))\<rparr>"

definition bumpOrgTreeVersion :: "hr_db \<Rightarrow> hr_db" where
  "bumpOrgTreeVersion db =
     db\<lparr>hd_orgMeta := Some (case hd_orgMeta db of None \<Rightarrow> (0, 1) | Some (u, t) \<Rightarrow> (u, t + 1))\<rparr>"

section \<open>Views\<close>

definition findDepartment :: "int \<Rightarrow> hr_db \<Rightarrow> department_row option" where
  "findDepartment i db = find (\<lambda>d. de_id d = i) (hd_departments db)"

definition findPosition :: "int \<Rightarrow> hr_db \<Rightarrow> position_row option" where
  "findPosition i db = find (\<lambda>p. po_id p = i) (hd_positions db)"

definition parentOf :: "department_row list \<Rightarrow> int \<Rightarrow> int option" where
  "parentOf ds i = (case find (\<lambda>d. de_id d = i) ds of None \<Rightarrow> None | Some d \<Rightarrow> de_parentId d)"

text \<open>
  The chain from a department up to the root, as the recursive view \<open>hr.department_closure\<close> follows
  it: a department already on the path ends it.
\<close>

function chain :: "department_row list \<Rightarrow> int list \<Rightarrow> int option \<Rightarrow> int list" where
  "chain ds visited None = []"
| "chain ds visited (Some c) =
     (if c \<in> set visited \<or> c \<notin> de_id ` set ds then [] else c # chain ds (c # visited) (parentOf ds c))"
  by pat_completeness auto

lemma chain_step:
  assumes "c \<in> de_id ` set ds" and "c \<notin> set visited"
  shows "card (de_id ` set ds - set (c # visited)) < card (de_id ` set ds - set visited)"
  using assms by (intro psubset_card_mono) auto

termination chain
proof (relation "measure (\<lambda>(ds, visited, cur). card (de_id ` set ds - set visited))")
  fix ds :: "department_row list" and visited c
  assume "\<not> (c \<in> set visited \<or> c \<notin> de_id ` set ds)"
  then show "((ds, c # visited, parentOf ds c), ds, visited, Some c)
      \<in> measure (\<lambda>(ds, visited, cur). card (de_id ` set ds - set visited))"
    unfolding in_measure prod.case by (intro chain_step) auto
qed simp

definition department_closure :: "hr_db \<Rightarrow> (int \<times> int) list" where
  "department_closure db =
     concat (map (\<lambda>d. map (\<lambda>a. (a, de_id d)) (chain (hd_departments db) [] (Some (de_id d)))) (hd_departments db))"

definition user_org :: "hr_db \<Rightarrow> org_row list" where
  "user_org db =
     concat (map (\<lambda>(u, d). map (\<lambda>r. \<lparr>uo_userId = u, uo_departmentId = d, uo_departmentName = de_name r\<rparr>)
       (filter (\<lambda>r. de_id r = d) (hd_departments db))) (hd_userDepartments db))"

text \<open>The accounts and grants of \<open>backstage\<close> with the views of the organisation in its present state.\<close>

definition hr_directory :: "directory \<Rightarrow> hr_db \<Rightarrow> directory" where
  "hr_directory dir db = dir\<lparr>dir_orgs := user_org db, dir_closure := department_closure db\<rparr>"

section \<open>Idempotent execution\<close>

definition loadHrOperationLogOperator ::
    "directory \<Rightarrow> int \<Rightarrow> hr_db \<Rightarrow> err + (operator \<times> (int \<times> string) list)" where
  "loadHrOperationLogOperator dir operatorId db =
     (case loadSessionUser operatorId dir of
        None \<Rightarrow> Inl (Biz UNAUTHORIZED)
      | Some user \<Rightarrow>
          Inr ((operatorId, loadUserName operatorId dir), loadOperatorDepartments (hr_directory dir db) operatorId))"

definition writeHrOperationLog :: "log_row \<Rightarrow> hr_db \<Rightarrow> err + hr_db" where
  "writeHrOperationLog entry db =
     bindR (insert_row (\<lambda>r. True) log_clash [''idempotency_scope'', ''idempotency_key''] entry (hd_logs db))
       (\<lambda>ls. Inr (db\<lparr>hd_logs := ls\<rparr>))"

definition findHrRecord :: "int \<Rightarrow> string \<Rightarrow> string \<Rightarrow> hr_db \<Rightarrow> log_row option" where
  "findHrRecord operatorId scope key db =
     find (\<lambda>l. lo_operatorId l = Some operatorId \<and> lo_system l = ''HR'' \<and> lo_scope l = Some scope \<and> lo_key l = Some key)
       (hd_logs db)"

record hr_options =
  ho_operator :: operator
  ho_feature :: string
  ho_scope :: string
  ho_key :: "string option"
  ho_fingerprint :: string
  ho_run :: "hr_db \<Rightarrow> err + (json outcome \<times> hr_db)"

definition hr_log :: "hr_options \<Rightarrow> string option \<Rightarrow> json outcome \<Rightarrow> log_row" where
  "hr_log opts key out =
     \<lparr>lo_operatorId = Some (fst (ho_operator opts)), lo_operatorName = Some (snd (ho_operator opts)),
      lo_system = ''HR'', lo_feature = ho_feature opts, lo_action = oc_action out, lo_summary = oc_summary out,
      lo_scope = (if key = None then None else Some (ho_scope opts)), lo_key = key,
      lo_fingerprint = (if key = None then None else Some (ho_fingerprint opts)),
      lo_result = (if key = None then JNull else column_json (oc_result out))\<rparr>"

definition hr_run_logged :: "hr_options \<Rightarrow> string option \<Rightarrow> hr_db \<Rightarrow> err + (json \<times> hr_db)" where
  "hr_run_logged opts key db =
     bindR (ho_run opts db) (\<lambda>(out, db1).
     bindR (writeHrOperationLog (hr_log opts key out) db1) (\<lambda>db2. Inr (oc_result out, db2)))"

definition hr_commit :: "hr_options \<Rightarrow> hr_db \<Rightarrow> err + (json \<times> hr_db)" where
  "hr_commit opts db =
     (case ho_key opts of
        Some (c # cs) \<Rightarrow>
          (case hr_run_logged opts (Some (c # cs)) db of
             Inr r \<Rightarrow> Inr r
           | Inl e \<Rightarrow>
               if isPrismaUniqueViolation e then
                 (case findHrRecord (fst (ho_operator opts)) (ho_scope opts) (c # cs) db of
                    Some concurrent \<Rightarrow> bindR (replayIdempotencyRecord concurrent (ho_fingerprint opts)) (\<lambda>r. Inr (r, db))
                  | None \<Rightarrow> Inl e)
               else Inl e)
      | _ \<Rightarrow> hr_run_logged opts None db)"

definition hr_execute :: "hr_options \<Rightarrow> hr_db \<Rightarrow> err + (json \<times> hr_db)" where
  "hr_execute opts db =
     (case ho_key opts of
        Some (c # cs) \<Rightarrow>
          (case findHrRecord (fst (ho_operator opts)) (ho_scope opts) (c # cs) db of
             Some existing \<Rightarrow> bindR (replayIdempotencyRecord existing (ho_fingerprint opts)) (\<lambda>r. Inr (r, db))
           | None \<Rightarrow> hr_commit opts db)
      | _ \<Rightarrow> hr_commit opts db)"

text \<open>An execution replays a recorded result, or runs once and adds its row to the log.\<close>

lemma hr_execute_cases:
  assumes "hr_execute opts db = Inr (r, db')"
  shows "db' = db \<or> (\<exists>out d ls. ho_run opts db = Inr (out, d) \<and> db' = d\<lparr>hd_logs := ls\<rparr> \<and> r = oc_result out)"
proof -
  have logged: "\<exists>out d ls. ho_run opts db = Inr (out, d) \<and> db' = d\<lparr>hd_logs := ls\<rparr> \<and> x = oc_result out"
    if "hr_run_logged opts key db = Inr (x, db')" for key x
    using that by (auto simp: hr_run_logged_def writeHrOperationLog_def bindR_Inr_iff)
  have commit: "db' = db \<or> (\<exists>key. hr_run_logged opts key db = Inr (x, db'))" if "hr_commit opts db = Inr (x, db')" for x
    using that by (auto simp: hr_commit_def bindR_Inr_iff split: option.splits list.splits sum.splits if_splits)
  have "db' = db \<or> hr_commit opts db = Inr (r, db')"
    using assms by (auto simp: hr_execute_def bindR_Inr_iff split: option.splits list.splits)
  then show ?thesis using commit logged by blast
qed

section \<open>The closure\<close>

text \<open>Being below: the reflexive and transitive closure of the parent relation.\<close>

definition child_rel :: "department_row list \<Rightarrow> (int \<times> int) set" where
  "child_rel ds = {(c, p). parentOf ds c = Some p}"

lemma parentOf_mem: "parentOf ds c = Some p \<Longrightarrow> c \<in> de_id ` set ds"
  by (auto simp: parentOf_def find_Some_iff split: option.splits)

lemma chain_below: "a \<in> set (chain ds visited (Some c)) \<Longrightarrow> (c, a) \<in> (child_rel ds)\<^sup>*"
proof (induction ds visited "Some c" arbitrary: c rule: chain.induct)
  case (2 ds visited c)
  show ?case
  proof (cases "a = c")
    case False
    with "2.prems" have a: "c \<notin> set visited" "c \<in> de_id ` set ds" "a \<in> set (chain ds (c # visited) (parentOf ds c))"
      by (auto split: if_splits)
    then obtain p where p: "parentOf ds c = Some p" by (cases "parentOf ds c") auto
    then have "(p, a) \<in> (child_rel ds)\<^sup>*" using "2.hyps" a by simp
    then show ?thesis using p by (auto simp: child_rel_def intro: converse_rtrancl_into_rtrancl)
  qed simp
qed

end
