(* ===== verification/HrOrg.thy ===== *)
theory HrOrg
  imports HrDb
begin

text \<open>
  Departments, positions and who belongs to them (\<open>department.service.ts\<close>, \<open>position.service.ts\<close>
  and \<open>org-structure.service.ts\<close> under \<open>apps/hr/src/modules/org\<close>). Each operation is the body of
  its transaction.
\<close>

section \<open>Departments\<close>

record department_input =
  dn_name :: string
  dn_parentId :: "int option"
  dn_sort :: "int option"
  dn_leaders :: "int list option"

record department_patch =
  du_name :: "string option"
  du_sort :: "int option"
  du_status :: "dict_status option"
  du_leaders :: "int list option"

definition loadLeaders :: "directory \<Rightarrow> int list \<Rightarrow> err + (int \<times> string) list" where
  "loadLeaders dir userIds =
     (if userIds = [] then Inr []
      else let uniqueIds = remdups userIds;
               rows = filter (\<lambda>a. ua_userId a \<in> set uniqueIds \<and> ua_status a = ''ACTIVE'' \<and> \<not> ua_deleted a)
                 (dir_accounts dir)
           in if length rows \<noteq> length uniqueIds then Inl (Biz VALIDATION_FAILED)
              else Inr (map (\<lambda>a. (ua_userId a, ua_name a)) rows))"

text \<open>A parent must exist and be active.\<close>

definition assertParent :: "int \<Rightarrow> hr_db \<Rightarrow> err + unit" where
  "assertParent p db =
     (case findDepartment p db of
        None \<Rightarrow> Inl (Biz RESOURCE_NOT_FOUND)
      | Some parent \<Rightarrow> if de_status parent \<noteq> ACTIVE then Inl (Biz VALIDATION_FAILED) else Inr ())"

definition leader_rows :: "int \<Rightarrow> (int \<times> string) list \<Rightarrow> leader_row list" where
  "leader_rows i leaders = map (\<lambda>(u, n). \<lparr>dl_departmentId = i, dl_userId = u, dl_userName = n\<rparr>) leaders"

definition department_create :: "directory \<Rightarrow> department_input \<Rightarrow> hr_db \<Rightarrow> err + (int \<times> hr_db)" where
  "department_create dir input db =
     bindR (case dn_parentId input of None \<Rightarrow> Inr () | Some p \<Rightarrow> assertParent p db) (\<lambda>u.
     bindR (loadLeaders dir (case dn_leaders input of None \<Rightarrow> [] | Some ls \<Rightarrow> ls)) (\<lambda>leaders.
     let (i, db1) = hr_nextval HDepartments db in
     Inr (i, bumpOrgTreeVersion
       (db1\<lparr>hd_departments := hd_departments db1 @
              [\<lparr>de_id = i, de_parentId = dn_parentId input, de_name = dn_name input,
                de_sort = (case dn_sort input of None \<Rightarrow> 0 | Some s \<Rightarrow> s), de_status = ACTIVE\<rparr>],
            hd_leaders := hd_leaders db1 @ leader_rows i leaders\<rparr>))))"

definition or_else :: "'a option \<Rightarrow> 'a \<Rightarrow> 'a" where
  "or_else v d = (case v of None \<Rightarrow> d | Some x \<Rightarrow> x)"

definition patch_department :: "department_patch \<Rightarrow> department_row \<Rightarrow> department_row" where
  "patch_department input d =
     d\<lparr>de_name := or_else (du_name input) (de_name d), de_sort := or_else (du_sort input) (de_sort d),
       de_status := or_else (du_status input) (de_status d)\<rparr>"

definition set_departments :: "(department_row \<Rightarrow> department_row) \<Rightarrow> int \<Rightarrow> hr_db \<Rightarrow> hr_db" where
  "set_departments f i db = db\<lparr>hd_departments := update_where (\<lambda>d. de_id d = i) f (hd_departments db)\<rparr>"

definition department_update :: "directory \<Rightarrow> int \<Rightarrow> department_patch \<Rightarrow> hr_db \<Rightarrow> err + hr_db" where
  "department_update dir i input db =
     (case findDepartment i db of
        None \<Rightarrow> Inl (Biz RESOURCE_NOT_FOUND)
      | Some existing \<Rightarrow>
          let db1 = set_departments (patch_department input) i db in
          bindR (case du_leaders input of
                   None \<Rightarrow> Inr db1
                 | Some ls \<Rightarrow> bindR (loadLeaders dir ls) (\<lambda>leaders.
                     Inr (db1\<lparr>hd_leaders := filter (\<lambda>l. dl_departmentId l \<noteq> i) (hd_leaders db1)
                               @ leader_rows i leaders\<rparr>)))
            (\<lambda>db2. Inr (bumpOrgTreeVersion db2)))"

text \<open>
  \<open>isDescendant\<close> walks up the parents; the visited set ends a walk that meets a cycle.
\<close>

function descends :: "department_row list \<Rightarrow> int \<Rightarrow> int list \<Rightarrow> int option \<Rightarrow> bool" where
  "descends ds anc visited None = False"
| "descends ds anc visited (Some c) =
     (if c \<in> set visited then False
      else if c = anc then True
      else descends ds anc (c # visited) (parentOf ds c))"
  by pat_completeness auto

termination descends
proof (relation "measure (\<lambda>(ds, anc, visited, cur).
    case cur of None \<Rightarrow> 0 | Some c \<Rightarrow> Suc (card (de_id ` set ds - set visited)))")
  fix ds :: "department_row list" and anc c :: int and visited
  assume new: "c \<notin> set visited"
  show "((ds, anc, c # visited, parentOf ds c), ds, anc, visited, Some c)
      \<in> measure (\<lambda>(ds, anc, visited, cur).
          case cur of None \<Rightarrow> 0 | Some c \<Rightarrow> Suc (card (de_id ` set ds - set visited)))"
  proof (cases "parentOf ds c")
    case (Some p)
    then show ?thesis using chain_step [OF parentOf_mem [OF Some] new] by (simp del: set_simps)
  qed simp
qed simp

definition isDescendant :: "int \<Rightarrow> int \<Rightarrow> hr_db \<Rightarrow> bool" where
  "isDescendant candidateId ancestorId db = descends (hd_departments db) ancestorId [] (Some candidateId)"

definition department_move :: "int \<Rightarrow> int option \<Rightarrow> hr_db \<Rightarrow> err + hr_db" where
  "department_move i parentId db =
     (case findDepartment i db of
        None \<Rightarrow> Inl (Biz RESOURCE_NOT_FOUND)
      | Some existing \<Rightarrow>
          (case parentId of
             None \<Rightarrow> Inr (bumpOrgTreeVersion (set_departments (de_parentId_update (\<lambda>p. None)) i db))
           | Some p \<Rightarrow>
               bindR (assertParent p db) (\<lambda>u.
               if p = i \<or> isDescendant p i db then Inl (Biz ORGANIZATION_CYCLE)
               else Inr (bumpOrgTreeVersion (set_departments (de_parentId_update (\<lambda>q. Some p)) i db)))))"

text \<open>
  Deleting departments cascades to leaders, positions' departments and memberships. The asset
  service is told last; the call is an argument, and its failure rolls the transaction back.
\<close>

definition drop_departments :: "int list \<Rightarrow> hr_db \<Rightarrow> hr_db" where
  "drop_departments ids db =
     db\<lparr>hd_departments := filter (\<lambda>d. de_id d \<notin> set ids) (hd_departments db),
        hd_leaders := filter (\<lambda>l. dl_departmentId l \<notin> set ids) (hd_leaders db),
        hd_positionDepartments := filter (\<lambda>(p, d). d \<notin> set ids) (hd_positionDepartments db),
        hd_userDepartments := filter (\<lambda>(u, d). d \<notin> set ids) (hd_userDepartments db)\<rparr>"

definition department_deleteBatch :: "(int \<Rightarrow> err + unit) \<Rightarrow> int list \<Rightarrow> hr_db \<Rightarrow> err + hr_db" where
  "department_deleteBatch clearAssignments ids db =
     (if length (filter (\<lambda>d. de_id d \<in> set ids) (hd_departments db)) \<noteq> length ids
      then Inl (Biz RESOURCE_NOT_FOUND)
      else if \<exists>c \<in> set (hd_departments db). de_parentId c \<in> Some ` set ids
      then Inl (Biz DEPARTMENT_HAS_CHILDREN)
      else bindR (foldR (\<lambda>i u. clearAssignments i) ids ()) (\<lambda>u.
        Inr (bumpUserOrgVersion (bumpOrgTreeVersion (drop_departments ids db)))))"

section \<open>Positions\<close>

record position_input =
  pn_name :: string
  pn_description :: "string option"
  pn_status :: "dict_status option"
  pn_sort :: "int option"
  pn_allowSelfApply :: "bool option"
  pn_departmentIds :: "int list option"

record position_patch =
  pu_name :: "string option"
  pu_description :: "string option"
  pu_status :: "dict_status option"
  pu_sort :: "int option"
  pu_allowSelfApply :: "bool option"

definition assertDepartmentsExist :: "int list \<Rightarrow> int list \<Rightarrow> hr_db \<Rightarrow> err + unit" where
  "assertDepartmentsExist departmentIds currentDepartmentIds db =
     (if departmentIds = [] then Inr ()
      else let found = filter (\<lambda>d. de_id d \<in> set departmentIds) (hd_departments db) in
        if length found \<noteq> length departmentIds then Inl (Biz RESOURCE_NOT_FOUND)
        else if \<exists>d \<in> set found. de_status d \<noteq> ACTIVE \<and> de_id d \<notin> set currentDepartmentIds
        then Inl (Biz VALIDATION_FAILED) else Inr ())"

text \<open>The unique index on the name; its violation is reported as a validation error.\<close>

definition name_taken :: "string \<Rightarrow> int option \<Rightarrow> hr_db \<Rightarrow> bool" where
  "name_taken name except db \<longleftrightarrow> (\<exists>p \<in> set (hd_positions db). po_name p = name \<and> Some (po_id p) \<noteq> except)"

definition position_create :: "position_input \<Rightarrow> hr_db \<Rightarrow> err + (int \<times> hr_db)" where
  "position_create input db =
     (let departmentIds = or_else (pn_departmentIds input) [] in
      bindR (assertDepartmentsExist departmentIds [] db) (\<lambda>u.
      let (i, db1) = hr_nextval HPositions db in
      if name_taken (pn_name input) None db then Inl (Biz VALIDATION_FAILED)
      else Inr (i, db1\<lparr>hd_positions := hd_positions db1 @
             [\<lparr>po_id = i, po_name = pn_name input, po_description = pn_description input,
               po_status = or_else (pn_status input) ACTIVE, po_sort = or_else (pn_sort input) 0,
               po_allowSelfApply = or_else (pn_allowSelfApply input) False\<rparr>],
           hd_positionDepartments := hd_positionDepartments db1 @ map (\<lambda>d. (i, d)) departmentIds\<rparr>)))"

definition patch_position :: "position_patch \<Rightarrow> position_row \<Rightarrow> position_row" where
  "patch_position input p =
     p\<lparr>po_name := or_else (pu_name input) (po_name p),
       po_description := (if pu_description input \<noteq> None then pu_description input else po_description p),
       po_status := or_else (pu_status input) (po_status p), po_sort := or_else (pu_sort input) (po_sort p),
       po_allowSelfApply := or_else (pu_allowSelfApply input) (po_allowSelfApply p)\<rparr>"

definition position_update :: "int \<Rightarrow> position_patch \<Rightarrow> hr_db \<Rightarrow> err + hr_db" where
  "position_update i input db =
     (case findPosition i db of
        None \<Rightarrow> Inl (Biz RESOURCE_NOT_FOUND)
      | Some existing \<Rightarrow>
          if name_taken (or_else (pu_name input) (po_name existing)) (Some i) db then Inl (Biz VALIDATION_FAILED)
          else Inr (db\<lparr>hd_positions := update_where (\<lambda>p. po_id p = i) (patch_position input) (hd_positions db)\<rparr>))"

text \<open>The departments of a user, and the users a new set of departments would leave without.\<close>

definition departmentsOf :: "int \<Rightarrow> hr_db \<Rightarrow> int list" where
  "departmentsOf u db = map snd (filter (\<lambda>(u', d). u' = u) (hd_userDepartments db))"

definition applicable :: "int \<Rightarrow> hr_db \<Rightarrow> int set" where
  "applicable p db = snd ` set (filter (\<lambda>(p', d). p' = p) (hd_positionDepartments db))"

definition affected_users :: "int \<Rightarrow> int list \<Rightarrow> hr_db \<Rightarrow> int list" where
  "affected_users i departmentIds db =
     map up_userId (filter (\<lambda>h. up_positionId h = Some i
         \<and> (\<exists>d \<in> set (departmentsOf (up_userId h) db). d \<notin> set departmentIds))
       (hd_userPositions db))"

definition updateDepartments :: "int \<Rightarrow> int list \<Rightarrow> hr_db \<Rightarrow> err + hr_db" where
  "updateDepartments i departmentIds db =
     (case findPosition i db of
        None \<Rightarrow> Inl (Biz RESOURCE_NOT_FOUND)
      | Some existing \<Rightarrow>
          let currentIds = map snd (filter (\<lambda>(p, d). p = i) (hd_positionDepartments db)) in
          bindR (assertDepartmentsExist departmentIds currentIds db) (\<lambda>u.
          if affected_users i departmentIds db \<noteq> [] then Inl (Biz POSITION_DEPARTMENT_MISMATCH)
          else Inr (db\<lparr>hd_positionDepartments :=
             filter (\<lambda>(p, d). p \<noteq> i) (hd_positionDepartments db) @ map (\<lambda>d. (i, d)) departmentIds\<rparr>)))"

text \<open>Deleting positions empties the position of their holders and drops their departments.\<close>

definition position_deleteBatch :: "int list \<Rightarrow> hr_db \<Rightarrow> err + hr_db" where
  "position_deleteBatch ids db =
     (if length (filter (\<lambda>p. po_id p \<in> set ids) (hd_positions db)) \<noteq> length ids
      then Inl (Biz RESOURCE_NOT_FOUND)
      else Inr (bumpUserOrgVersion
        (db\<lparr>hd_positions := filter (\<lambda>p. po_id p \<notin> set ids) (hd_positions db),
            hd_positionDepartments := filter (\<lambda>(p, d). p \<notin> set ids) (hd_positionDepartments db),
            hd_userPositions := update_where (\<lambda>u. \<exists>p \<in> set ids. up_positionId u = Some p)
              (up_positionId_update (\<lambda>p. None)) (hd_userPositions db)\<rparr>)))"

section \<open>Who belongs where\<close>

definition assertActiveDepartments :: "int list \<Rightarrow> hr_db \<Rightarrow> err + unit" where
  "assertActiveDepartments departmentIds db =
     (let found = filter (\<lambda>d. de_id d \<in> set departmentIds) (hd_departments db) in
      if length found \<noteq> length departmentIds then Inl (Biz RESOURCE_NOT_FOUND)
      else if \<exists>d \<in> set found. de_status d \<noteq> ACTIVE then Inl (Biz VALIDATION_FAILED) else Inr ())"

definition findUserPosition :: "int \<Rightarrow> hr_db \<Rightarrow> user_position option" where
  "findUserPosition u db = find (\<lambda>p. up_userId p = u) (hd_userPositions db)"

definition setUserDepartments :: "int \<Rightarrow> int list \<Rightarrow> hr_db \<Rightarrow> hr_db" where
  "setUserDepartments userId ds db =
     db\<lparr>hd_userDepartments := filter (\<lambda>(u, d). u \<noteq> userId) (hd_userDepartments db) @ map (\<lambda>d. (userId, d)) ds\<rparr>"

definition upsertUserPosition :: "int \<Rightarrow> int \<Rightarrow> int \<Rightarrow> hr_db \<Rightarrow> hr_db" where
  "upsertUserPosition userId positionId assignedBy db =
     db\<lparr>hd_userPositions :=
       (if findUserPosition userId db = None
        then hd_userPositions db @ [\<lparr>up_userId = userId, up_positionId = Some positionId, up_assignedBy = assignedBy\<rparr>]
        else update_where (\<lambda>p. up_userId p = userId)
          (\<lambda>p. p\<lparr>up_positionId := Some positionId, up_assignedBy := assignedBy\<rparr>) (hd_userPositions db))\<rparr>"

definition assignDepartments :: "int \<Rightarrow> int list \<Rightarrow> hr_db \<Rightarrow> err + hr_db" where
  "assignDepartments userId departmentIds db =
     bindR (assertActiveDepartments departmentIds db) (\<lambda>u.
     if (case findUserPosition userId db of
           None \<Rightarrow> False
         | Some up \<Rightarrow> (case up_positionId up of
             None \<Rightarrow> False
           | Some p \<Rightarrow> \<exists>d \<in> set departmentIds. d \<notin> applicable p db))
     then Inl (Biz POSITION_DEPARTMENT_MISMATCH)
     else Inr (bumpUserOrgVersion (setUserDepartments userId departmentIds db)))"

definition assignPosition :: "int \<Rightarrow> int \<Rightarrow> int \<Rightarrow> hr_db \<Rightarrow> err + hr_db" where
  "assignPosition operatorId userId positionId db =
     (case findPosition positionId db of
        None \<Rightarrow> Inl (Biz RESOURCE_NOT_FOUND)
      | Some position \<Rightarrow>
          if po_status position \<noteq> ACTIVE then Inl (Biz POSITION_DEPARTMENT_MISMATCH)
          else if \<exists>d \<in> set (departmentsOf userId db). d \<notin> applicable positionId db
          then Inl (Biz POSITION_DEPARTMENT_MISMATCH)
          else Inr (bumpUserOrgVersion (upsertUserPosition userId positionId operatorId db)))"

end
