(* ===== verification/HrApproval.thy ===== *)
theory HrApproval
  imports HrOrg
begin

text \<open>
  The approval heads of the \<open>hr\<close> schema (\<open>modules/approval/hr-approval.service.ts\<close>) and the
  requests for a change of position (\<open>modules/org/position-application.service.ts\<close>).
\<close>

definition OVERTIME_APPROVAL_FUNCTION_CODE :: string where
  "OVERTIME_APPROVAL_FUNCTION_CODE = ''overtime_approval''"

definition ORG_STRUCTURE_FUNCTION_CODE :: string where
  "ORG_STRUCTURE_FUNCTION_CODE = ''org_structure''"

section \<open>Heads\<close>

text \<open>
  The unique indexes: the application number, and one pending change of position per applicant.
\<close>

definition insertHrHead :: "hr_request \<Rightarrow> hr_db \<Rightarrow> err + (int \<times> hr_db)" where
  "insertHrHead h db =
     (let (i, db1) = hr_nextval HRequests db in
      if \<exists>h' \<in> set (sd_heads db). hq_applicationNo h' = hq_applicationNo h
      then Inl (UniqueViolation [''application_no''])
      else if ah_requestType h = ''POSITION_CHANGE'' \<and> ah_status h = PENDING
          \<and> (\<exists>h' \<in> set (sd_heads db). ah_requestType h' = ''POSITION_CHANGE'' \<and> ah_status h' = PENDING
               \<and> ah_applicantId h' = ah_applicantId h)
      then Inl (UniqueViolation [''applicant_id''])
      else Inr (i, db1\<lparr>sd_heads := sd_heads db @ [h\<lparr>ah_id := i\<rparr>]\<rparr>))"

record hr_head_input =
  hi_requestType :: string
  hi_applicantId :: int
  hi_applicantName :: string
  hi_departmentSnapshot :: json
  hi_proxyId :: "int option"
  hi_proxyName :: "string option"

definition hr_head :: "int \<Rightarrow> string \<Rightarrow> hr_head_input \<Rightarrow> hr_request" where
  "hr_head now applicationNo input =
     \<lparr>ah_id = 0, ah_status = PENDING, ah_version = 1, ah_requestType = hi_requestType input,
      ah_applicantId = hi_applicantId input, ah_proxyId = hi_proxyId input,
      ah_departmentSnapshot = hi_departmentSnapshot input, ah_submittedAt = Some now, ah_cancelledAt = None,
      ah_cancelSource = None, ah_updatedAt = now, hq_applicationNo = applicationNo,
      hq_applicantName = hi_applicantName input, hq_proxyName = hi_proxyName input, hq_cancelledBy = None,
      hq_processorId = None, hq_processorName = None, hq_processedAt = None, hq_opinion = None\<rparr>"

definition hr_createRequestHead :: "int \<Rightarrow> nat \<Rightarrow> hr_head_input \<Rightarrow> hr_db \<Rightarrow> err + ((int \<times> string) \<times> hr_db)" where
  "hr_createRequestHead now suffix input db =
     (let prefix = (if hi_requestType input = ''OVERTIME'' then ''OT'' else ''POS'');
          applicationNo = generateApplicationNo prefix now suffix
      in withPendingLimitMapping
        (bindR (insertHrHead (hr_head now applicationNo input) db) (\<lambda>(i, db1).
           Inr ((i, applicationNo), db1\<lparr>sd_acts := sd_acts db1 @
             [\<lparr>ac_requestId = i, ac_action = approval_action.SUBMIT, ac_actorId = hi_applicantId input,
               ac_actorName = hi_applicantName input, ac_opinion = None, ac_cancelSource = None,
               ac_createdAt = now\<rparr>]\<rparr>))))"

section \<open>A change of position\<close>

text \<open>
  What must hold of the target: the department exists and is active, the position exists, is
  active, may be applied for and applies to the department. \<open>failure\<close> is the error thrown.
\<close>

definition assertTarget :: "error_code \<Rightarrow> int \<Rightarrow> int \<Rightarrow> hr_db \<Rightarrow> err + unit" where
  "assertTarget failure departmentId positionId db =
     (if (case findDepartment departmentId db of None \<Rightarrow> True | Some d \<Rightarrow> de_status d \<noteq> ACTIVE) then Inl (Biz failure)
      else if (case findPosition positionId db of
                 None \<Rightarrow> True | Some p \<Rightarrow> po_status p \<noteq> ACTIVE \<or> \<not> po_allowSelfApply p) then Inl (Biz failure)
      else if (positionId, departmentId) \<notin> set (hd_positionDepartments db) then Inl (Biz failure)
      else Inr ())"

definition assertSubmittable :: "int \<Rightarrow> int \<Rightarrow> int \<Rightarrow> hr_db \<Rightarrow> err + unit" where
  "assertSubmittable userId targetDepartmentId targetPositionId db =
     (if length (departmentsOf userId db) > 1 then Inl (Biz MULTI_DEPARTMENT_APPLY_FORBIDDEN)
      else assertTarget POSITION_APPLY_TARGET_UNAVAILABLE targetDepartmentId targetPositionId db)"

definition departments_snapshot :: "int \<Rightarrow> hr_db \<Rightarrow> json" where
  "departments_snapshot userId db = JArr (map department_json (filter (\<lambda>uo. uo_userId uo = userId) (user_org db)))"

definition position_submit ::
    "operator \<Rightarrow> int \<Rightarrow> int \<Rightarrow> int \<Rightarrow> nat \<Rightarrow> hr_db \<Rightarrow> err + ((int \<times> string) \<times> hr_db)" where
  "position_submit operator targetDepartmentId targetPositionId now suffix db =
     bindR (assertSubmittable (fst operator) targetDepartmentId targetPositionId db) (\<lambda>u.
     let departments = departments_snapshot (fst operator) db in
     bindR (hr_createRequestHead now suffix
              \<lparr>hi_requestType = ''POSITION_CHANGE'', hi_applicantId = fst operator, hi_applicantName = snd operator,
               hi_departmentSnapshot = departments, hi_proxyId = None, hi_proxyName = None\<rparr> db) (\<lambda>(head, db1).
     case (findDepartment targetDepartmentId db1, findPosition targetPositionId db1) of
       (Some d, Some p) \<Rightarrow>
         Inr (head, db1\<lparr>hd_changes := hd_changes db1 @
           [\<lparr>pc_requestId = fst head, pc_userId = fst operator, pc_userName = snd operator,
             pc_departmentSnapshot = departments, pc_targetDepartmentId = targetDepartmentId,
             pc_targetDepartmentName = de_name d, pc_targetPositionId = targetPositionId,
             pc_targetPositionName = po_name p\<rparr>]\<rparr>)
     | _ \<Rightarrow> Inl PlainError))"

definition findChange :: "int \<Rightarrow> hr_db \<Rightarrow> position_change option" where
  "findChange i db = find (\<lambda>c. pc_requestId c = i) (hd_changes db)"

definition position_apply :: "int \<Rightarrow> int \<Rightarrow> hr_db \<Rightarrow> err + hr_db" where
  "position_apply headId processorId db =
     (case findChange headId db of
        None \<Rightarrow> Inl (Biz RESOURCE_NOT_FOUND)
      | Some detail \<Rightarrow>
          if length (departmentsOf (pc_userId detail) db) > 1 then Inl (Biz POSITION_APPLY_STALE)
          else bindR (assertTarget POSITION_APPLY_STALE (pc_targetDepartmentId detail) (pc_targetPositionId detail) db)
            (\<lambda>u. Inr (bumpUserOrgVersion
               (upsertUserPosition (pc_userId detail) (pc_targetPositionId detail) processorId
                 (setUserDepartments (pc_userId detail) [pc_targetDepartmentId detail] db)))))"

section \<open>Deciding\<close>

definition find_request :: "int \<Rightarrow> hr_db \<Rightarrow> hr_request option" where
  "find_request i db = find (\<lambda>h. ah_id h = i) (sd_heads db)"

definition hr_function_of :: "string \<Rightarrow> string option" where
  "hr_function_of requestType =
     (if requestType = ''OVERTIME'' then Some OVERTIME_APPROVAL_FUNCTION_CODE
      else if requestType = ''POSITION_CHANGE'' then Some ORG_STRUCTURE_FUNCTION_CODE else None)"

definition assertCanAccessType :: "int \<Rightarrow> string \<Rightarrow> directory \<Rightarrow> err + data_scope option" where
  "assertCanAccessType userId requestType dir =
     (case hr_function_of requestType of
        None \<Rightarrow> Inl (Biz RESOURCE_NOT_FOUND)
      | Some code \<Rightarrow>
          let access = getFunctionAccess True userId code dir in
          if \<not> fa_registered access then Inl (Biz RESOURCE_NOT_FOUND)
          else if \<not> fa_systemOpen access then Inl (Biz SYSTEM_NOT_OPEN)
          else if \<not> fa_allowed access then Inl (Biz RESOURCE_NOT_FOUND)
          else Inr (fa_dataScope access))"

definition hr_object_departments :: "int \<Rightarrow> string \<Rightarrow> hr_db \<Rightarrow> rat option list" where
  "hr_object_departments headId requestType db =
     (if requestType = ''OVERTIME'' then
        concat (map (\<lambda>o'. extractDepartmentIdsFromSnapshot (oi_departmentSnapshot o'))
          (filter (\<lambda>o'. oi_requestId o' = headId) (hd_overtime db)))
      else (case findChange headId db of
              None \<Rightarrow> []
            | Some detail \<Rightarrow> extractDepartmentIdsFromSnapshot (pc_departmentSnapshot detail)))"

definition hr_assertScopeCovers ::
    "int \<Rightarrow> string \<Rightarrow> data_scope option \<Rightarrow> int \<Rightarrow> directory \<Rightarrow> hr_db \<Rightarrow> err + unit" where
  "hr_assertScopeCovers headId requestType dataScope userId dir db =
     assertScopeCoversAll (toApproverScope dataScope (rat_closure (closureOfUser userId (hr_directory dir db))))
       (hr_object_departments headId requestType db) (Some requestType)"

text \<open>An applicant whose account is deleted cannot be given a position.\<close>

definition assertApplicantActive :: "directory \<Rightarrow> hr_request \<Rightarrow> process_action \<Rightarrow> err + unit" where
  "assertApplicantActive dir head action =
     (if action \<noteq> process_action.APPROVE \<or> ah_requestType head \<noteq> ''POSITION_CHANGE'' then Inr ()
      else case find (\<lambda>a. ua_userId a = ah_applicantId head) (dir_accounts dir) of
          None \<Rightarrow> Inr ()
        | Some a \<Rightarrow> if ua_deleted a then Inl (Biz APPLICANT_DEACTIVATED) else Inr ())"

definition hr_decided ::
    "approval_status \<Rightarrow> int \<Rightarrow> string \<Rightarrow> int \<Rightarrow> string option \<Rightarrow> hr_request \<Rightarrow> hr_request" where
  "hr_decided status processorId processorName now opinion h =
     h\<lparr>ah_status := status, ah_updatedAt := now, hq_processorId := Some processorId,
       hq_processorName := Some processorName, hq_processedAt := Some now, hq_opinion := opinion\<rparr>"

definition hr_cancelled_by :: "int \<Rightarrow> int \<Rightarrow> hr_request \<Rightarrow> hr_request" where
  "hr_cancelled_by actorId now h =
     h\<lparr>ah_status := CANCELLED, ah_updatedAt := now, ah_cancelledAt := Some now, ah_cancelSource := Some USER,
       hq_cancelledBy := Some actorId\<rparr>"

definition hr_transition :: "int \<Rightarrow> int \<Rightarrow> (hr_request \<Rightarrow> hr_request) \<Rightarrow> hr_db \<Rightarrow> err + hr_db" where
  "hr_transition i v f db =
     (let (n, hs) = cas_head i v f (sd_heads db)
      in bindR (throwIfTransitionLost n) (\<lambda>u. Inr (db\<lparr>sd_heads := hs\<rparr>)))"

definition hr_processInner ::
    "directory \<Rightarrow> int \<Rightarrow> int \<Rightarrow> process_action \<Rightarrow> resolved_transition \<Rightarrow> int \<Rightarrow> string option \<Rightarrow> hr_db \<Rightarrow> err + hr_db" where
  "hr_processInner dir now i action transition processorId opinion db =
     (case find_request i db of
        None \<Rightarrow> Inl (Biz RESOURCE_NOT_FOUND)
      | Some head \<Rightarrow>
          bindR (assertCanAccessType processorId (ah_requestType head) dir) (\<lambda>access.
          if ah_status head \<noteq> PENDING then Inl (Biz STATUS_CONFLICT)
          else
            bindR (assertTransitionAllowed (ah_status head) (rt_status transition)) (\<lambda>u1.
            bindR (hr_assertScopeCovers i (ah_requestType head) access processorId dir db) (\<lambda>u2.
            bindR (assertApplicantActive dir head action) (\<lambda>u3.
            let processorName = loadUserName processorId dir in
            bindR (hr_transition i (ah_version head)
                     (hr_decided (rt_status transition) processorId processorName now opinion) db) (\<lambda>db1.
            bindR (if action = process_action.APPROVE \<and> ah_requestType head = ''POSITION_CHANGE''
                   then position_apply i processorId db1 else Inr db1) (\<lambda>db2.
            Inr (db2\<lparr>sd_acts := sd_acts db2 @
              [\<lparr>ac_requestId = i, ac_action = rt_action transition, ac_actorId = processorId,
                ac_actorName = processorName, ac_opinion = opinion, ac_cancelSource = None,
                ac_createdAt = now\<rparr>]\<rparr>))))))))"

definition hr_cancelInner ::
    "directory \<Rightarrow> int \<Rightarrow> int \<Rightarrow> int \<Rightarrow> string option \<Rightarrow> resolved_transition \<Rightarrow> hr_db \<Rightarrow> err + hr_db" where
  "hr_cancelInner dir now i actorId expectedType transition db =
     (case find_request i db of
        None \<Rightarrow> Inl (Biz RESOURCE_NOT_FOUND)
      | Some head \<Rightarrow>
          if expectedType \<noteq> None \<and> expectedType \<noteq> Some (ah_requestType head) then Inl (Biz RESOURCE_NOT_FOUND)
          else if ah_applicantId head \<noteq> actorId \<and> ah_proxyId head \<noteq> Some actorId then Inl (Biz RESOURCE_NOT_FOUND)
          else
            bindR (assertPending (ah_status head)) (\<lambda>u1.
            bindR (assertTransitionAllowed (ah_status head) (rt_status transition)) (\<lambda>u2.
            bindR (hr_transition i (ah_version head) (hr_cancelled_by actorId now) db) (\<lambda>db1.
            Inr (db1\<lparr>sd_acts := sd_acts db1 @
              [\<lparr>ac_requestId = i, ac_action = approval_action.CANCEL, ac_actorId = actorId,
                ac_actorName = loadUserName actorId dir, ac_opinion = None, ac_cancelSource = Some USER,
                ac_createdAt = now\<rparr>]\<rparr>)))))"

text \<open>The operations of the controllers; an approval is idempotent under its key.\<close>

definition hr_void :: "string \<Rightarrow> json outcome" where
  "hr_void summary = \<lparr>oc_result = JUndef, oc_action = UPDATE, oc_summary = summary\<rparr>"

definition hr_feature_of :: "string \<Rightarrow> string" where
  "hr_feature_of requestType =
     (if requestType = ''OVERTIME'' then OVERTIME_APPROVAL_FUNCTION_CODE else ORG_STRUCTURE_FUNCTION_CODE)"

definition hr_process ::
    "(json \<Rightarrow> string) \<Rightarrow> directory \<Rightarrow> int \<Rightarrow> int \<Rightarrow> process_action \<Rightarrow> int \<Rightarrow> string option \<Rightarrow> string option
      \<Rightarrow> hr_db \<Rightarrow> err + (json \<times> hr_db)" where
  "hr_process fingerprint dir now i action processorId opinion key db =
     bindR (resolveProcessTransition action None) (\<lambda>transition.
     bindR (assertOpinionIfRequired (rt_requiresOpinion transition) opinion) (\<lambda>u.
     bindR (loadHrOperationLogOperator dir processorId db) (\<lambda>(operator, departments).
     case find_request i db of
       None \<Rightarrow> Inl (Biz RESOURCE_NOT_FOUND)
     | Some probe \<Rightarrow>
         hr_execute
           \<lparr>ho_operator = operator, ho_feature = hr_feature_of (ah_requestType probe),
            ho_scope = ''hr.approval.process/'' @ int_str i, ho_key = key,
            ho_fingerprint = fingerprint (JObj
              [(''action'', JStr (if action = process_action.APPROVE then ''APPROVE'' else ''REJECT'')),
               (''opinion'', case opinion of None \<Rightarrow> JNull | Some s \<Rightarrow> JStr s), (''id'', JNum (of_int i))]),
            ho_run = (\<lambda>db. bindR (hr_processInner dir now i action transition processorId opinion db)
              (\<lambda>db'. Inr (hr_void ''processed'', db')))\<rparr> db)))"

definition hr_cancel ::
    "(json \<Rightarrow> string) \<Rightarrow> directory \<Rightarrow> int \<Rightarrow> int \<Rightarrow> int \<Rightarrow> string option \<Rightarrow> string option \<Rightarrow> hr_db \<Rightarrow> err + (json \<times> hr_db)" where
  "hr_cancel fingerprint dir now i actorId expectedType key db =
     bindR (resolveProcessTransition process_action.CANCEL (Some USER)) (\<lambda>transition.
     bindR (loadHrOperationLogOperator dir actorId db) (\<lambda>(operator, departments).
     case find_request i db of
       None \<Rightarrow> Inl (Biz RESOURCE_NOT_FOUND)
     | Some probe \<Rightarrow>
         hr_execute
           \<lparr>ho_operator = operator, ho_feature = hr_feature_of (ah_requestType probe),
            ho_scope = ''hr.approval.cancel/'' @ int_str i, ho_key = key,
            ho_fingerprint = fingerprint (JObj [(''id'', JNum (of_int i)),
              (''expectedType'', case expectedType of None \<Rightarrow> JNull | Some s \<Rightarrow> JStr s)]),
            ho_run = (\<lambda>db. bindR (hr_cancelInner dir now i actorId expectedType transition db)
              (\<lambda>db'. Inr (hr_void ''cancelled'', db')))\<rparr> db))"

section \<open>What an approver is shown\<close>

definition hr_visibleTypes :: "bool \<Rightarrow> int \<Rightarrow> directory \<Rightarrow> (string \<times> data_scope option) list" where
  "hr_visibleTypes explicitGrantsOnly userId dir =
     (let isSuperAdmin = (\<not> explicitGrantsOnly \<and>
            (case loadSessionUser userId dir of None \<Rightarrow> False | Some u \<Rightarrow> ua_isSuperAdmin u))
      in concat (map (\<lambda>(code, types).
           let access = getFunctionAccess (\<not> explicitGrantsOnly) userId code dir in
           if \<not> fa_registered access \<or> \<not> fa_systemOpen access then []
           else if isSuperAdmin \<or> fa_allowed access
           then map (\<lambda>t. (t, if isSuperAdmin then None else fa_dataScope access)) types else [])
         [(OVERTIME_APPROVAL_FUNCTION_CODE, [''OVERTIME'']), (ORG_STRUCTURE_FUNCTION_CODE, [''POSITION_CHANGE''])]))"

text \<open>\<open>jsonb_array_length\<close> fails on a snapshot that is no array, and is NULL for one that is missing.\<close>

definition array_listed :: "(json \<Rightarrow> err + rat) \<Rightarrow> rat set \<Rightarrow> json \<Rightarrow> err + bool" where
  "array_listed cast closure s =
     (case s of
        JArr es \<Rightarrow> if es = [] then Inr False
          else bindR (existsR (element_outside cast closure) es) (\<lambda>b. Inr (\<not> b))
      | JUndef \<Rightarrow> Inr False
      | _ \<Rightarrow> Inl PlainError)"

definition hr_coveredIds ::
    "(json \<Rightarrow> err + rat) \<Rightarrow> int list \<Rightarrow> bool \<Rightarrow> bool \<Rightarrow> hr_db \<Rightarrow> err + int list" where
  "hr_coveredIds cast closure overtime position db =
     (if closure = [] then Inr []
      else
        bindR (if overtime then filterR (\<lambda>o'. array_listed cast (rat_closure closure) (oi_departmentSnapshot o')) (hd_overtime db)
               else Inr []) (\<lambda>os.
        bindR (if position then filterR (\<lambda>c. array_listed cast (rat_closure closure) (pc_departmentSnapshot c)) (hd_changes db)
               else Inr []) (\<lambda>cs.
        Inr (remdups (map oi_requestId os @ map pc_requestId cs)))))"

text \<open>
  The part of the list's condition that depends on the scopes: the ids a departmental type is
  restricted to, and whether a row of a visible type passes.
\<close>

definition type_scoped :: "(string \<times> data_scope option) list \<Rightarrow> string \<Rightarrow> bool" where
  "type_scoped visibleTypes t \<longleftrightarrow> t \<in> set [''OVERTIME'', ''POSITION_CHANGE''] \<and> (t, Some DEPARTMENT) \<in> set visibleTypes"

definition hr_scopedIds ::
    "(json \<Rightarrow> err + rat) \<Rightarrow> (string \<times> data_scope option) list \<Rightarrow> int \<Rightarrow> directory \<Rightarrow> hr_db \<Rightarrow> err + (int list \<times> int list)" where
  "hr_scopedIds cast visibleTypes userId dir db =
     (let closure = closureOfUser userId (hr_directory dir db) in
      bindR (hr_coveredIds cast closure (type_scoped visibleTypes ''OVERTIME'') False db) (\<lambda>overtimeIds.
      bindR (hr_coveredIds cast closure False (type_scoped visibleTypes ''POSITION_CHANGE'') db) (\<lambda>positionIds.
      Inr (overtimeIds, positionIds))))"

definition hr_listed :: "(string \<times> data_scope option) list \<Rightarrow> int list \<times> int list \<Rightarrow> hr_request \<Rightarrow> bool" where
  "hr_listed visibleTypes ids h \<longleftrightarrow>
     ah_requestType h \<in> fst ` set visibleTypes
     \<and> (if type_scoped visibleTypes (ah_requestType h)
        then ah_id h \<in> set (if ah_requestType h = ''OVERTIME'' then fst ids else snd ids) else True)"

definition hr_pendingCount ::
    "(json \<Rightarrow> err + rat) \<Rightarrow> int \<Rightarrow> directory \<Rightarrow> hr_db \<Rightarrow> err + (nat \<times> (string \<times> nat) list)" where
  "hr_pendingCount cast userId dir db =
     (let visibleTypes = hr_visibleTypes True userId dir in
      if visibleTypes = [] then Inr (0, [])
      else bindR (hr_scopedIds cast visibleTypes userId dir db) (\<lambda>ids.
        let shown = filter (\<lambda>h. ah_status h = PENDING \<and> hr_listed visibleTypes ids h) (sd_heads db);
            types = remdups (map ah_requestType shown)
        in Inr (length shown, map (\<lambda>t. (t, length (filter (\<lambda>h. ah_requestType h = t) shown))) types)))"

end
