(* ===== verification/HrLifecycle.thy ===== *)
theory HrLifecycle
  imports HrApproval
begin

text \<open>
  What happens in the \<open>hr\<close> schema when accounts are deactivated or restored
  (\<open>apps/hr/src/modules/lifecycle/lifecycle.service.ts\<close>). The lifecycle version of an account is
  the argument \<open>version\<close>.
\<close>

record restore_target =
  re_userId :: int
  re_lifecycleVersion :: int
  re_deactivatedAt :: int

record compatibility =
  cc_clearedDepartments :: "(int \<times> string) list"
  cc_positionCleared :: bool

text \<open>\<open>None\<close> for an account that can be restored, else the reason why not.\<close>

definition checkCompatibility :: "(int \<Rightarrow> int option) \<Rightarrow> int \<Rightarrow> int \<Rightarrow> string option" where
  "checkCompatibility version userId lifecycleVersion =
     (case version userId of
        None \<Rightarrow> Some ''USER_NOT_FOUND''
      | Some v \<Rightarrow> if v \<noteq> lifecycleVersion then Some ''LIFECYCLE_VERSION_CHANGED'' else None)"

text \<open>The departments of a user with their rows; those that are not active are to be cleared.\<close>

definition department_rows :: "int \<Rightarrow> hr_db \<Rightarrow> department_row list" where
  "department_rows userId db =
     concat (map (\<lambda>d. filter (\<lambda>r. de_id r = d) (hd_departments db)) (departmentsOf userId db))"

definition position_stays :: "int \<Rightarrow> int list \<Rightarrow> hr_db \<Rightarrow> bool" where
  "position_stays positionId kept db \<longleftrightarrow>
     kept \<noteq> []
     \<and> (case findPosition positionId db of None \<Rightarrow> False | Some p \<Rightarrow> po_status p = ACTIVE)
     \<and> length (filter (\<lambda>(p, d). p = positionId \<and> d \<in> set kept) (hd_positionDepartments db)) = length kept"

definition computeCompatibility :: "int \<Rightarrow> hr_db \<Rightarrow> compatibility" where
  "computeCompatibility userId db =
     (let rows = department_rows userId db;
          kept = map de_id (filter (\<lambda>r. de_status r = ACTIVE) rows)
      in \<lparr>cc_clearedDepartments = map (\<lambda>r. (de_id r, de_name r)) (filter (\<lambda>r. de_status r \<noteq> ACTIVE) rows),
          cc_positionCleared =
            (case findUserPosition userId db of
               None \<Rightarrow> False
             | Some up \<Rightarrow> (case up_positionId up of None \<Rightarrow> False | Some p \<Rightarrow> \<not> position_stays p kept db))\<rparr>)"

definition restorePreview ::
    "(int \<Rightarrow> int option) \<Rightarrow> restore_target list \<Rightarrow> hr_db \<Rightarrow> (int \<times> (string + compatibility)) list" where
  "restorePreview version targets db =
     map (\<lambda>t. (re_userId t,
       case checkCompatibility version (re_userId t) (re_lifecycleVersion t) of
         Some reason \<Rightarrow> Inl reason | None \<Rightarrow> Inr (computeCompatibility (re_userId t) db))) targets"

section \<open>Pending applications\<close>

definition hr_deactivated :: "int \<Rightarrow> hr_request \<Rightarrow> hr_request" where
  "hr_deactivated now h =
     h\<lparr>ah_status := CANCELLED, ah_version := ah_version h + 1, ah_cancelledAt := Some now,
       ah_cancelSource := Some ACCOUNT_DEACTIVATED, ah_updatedAt := now\<rparr>"

definition application_of :: "int \<Rightarrow> int \<Rightarrow> hr_request \<Rightarrow> bool" where
  "application_of userId deactivatedAt h \<longleftrightarrow>
     ah_requestType h = ''POSITION_CHANGE'' \<and> ah_applicantId h = userId \<and> ah_status h = PENDING
     \<and> (case ah_submittedAt h of None \<Rightarrow> False | Some s \<Rightarrow> s \<le> deactivatedAt)"

definition cancelPendingPositionApplications :: "directory \<Rightarrow> int \<Rightarrow> int \<Rightarrow> int \<Rightarrow> hr_db \<Rightarrow> nat \<times> hr_db" where
  "cancelPendingPositionApplications dir now userId deactivatedAt db =
     (let pending = map ah_id (filter (application_of userId deactivatedAt) (sd_heads db)) in
      if pending = [] then (0, db)
      else (length pending,
        db\<lparr>sd_heads := update_where (\<lambda>h. ah_id h \<in> set pending \<and> ah_status h = PENDING) (hr_deactivated now) (sd_heads db),
           sd_acts := sd_acts db @ map (\<lambda>i.
             \<lparr>ac_requestId = i, ac_action = approval_action.AUTO_CANCEL, ac_actorId = userId,
              ac_actorName = loadUserName userId dir, ac_opinion = None,
              ac_cancelSource = Some ACCOUNT_DEACTIVATED, ac_createdAt = now\<rparr>) pending\<rparr>))"

section \<open>Restoring\<close>

definition apply_compatibility :: "int \<Rightarrow> compatibility \<Rightarrow> hr_db \<Rightarrow> hr_db" where
  "apply_compatibility userId c db =
     db\<lparr>hd_userDepartments :=
          filter (\<lambda>(u, d). \<not> (u = userId \<and> d \<in> fst ` set (cc_clearedDepartments c))) (hd_userDepartments db),
        hd_userPositions :=
          (if cc_positionCleared c
           then update_where (\<lambda>p. up_userId p = userId) (up_positionId_update (\<lambda>p. None)) (hd_userPositions db)
           else hd_userPositions db)\<rparr>"

definition insertCompat :: "compat_row \<Rightarrow> hr_db \<Rightarrow> err + hr_db" where
  "insertCompat r db =
     bindR (insert_row (\<lambda>r. True)
              (\<lambda>r r'. ct_restoreRequestId r = ct_restoreRequestId r' \<and> ct_userId r = ct_userId r')
              [''restore_request_id'', ''user_id''] r (hd_compat db))
       (\<lambda>rs. Inr (db\<lparr>hd_compat := rs\<rparr>))"

text \<open>
  One target. The compatibility is computed through the client of the service and so on the
  committed state, not on that of the transaction.
\<close>

definition restore_target_step ::
    "directory \<Rightarrow> (int \<Rightarrow> int option) \<Rightarrow> int \<Rightarrow> string \<Rightarrow> hr_db \<Rightarrow> restore_target \<Rightarrow> hr_db \<Rightarrow> err + hr_db" where
  "restore_target_step dir version now rid committed t db =
     (case checkCompatibility version (re_userId t) (re_lifecycleVersion t) of
        Some reason \<Rightarrow> Inl (Biz RESTORE_TARGET_STALE)
      | None \<Rightarrow>
          let db1 = snd (cancelPendingPositionApplications dir now (re_userId t) (re_deactivatedAt t) db);
              c = computeCompatibility (re_userId t) committed
          in bindR (insertCompat
               \<lparr>ct_userId = re_userId t, ct_restoreRequestId = rid,
                ct_clearedDepartments = (if cc_clearedDepartments c = [] then None else Some (cc_clearedDepartments c)),
                ct_positionCleared = cc_positionCleared c\<rparr> (apply_compatibility (re_userId t) c db1))
             (\<lambda>db2. Inr (bumpUserOrgVersion db2)))"

definition restored_users :: "string \<Rightarrow> hr_db \<Rightarrow> int set" where
  "restored_users rid db = ct_userId ` set (filter (\<lambda>r. ct_restoreRequestId r = rid) (hd_compat db))"

definition restoreApply ::
    "directory \<Rightarrow> (int \<Rightarrow> int option) \<Rightarrow> int \<Rightarrow> string \<Rightarrow> restore_target list \<Rightarrow> hr_db \<Rightarrow> err + hr_db" where
  "restoreApply dir version now rid targets db =
     (let existing = restored_users rid db; targetSet = re_userId ` set targets in
      if existing \<noteq> {} then (if existing = targetSet then Inr db else Inl (Biz RESTORE_TARGET_STALE))
      else (case foldR (restore_target_step dir version now rid db) targets db of
              Inr db' \<Rightarrow> Inr db'
            | Inl e \<Rightarrow>
                if isPrismaUniqueViolation e \<and> ''restore_request_id'' \<in> set (uniqueTargetColumns e)
                then (if restored_users rid db = targetSet then Inr db else Inl (Biz RESTORE_TARGET_STALE))
                else Inl e))"

end
