(* ===== verification/Overtime.thy ===== *)
theory Overtime
  imports HrApproval JsDate
begin

text \<open>
  Overtime requests (\<open>apps/hr/src/modules/overtime\<close>): the window of days, the overlap of minute
  ranges, the submission of a batch, and the statistics of a month.
\<close>

section \<open>Days\<close>

text \<open>\<open>Intl.DateTimeFormat('en-CA')\<close> in Beijing: the year unpadded, month and day in two digits.\<close>

definition beijingDate :: "int \<Rightarrow> string" where
  "beijingDate now =
     (let (y, m, d) = utc_date (now + BEIJING_OFFSET)
      in int_str y @ ''-'' @ padStart 2 (CHR ''0'') (int_str m) @ ''-'' @ padStart 2 (CHR ''0'') (int_str d))"

text \<open>Strings compare by their code units.\<close>

fun str_le :: "string \<Rightarrow> string \<Rightarrow> bool" where
  "str_le [] t = True"
| "str_le (c # cs) [] = False"
| "str_le (c # cs) (d # ds) =
     (if c = d then str_le cs ds else (of_char c :: nat) < of_char d)"

definition windowRange :: "int \<Rightarrow> int \<Rightarrow> int \<Rightarrow> string \<times> string" where
  "windowRange advanceDays backfillDays now =
     (beijingDate (now - backfillDays * 86400000), beijingDate (now + advanceDays * 86400000))"

definition isWithinWindow :: "string \<Rightarrow> string \<times> string \<Rightarrow> bool" where
  "isWithinWindow date window \<longleftrightarrow> str_le (fst window) date \<and> str_le date (snd window)"

text \<open>The day number of a date of the calendar, and \<open>Date.UTC\<close>, which carries months and days over.\<close>

definition days_from_civil :: "int \<Rightarrow> int \<Rightarrow> int \<Rightarrow> int" where
  "days_from_civil y m d =
     (let y' = (if m \<le> 2 then y - 1 else y);
          era = y' div 400;
          yoe = y' - era * 400;
          doy = (153 * (if m > 2 then m - 3 else m + 9) + 2) div 5 + d - 1;
          doe = yoe * 365 + yoe div 4 - yoe div 100 + doy
      in era * 146097 + doe - 719468)"

definition date_utc :: "int \<Rightarrow> int \<Rightarrow> int \<Rightarrow> int" where
  "date_utc y monthIndex d =
     (let y1 = (if 0 \<le> y \<and> y \<le> 99 then y + 1900 else y)
      in days_from_civil (y1 + monthIndex div 12) (monthIndex mod 12 + 1) 1 + (d - 1))"

text \<open>A date text has the shape \<open>dddd-dd-dd\<close>, as its pattern demands.\<close>

definition digits :: "string \<Rightarrow> int" where
  "digits s = int (str_val 0 s)"

definition toDbDate :: "string \<Rightarrow> int" where
  "toDbDate date = date_utc (digits (take 4 date)) (digits (take 2 (drop 5 date)) - 1) (digits (take 2 (drop 8 date)))"

definition isBackfillSubmission :: "string \<Rightarrow> int \<Rightarrow> bool" where
  "isBackfillSubmission overtimeDate now \<longleftrightarrow> overtimeDate \<noteq> beijingDate now \<and> str_le overtimeDate (beijingDate now)"

definition formatTime :: "int \<Rightarrow> string" where
  "formatTime minute =
     (if minute = 1440 then ''24:00''
      else padStart 2 (CHR ''0'') (int_str (minute div 60)) @ '':'' @ padStart 2 (CHR ''0'') (int_str (minute mod 60)))"

section \<open>Overlap\<close>

definition overlaps :: "int \<Rightarrow> int \<Rightarrow> int \<Rightarrow> int \<Rightarrow> bool" where
  "overlaps aStart aEnd bStart bEnd \<longleftrightarrow> aStart < bEnd \<and> bStart < aEnd"

definition findOverlapping :: "int \<Rightarrow> int \<Rightarrow> (int \<times> int) list \<Rightarrow> (int \<times> int) list" where
  "findOverlapping start end existing = filter (\<lambda>(s, e). overlaps start end s e) existing"

section \<open>Submission\<close>

definition OVERTIME_APPLY_FUNCTION_CODE :: string where
  "OVERTIME_APPLY_FUNCTION_CODE = ''overtime_apply''"

definition PROXY_OVERTIME_FUNCTION_CODE :: string where
  "PROXY_OVERTIME_FUNCTION_CODE = ''proxy_overtime''"

record overtime_dto =
  ov_userIds :: "int list"
  ov_overtimeDate :: string
  ov_startMinute :: int
  ov_endMinute :: int
  ov_reason :: string

text \<open>What the handler reads before its transaction: the settings and the answer on the kind of day.\<close>

record overtime_env =
  oe_advanceDays :: int
  oe_backfillDays :: int
  oe_holiday :: "string \<Rightarrow> err + json"

definition usable :: "function_access \<Rightarrow> bool" where
  "usable access \<longleftrightarrow> fa_registered access \<and> fa_systemOpen access \<and> fa_allowed access"

text \<open>The minute ranges of a user's items of the day whose request is pending or approved.\<close>

definition counts :: "hr_db \<Rightarrow> int \<Rightarrow> bool" where
  "counts db i \<longleftrightarrow> (\<exists>h \<in> set (sd_heads db). ah_id h = i \<and> ah_status h \<in> {PENDING, APPROVED})"

definition existing_ranges :: "int \<Rightarrow> int \<Rightarrow> hr_db \<Rightarrow> (int \<times> int) list" where
  "existing_ranges userId day db =
     map (\<lambda>o'. (oi_startMinute o', oi_endMinute o'))
       (filter (\<lambda>o'. oi_userId o' = userId \<and> oi_overtimeDate o' = day \<and> counts db (oi_requestId o')) (hd_overtime db))"

definition findExistingOverlaps :: "int \<Rightarrow> overtime_dto \<Rightarrow> hr_db \<Rightarrow> bool" where
  "findExistingOverlaps targetUserId dto db \<longleftrightarrow>
     findOverlapping (ov_startMinute dto) (ov_endMinute dto) (existing_ranges targetUserId (toDbDate (ov_overtimeDate dto)) db) \<noteq> []"

definition validate_target ::
    "int \<Rightarrow> overtime_dto \<Rightarrow> int list option \<Rightarrow> directory \<Rightarrow> hr_db \<Rightarrow> int \<Rightarrow> (int \<times> error_code) list" where
  "validate_target operatorId dto proxyClosure dir db targetUserId =
     (if targetUserId = operatorId then []
      else if (case loadSessionUser targetUserId dir of None \<Rightarrow> True | Some target \<Rightarrow> ua_status target \<noteq> ''ACTIVE'')
      then [(targetUserId, OVERTIME_EMPLOYEE_NOT_ACTIVE)]
      else (case proxyClosure of
              None \<Rightarrow> []
            | Some closure \<Rightarrow>
                if \<exists>uo \<in> set (user_org db). uo_userId uo = targetUserId \<and> uo_departmentId uo \<notin> set closure
                then [(targetUserId, SCOPE_NOT_COVERED)] else [])
        @ (if findExistingOverlaps targetUserId dto db then [(targetUserId, OVERTIME_OVERLAP)] else []))"

definition validateBatch ::
    "int \<Rightarrow> overtime_dto \<Rightarrow> int list \<Rightarrow> bool \<Rightarrow> data_scope option \<Rightarrow> directory \<Rightarrow> hr_db \<Rightarrow> (int \<times> error_code) list" where
  "validateBatch operatorId dto userIds canProxy proxyScope dir db =
     (let proxyClosure = (if canProxy \<and> proxyScope = Some DEPARTMENT
            then Some (closureOfUser operatorId (hr_directory dir db)) else None)
      in concat (map (validate_target operatorId dto proxyClosure dir db) userIds))"

text \<open>Under the locks of all users of the batch and the day, in ascending order, the overlap is checked again.\<close>

definition assertNoOverlapInTransaction :: "overtime_dto \<Rightarrow> hr_db \<Rightarrow> err + unit" where
  "assertNoOverlapInTransaction dto db =
     (if \<exists>u \<in> set (ov_userIds dto). findExistingOverlaps u dto db then Inl (Biz OVERTIME_OVERLAP) else Inr ())"

definition loadTarget :: "int \<Rightarrow> directory \<Rightarrow> hr_db \<Rightarrow> string \<times> json \<times> int option \<times> string option" where
  "loadTarget targetUserId dir db =
     (if find (\<lambda>a. ua_userId a = targetUserId) (dir_accounts dir) = None then ([], JArr [], None, None)
      else let positionId = (case findUserPosition targetUserId db of None \<Rightarrow> None | Some up \<Rightarrow> up_positionId up)
           in (loadUserName targetUserId dir, departments_snapshot targetUserId db, positionId,
               (case positionId of None \<Rightarrow> None | Some p \<Rightarrow>
                 (case findPosition p db of None \<Rightarrow> None | Some r \<Rightarrow> Some (po_name r)))))"

text \<open>The checks of the table: a range within the day, each user once in a request.\<close>

definition insertOvertime :: "overtime_item \<Rightarrow> hr_db \<Rightarrow> err + hr_db" where
  "insertOvertime r db =
     bindR (insert_row (\<lambda>r. 0 \<le> oi_startMinute r \<and> oi_startMinute r < oi_endMinute r \<and> oi_endMinute r \<le> 1440)
              (\<lambda>r r'. oi_requestId r = oi_requestId r' \<and> oi_userId r = oi_userId r')
              [''request_id'', ''user_id''] r (hd_overtime db))
       (\<lambda>rs. Inr (db\<lparr>hd_overtime := rs\<rparr>))"

definition createOvertime :: "directory \<Rightarrow> overtime_dto \<Rightarrow> json \<Rightarrow> int \<Rightarrow> int \<Rightarrow> int \<Rightarrow> hr_db \<Rightarrow> err + hr_db" where
  "createOvertime dir dto holiday now headId targetUserId db =
     (let (name, departments, positionId, positionName) = loadTarget targetUserId dir db in
      insertOvertime
        \<lparr>oi_requestId = headId, oi_userId = targetUserId, oi_userName = name, oi_departmentSnapshot = departments,
         oi_positionIdSnapshot = positionId, oi_positionNameSnapshot = positionName,
         oi_overtimeDate = toDbDate (ov_overtimeDate dto), oi_startMinute = ov_startMinute dto,
         oi_endMinute = ov_endMinute dto, oi_reason = ov_reason dto, oi_holidaySnapshot = holiday,
         oi_isBackfill = isBackfillSubmission (ov_overtimeDate dto) now\<rparr> db)"

definition overtime_run ::
    "directory \<Rightarrow> operator \<Rightarrow> json \<Rightarrow> overtime_dto \<Rightarrow> int list \<Rightarrow> bool \<Rightarrow> json \<Rightarrow> int \<Rightarrow> nat \<Rightarrow> hr_db
      \<Rightarrow> err + ((int \<times> string) \<times> hr_db)" where
  "overtime_run dir operator departments dto userIds canProxy holiday now suffix db =
     bindR (assertNoOverlapInTransaction dto db) (\<lambda>u.
     let others = (canProxy \<and> (\<exists>i \<in> set userIds. i \<noteq> fst operator)) in
     bindR (hr_createRequestHead now suffix
              \<lparr>hi_requestType = ''OVERTIME'', hi_applicantId = fst operator, hi_applicantName = snd operator,
               hi_departmentSnapshot = departments,
               hi_proxyId = (if others then Some (fst operator) else None),
               hi_proxyName = (if others then Some (snd operator) else None)\<rparr> db) (\<lambda>(head, db1).
     bindR (foldR (createOvertime dir dto holiday now (fst head)) userIds db1) (\<lambda>db2. Inr (head, db2))))"

definition overtime_outcome :: "overtime_dto \<Rightarrow> int list \<Rightarrow> int \<times> string \<Rightarrow> json outcome" where
  "overtime_outcome dto userIds head =
     \<lparr>oc_result = JObj [(''requestId'', JNum (of_int (fst head))), (''applicationNo'', JStr (snd head))],
      oc_action = CREATE,
      oc_summary = ov_overtimeDate dto @ '' '' @ formatTime (ov_startMinute dto) @ ''-'' @ formatTime (ov_endMinute dto)\<rparr>"

definition overtime_submit ::
    "(overtime_dto \<Rightarrow> string) \<Rightarrow> overtime_env \<Rightarrow> directory \<Rightarrow> operator \<Rightarrow> (int \<times> string) list \<Rightarrow> overtime_dto \<Rightarrow> string option
      \<Rightarrow> int \<Rightarrow> nat \<Rightarrow> hr_db \<Rightarrow> err + (json \<times> hr_db)" where
  "overtime_submit fingerprint env dir operator departments dto key now suffix db =
     (let applyAccess = getFunctionAccess True (fst operator) OVERTIME_APPLY_FUNCTION_CODE dir;
          proxyAccess = getFunctionAccess True (fst operator) PROXY_OVERTIME_FUNCTION_CODE dir;
          canProxy = (usable proxyAccess \<and> fa_dataScope proxyAccess \<noteq> Some SELF);
          userIds = (if canProxy then remdups (ov_userIds dto) else ov_userIds dto) in
      if \<not> usable applyAccess \<and> \<not> usable proxyAccess then Inl (Biz RESOURCE_NOT_FOUND)
      else if \<not> canProxy \<and> userIds \<noteq> [fst operator] then Inl (Biz VALIDATION_FAILED)
      else if \<not> isWithinWindow (ov_overtimeDate dto) (windowRange (oe_advanceDays env) (oe_backfillDays env) now)
      then Inl (Biz OVERTIME_DATE_OUT_OF_WINDOW)
      else if validateBatch (fst operator) dto userIds canProxy (fa_dataScope proxyAccess) dir db \<noteq> []
      then Inl (Biz OVERTIME_BATCH_REJECTED)
      else bindR (oe_holiday env (ov_overtimeDate dto)) (\<lambda>holiday.
        hr_execute
          \<lparr>ho_operator = operator,
           ho_feature = (if canProxy then PROXY_OVERTIME_FUNCTION_CODE else OVERTIME_APPLY_FUNCTION_CODE),
           ho_scope = ''hr.overtime.submit'', ho_key = key, ho_fingerprint = fingerprint dto,
           ho_run = (\<lambda>db. bindR (overtime_run dir operator
               (JArr (map (\<lambda>(i, n). JObj [(''id'', JNum (of_int i)), (''name'', JStr n)]) departments))
               dto userIds canProxy holiday now suffix db)
             (\<lambda>(head, db'). Inr (overtime_outcome dto userIds head, db')))\<rparr> db))"

text \<open>Whom the form offers; the order \<open>ORDER BY name, user_id\<close> of the database is an argument.\<close>

definition listEligibleEmployees ::
    "(account_row list \<Rightarrow> account_row list) \<Rightarrow> directory \<Rightarrow> operator \<Rightarrow> hr_db \<Rightarrow> err + (int \<times> string) list" where
  "listEligibleEmployees by_name dir operator db =
     (let applyAccess = getFunctionAccess True (fst operator) OVERTIME_APPLY_FUNCTION_CODE dir;
          proxyAccess = getFunctionAccess True (fst operator) PROXY_OVERTIME_FUNCTION_CODE dir;
          canProxy = (usable proxyAccess \<and> fa_dataScope proxyAccess \<noteq> Some SELF);
          shown = (\<lambda>as. Inr (map (\<lambda>a. (ua_userId a, ua_name a)) (by_name as)));
          active = filter (\<lambda>a. ua_status a = ''ACTIVE'' \<and> \<not> ua_deleted a) (dir_accounts dir) in
      if \<not> usable applyAccess \<and> \<not> canProxy then Inl (Biz RESOURCE_NOT_FOUND)
      else if \<not> canProxy then Inr [operator]
      else if fa_dataScope proxyAccess = Some DEPARTMENT then
        (let closure = closureOfUser (fst operator) (hr_directory dir db) in
         if closure = [] then Inr []
         else shown (filter
           (\<lambda>a. (\<exists>uo \<in> set (user_org db). uo_userId uo = ua_userId a \<and> uo_departmentId uo \<in> set closure)
              \<and> \<not> (\<exists>uo \<in> set (user_org db). uo_userId uo = ua_userId a \<and> uo_departmentId uo \<notin> set closure)) active))
      else shown active)"

section \<open>Statistics\<close>

datatype holiday_type = WORKDAY | WEEKEND | HOLIDAY | ADJUSTED_WORKDAY | ADJUSTED_HOLIDAY

fun holiday_code :: "holiday_type \<Rightarrow> string" where
  "holiday_code WORKDAY = ''WORKDAY''"
| "holiday_code WEEKEND = ''WEEKEND''"
| "holiday_code HOLIDAY = ''HOLIDAY''"
| "holiday_code ADJUSTED_WORKDAY = ''ADJUSTED_WORKDAY''"
| "holiday_code ADJUSTED_HOLIDAY = ''ADJUSTED_HOLIDAY''"

definition WORKDAY_CODES :: "string list" where "WORKDAY_CODES = [''WORKDAY'', ''ADJUSTED_WORKDAY'']"
definition REST_DAY_CODES :: "string list" where "REST_DAY_CODES = [''WEEKEND'']"
definition HOLIDAY_CODES :: "string list" where "HOLIDAY_CODES = [''HOLIDAY'', ''ADJUSTED_HOLIDAY'']"

text \<open>\<open>Math.round\<close> takes halves up; the hours are the quotient before it is written as a double.\<close>

definition minutesToHours :: "int \<Rightarrow> rat" where
  "minutesToHours minutes = of_int \<lfloor>(of_int minutes / 60 * 100 + 1 / 2 :: rat)\<rfloor> / 100"

text \<open>\<open>holiday_snapshot->>'dateType'\<close> is one of the codes.\<close>

definition date_type_in :: "string list \<Rightarrow> overtime_item \<Rightarrow> bool" where
  "date_type_in codes o' =
     (case oi_holidaySnapshot o' of
        JObj ps \<Rightarrow> (case jget ''dateType'' ps of JStr t \<Rightarrow> t \<in> set codes | _ \<Rightarrow> False)
      | _ \<Rightarrow> False)"

definition oi_minutes :: "overtime_item \<Rightarrow> int" where
  "oi_minutes o' = oi_endMinute o' - oi_startMinute o'"

record overtime_summary =
  os_dayCount :: nat
  os_workday :: int
  os_restDay :: int
  os_holiday :: int
  os_total :: int
  os_workdayHours :: rat
  os_restDayHours :: rat
  os_holidayHours :: rat
  os_totalHours :: rat

text \<open>The first day of a month and of the next; a month text has the shape \<open>dddd-dd\<close>.\<close>

definition month_shape :: "string \<Rightarrow> bool" where
  "month_shape s \<longleftrightarrow> length s = 7 \<and> s ! 4 = CHR ''-''
     \<and> (\<forall>i \<in> set [0, 1, 2, 3, 5, 6]. s ! i \<in> set ''0123456789'')
     \<and> 1 \<le> digits (drop 5 s) \<and> digits (drop 5 s) \<le> 12"

definition monthRange :: "string \<Rightarrow> err + (int \<times> int)" where
  "monthRange month =
     (if \<not> month_shape month then Inl (Biz VALIDATION_FAILED)
      else let year = digits (take 4 month); monthIndex = digits (drop 5 month) - 1
           in Inr (date_utc year monthIndex 1, date_utc year (monthIndex + 1) 1))"

definition summaryMine :: "int \<Rightarrow> string \<Rightarrow> hr_db \<Rightarrow> err + overtime_summary" where
  "summaryMine userId month db =
     bindR (monthRange month) (\<lambda>(start, end).
     let items = filter (\<lambda>o'. oi_userId o' = userId \<and> start \<le> oi_overtimeDate o' \<and> oi_overtimeDate o' < end
             \<and> (\<exists>h \<in> set (sd_heads db). ah_id h = oi_requestId o' \<and> ah_status h = APPROVED)) (hd_overtime db);
         workdayMinutes = sum_where (date_type_in WORKDAY_CODES) oi_minutes items;
         restDayMinutes = sum_where (date_type_in REST_DAY_CODES) oi_minutes items;
         holidayMinutes = sum_where (date_type_in HOLIDAY_CODES) oi_minutes items;
         totalMinutes = sum_where (\<lambda>o'. True) oi_minutes items
     in Inr \<lparr>os_dayCount = length (remdups (map oi_overtimeDate items)),
             os_workday = workdayMinutes, os_restDay = restDayMinutes, os_holiday = holidayMinutes, os_total = totalMinutes,
             os_workdayHours = minutesToHours workdayMinutes, os_restDayHours = minutesToHours restDayMinutes,
             os_holidayHours = minutesToHours holidayMinutes, os_totalHours = minutesToHours totalMinutes\<rparr>)"

end
