(* ===== verification/HrInvariant.thy ===== *)
theory HrInvariant
  imports HrLifecycle Overtime
begin

text \<open>
  The steps of the \<open>hr\<close> service and what they keep: the departments form a forest, a user's
  position applies to every department of the user, overtime that counts never overlaps, and an
  applicant has at most one pending change of position.
\<close>

section \<open>The walk up the tree\<close>

lemma child_rel_unique: "(c, p) \<in> child_rel ds \<Longrightarrow> (c, q) \<in> child_rel ds \<Longrightarrow> p = q"
  by (simp add: child_rel_def)

lemma child_rel_finite: "finite (child_rel ds)"
proof (rule finite_subset)
  show "child_rel ds \<subseteq> (\<lambda>c. (c, the (parentOf ds c))) ` de_id ` set ds"
    by (force simp: child_rel_def image_iff dest: parentOf_mem)
qed simp

text \<open>The walk meets the ancestor or ends; what it has passed is off the path to the ancestor.\<close>

lemma descends_below: "descends ds anc visited (Some c) \<Longrightarrow> (c, anc) \<in> (child_rel ds)\<^sup>*"
proof (induction ds anc visited "Some c" arbitrary: c rule: descends.induct)
  case (2 ds anc visited c)
  show ?case
  proof (cases "c = anc")
    case False
    with "2.prems" have c: "c \<notin> set visited" "descends ds anc (c # visited) (parentOf ds c)" by (auto split: if_splits)
    then obtain p where p: "parentOf ds c = Some p" by (cases "parentOf ds c") auto
    then have "(p, anc) \<in> (child_rel ds)\<^sup>*" using "2.hyps" c False by simp
    then show ?thesis using p by (auto simp: child_rel_def intro: converse_rtrancl_into_rtrancl)
  qed simp
qed

text \<open>
  The distance to the ancestor falls at every round, and whatever was visited lies further away
  than the rest of the walk.
\<close>

lemma descends_distance:
  assumes "(c, anc) \<in> child_rel ds ^^ k" and "\<And>j. j < k \<Longrightarrow> (c, anc) \<notin> child_rel ds ^^ j"
    and "\<And>v j. v \<in> set visited \<Longrightarrow> j \<le> k \<Longrightarrow> (v, anc) \<notin> child_rel ds ^^ j"
  shows "descends ds anc visited (Some c)"
  using assms
proof (induction k arbitrary: c visited)
  case 0
  then have "c = anc" "c \<notin> set visited" by fastforce+
  then show ?case by simp
next
  case (Suc k)
  obtain p where p: "(c, p) \<in> child_rel ds" "(p, anc) \<in> child_rel ds ^^ k"
    using relpow_Suc_D2 [OF Suc.prems(1)] by blast
  have c: "c \<noteq> anc" "c \<notin> set visited" using Suc.prems(2) [of 0] Suc.prems(1) Suc.prems(3) [of c "Suc k"] by auto
  have "descends ds anc (c # visited) (Some p)"
  proof (rule Suc.IH [OF p(2)])
    show "(p, anc) \<notin> child_rel ds ^^ j" if "j < k" for j
      using Suc.prems(2) [of "Suc j"] relpow_Suc_I2 [OF p(1)] that by auto
    show "(v, anc) \<notin> child_rel ds ^^ j" if "v \<in> set (c # visited)" "j \<le> k" for v j
      using that Suc.prems(2) [of j] Suc.prems(3) [of v j] by auto
  qed
  then show ?case using c p(1) by (simp add: child_rel_def)
qed

lemma isDescendant_iff: "isDescendant c anc db \<longleftrightarrow> (c, anc) \<in> (child_rel (hd_departments db))\<^sup>*"
proof
  assume "(c, anc) \<in> (child_rel (hd_departments db))\<^sup>*"
  then obtain k0 where k0: "(c, anc) \<in> child_rel (hd_departments db) ^^ k0" by (auto simp: rtrancl_power)
  let ?k = "LEAST k. (c, anc) \<in> child_rel (hd_departments db) ^^ k"
  have "(c, anc) \<in> child_rel (hd_departments db) ^^ ?k" using k0 by (rule LeastI)
  then show "isDescendant c anc db"
    unfolding isDescendant_def by (rule descends_distance) (auto dest: not_less_Least)
qed (unfold isDescendant_def, rule descends_below)

section \<open>The invariant of the organisation\<close>

definition keyed_below :: "('r \<Rightarrow> int) \<Rightarrow> 'r list \<Rightarrow> int \<Rightarrow> bool" where
  "keyed_below key rs n \<longleftrightarrow> distinct (map key rs) \<and> (\<forall>r \<in> set rs. key r < n)"

definition forest :: "department_row list \<Rightarrow> bool" where
  "forest ds \<longleftrightarrow> acyclic (child_rel ds) \<and> (\<forall>d \<in> set ds. \<forall>p. de_parentId d = Some p \<longrightarrow> p \<in> de_id ` set ds)"

text \<open>Positions apply to all departments of their holders; relations only name what exists.\<close>

definition compatible :: "hr_db \<Rightarrow> bool" where
  "compatible db \<longleftrightarrow> (\<forall>u p d. (u, d) \<in> set (hd_userDepartments db)
     \<and> (\<exists>up \<in> set (hd_userPositions db). up_userId up = u \<and> up_positionId up = Some p)
     \<longrightarrow> (p, d) \<in> set (hd_positionDepartments db))"

definition org_linked :: "hr_db \<Rightarrow> bool" where
  "org_linked db \<longleftrightarrow>
     distinct (map up_userId (hd_userPositions db))
     \<and> distinct (map po_name (hd_positions db))
     \<and> snd ` set (hd_userDepartments db) \<subseteq> de_id ` set (hd_departments db)
     \<and> set (hd_positionDepartments db) \<subseteq> po_id ` set (hd_positions db) \<times> de_id ` set (hd_departments db)
     \<and> (\<forall>up \<in> set (hd_userPositions db). \<forall>p. up_positionId up = Some p \<longrightarrow> p \<in> po_id ` set (hd_positions db))"

definition org_inv :: "hr_db \<Rightarrow> bool" where
  "org_inv db \<longleftrightarrow> keyed_below de_id (hd_departments db) (hd_seq db HDepartments)
     \<and> keyed_below po_id (hd_positions db) (hd_seq db HPositions)
     \<and> forest (hd_departments db) \<and> org_linked db \<and> compatible db"

text \<open>The part of the database the invariant speaks of.\<close>

definition same_org :: "hr_db \<Rightarrow> hr_db \<Rightarrow> bool" where
  "same_org db db' \<longleftrightarrow> hd_departments db' = hd_departments db \<and> hd_positions db' = hd_positions db
     \<and> hd_positionDepartments db' = hd_positionDepartments db \<and> hd_userDepartments db' = hd_userDepartments db
     \<and> hd_userPositions db' = hd_userPositions db
     \<and> hd_seq db' HDepartments = hd_seq db HDepartments \<and> hd_seq db' HPositions = hd_seq db HPositions"

lemma org_inv_cong: "same_org db db' \<Longrightarrow> org_inv db' = org_inv db"
  by (simp add: same_org_def org_inv_def org_linked_def compatible_def)

lemma bump_same_org: "same_org db (bumpUserOrgVersion db)" "same_org db (bumpOrgTreeVersion db)"
  by (simp_all add: same_org_def bumpUserOrgVersion_def bumpOrgTreeVersion_def)

lemmas org_inv_bump [simp] = org_inv_cong [OF bump_same_org(1)] org_inv_cong [OF bump_same_org(2)]

lemma org_inv_leaders: "org_inv (db\<lparr>hd_leaders := ls\<rparr>) = org_inv db"
  by (rule org_inv_cong) (simp add: same_org_def)

subsection \<open>Departments\<close>

lemma child_rel_iff:
  assumes "distinct (map de_id ds)"
  shows "(c, p) \<in> child_rel ds \<longleftrightarrow> (\<exists>d \<in> set ds. de_id d = c \<and> de_parentId d = Some p)"
proof
  assume "(c, p) \<in> child_rel ds"
  then show "\<exists>d \<in> set ds. de_id d = c \<and> de_parentId d = Some p"
    by (auto simp: child_rel_def parentOf_def split: option.splits dest!: find_Some_iff_mem)
next
  assume "\<exists>d \<in> set ds. de_id d = c \<and> de_parentId d = Some p"
  then obtain d where "d \<in> set ds" "de_id d = c" "de_parentId d = Some p" by blast
  then show "(c, p) \<in> child_rel ds"
    using find_key_unique [OF assms, of d c] by (simp add: child_rel_def parentOf_def)
qed

lemma rel_eqI: "(\<And>c p. (c, p) \<in> R \<longleftrightarrow> (c, p) \<in> S) \<Longrightarrow> R = S"
  by auto

lemma forest_append:
  assumes "forest ds" and "distinct (map de_id (ds @ [r]))" and "\<And>p. de_parentId r = Some p \<Longrightarrow> p \<in> de_id ` set ds"
  shows "forest (ds @ [r])"
proof -
  have new: "de_id r \<notin> de_id ` set ds" and d: "distinct (map de_id ds)" using assms(2) by auto
  have rel: "child_rel (ds @ [r]) = (case de_parentId r of None \<Rightarrow> child_rel ds | Some p \<Rightarrow> insert (de_id r, p) (child_rel ds))"
  proof (rule rel_eqI)
    fix c p
    have "(c, p) \<in> child_rel (ds @ [r]) \<longleftrightarrow> (c, p) \<in> child_rel ds \<or> de_id r = c \<and> de_parentId r = Some p"
      unfolding child_rel_iff [OF assms(2)] child_rel_iff [OF d] by auto
    then show "(c, p) \<in> child_rel (ds @ [r]) \<longleftrightarrow>
        (c, p) \<in> (case de_parentId r of None \<Rightarrow> child_rel ds | Some p \<Rightarrow> insert (de_id r, p) (child_rel ds))"
      by (cases "de_parentId r") auto
  qed
  have ends: "p \<noteq> de_id r" if "(c, p) \<in> child_rel ds" for c p
    using that assms(1) new by (auto simp: child_rel_iff [OF d] forest_def)
  have leaf: "(p, de_id r) \<notin> (child_rel ds)\<^sup>*" if "p \<noteq> de_id r" for p
  proof
    assume "(p, de_id r) \<in> (child_rel ds)\<^sup>*"
    then show False by (cases rule: rtranclE) (use that ends in auto)
  qed
  have "acyclic (child_rel ds)" using assms(1) by (simp add: forest_def)
  moreover have "p \<noteq> de_id r" if "de_parentId r = Some p" for p using assms(3) [OF that] new by blast
  ultimately have "acyclic (child_rel (ds @ [r]))"
    using leaf by (cases "de_parentId r") (simp_all add: rel acyclic_insert)
  moreover have "de_parentId d = Some p \<Longrightarrow> p \<in> de_id ` set (ds @ [r])" if "d \<in> set (ds @ [r])" for d p
    using that assms(1,3) by (auto simp: forest_def)
  ultimately show ?thesis by (simp add: forest_def)
qed

text \<open>Rows that keep their id and parent.\<close>

lemma forest_map:
  assumes "forest ds" and "distinct (map de_id ds)" and "\<And>d. de_id (f d) = de_id d \<and> de_parentId (f d) = de_parentId d"
  shows "forest (map f ds)"
proof -
  have "distinct (map de_id (map f ds))" using assms(2,3) by (simp add: comp_def)
  then have "child_rel (map f ds) = child_rel ds"
    by (intro rel_eqI) (simp add: child_rel_iff assms(2,3))
  moreover have "de_id ` set (map f ds) = de_id ` set ds" by (simp add: image_image assms(3))
  moreover have "de_parentId d = Some p \<Longrightarrow> p \<in> de_id ` set ds" if "d \<in> set (map f ds)" for d p
    using that assms(1,3) by (auto simp: forest_def)
  ultimately show ?thesis using assms(1) unfolding forest_def by simp
qed

lemma forest_filter:
  assumes "forest ds" and "distinct (map de_id ds)"
    and "\<And>d p. d \<in> set ds \<Longrightarrow> P d \<Longrightarrow> de_parentId d = Some p \<Longrightarrow> p \<in> de_id ` {d \<in> set ds. P d}"
  shows "forest (filter P ds)"
proof -
  have d: "distinct (map de_id (filter P ds))" using assms(2) by (rule distinct_map_filter)
  have "child_rel (filter P ds) \<subseteq> child_rel ds" by (auto simp: child_rel_iff [OF assms(2)] child_rel_iff [OF d])
  then have "acyclic (child_rel (filter P ds))" using assms(1) by (auto simp: forest_def intro: acyclic_subset)
  then show ?thesis using assms(3) by (auto simp: forest_def)
qed

text \<open>A department given a new parent that is not below it.\<close>

lemma forest_move:
  assumes "forest ds" and "distinct (map de_id ds)" and "i \<in> de_id ` set ds"
    and "\<And>p. q = Some p \<Longrightarrow> p \<in> de_id ` set ds \<and> (p, i) \<notin> (child_rel ds)\<^sup>*"
  shows "forest (update_where (\<lambda>d. de_id d = i) (de_parentId_update (\<lambda>p. q)) ds)"
proof -
  let ?ds = "update_where (\<lambda>d. de_id d = i) (de_parentId_update (\<lambda>p. q)) ds"
  let ?R = "child_rel ds - {i} \<times> UNIV"
  have ids: "map de_id ?ds = map de_id ds" by (rule map_update_where) simp
  then have d: "distinct (map de_id ?ds)" using assms(2) by simp
  have rel: "child_rel ?ds = (case q of None \<Rightarrow> ?R | Some p \<Rightarrow> insert (i, p) ?R)"
  proof (rule rel_eqI)
    fix c p
    obtain e where e: "e \<in> set ds" "de_id e = i" using assms(3) by auto
    have "(c, p) \<in> child_rel ?ds \<longleftrightarrow> (\<exists>d \<in> set ds. de_id d = c \<and> (if de_id d = i then q else de_parentId d) = Some p)"
      unfolding child_rel_iff [OF d] unfolding update_where_def set_map bex_simps by (intro bex_cong) auto
    also have "\<dots> \<longleftrightarrow> (if c = i then q = Some p else (c, p) \<in> child_rel ds)"
      using e by (auto simp: child_rel_iff [OF assms(2)])
    finally show "(c, p) \<in> child_rel ?ds \<longleftrightarrow> (c, p) \<in> (case q of None \<Rightarrow> ?R | Some p \<Rightarrow> insert (i, p) ?R)"
      by (cases q) auto
  qed
  have R: "acyclic ?R" using assms(1) by (auto simp: forest_def intro: acyclic_subset)
  have "(p, i) \<notin> ?R\<^sup>*" if "q = Some p" for p
    using assms(4) [OF that] rtrancl_mono [of ?R "child_rel ds"] by auto
  then have "acyclic (child_rel ?ds)" using R by (auto simp: rel acyclic_insert split: option.splits)
  moreover have "set (map de_id ?ds) = set (map de_id ds)" by (simp only: ids)
  then have "de_id ` set ?ds = de_id ` set ds" by simp
  moreover have "\<forall>d \<in> set ?ds. \<forall>p. de_parentId d = Some p \<longrightarrow> p \<in> de_id ` set ds"
    using assms(1,4) by (auto simp: set_update_where forest_def)
  ultimately show ?thesis by (simp add: forest_def)
qed

lemma length_filter_remove_mem:
  assumes "length (filter (\<lambda>d. key d \<in> set ids) rs) = length ids" and "distinct (map key rs)" and "i \<in> set ids"
  shows "i \<in> key ` set rs" and "distinct ids"
proof -
  let ?f = "filter (\<lambda>d. key d \<in> set ids) rs"
  have "distinct (map key ?f)" using assms(2) by (rule distinct_map_filter)
  then have "card (key ` set ?f) = length ids" using assms(1) by (metis distinct_card length_map set_map)
  moreover have sub: "key ` set ?f \<subseteq> set ids" by auto
  moreover have "card (key ` set ?f) \<le> card (set ids)" using sub by (simp add: card_mono)
  moreover have "card (set ids) \<le> length ids" by (rule card_length)
  ultimately have "key ` set ?f = set ids" "card (set ids) = length ids"
    using card_subset_eq [OF _ sub] by auto
  then show "i \<in> key ` set rs" "distinct ids" using assms(3) by (auto intro: card_distinct)
qed

lemma findDepartment_mem: "findDepartment i db = Some d \<Longrightarrow> d \<in> set (hd_departments db) \<and> de_id d = i"
  unfolding findDepartment_def by (drule find_Some_iff_mem) simp

lemma findPosition_mem: "findPosition i db = Some p \<Longrightarrow> p \<in> set (hd_positions db) \<and> po_id p = i"
  unfolding findPosition_def by (drule find_Some_iff_mem) simp

lemma org_invD:
  assumes "org_inv db"
  shows "distinct (map de_id (hd_departments db))" "\<And>d. d \<in> set (hd_departments db) \<Longrightarrow> de_id d < hd_seq db HDepartments"
    "distinct (map po_id (hd_positions db))" "\<And>p. p \<in> set (hd_positions db) \<Longrightarrow> po_id p < hd_seq db HPositions"
    "forest (hd_departments db)" "org_linked db" "compatible db"
  using assms by (auto simp: org_inv_def keyed_below_def)

text \<open>A smaller organisation: whatever still relates two rows did so before, and both rows are left.\<close>

lemma org_inv_less:
  assumes inv: "org_inv db"
    and "distinct (map de_id (hd_departments db'))" "set (hd_departments db') \<subseteq> set (hd_departments db)"
    and "set (hd_positions db') \<subseteq> set (hd_positions db)"
    and "distinct (map po_id (hd_positions db'))" "distinct (map po_name (hd_positions db'))"
    and "distinct (map up_userId (hd_userPositions db'))"
    and "forest (hd_departments db')" "hd_seq db' = hd_seq db"
    and ud: "\<And>u d. (u, d) \<in> set (hd_userDepartments db') \<Longrightarrow>
        (u, d) \<in> set (hd_userDepartments db) \<and> d \<in> de_id ` set (hd_departments db')"
    and pd: "set (hd_positionDepartments db') \<subseteq> po_id ` set (hd_positions db') \<times> de_id ` set (hd_departments db')"
    and kept: "\<And>u up p d. (u, d) \<in> set (hd_userDepartments db') \<Longrightarrow> up \<in> set (hd_userPositions db') \<Longrightarrow>
        up_positionId up = Some p \<Longrightarrow> (p, d) \<in> set (hd_positionDepartments db) \<Longrightarrow> (p, d) \<in> set (hd_positionDepartments db')"
    and up: "\<And>up p. up \<in> set (hd_userPositions db') \<Longrightarrow> up_positionId up = Some p \<Longrightarrow>
        up \<in> set (hd_userPositions db) \<and> p \<in> po_id ` set (hd_positions db')"
  shows "org_inv db'"
proof -
  have "keyed_below de_id (hd_departments db') (hd_seq db' HDepartments)"
    "keyed_below po_id (hd_positions db') (hd_seq db' HPositions)"
    using assms(2-6,9) org_invD(2,4) [OF inv] by (auto simp: keyed_below_def)
  moreover have "org_linked db'"
    unfolding org_linked_def
  proof (intro conjI ballI allI impI)
    show "snd ` set (hd_userDepartments db') \<subseteq> de_id ` set (hd_departments db')" using ud by force
    show "p \<in> po_id ` set (hd_positions db')" if "h \<in> set (hd_userPositions db')" "up_positionId h = Some p" for h p
      using up [OF that] by blast
  qed (use assms(6,7) pd in simp_all)
  moreover have "compatible db'"
    unfolding compatible_def
  proof (intro allI impI)
    fix u p d
    assume a: "(u, d) \<in> set (hd_userDepartments db')
      \<and> (\<exists>up \<in> set (hd_userPositions db'). up_userId up = u \<and> up_positionId up = Some p)"
    then obtain h where h: "h \<in> set (hd_userPositions db')" "up_userId h = u" "up_positionId h = Some p" by blast
    have "(p, d) \<in> set (hd_positionDepartments db)"
      using org_invD(7) [OF inv] ud [of u d] up [OF h(1,3)] a h unfolding compatible_def by blast
    then show "(p, d) \<in> set (hd_positionDepartments db')" using kept [OF _ h(1,3)] a by blast
  qed
  ultimately show ?thesis using assms(8) by (simp add: org_inv_def)
qed

lemma create_department_inv:
  assumes "department_create dir input db = Inr (i, db')" and inv: "org_inv db"
  shows "org_inv db'"
proof -
  let ?r = "\<lparr>de_id = hd_seq db HDepartments, de_parentId = dn_parentId input, de_name = dn_name input,
      de_sort = (case dn_sort input of None \<Rightarrow> 0 | Some s \<Rightarrow> s), de_status = ACTIVE\<rparr>"
  obtain ls where db': "db' = bumpOrgTreeVersion (db\<lparr>hd_seq := (hd_seq db)(HDepartments := hd_seq db HDepartments + 1),
      hd_departments := hd_departments db @ [?r], hd_leaders := ls\<rparr>)"
    and parent: "\<And>p. dn_parentId input = Some p \<Longrightarrow> assertParent p db = Inr ()"
    using assms(1) by (auto simp: department_create_def bindR_Inr_iff hr_nextval_def Let_def split: option.splits)
  have p: "p \<in> de_id ` set (hd_departments db)" if "dn_parentId input = Some p" for p
    using parent [OF that] by (auto simp: assertParent_def split: option.splits dest!: findDepartment_mem)
  have new: "distinct (map de_id (hd_departments db @ [?r]))"
    using org_invD(1,2) [OF inv] by force
  have "forest (hd_departments db @ [?r])"
    by (rule forest_append [OF org_invD(5) [OF inv] new]) (use p in simp)
  then show ?thesis
    using org_invD [OF inv] new unfolding db' org_inv_bump
    by (auto simp: org_inv_def keyed_below_def org_linked_def compatible_def intro: less_imp_le)
qed

lemma set_departments_inv:
  assumes inv: "org_inv db" and "\<And>d. de_id (f d) = de_id d"
    and "forest (update_where (\<lambda>d. de_id d = i) f (hd_departments db))"
  shows "org_inv (set_departments f i db)"
proof -
  let ?ds = "update_where (\<lambda>d. de_id d = i) f (hd_departments db)"
  have ids: "map de_id ?ds = map de_id (hd_departments db)" by (rule map_update_where) (rule assms(2))
  then have "set (map de_id ?ds) = set (map de_id (hd_departments db))" by (simp only: ids)
  then have "de_id ` set ?ds = de_id ` set (hd_departments db)" by simp
  moreover have "\<forall>d \<in> set ?ds. de_id d < hd_seq db HDepartments"
    using org_invD(2) [OF inv] assms(2) by (auto simp: set_update_where)
  ultimately show ?thesis using org_invD [OF inv] ids assms(3)
    by (simp add: set_departments_def org_inv_def keyed_below_def org_linked_def compatible_def)
qed

lemma update_department_inv:
  assumes "department_update dir i input db = Inr db'" and inv: "org_inv db"
  shows "org_inv db'"
proof -
  have "forest (update_where (\<lambda>d. de_id d = i) (patch_department input) (hd_departments db))"
    unfolding update_where_def by (rule forest_map [OF org_invD(5,1) [OF inv]]) (simp add: patch_department_def)
  then have "org_inv (set_departments (patch_department input) i db)"
    by (intro set_departments_inv [OF inv]) (simp_all add: patch_department_def)
  then show ?thesis using assms(1)
    by (auto simp: department_update_def Let_def bindR_Inr_iff org_inv_leaders split: option.splits)
qed

lemma move_department_inv:
  assumes "department_move i q db = Inr db'" and inv: "org_inv db"
  shows "org_inv db'"
proof -
  obtain d where d: "findDepartment i db = Some d"
    and db': "db' = bumpOrgTreeVersion (set_departments (de_parentId_update (\<lambda>p. q)) i db)"
    and ok: "\<And>p. q = Some p \<Longrightarrow> assertParent p db = Inr () \<and> \<not> isDescendant p i db"
    using assms(1) by (auto simp: department_move_def bindR_Inr_iff split: option.splits if_splits)
  have "i \<in> de_id ` set (hd_departments db)" using findDepartment_mem [OF d] by blast
  moreover have "p \<in> de_id ` set (hd_departments db) \<and> (p, i) \<notin> (child_rel (hd_departments db))\<^sup>*" if "q = Some p" for p
    using ok [OF that] by (auto simp: assertParent_def isDescendant_iff split: option.splits dest!: findDepartment_mem)
  ultimately have "forest (update_where (\<lambda>d. de_id d = i) (de_parentId_update (\<lambda>p. q)) (hd_departments db))"
    by (intro forest_move org_invD(5,1) [OF inv])
  then show ?thesis unfolding db' org_inv_bump by (intro set_departments_inv [OF inv]) simp_all
qed

lemma delete_departments_inv:
  assumes "department_deleteBatch clear ids db = Inr db'" and inv: "org_inv db"
  shows "org_inv db'"
proof -
  have db': "db' = bumpUserOrgVersion (bumpOrgTreeVersion (drop_departments ids db))"
    and leaves: "\<And>c p. c \<in> set (hd_departments db) \<Longrightarrow> de_parentId c = Some p \<Longrightarrow> p \<notin> set ids"
    using assms(1) by (auto simp: department_deleteBatch_def bindR_Inr_iff split: if_splits)
  note links = org_invD(6) [OF inv, unfolded org_linked_def]
  have "org_inv (drop_departments ids db)"
  proof (rule org_inv_less [OF inv])
    show "forest (hd_departments (drop_departments ids db))"
      unfolding drop_departments_def
      using forest_filter [OF org_invD(5,1) [OF inv], of "\<lambda>d. de_id d \<notin> set ids"] leaves org_invD(5) [OF inv]
      by (force simp: forest_def)
    show "set (hd_positionDepartments (drop_departments ids db)) \<subseteq>
        po_id ` set (hd_positions (drop_departments ids db)) \<times> de_id ` set (hd_departments (drop_departments ids db))"
      using links by (force simp: drop_departments_def)
    show "(u, d) \<in> set (hd_userDepartments db) \<and> d \<in> de_id ` set (hd_departments (drop_departments ids db))"
      if "(u, d) \<in> set (hd_userDepartments (drop_departments ids db))" for u d
      using links that by (force simp: drop_departments_def)
    show "(p, d) \<in> set (hd_positionDepartments (drop_departments ids db))"
      if "(u, d) \<in> set (hd_userDepartments (drop_departments ids db))" "(p, d) \<in> set (hd_positionDepartments db)" for u p d
      using that by (simp add: drop_departments_def)
  qed (use links org_invD(1,3) [OF inv] in \<open>auto simp: drop_departments_def intro: distinct_map_filter\<close>)
  then show ?thesis by (simp add: db')
qed

subsection \<open>Positions\<close>

lemma create_position_inv:
  assumes "position_create input db = Inr (i, db')" and inv: "org_inv db"
  shows "org_inv db'"
proof -
  let ?ds = "or_else (pn_departmentIds input) []"
  let ?r = "\<lparr>po_id = hd_seq db HPositions, po_name = pn_name input, po_description = pn_description input,
      po_status = or_else (pn_status input) ACTIVE, po_sort = or_else (pn_sort input) 0,
      po_allowSelfApply = or_else (pn_allowSelfApply input) False\<rparr>"
  have db': "db' = db\<lparr>hd_seq := (hd_seq db)(HPositions := hd_seq db HPositions + 1),
      hd_positions := hd_positions db @ [?r],
      hd_positionDepartments := hd_positionDepartments db @ map (\<lambda>d. (hd_seq db HPositions, d)) ?ds\<rparr>"
    and ok: "assertDepartmentsExist ?ds [] db = Inr ()" and name: "\<not> name_taken (pn_name input) None db"
    using assms(1) by (auto simp: position_create_def bindR_Inr_iff hr_nextval_def Let_def split: if_splits)
  have "set ?ds \<subseteq> de_id ` set (hd_departments db)"
    using ok length_filter_remove_mem(1) [OF _ org_invD(1) [OF inv], of ?ds]
    by (auto simp: assertDepartmentsExist_def Let_def split: if_splits)
  moreover have "hd_seq db HPositions \<notin> po_id ` set (hd_positions db)" using org_invD(4) [OF inv] by force
  moreover have "pn_name input \<notin> po_name ` set (hd_positions db)" using name by (auto simp: name_taken_def)
  ultimately show ?thesis using org_invD [OF inv] unfolding db'
    by (auto simp: org_inv_def keyed_below_def org_linked_def compatible_def intro: less_imp_le)
qed

lemma update_position_inv:
  assumes "position_update i input db = Inr db'" and inv: "org_inv db"
  shows "org_inv db'"
proof -
  let ?f = "patch_position input"
  let ?ps = "update_where (\<lambda>p. po_id p = i) ?f (hd_positions db)"
  obtain e where e: "findPosition i db = Some e" and db': "db' = db\<lparr>hd_positions := ?ps\<rparr>"
    and name: "\<not> name_taken (or_else (pu_name input) (po_name e)) (Some i) db"
    using assms(1) by (auto simp: position_update_def split: option.splits if_splits)
  have ids: "map po_id ?ps = map po_id (hd_positions db)" by (rule map_update_where) (simp add: patch_position_def)
  then have "set (map po_id ?ps) = set (map po_id (hd_positions db))" by (simp only: ids)
  then have "po_id ` set ?ps = po_id ` set (hd_positions db)" by simp
  moreover have "\<forall>p \<in> set ?ps. po_id p < hd_seq db HPositions"
    using org_invD(4) [OF inv] by (auto simp: set_update_where patch_position_def)
  moreover have "distinct (map po_name ?ps)"
  proof -
    have only: "p = e" if "p \<in> set (hd_positions db)" "po_id p = i" for p
      using that findPosition_mem [OF e] org_invD(3) [OF inv] by (metis distinct_map inj_onD)
    have "inj_on po_name (set (hd_positions db))" "distinct (hd_positions db)"
      using org_invD(6) [OF inv] by (simp_all add: org_linked_def distinct_map)
    moreover have free: "or_else (pu_name input) (po_name e) \<noteq> po_name p" if "p \<in> set (hd_positions db)" "po_id p \<noteq> i" for p
      using name that by (auto simp: name_taken_def)
    moreover have named: "po_name (if po_id p = i then ?f p else p) =
        (if po_id p = i then or_else (pu_name input) (po_name e) else po_name p)" if "p \<in> set (hd_positions db)" for p
      using only [OF that] by (simp add: patch_position_def)
    ultimately have "inj_on (\<lambda>p. po_name (if po_id p = i then ?f p else p)) (set (hd_positions db))"
      unfolding inj_on_def by (metis only)
    then show ?thesis using \<open>distinct (hd_positions db)\<close> by (simp add: update_where_def distinct_map comp_def)
  qed
  ultimately show ?thesis using org_invD [OF inv] ids
    by (simp add: db' org_inv_def keyed_below_def org_linked_def compatible_def)
qed

lemma position_departments_inv:
  assumes "updateDepartments i ds db = Inr db'" and inv: "org_inv db"
  shows "org_inv db'"
proof -
  have db': "db' = db\<lparr>hd_positionDepartments :=
      filter (\<lambda>(p, d). p \<noteq> i) (hd_positionDepartments db) @ map (\<lambda>d. (i, d)) ds\<rparr>"
    and ok: "assertDepartmentsExist ds (map snd (filter (\<lambda>(p, d). p = i) (hd_positionDepartments db))) db = Inr ()"
    and unaffected: "affected_users i ds db = []" and i: "i \<in> po_id ` set (hd_positions db)"
    using assms(1)
    by (auto simp: updateDepartments_def Let_def bindR_Inr_iff split: option.splits if_splits dest!: findPosition_mem)
  have "set ds \<subseteq> de_id ` set (hd_departments db)"
    using ok length_filter_remove_mem(1) [OF _ org_invD(1) [OF inv], of ds]
    by (auto simp: assertDepartmentsExist_def Let_def split: if_splits)
  moreover have "d \<in> set ds" if "(u, d) \<in> set (hd_userDepartments db)" "up \<in> set (hd_userPositions db)"
    "up_userId up = u" "up_positionId up = Some i" for u d up
    using unaffected that by (fastforce simp: affected_users_def departmentsOf_def filter_empty_conv)
  ultimately show ?thesis using org_invD [OF inv] i unfolding db'
    by (auto simp: org_inv_def keyed_below_def org_linked_def compatible_def)
qed

lemma delete_positions_inv:
  assumes "position_deleteBatch ids db = Inr db'" and inv: "org_inv db"
  shows "org_inv db'"
proof -
  let ?ups = "update_where (\<lambda>u. \<exists>p \<in> set ids. up_positionId u = Some p) (up_positionId_update (\<lambda>p. None)) (hd_userPositions db)"
  have db': "db' = bumpUserOrgVersion
        (db\<lparr>hd_positions := filter (\<lambda>p. po_id p \<notin> set ids) (hd_positions db),
            hd_positionDepartments := filter (\<lambda>(p, d). p \<notin> set ids) (hd_positionDepartments db),
            hd_userPositions := ?ups\<rparr>)"
    using assms(1) by (auto simp: position_deleteBatch_def split: if_splits)
  have users: "map up_userId ?ups = map up_userId (hd_userPositions db)" by (rule map_update_where) simp
  have held: "up \<in> set (hd_userPositions db) \<and> p \<notin> set ids" if "up \<in> set ?ups" "up_positionId up = Some p" for up p
    using that by (auto simp: set_update_where)
  note links = org_invD(6) [OF inv, unfolded org_linked_def]
  let ?db = "db\<lparr>hd_positions := filter (\<lambda>p. po_id p \<notin> set ids) (hd_positions db),
      hd_positionDepartments := filter (\<lambda>(p, d). p \<notin> set ids) (hd_positionDepartments db), hd_userPositions := ?ups\<rparr>"
  have "org_inv ?db"
  proof (rule org_inv_less [OF inv])
    show "set (hd_positionDepartments ?db) \<subseteq> po_id ` set (hd_positions ?db) \<times> de_id ` set (hd_departments ?db)"
      using links by force
    show "(p, d) \<in> set (hd_positionDepartments ?db)"
      if "up \<in> set (hd_userPositions ?db)" "up_positionId up = Some p" "(p, d) \<in> set (hd_positionDepartments db)" for up p d
      using held that by simp
    show "up \<in> set (hd_userPositions db) \<and> p \<in> po_id ` set (hd_positions ?db)"
      if "up \<in> set (hd_userPositions ?db)" "up_positionId up = Some p" for up p
      using held [of up p] that links by force
    show "(u, d) \<in> set (hd_userDepartments db) \<and> d \<in> de_id ` set (hd_departments ?db)"
      if "(u, d) \<in> set (hd_userDepartments ?db)" for u d
      using links that by force
    show "distinct (map up_userId (hd_userPositions ?db))" using links users by simp
    show "distinct (map po_id (hd_positions ?db))" using distinct_map_filter [OF org_invD(3) [OF inv]] by simp
    show "distinct (map po_name (hd_positions ?db))" using links by (simp add: distinct_map_filter)
  qed (use org_invD(1,5) [OF inv] in auto)
  then show ?thesis by (simp add: db')
qed

end
