(* ===== verification/HrSteps.thy ===== *)
theory HrSteps
  imports HrInvariant
begin

text \<open>
  The rest of what changes the organisation: placing a user, approving a change of position and
  restoring accounts, each with the proof that it keeps the invariant.
\<close>

section \<open>Placing users\<close>

text \<open>Departments and positions stay; whom they belong to changes.\<close>

lemma org_inv_placed:
  assumes inv: "org_inv db"
    and same: "hd_departments db' = hd_departments db" "hd_positions db' = hd_positions db"
      "hd_positionDepartments db' = hd_positionDepartments db" "hd_seq db' = hd_seq db"
    and "distinct (map up_userId (hd_userPositions db'))"
    and ud: "\<And>u d. (u, d) \<in> set (hd_userDepartments db') \<Longrightarrow> d \<in> de_id ` set (hd_departments db)"
    and up: "\<And>up p. up \<in> set (hd_userPositions db') \<Longrightarrow> up_positionId up = Some p \<Longrightarrow> p \<in> po_id ` set (hd_positions db)"
    and fits: "\<And>d up p. (up_userId up, d) \<in> set (hd_userDepartments db') \<Longrightarrow> up \<in> set (hd_userPositions db')
        \<Longrightarrow> up_positionId up = Some p \<Longrightarrow> (p, d) \<in> set (hd_positionDepartments db)"
  shows "org_inv db'"
proof -
  have "snd ` set (hd_userDepartments db') \<subseteq> de_id ` set (hd_departments db)" using ud by force
  then have "org_linked db'"
    using org_invD(6) [OF inv] assms(6) up unfolding org_linked_def same by blast
  moreover have "compatible db'" using fits unfolding compatible_def same by blast
  ultimately show ?thesis using inv by (simp add: org_inv_def same)
qed

lemma compatibleD:
  "compatible db \<Longrightarrow> (up_userId up, d) \<in> set (hd_userDepartments db) \<Longrightarrow> up \<in> set (hd_userPositions db)
    \<Longrightarrow> up_positionId up = Some p \<Longrightarrow> (p, d) \<in> set (hd_positionDepartments db)"
  unfolding compatible_def by blast

lemma set_userDepartments [simp]:
  "set (hd_userDepartments (setUserDepartments u ds db))
    = {x \<in> set (hd_userDepartments db). fst x \<noteq> u} \<union> {u} \<times> set ds"
  by (auto simp: setUserDepartments_def)

lemma setUserDepartments_frame [simp]:
  "hd_departments (setUserDepartments u ds db) = hd_departments db" "hd_positions (setUserDepartments u ds db) = hd_positions db"
  "hd_positionDepartments (setUserDepartments u ds db) = hd_positionDepartments db"
  "hd_seq (setUserDepartments u ds db) = hd_seq db" "hd_userPositions (setUserDepartments u ds db) = hd_userPositions db"
  by (simp_all add: setUserDepartments_def)

lemma upsertUserPosition_frame [simp]:
  "hd_departments (upsertUserPosition u p b db) = hd_departments db" "hd_positions (upsertUserPosition u p b db) = hd_positions db"
  "hd_positionDepartments (upsertUserPosition u p b db) = hd_positionDepartments db"
  "hd_seq (upsertUserPosition u p b db) = hd_seq db" "hd_userDepartments (upsertUserPosition u p b db) = hd_userDepartments db"
  by (simp_all add: upsertUserPosition_def)

lemma upsert_mem:
  assumes "up \<in> set (hd_userPositions (upsertUserPosition u p b db))"
  shows "up \<in> set (hd_userPositions db) \<and> up_userId up \<noteq> u \<or> up_userId up = u \<and> up_positionId up = Some p"
  using assms
  by (auto simp: upsertUserPosition_def findUserPosition_def set_update_where find_None_iff split: if_splits)

lemma upsert_distinct:
  assumes "distinct (map up_userId (hd_userPositions db))"
  shows "distinct (map up_userId (hd_userPositions (upsertUserPosition u p b db)))"
proof -
  have "map up_userId (update_where (\<lambda>x. up_userId x = u) (\<lambda>x. x\<lparr>up_positionId := Some p, up_assignedBy := b\<rparr>) (hd_userPositions db))
      = map up_userId (hd_userPositions db)" by (rule map_update_where) simp
  then show ?thesis using assms
    by (auto simp: upsertUserPosition_def findUserPosition_def find_None_iff split: if_splits)
qed

lemma assign_departments_inv:
  assumes "assignDepartments u ds db = Inr db'" and inv: "org_inv db"
  shows "org_inv db'"
proof -
  note links = org_invD(6) [OF inv, unfolded org_linked_def]
  have db': "db' = bumpUserOrgVersion (setUserDepartments u ds db)" and ok: "assertActiveDepartments ds db = Inr ()"
    and fits: "\<And>up p d. findUserPosition u db = Some up \<Longrightarrow> up_positionId up = Some p \<Longrightarrow> d \<in> set ds \<Longrightarrow> d \<in> applicable p db"
    using assms(1) by (auto simp: assignDepartments_def bindR_Inr_iff split: if_splits option.splits)
  have sub: "set ds \<subseteq> de_id ` set (hd_departments db)"
    using ok length_filter_remove_mem(1) [OF _ org_invD(1) [OF inv], of ds]
    by (auto simp: assertActiveDepartments_def Let_def split: if_splits)
  have "org_inv (setUserDepartments u ds db)"
  proof (rule org_inv_placed [OF inv])
    fix d up p
    assume up: "up \<in> set (hd_userPositions (setUserDepartments u ds db))" "up_positionId up = Some p"
      and "(up_userId up, d) \<in> set (hd_userDepartments (setUserDepartments u ds db))"
    then consider "(up_userId up, d) \<in> set (hd_userDepartments db)" | "up_userId up = u" "d \<in> set ds" by auto
    then show "(p, d) \<in> set (hd_positionDepartments db)"
    proof cases
      case 1
      then show ?thesis using org_invD(7) [OF inv] up unfolding compatible_def by auto
    next
      case 2
      have "findUserPosition u db = Some up"
        unfolding findUserPosition_def by (rule find_key_unique) (use links up 2 in auto)
      then show ?thesis using fits [OF _ up(2) 2(2)] by (auto simp: applicable_def)
    qed
  qed (use links sub in auto)
  then show ?thesis by (simp add: db')
qed

lemma assign_position_inv:
  assumes "assignPosition operatorId u p db = Inr db'" and inv: "org_inv db"
  shows "org_inv db'"
proof -
  note links = org_invD(6) [OF inv, unfolded org_linked_def]
  have db': "db' = bumpUserOrgVersion (upsertUserPosition u p operatorId db)" and pos: "p \<in> po_id ` set (hd_positions db)"
    and fits: "\<And>d. (u, d) \<in> set (hd_userDepartments db) \<Longrightarrow> (p, d) \<in> set (hd_positionDepartments db)"
    using assms(1)
    by (auto simp: assignPosition_def departmentsOf_def applicable_def split: if_splits option.splits dest!: findPosition_mem)
  have "org_inv (upsertUserPosition u p operatorId db)"
  proof (rule org_inv_placed [OF inv])
    show "q \<in> po_id ` set (hd_positions db)"
      if "up \<in> set (hd_userPositions (upsertUserPosition u p operatorId db))" "up_positionId up = Some q" for up q
      using upsert_mem [OF that(1)] that(2) links pos by auto
    show "(q, d) \<in> set (hd_positionDepartments db)"
      if "(up_userId up, d) \<in> set (hd_userDepartments (upsertUserPosition u p operatorId db))"
        "up \<in> set (hd_userPositions (upsertUserPosition u p operatorId db))" "up_positionId up = Some q" for d up q
      using upsert_mem [OF that(2)] that fits compatibleD [OF org_invD(7) [OF inv]] by auto
  qed (use links upsert_distinct in auto)
  then show ?thesis by (simp add: db')
qed

text \<open>An approved change: the user belongs to the one department, and the position applies to it.\<close>

lemma assertTarget_iff:
  "assertTarget failure d p db = Inr () \<longleftrightarrow>
    (\<exists>r. findDepartment d db = Some r \<and> de_status r = ACTIVE)
    \<and> (\<exists>r. findPosition p db = Some r \<and> po_status r = ACTIVE \<and> po_allowSelfApply r)
    \<and> (p, d) \<in> set (hd_positionDepartments db)"
  by (auto simp: assertTarget_def split: option.splits)

lemma position_apply_iff:
  "position_apply i b db = Inr db' \<longleftrightarrow> (\<exists>c. findChange i db = Some c \<and> length (departmentsOf (pc_userId c) db) \<le> 1
     \<and> assertTarget POSITION_APPLY_STALE (pc_targetDepartmentId c) (pc_targetPositionId c) db = Inr ()
     \<and> db' = bumpUserOrgVersion (upsertUserPosition (pc_userId c) (pc_targetPositionId c) b
         (setUserDepartments (pc_userId c) [pc_targetDepartmentId c] db)))"
  by (auto simp: position_apply_def bindR_Inr_iff split: option.splits)

lemma position_apply_inv:
  assumes "position_apply i b db = Inr db'" and inv: "org_inv db"
  shows "org_inv db'"
proof -
  note links = org_invD(6) [OF inv, unfolded org_linked_def]
  obtain u d p where db': "db' = bumpUserOrgVersion (upsertUserPosition u p b (setUserDepartments u [d] db))"
    and t: "assertTarget POSITION_APPLY_STALE d p db = Inr ()"
    using assms(1) unfolding position_apply_iff by blast
  let ?db = "upsertUserPosition u p b (setUserDepartments u [d] db)"
  have d: "d \<in> de_id ` set (hd_departments db)" and p: "p \<in> po_id ` set (hd_positions db)"
    and pd: "(p, d) \<in> set (hd_positionDepartments db)"
    using t unfolding assertTarget_iff by (auto dest!: findDepartment_mem findPosition_mem)
  have mem: "up \<in> set (hd_userPositions db) \<and> up_userId up \<noteq> u \<or> up_userId up = u \<and> up_positionId up = Some p"
    if "up \<in> set (hd_userPositions ?db)" for up
    using upsert_mem [OF that] by simp
  have "org_inv ?db"
  proof (rule org_inv_placed [OF inv])
    show "distinct (map up_userId (hd_userPositions ?db))" by (rule upsert_distinct) (use links in simp)
    show "q \<in> po_id ` set (hd_positions db)" if "up \<in> set (hd_userPositions ?db)" "up_positionId up = Some q" for up q
      using mem [OF that(1)] that(2) links p by auto
    show "(q, e) \<in> set (hd_positionDepartments db)"
      if "(up_userId up, e) \<in> set (hd_userDepartments ?db)" "up \<in> set (hd_userPositions ?db)" "up_positionId up = Some q" for e up q
      using mem [OF that(2)] that pd compatibleD [OF org_invD(7) [OF inv]] by auto
  qed (use links d in auto)
  then show ?thesis by (simp add: db')
qed

lemma apply_compatibility_inv:
  assumes inv: "org_inv db"
  shows "org_inv (apply_compatibility u c db)"
proof -
  note links = org_invD(6) [OF inv, unfolded org_linked_def]
  let ?db = "apply_compatibility u c db"
  have "map up_userId (update_where (\<lambda>x. up_userId x = u) (up_positionId_update (\<lambda>p. None)) (hd_userPositions db))
      = map up_userId (hd_userPositions db)"
    by (rule map_update_where) simp
  then have "map up_userId (hd_userPositions ?db) = map up_userId (hd_userPositions db)"
    by (simp add: apply_compatibility_def)
  moreover have mem: "up \<in> set (hd_userPositions db)" if "up \<in> set (hd_userPositions ?db)" "up_positionId up = Some p" for up p
    using that by (auto simp: apply_compatibility_def set_update_where split: if_splits)
  moreover have ud: "set (hd_userDepartments ?db) \<subseteq> set (hd_userDepartments db)" by (auto simp: apply_compatibility_def)
  ultimately show ?thesis
  proof (intro org_inv_placed [OF inv])
    show "(q, d) \<in> set (hd_positionDepartments db)"
      if "(up_userId up, d) \<in> set (hd_userDepartments ?db)" "up \<in> set (hd_userPositions ?db)" "up_positionId up = Some q" for d up q
      using mem [OF that(2,3)] that ud org_invD(7) [OF inv] unfolding compatible_def by blast
    show "d \<in> de_id ` set (hd_departments db)" if "(v, d) \<in> set (hd_userDepartments ?db)" for v d
      using that ud links by force
    show "q \<in> po_id ` set (hd_positions db)" if "up \<in> set (hd_userPositions ?db)" "up_positionId up = Some q" for up q
      using mem [OF that] that links by blast
  qed (use links in \<open>simp_all add: apply_compatibility_def\<close>)
qed

end
