(* ===== verification/HrOperations.thy ===== *)
theory HrOperations
  imports HrSteps
begin

text \<open>
  The operations of the \<open>hr\<close> service as the steps of a system: the commands of the organisation,
  the two kinds of request, the approval centre, the account lifecycle, and the timeout of the
  worker. A locale states what an invariant needs of the statements; inside it every operation and
  every reachable database is shown to keep it.
\<close>

section \<open>Services\<close>

datatype org_command =
    DepartmentCreate department_input
  | DepartmentUpdate int department_patch
  | DepartmentMove int "int option"
  | DepartmentDelete "int list"
  | PositionCreate position_input
  | PositionUpdate int position_patch
  | PositionDepartments int "int list"
  | PositionDelete "int list"
  | AssignDepartments int "int list"
  | AssignPosition int int int

text \<open>The body of the transaction of a command; \<open>clear\<close> is the call to the asset service.\<close>

fun organise :: "directory \<Rightarrow> (int \<Rightarrow> err + unit) \<Rightarrow> org_command \<Rightarrow> hr_db \<Rightarrow> err + hr_db" where
  "organise dir clear (DepartmentCreate input) db = bindR (department_create dir input db) (\<lambda>(i, db'). Inr db')"
| "organise dir clear (DepartmentUpdate i input) db = department_update dir i input db"
| "organise dir clear (DepartmentMove i q) db = department_move i q db"
| "organise dir clear (DepartmentDelete ids) db = department_deleteBatch clear ids db"
| "organise dir clear (PositionCreate input) db = bindR (position_create input db) (\<lambda>(i, db'). Inr db')"
| "organise dir clear (PositionUpdate i input) db = position_update i input db"
| "organise dir clear (PositionDepartments i ds) db = updateDepartments i ds db"
| "organise dir clear (PositionDelete ids) db = position_deleteBatch ids db"
| "organise dir clear (AssignDepartments u ds) db = assignDepartments u ds db"
| "organise dir clear (AssignPosition b u p) db = assignPosition b u p db"

record hr_call =
  hc_operator :: operator
  hc_feature :: string
  hc_scope :: string
  hc_key :: "string option"
  hc_fingerprint :: string

definition hr_service ::
    "hr_call \<Rightarrow> ('x \<Rightarrow> json outcome) \<Rightarrow> (hr_db \<Rightarrow> err + ('x \<times> hr_db)) \<Rightarrow> hr_db \<Rightarrow> err + (json \<times> hr_db)" where
  "hr_service c out run db =
     hr_execute
       \<lparr>ho_operator = hc_operator c, ho_feature = hc_feature c, ho_scope = hc_scope c, ho_key = hc_key c,
        ho_fingerprint = hc_fingerprint c,
        ho_run = (\<lambda>d. bindR (run d) (\<lambda>(x, d'). Inr (out x, d')))\<rparr> db"

definition organise_service ::
    "directory \<Rightarrow> (int \<Rightarrow> err + unit) \<Rightarrow> hr_call \<Rightarrow> (unit \<Rightarrow> json outcome) \<Rightarrow> org_command \<Rightarrow> hr_db \<Rightarrow> err + (json \<times> hr_db)" where
  "organise_service dir clear c out command =
     hr_service c out (\<lambda>d. bindR (organise dir clear command d) (\<lambda>d'. Inr ((), d')))"

definition position_service ::
    "hr_call \<Rightarrow> (int \<times> string \<Rightarrow> json outcome) \<Rightarrow> int \<Rightarrow> int \<Rightarrow> int \<Rightarrow> nat \<Rightarrow> hr_db \<Rightarrow> err + (json \<times> hr_db)" where
  "position_service c out d p now suffix = hr_service c out (position_submit (hc_operator c) d p now suffix)"

lemma hr_service_cases:
  assumes "hr_service c out run db = Inr (r, db')"
  shows "db' = db \<or> (\<exists>x d ls. run db = Inr (x, d) \<and> db' = d\<lparr>hd_logs := ls\<rparr>)"
  using hr_execute_cases [OF assms [unfolded hr_service_def]] by (auto simp: bindR_Inr_iff)

section \<open>Steps\<close>

inductive hr_step :: "hr_db \<Rightarrow> hr_db \<Rightarrow> bool" where
  hr_organise: "organise_service dir clear c out command db = Inr (r, db') \<Longrightarrow> hr_step db db'"
| hr_apply: "position_service c out d p now suffix db = Inr (r, db') \<Longrightarrow> hr_step db db'"
| hr_overtime: "overtime_submit fingerprint env dir operator departments dto key now suffix db = Inr (r, db') \<Longrightarrow> hr_step db db'"
| hr_decide: "hr_process fingerprint dir now i action processorId opinion key db = Inr (r, db') \<Longrightarrow> hr_step db db'"
| hr_withdraw: "hr_cancel fingerprint dir now i actorId expectedType key db = Inr (r, db') \<Longrightarrow> hr_step db db'"
| hr_deactivate: "cancelPendingPositionApplications dir now userId deactivatedAt db = (n, db') \<Longrightarrow> hr_step db db'"
| hr_restore: "restoreApply dir version now rid targets db = Inr db' \<Longrightarrow> hr_step db db'"
| hr_timeout: "autoCancelOverdueRow True no_hook now row db = (res, db') \<Longrightarrow> hr_step db db'"

definition hr_reach :: "hr_db \<Rightarrow> hr_db \<Rightarrow> bool" where
  "hr_reach db db' \<longleftrightarrow> hr_step\<^sup>*\<^sup>* db db'"

section \<open>What an invariant needs\<close>

text \<open>A head that was pending may have been decided; all else of what identifies it stays.\<close>

definition head_moved :: "hr_request \<Rightarrow> hr_request \<Rightarrow> bool" where
  "head_moved h h' \<longleftrightarrow> ah_id h' = ah_id h \<and> ah_requestType h' = ah_requestType h
     \<and> ah_applicantId h' = ah_applicantId h \<and> hq_applicationNo h' = hq_applicationNo h
     \<and> (ah_status h' = ah_status h \<or> ah_status h = PENDING)"

lemma head_moved_refl [simp]: "list_all2 head_moved hs hs"
  by (simp add: list_all2_same head_moved_def)

lemma moved_update_where:
  "(\<And>h. h \<in> set hs \<Longrightarrow> P h \<Longrightarrow> head_moved h (f h)) \<Longrightarrow> list_all2 head_moved hs (update_where P f hs)"
  by (simp add: update_where_def list_all2_map2 list_all2_same head_moved_def)

text \<open>A decision and a withdrawal, taken apart.\<close>

lemma hr_processInner_Inr:
  "hr_processInner dir now i action t processorId opinion db = Inr db' \<longleftrightarrow>
    (\<exists>head access d1 d2. find_request i db = Some head
      \<and> assertCanAccessType processorId (ah_requestType head) dir = Inr access \<and> ah_status head = PENDING
      \<and> assertTransitionAllowed (ah_status head) (rt_status t) = Inr ()
      \<and> hr_assertScopeCovers i (ah_requestType head) access processorId dir db = Inr ()
      \<and> assertApplicantActive dir head action = Inr ()
      \<and> hr_transition i (ah_version head) (hr_decided (rt_status t) processorId (loadUserName processorId dir) now opinion) db
        = Inr d1
      \<and> (if action = process_action.APPROVE \<and> ah_requestType head = ''POSITION_CHANGE''
          then position_apply i processorId d1 else Inr d1) = Inr d2
      \<and> db' = d2\<lparr>sd_acts := sd_acts d2 @
              [\<lparr>ac_requestId = i, ac_action = rt_action t, ac_actorId = processorId,
                ac_actorName = loadUserName processorId dir, ac_opinion = opinion, ac_cancelSource = None,
                ac_createdAt = now\<rparr>]\<rparr>)"
proof (cases "find_request i db")
  case (Some head)
  show ?thesis
    unfolding hr_processInner_def Some option.case Let_def
    apply (cases "assertCanAccessType processorId (ah_requestType head) dir"; simp)
    apply (cases "ah_status head = PENDING"; simp)
    apply (cases "assertTransitionAllowed PENDING (rt_status t)"; simp)
    subgoal for access
      apply (cases "hr_assertScopeCovers i (ah_requestType head) access processorId dir db"; simp)
      apply (cases "assertApplicantActive dir head action"; simp)
      apply (cases "hr_transition i (ah_version head) (hr_decided (rt_status t) processorId (loadUserName processorId dir) now opinion) db"; simp)
      subgoal for d1
        by (cases "action = process_action.APPROVE \<and> ah_requestType head = ''POSITION_CHANGE''";
            cases "position_apply i processorId d1"; auto)
      done
    done
qed (simp add: hr_processInner_def)

lemma hr_cancelInner_Inr:
  "hr_cancelInner dir now i actorId expectedType t db = Inr db' \<longleftrightarrow>
    (\<exists>head d1. find_request i db = Some head \<and> (expectedType = None \<or> expectedType = Some (ah_requestType head))
      \<and> (ah_applicantId head = actorId \<or> ah_proxyId head = Some actorId) \<and> assertPending (ah_status head) = Inr ()
      \<and> assertTransitionAllowed (ah_status head) (rt_status t) = Inr ()
      \<and> hr_transition i (ah_version head) (hr_cancelled_by actorId now) db = Inr d1
      \<and> db' = d1\<lparr>sd_acts := sd_acts d1 @
              [\<lparr>ac_requestId = i, ac_action = approval_action.CANCEL, ac_actorId = actorId,
                ac_actorName = loadUserName actorId dir, ac_opinion = None, ac_cancelSource = Some USER,
                ac_createdAt = now\<rparr>]\<rparr>)"
proof (cases "find_request i db")
  case (Some head)
  show ?thesis unfolding hr_cancelInner_def Some option.case bindR_Inr_iff if_split [of "\<lambda>r. r = Inr db'"] by auto
qed (simp add: hr_cancelInner_def)

lemma restoreApply_cases:
  assumes "restoreApply dir version now rid targets db = Inr db'"
  shows "db' = db \<or> restored_users rid db = {} \<and> foldR (restore_target_step dir version now rid db) targets db = Inr db'"
proof (cases "restored_users rid db = {}")
  case True
  then show ?thesis
    using assms by (cases "foldR (restore_target_step dir version now rid db) targets db")
      (simp_all add: restoreApply_def Let_def split: if_splits)
qed (use assms in \<open>simp add: restoreApply_def Let_def split: if_splits\<close>)

locale hr_invariant =
  fixes I :: "hr_db \<Rightarrow> bool"
  assumes organised: "organise dir clear command db = Inr db' \<Longrightarrow> I db \<Longrightarrow> I db'"
    and placed: "position_apply i b db = Inr db' \<Longrightarrow> I db \<Longrightarrow> I db'"
    and restored: "I db \<Longrightarrow> I (apply_compatibility u c db)"
    and moved: "list_all2 head_moved (sd_heads db) hs \<Longrightarrow> I db \<Longrightarrow> I (db\<lparr>sd_heads := hs\<rparr>)"
    and acted: "I db \<Longrightarrow> I (db\<lparr>sd_acts := acts\<rparr>)"
    and logged: "I db \<Longrightarrow> I (db\<lparr>hd_logs := ls\<rparr>)"
    and noted: "I db \<Longrightarrow> I (db\<lparr>hd_compat := cs\<rparr>)"
    and bumped: "I db \<Longrightarrow> I (bumpUserOrgVersion db)"
    and applied: "position_submit operator d p now suffix db = Inr (x, db') \<Longrightarrow> I db \<Longrightarrow> I db'"
    and worked: "overtime_run dir operator departments dto userIds canProxy holiday now suffix db = Inr (x, db')
      \<Longrightarrow> set userIds = set (ov_userIds dto) \<Longrightarrow> I db \<Longrightarrow> I db'"
begin

lemma service: "hr_service c out run db = Inr (r, db') \<Longrightarrow> I db \<Longrightarrow> (\<And>x d. run db = Inr (x, d) \<Longrightarrow> I d) \<Longrightarrow> I db'"
  by (auto dest!: hr_service_cases intro: logged)

lemma executed: "hr_execute opts db = Inr (r, db') \<Longrightarrow> I db \<Longrightarrow> (\<And>x d. ho_run opts db = Inr (x, d) \<Longrightarrow> I d) \<Longrightarrow> I db'"
  by (auto dest!: hr_execute_cases intro: logged)

lemma transition:
  assumes "hr_transition i v f db = Inr db'" and "I db"
    and f: "\<And>h. pending_at i v h \<Longrightarrow> head_moved h ((f h)\<lparr>ah_version := ah_version h + 1\<rparr>)"
  shows "I db'"
proof -
  have "db' = db\<lparr>sd_heads := update_where (pending_at i v) (\<lambda>h. (f h)\<lparr>ah_version := ah_version h + 1\<rparr>) (sd_heads db)\<rparr>"
    using assms(1) by (simp add: hr_transition_def cas_head_def bindR_Inr_iff)
  then show ?thesis using moved_update_where [OF f] assms(2) by (auto intro!: moved)
qed

lemma processed: "hr_processInner dir now i action t processorId opinion db = Inr db' \<Longrightarrow> I db \<Longrightarrow> I db'"
proof -
  assume run: "hr_processInner dir now i action t processorId opinion db = Inr db'" and I: "I db"
  obtain head :: hr_request and d1 d2 acts where
    tr: "hr_transition i (ah_version head) (hr_decided (rt_status t) processorId (loadUserName processorId dir) now opinion) db
        = Inr d1"
    and ap: "(if action = process_action.APPROVE \<and> ah_requestType head = ''POSITION_CHANGE''
      then position_apply i processorId d1 else Inr d1) = Inr d2"
    and db': "db' = d2\<lparr>sd_acts := acts\<rparr>"
    using run unfolding hr_processInner_Inr by blast
  have "I d1" by (rule transition [OF tr I]) (simp add: head_moved_def hr_decided_def pending_at_def)
  then show "I db'" using ap placed by (auto simp: db' intro: acted split: if_splits)
qed

lemma withdrawn: "hr_cancelInner dir now i actorId expectedType t db = Inr db' \<Longrightarrow> I db \<Longrightarrow> I db'"
proof -
  assume run: "hr_cancelInner dir now i actorId expectedType t db = Inr db'" and I: "I db"
  obtain head :: hr_request and d1 acts where tr: "hr_transition i (ah_version head) (hr_cancelled_by actorId now) db = Inr d1"
    and db': "db' = d1\<lparr>sd_acts := acts\<rparr>"
    using run unfolding hr_cancelInner_Inr by blast
  have "I d1" by (rule transition [OF tr I]) (simp add: head_moved_def hr_cancelled_by_def pending_at_def)
  then show "I db'" by (simp add: db' acted)
qed

lemma deactivated: "I db \<Longrightarrow> I (snd (cancelPendingPositionApplications dir now u t db))"
proof -
  assume I: "I db"
  have "list_all2 head_moved (sd_heads db)
      (update_where (\<lambda>h. ah_id h \<in> K \<and> ah_status h = PENDING) (hr_deactivated now) (sd_heads db))" for K
    by (rule moved_update_where) (simp add: head_moved_def hr_deactivated_def)
  then have "I (db\<lparr>sd_heads := update_where (\<lambda>h. ah_id h \<in> K \<and> ah_status h = PENDING) (hr_deactivated now) (sd_heads db),
      sd_acts := acts\<rparr>)" for K acts
    using acted [OF moved [OF _ I]] by fastforce
  then show ?thesis using I by (simp add: cancelPendingPositionApplications_def Let_def)
qed

lemma restore_target: "restore_target_step dir version now rid com t db = Inr db' \<Longrightarrow> I db \<Longrightarrow> I db'"
  by (auto simp: restore_target_step_def Let_def insertCompat_def bindR_Inr_iff split: option.splits
      intro!: bumped noted restored deactivated)

lemma restoring: "restoreApply dir version now rid targets db = Inr db' \<Longrightarrow> I db \<Longrightarrow> I db'"
proof -
  assume run: "restoreApply dir version now rid targets db = Inr db'" and I: "I db"
  from restoreApply_cases [OF run]
  consider "db' = db" | "foldR (restore_target_step dir version now rid db) targets db = Inr db'" by blast
  then show "I db'"
  proof cases
    case 2
    show ?thesis by (rule foldR_invariant [where I = I, OF 2 I]) (rule restore_target)
  qed (use I in simp)
qed

lemma timed_out: "autoCancelOverdueRow True no_hook now row db = (res, db') \<Longrightarrow> I db \<Longrightarrow> I db'"
proof -
  assume run: "autoCancelOverdueRow True no_hook now row db = (res, db')" and I: "I db"
  let ?hs = "update_where (pending_at (or_id row) (or_version row))
      (\<lambda>h. (cancelled_overdue now h)\<lparr>ah_version := ah_version h + 1\<rparr>) (sd_heads db)"
  have "list_all2 head_moved (sd_heads db) ?hs"
    by (rule moved_update_where) (simp add: head_moved_def cancelled_overdue_def pending_at_def)
  then have "I (db\<lparr>sd_heads := ?hs, sd_acts := acts\<rparr>)" for acts
    using acted [OF moved [OF _ I]] by fastforce
  then show "I db'" using run I
    by (auto simp: autoCancelOverdueRow_def cancel_row_def no_hook_def cas_head_def Let_def split: if_splits)
qed

lemma step: "hr_step db db' \<Longrightarrow> I db \<Longrightarrow> I db'"
proof (induction rule: hr_step.induct)
  case (hr_organise dir clear c out command db r db')
  show ?case
    by (rule service [OF hr_organise(1) [unfolded organise_service_def] hr_organise(2)])
      (auto simp: bindR_Inr_iff intro: organised [OF _ hr_organise(2)])
next
  case (hr_apply c out d p now suffix db r db')
  show ?case
    by (rule service [OF hr_apply(1) [unfolded position_service_def] hr_apply(2)]) (rule applied [OF _ hr_apply(2)])
next
  case (hr_overtime fingerprint env dir operator departments dto key now suffix db r db')
  then obtain opts canProxy holiday userIds ds where ex: "hr_execute opts db = Inr (r, db')"
    and run: "ho_run opts = (\<lambda>db. bindR (overtime_run dir operator ds dto userIds canProxy holiday now suffix db)
             (\<lambda>(head, db'). Inr (overtime_outcome dto userIds head, db')))"
    and same: "set userIds = set (ov_userIds dto)"
    unfolding overtime_submit_def Let_def bindR_Inr_iff by (auto simp: bindR_Inr_iff split: if_splits)
  show ?case
    by (rule executed [OF ex hr_overtime(2)]) (auto simp: run bindR_Inr_iff intro: worked [OF _ same hr_overtime(2)])
next
  case (hr_decide fingerprint dir now i action processorId opinion key db r db')
  then obtain opts t where ex: "hr_execute opts db = Inr (r, db')"
    and run: "ho_run opts = (\<lambda>db. bindR (hr_processInner dir now i action t processorId opinion db)
              (\<lambda>db'. Inr (hr_void ''processed'', db')))"
    unfolding hr_process_def by (auto simp: bindR_Inr_iff split: option.splits)
  show ?case
    by (rule executed [OF ex hr_decide(2)]) (auto simp: run bindR_Inr_iff intro: processed [OF _ hr_decide(2)])
next
  case (hr_withdraw fingerprint dir now i actorId expectedType key db r db')
  then obtain opts t where ex: "hr_execute opts db = Inr (r, db')"
    and run: "ho_run opts = (\<lambda>db. bindR (hr_cancelInner dir now i actorId expectedType t db)
              (\<lambda>db'. Inr (hr_void ''cancelled'', db')))"
    unfolding hr_cancel_def by (auto simp: bindR_Inr_iff split: option.splits)
  show ?case
    by (rule executed [OF ex hr_withdraw(2)]) (auto simp: run bindR_Inr_iff intro: withdrawn [OF _ hr_withdraw(2)])
next
  case (hr_deactivate dir now userId deactivatedAt db n db')
  then show ?case using deactivated [of db dir now userId deactivatedAt] by simp
qed (blast intro: restoring timed_out)+

lemma reach: "hr_reach db db' \<Longrightarrow> I db \<Longrightarrow> I db'"
  unfolding hr_reach_def by (induction rule: rtranclp_induct) (auto intro: step)

end

end
