(* ===== verification/HrRequests.thy ===== *)
theory HrRequests
  imports HrOperations
begin

text \<open>
  The invariants of the \<open>hr\<close> service as interpretations: the organisation, the heads of requests,
  and overtime that never overlaps.
\<close>

section \<open>Frames\<close>

lemma createHead_Inr:
  assumes "hr_createRequestHead now suffix input db = Inr ((i, no), db')"
  shows "i = hd_seq db HRequests"
    and "same_org db db'" "hd_overtime db' = hd_overtime db" "hd_changes db' = hd_changes db"
      "sd_heads db' = sd_heads db @ [(hr_head now no input)\<lparr>ah_id := i\<rparr>]" "hd_seq db' HRequests = i + 1"
    and "\<forall>g \<in> set (sd_heads db). hq_applicationNo g \<noteq> no"
    and "hi_requestType input = ''POSITION_CHANGE'' \<Longrightarrow> g \<in> set (sd_heads db) \<Longrightarrow> ah_requestType g = ''POSITION_CHANGE''
         \<Longrightarrow> ah_status g = PENDING \<Longrightarrow> ah_applicantId g \<noteq> hi_applicantId input"
  using assms
  by (auto simp: hr_createRequestHead_def insertHrHead_def hr_nextval_def withPendingLimitMapping_def Let_def hr_head_def same_org_def
      bindR_Inr_iff split: if_splits sum.splits)

lemma position_submit_Inr:
  assumes "position_submit operator d p now suffix db = Inr (x, db')"
  obtains input db1 c where "hi_requestType input = ''POSITION_CHANGE''" "hi_applicantId input = fst operator"
    "hr_createRequestHead now suffix input db = Inr (x, db1)" "pc_requestId c = fst x" "pc_userId c = fst operator"
    "db' = db1\<lparr>hd_changes := hd_changes db1 @ [c]\<rparr>"
proof -
  let ?input = "\<lparr>hi_requestType = ''POSITION_CHANGE'', hi_applicantId = fst operator, hi_applicantName = snd operator,
      hi_departmentSnapshot = departments_snapshot (fst operator) db, hi_proxyId = None, hi_proxyName = None\<rparr>"
  obtain y db1 where head: "hr_createRequestHead now suffix ?input db = Inr (y, db1)"
    using assms by (cases "hr_createRequestHead now suffix ?input db") (auto simp: position_submit_def bindR_Inr_iff Let_def)
  obtain de where de: "findDepartment d db1 = Some de"
    using assms head by (cases "findDepartment d db1") (auto simp: position_submit_def bindR_Inr_iff Let_def)
  obtain po where po: "findPosition p db1 = Some po"
    using assms head de by (cases "findPosition p db1") (auto simp: position_submit_def bindR_Inr_iff Let_def)
  from assms head de po have "y = x" and "db' = db1\<lparr>hd_changes := hd_changes db1 @
           [\<lparr>pc_requestId = fst x, pc_userId = fst operator, pc_userName = snd operator,
             pc_departmentSnapshot = departments_snapshot (fst operator) db, pc_targetDepartmentId = d,
             pc_targetDepartmentName = de_name de, pc_targetPositionId = p, pc_targetPositionName = po_name po\<rparr>]\<rparr>"
    by (auto simp: position_submit_def bindR_Inr_iff Let_def)
  then show ?thesis using head by (intro that [of ?input db1]) simp_all
qed

lemma overtime_run_Inr:
  assumes "overtime_run dir operator departments dto userIds canProxy holiday now suffix db = Inr (x, db')"
  obtains input db1 where "hi_requestType input = ''OVERTIME''" "assertNoOverlapInTransaction dto db = Inr ()"
    "hr_createRequestHead now suffix input db = Inr (x, db1)"
    "foldR (createOvertime dir dto holiday now (fst x)) userIds db1 = Inr db'"
proof -
  let ?others = "canProxy \<and> (\<exists>i \<in> set userIds. i \<noteq> fst operator)"
  let ?input = "\<lparr>hi_requestType = ''OVERTIME'', hi_applicantId = fst operator, hi_applicantName = snd operator,
      hi_departmentSnapshot = departments, hi_proxyId = (if ?others then Some (fst operator) else None),
      hi_proxyName = (if ?others then Some (snd operator) else None)\<rparr>"
  obtain y db1 where head: "hr_createRequestHead now suffix ?input db = Inr (y, db1)"
    using assms by (cases "hr_createRequestHead now suffix ?input db") (auto simp: overtime_run_def bindR_Inr_iff Let_def)
  from assms head have "y = x" "foldR (createOvertime dir dto holiday now (fst x)) userIds db1 = Inr db'"
    "assertNoOverlapInTransaction dto db = Inr ()"
    by (simp_all only: overtime_run_def bindR_Inr_iff Let_def) (auto simp: bindR_Inr_iff)
  then show ?thesis using head by (intro that [of ?input db1]) simp_all
qed

lemma createOvertime_Inr:
  assumes "createOvertime dir dto holiday now i u db = Inr db'"
  obtains r where "oi_requestId r = i" "oi_userId r = u" "oi_overtimeDate r = toDbDate (ov_overtimeDate dto)"
    "oi_startMinute r = ov_startMinute dto" "oi_endMinute r = ov_endMinute dto"
    "0 \<le> ov_startMinute dto" "ov_startMinute dto < ov_endMinute dto" "ov_endMinute dto \<le> 1440"
    "\<forall>q \<in> set (hd_overtime db). oi_requestId q = i \<longrightarrow> oi_userId q \<noteq> u"
    "db' = db\<lparr>hd_overtime := hd_overtime db @ [r]\<rparr>"
proof -
  obtain name departments positionId positionName where
    l: "loadTarget u dir db = (name, departments, positionId, positionName)" by (cases "loadTarget u dir db")
  let ?r = "\<lparr>oi_requestId = i, oi_userId = u, oi_userName = name, oi_departmentSnapshot = departments,
         oi_positionIdSnapshot = positionId, oi_positionNameSnapshot = positionName,
         oi_overtimeDate = toDbDate (ov_overtimeDate dto), oi_startMinute = ov_startMinute dto,
         oi_endMinute = ov_endMinute dto, oi_reason = ov_reason dto, oi_holidaySnapshot = holiday,
         oi_isBackfill = isBackfillSubmission (ov_overtimeDate dto) now\<rparr>"
  show ?thesis using assms
    by (intro that [of ?r]) (auto simp: createOvertime_def l insertOvertime_def insert_row_Inr_iff bindR_Inr_iff)
qed

section \<open>The organisation\<close>

interpretation org_keeps: hr_invariant org_inv
proof
  fix db db' :: hr_db
  assume inv: "org_inv db"
  have frame: "org_inv d" if "same_org db d" for d using org_inv_cong [OF that] inv by simp
  show "org_inv (db\<lparr>sd_heads := hs\<rparr>)" "org_inv (db\<lparr>sd_acts := acts\<rparr>)" "org_inv (db\<lparr>hd_logs := ls\<rparr>)"
    "org_inv (db\<lparr>hd_compat := cs\<rparr>)" for hs acts ls cs
    by (rule frame, simp add: same_org_def)+
  show "org_inv (bumpUserOrgVersion db)" using inv by simp
  show "org_inv db'" if "organise dir clear command db = Inr db'" for dir clear command
    using that inv
    by (cases command) (auto simp: bindR_Inr_iff intro: create_department_inv update_department_inv move_department_inv
        delete_departments_inv create_position_inv update_position_inv position_departments_inv delete_positions_inv
        assign_departments_inv assign_position_inv)
  show "org_inv db'" if "position_submit operator d p now suffix db = Inr (x, db')" for operator d p now suffix x
    using that by (intro frame, cases x) (auto simp: same_org_def elim!: position_submit_Inr dest!: createHead_Inr(2))
  show "org_inv db'" if "overtime_run dir operator ds dto userIds canProxy holiday now suffix db = Inr (x, db')"
    for dir operator ds dto userIds canProxy holiday now suffix x
  proof (rule overtime_run_Inr [OF that])
    fix input db1
    assume head: "hr_createRequestHead now suffix input db = Inr (x, db1)"
      and items: "foldR (createOvertime dir dto holiday now (fst x)) userIds db1 = Inr db'"
    have "same_org db db1" using head by (cases x) (auto dest!: createHead_Inr(2))
    then have "same_org db db'"
      by (rule foldR_invariant [where I = "same_org db", OF items]) (auto simp: same_org_def elim!: createOvertime_Inr)
    then show ?thesis by (rule frame)
  qed
qed (rule position_apply_inv apply_compatibility_inv, assumption+)+

section \<open>Requests\<close>

definition same_hr_requests :: "hr_db \<Rightarrow> hr_db \<Rightarrow> bool" where
  "same_hr_requests db db' \<longleftrightarrow> sd_heads db' = sd_heads db \<and> hd_overtime db' = hd_overtime db
     \<and> hd_seq db' HRequests = hd_seq db HRequests"

lemma bump_same_requests [simp]:
  "same_hr_requests db (bumpUserOrgVersion d) = same_hr_requests db d" "same_hr_requests db (bumpOrgTreeVersion d) = same_hr_requests db d"
  by (simp_all add: same_hr_requests_def bumpUserOrgVersion_def bumpOrgTreeVersion_def)

lemma organise_same_requests:
  assumes "organise dir clear command db = Inr db'"
  shows "same_hr_requests db db'"
  using assms
proof (cases command)
  case (DepartmentUpdate i input)
  then show ?thesis using assms
    by (auto simp: department_update_def set_departments_def Let_def bindR_Inr_iff same_hr_requests_def bumpOrgTreeVersion_def
        split: option.splits)
qed (auto simp: bindR_Inr_iff department_create_def department_move_def department_deleteBatch_def position_create_def
    position_update_def updateDepartments_def position_deleteBatch_def assignDepartments_def assignPosition_def hr_nextval_def
    set_departments_def drop_departments_def setUserDepartments_def upsertUserPosition_def Let_def same_hr_requests_def
    bumpUserOrgVersion_def bumpOrgTreeVersion_def split: option.splits if_splits)

lemma apply_same_requests: "position_apply i b db = Inr db' \<Longrightarrow> same_hr_requests db db'"
  by (auto simp: position_apply_iff same_hr_requests_def bumpUserOrgVersion_def upsertUserPosition_def setUserDepartments_def)

lemma compat_same_requests: "same_hr_requests db (apply_compatibility u c db)"
  by (simp add: same_hr_requests_def apply_compatibility_def)

definition pending_change :: "hr_request \<Rightarrow> bool" where
  "pending_change h \<longleftrightarrow> ah_requestType h = ''POSITION_CHANGE'' \<and> ah_status h = PENDING"

definition one_pending :: "hr_request list \<Rightarrow> bool" where
  "one_pending hs \<longleftrightarrow> (\<forall>h \<in> set hs. \<forall>h' \<in> set hs. pending_change h \<and> pending_change h'
          \<and> ah_applicantId h = ah_applicantId h' \<longrightarrow> ah_id h = ah_id h')"

lemma one_pendingD:
  "one_pending hs \<Longrightarrow> h \<in> set hs \<Longrightarrow> h' \<in> set hs \<Longrightarrow> pending_change h \<Longrightarrow> pending_change h'
    \<Longrightarrow> ah_applicantId h = ah_applicantId h' \<Longrightarrow> ah_id h = ah_id h'"
  unfolding one_pending_def by blast

definition hr_heads_ok :: "hr_db \<Rightarrow> bool" where
  "hr_heads_ok db \<longleftrightarrow> keyed_below ah_id (sd_heads db) (hd_seq db HRequests)
     \<and> distinct (map hq_applicationNo (sd_heads db)) \<and> one_pending (sd_heads db)"

lemma moved_map:
  assumes "list_all2 head_moved hs hs'"
  shows "map ah_id hs' = map ah_id hs" and "map hq_applicationNo hs' = map hq_applicationNo hs"
    and "h' \<in> set hs' \<Longrightarrow> \<exists>h \<in> set hs. head_moved h h'"
  using assms by (induction rule: list_all2_induct) (auto simp: head_moved_def)

lemma keyed_below_keys: "keyed_below key rs n \<longleftrightarrow> distinct (map key rs) \<and> (\<forall>k \<in> set (map key rs). k < n)"
  by (simp add: keyed_below_def)

lemma keyed_below_ids:
  assumes "map key rs' = map key rs"
  shows "keyed_below key rs' n = keyed_below key rs n"
  unfolding keyed_below_keys assms by (rule refl)

lemma keyed_below_append: "keyed_below key rs n \<Longrightarrow> key r = n \<Longrightarrow> keyed_below key (rs @ [r]) (n + 1)"
  by (force simp: keyed_below_def)

lemma heads_ok_same: "same_hr_requests db db' \<Longrightarrow> hr_heads_ok db \<Longrightarrow> hr_heads_ok db'"
  by (simp add: same_hr_requests_def hr_heads_ok_def)

lemma heads_ok_moved:
  assumes mv: "list_all2 head_moved (sd_heads db) hs" and ok: "hr_heads_ok db"
  shows "hr_heads_ok (db\<lparr>sd_heads := hs\<rparr>)"
proof -
  have before: "\<exists>g \<in> set (sd_heads db). pending_change g \<and> ah_applicantId g = ah_applicantId h \<and> ah_id g = ah_id h"
    if "h \<in> set hs" "pending_change h" for h
    using moved_map(3) [OF mv that(1)] that(2) by (auto simp: head_moved_def pending_change_def)
  have "keyed_below ah_id hs (hd_seq db HRequests)"
    using ok keyed_below_ids [OF moved_map(1) [OF mv]] by (simp add: hr_heads_ok_def)
  moreover have "distinct (map hq_applicationNo hs)" using ok by (simp add: hr_heads_ok_def moved_map(2) [OF mv])
  moreover have "one_pending hs" unfolding one_pending_def
  proof (intro ballI impI, elim conjE)
    fix h h'
    assume h: "h \<in> set hs" "h' \<in> set hs" "pending_change h" "pending_change h'" "ah_applicantId h = ah_applicantId h'"
    obtain g g' where "g \<in> set (sd_heads db)" "pending_change g" "ah_applicantId g = ah_applicantId h" "ah_id g = ah_id h"
      and "g' \<in> set (sd_heads db)" "pending_change g'" "ah_applicantId g' = ah_applicantId h'" "ah_id g' = ah_id h'"
      using before [OF h(1,3)] before [OF h(2,4)] by blast
    moreover have "one_pending (sd_heads db)" using ok by (simp add: hr_heads_ok_def)
    ultimately show "ah_id h = ah_id h'" using one_pendingD [of "sd_heads db" g g'] h(5) by simp
  qed
  ultimately show ?thesis by (simp add: hr_heads_ok_def)
qed

lemma heads_ok_created:
  assumes "hr_createRequestHead now suffix input db = Inr ((i, no), db')" and ok: "hr_heads_ok db"
  shows "hr_heads_ok db'"
proof -
  note c = createHead_Inr [OF assms(1)]
  let ?h = "(hr_head now no input)\<lparr>ah_id := i\<rparr>"
  have h: "ah_id ?h = i" "hq_applicationNo ?h = no" "ah_requestType ?h = hi_requestType input"
    "ah_applicantId ?h = hi_applicantId input" by (simp_all add: hr_head_def)
  have new: "\<not> (pending_change g \<and> pending_change ?h \<and> ah_applicantId g = ah_applicantId ?h)"
    if "g \<in> set (sd_heads db)" for g
    using c(8) [OF _ that] h(3,4) by (auto simp: pending_change_def)
  have "keyed_below ah_id (sd_heads db') (hd_seq db' HRequests)"
    using ok h(1) unfolding c(5,6) by (intro keyed_below_append) (simp_all add: hr_heads_ok_def c(1))
  moreover have "distinct (map hq_applicationNo (sd_heads db'))"
    using ok c(7) h(2) unfolding c(5) by (auto simp: hr_heads_ok_def)
  moreover have "one_pending (sd_heads db')" unfolding one_pending_def c(5)
  proof (intro ballI impI, elim conjE)
    fix g g'
    assume g: "g \<in> set (sd_heads db @ [?h])" "g' \<in> set (sd_heads db @ [?h])" "pending_change g" "pending_change g'"
      "ah_applicantId g = ah_applicantId g'"
    moreover have "one_pending (sd_heads db)" using ok by (simp add: hr_heads_ok_def)
    ultimately show "ah_id g = ah_id g'"
      using new [of g] new [of g'] one_pendingD [of "sd_heads db" g g'] unfolding set_append Un_iff by fastforce
  qed
  ultimately show ?thesis by (simp add: hr_heads_ok_def)
qed

interpretation heads_keeps: hr_invariant hr_heads_ok
proof
  fix db db' :: hr_db
  assume ok: "hr_heads_ok db"
  have frame: "hr_heads_ok d" if "same_hr_requests db d" for d by (rule heads_ok_same [OF that ok])
  show "hr_heads_ok (db\<lparr>sd_acts := acts\<rparr>)" "hr_heads_ok (db\<lparr>hd_logs := ls\<rparr>)" "hr_heads_ok (db\<lparr>hd_compat := cs\<rparr>)"
    for acts ls cs by (rule frame, simp add: same_hr_requests_def)+
  show "hr_heads_ok (bumpUserOrgVersion db)" by (rule frame) (simp add: same_hr_requests_def bumpUserOrgVersion_def)
  show "hr_heads_ok (apply_compatibility u c db)" for u c by (rule frame) (rule compat_same_requests)
  show "hr_heads_ok db'" if "organise dir clear command db = Inr db'" for dir clear command
    using that by (intro frame) (rule organise_same_requests)
  show "hr_heads_ok db'" if "position_apply i b db = Inr db'" for i b
    using that by (intro frame) (rule apply_same_requests)
  show "hr_heads_ok (db\<lparr>sd_heads := hs\<rparr>)" if "list_all2 head_moved (sd_heads db) hs" for hs
    by (rule heads_ok_moved [OF that ok])
  show "hr_heads_ok db'" if "position_submit operator d p now suffix db = Inr (x, db')" for operator d p now suffix x
  proof (rule position_submit_Inr [OF that])
    fix input db1 c
    assume "hr_createRequestHead now suffix input db = Inr (x, db1)" and db': "db' = db1\<lparr>hd_changes := hd_changes db1 @ [c]\<rparr>"
    then have "hr_heads_ok db1" using heads_ok_created ok by (cases x) blast
    then show ?thesis by (rule heads_ok_same [rotated]) (simp add: db' same_hr_requests_def)
  qed
  show "hr_heads_ok db'" if "overtime_run dir operator ds dto userIds canProxy holiday now suffix db = Inr (x, db')"
    for dir operator ds dto userIds canProxy holiday now suffix x
  proof (rule overtime_run_Inr [OF that])
    fix input db1
    assume head: "hr_createRequestHead now suffix input db = Inr (x, db1)"
      and items: "foldR (createOvertime dir dto holiday now (fst x)) userIds db1 = Inr db'"
    have db1: "hr_heads_ok db1" using head heads_ok_created ok by (cases x) blast
    show ?thesis
      by (rule foldR_invariant [where I = hr_heads_ok, OF items db1]) (auto simp: hr_heads_ok_def elim!: createOvertime_Inr)
  qed
qed

end
