(* ===== verification/HrOvertime.thy ===== *)
theory HrOvertime
  imports HrRequests Refinement
begin

text \<open>
  Overtime that counts never overlaps: the invariant of the items, and what it means for the
  minutes of a user in a day and for the statistics.
\<close>

section \<open>The invariant\<close>

definition overtime_item_ok :: "int \<Rightarrow> overtime_item \<Rightarrow> bool" where
  "overtime_item_ok n r \<longleftrightarrow> oi_requestId r < n \<and> 0 \<le> oi_startMinute r \<and> oi_startMinute r < oi_endMinute r \<and> oi_endMinute r \<le> 1440"

definition overtime_key :: "overtime_item \<Rightarrow> int \<times> int" where
  "overtime_key r = (oi_requestId r, oi_userId r)"

definition apart :: "overtime_item \<Rightarrow> overtime_item \<Rightarrow> bool" where
  "apart r q \<longleftrightarrow> \<not> overlaps (oi_startMinute r) (oi_endMinute r) (oi_startMinute q) (oi_endMinute q)"

definition same_slot :: "overtime_item \<Rightarrow> overtime_item \<Rightarrow> bool" where
  "same_slot r q \<longleftrightarrow> oi_userId r = oi_userId q \<and> oi_overtimeDate r = oi_overtimeDate q \<and> oi_requestId r \<noteq> oi_requestId q"

definition all_apart :: "(int \<Rightarrow> bool) \<Rightarrow> overtime_item list \<Rightarrow> bool" where
  "all_apart C rs \<longleftrightarrow> (\<forall>r \<in> set rs. \<forall>q \<in> set rs. C (oi_requestId r) \<longrightarrow> C (oi_requestId q) \<longrightarrow> same_slot r q \<longrightarrow> apart r q)"

definition overtime_ok :: "hr_db \<Rightarrow> bool" where
  "overtime_ok db \<longleftrightarrow> (\<forall>r \<in> set (hd_overtime db). overtime_item_ok (hd_seq db HRequests) r)
     \<and> distinct (map overtime_key (hd_overtime db)) \<and> all_apart (counts db) (hd_overtime db)"

lemma all_apartD:
  "all_apart C rs \<Longrightarrow> r \<in> set rs \<Longrightarrow> q \<in> set rs \<Longrightarrow> C (oi_requestId r) \<Longrightarrow> C (oi_requestId q) \<Longrightarrow> same_slot r q
    \<Longrightarrow> apart r q"
  unfolding all_apart_def by blast

lemma all_apart_mono: "all_apart C rs \<Longrightarrow> (\<And>r. r \<in> set rs \<Longrightarrow> D (oi_requestId r) \<Longrightarrow> C (oi_requestId r)) \<Longrightarrow> all_apart D rs"
  unfolding all_apart_def by blast

lemma apart_sym: "apart r q = apart q r" and same_slot_sym: "same_slot r q = same_slot q r"
  by (auto simp: apart_def same_slot_def overlaps_def)

lemma all_apart_append:
  assumes "all_apart C rs" and "\<And>q. q \<in> set rs \<Longrightarrow> C (oi_requestId q) \<Longrightarrow> same_slot r q \<Longrightarrow> apart r q"
  shows "all_apart C (rs @ [r])"
  unfolding all_apart_def
proof (intro ballI impI)
  fix a b
  assume m: "a \<in> set (rs @ [r])" "b \<in> set (rs @ [r])" and C: "C (oi_requestId a)" "C (oi_requestId b)" and s: "same_slot a b"
  have "a = r \<Longrightarrow> b \<noteq> r" using s by (auto simp: same_slot_def)
  then consider "a \<in> set rs" "b \<in> set rs" | "a = r" "b \<in> set rs" | "a \<in> set rs" "b = r" using m by auto
  then show "apart a b"
  proof cases
    case 1
    then show ?thesis using all_apartD [OF assms(1)] C s by blast
  next
    case 2
    then show ?thesis using assms(2) C s by blast
  next
    case 3
    then show ?thesis using assms(2) C s by (metis apart_sym same_slot_sym)
  qed
qed

lemma counts_heads: "sd_heads db' = sd_heads db \<Longrightarrow> counts db' = counts db"
  by (auto simp: counts_def fun_eq_iff)

lemma overtime_ok_same: "same_hr_requests db db' \<Longrightarrow> overtime_ok db \<Longrightarrow> overtime_ok db'"
  using counts_heads [of db' db] by (simp add: overtime_ok_def same_hr_requests_def)

text \<open>Moving heads: what counts after it counted before.\<close>

lemma overtime_ok_moved:
  assumes mv: "list_all2 head_moved (sd_heads db) hs" and ok: "overtime_ok db"
  shows "overtime_ok (db\<lparr>sd_heads := hs\<rparr>)"
proof -
  have "counts db i" if "counts (db\<lparr>sd_heads := hs\<rparr>) i" for i
    using that moved_map(3) [OF mv] by (fastforce simp: counts_def head_moved_def)
  then show ?thesis using ok by (auto simp: overtime_ok_def intro: all_apart_mono)
qed

lemma overtime_ok_created:
  assumes "hr_createRequestHead now suffix input db = Inr ((i, no), db')" and ok: "overtime_ok db"
  shows "overtime_ok db'"
proof -
  note c = createHead_Inr [OF assms(1)]
  have "counts db (oi_requestId r)" if "r \<in> set (hd_overtime db)" "counts db' (oi_requestId r)" for r
    using that ok c(1) by (auto simp: counts_def c(5) overtime_ok_def overtime_item_ok_def)
  then show ?thesis using ok unfolding overtime_ok_def c(3,6)
    by (auto simp: c(1) overtime_item_ok_def intro: all_apart_mono)
qed

text \<open>One more item of the new request: the check under the lock has seen all it can overlap.\<close>

definition fits :: "overtime_dto \<Rightarrow> int \<Rightarrow> hr_db \<Rightarrow> bool" where
  "fits dto i db \<longleftrightarrow> (\<forall>q \<in> set (hd_overtime db). counts db (oi_requestId q) \<longrightarrow> oi_requestId q \<noteq> i
     \<longrightarrow> oi_overtimeDate q = toDbDate (ov_overtimeDate dto) \<longrightarrow> oi_userId q \<in> set (ov_userIds dto)
     \<longrightarrow> \<not> overlaps (ov_startMinute dto) (ov_endMinute dto) (oi_startMinute q) (oi_endMinute q))"

lemma overtime_ok_item:
  assumes "createOvertime dir dto holiday now i u db = Inr db'" and ok: "overtime_ok db"
    and "i < hd_seq db HRequests" and "u \<in> set (ov_userIds dto)" and f: "fits dto i db"
  shows "overtime_ok db' \<and> fits dto i db' \<and> hd_seq db' = hd_seq db"
  using assms(1)
proof (rule createOvertime_Inr)
  fix r
  assume r: "oi_requestId r = i" "oi_userId r = u" "oi_overtimeDate r = toDbDate (ov_overtimeDate dto)"
      "oi_startMinute r = ov_startMinute dto" "oi_endMinute r = ov_endMinute dto"
    and range: "0 \<le> ov_startMinute dto" "ov_startMinute dto < ov_endMinute dto" "ov_endMinute dto \<le> 1440"
    and new: "\<forall>q \<in> set (hd_overtime db). oi_requestId q = i \<longrightarrow> oi_userId q \<noteq> u"
    and db': "db' = db\<lparr>hd_overtime := hd_overtime db @ [r]\<rparr>"
  have c: "counts db' = counts db" by (rule counts_heads) (simp add: db')
  have "all_apart (counts db) (hd_overtime db @ [r])"
  proof (rule all_apart_append)
    show "all_apart (counts db) (hd_overtime db)" using ok by (simp add: overtime_ok_def)
    show "apart r q" if "q \<in> set (hd_overtime db)" "counts db (oi_requestId q)" "same_slot r q" for q
      using f that r assms(4) by (auto simp: fits_def same_slot_def apart_def)
  qed
  moreover have "overtime_key r \<notin> overtime_key ` set (hd_overtime db)" using new r by (auto simp: overtime_key_def)
  moreover have "overtime_item_ok (hd_seq db HRequests) r" using r range assms(3) by (simp add: overtime_item_ok_def)
  ultimately have "overtime_ok db'" using ok unfolding overtime_ok_def c by (simp add: db')
  moreover have "fits dto i db'" using f r(1) unfolding fits_def c by (simp add: db')
  ultimately show ?thesis by (simp add: db')
qed

lemma fits_checked:
  assumes "assertNoOverlapInTransaction dto db = Inr ()"
    and "hr_createRequestHead now suffix input db = Inr ((i, no), db')"
  shows "fits dto i db'"
proof -
  note c = createHead_Inr [OF assms(2)]
  have "counts db (oi_requestId q)" if "counts db' (oi_requestId q)" "oi_requestId q \<noteq> i" for q
    using that by (auto simp: counts_def c(5))
  then show ?thesis using assms(1)
    by (auto simp: fits_def c(3) assertNoOverlapInTransaction_def findExistingOverlaps_def findOverlapping_def
        existing_ranges_def filter_empty_conv split: if_splits)
qed

interpretation overtime_keeps: hr_invariant overtime_ok
proof
  fix db db' :: hr_db
  assume ok: "overtime_ok db"
  have frame: "overtime_ok d" if "same_hr_requests db d" for d by (rule overtime_ok_same [OF that ok])
  show "overtime_ok (db\<lparr>sd_acts := acts\<rparr>)" "overtime_ok (db\<lparr>hd_logs := ls\<rparr>)" "overtime_ok (db\<lparr>hd_compat := cs\<rparr>)"
    for acts ls cs by (rule frame, simp add: same_hr_requests_def)+
  show "overtime_ok (bumpUserOrgVersion db)" by (rule frame) (simp add: same_hr_requests_def bumpUserOrgVersion_def)
  show "overtime_ok (apply_compatibility u c db)" for u c by (rule frame) (rule compat_same_requests)
  show "overtime_ok db'" if "organise dir clear command db = Inr db'" for dir clear command
    using that by (intro frame) (rule organise_same_requests)
  show "overtime_ok db'" if "position_apply i b db = Inr db'" for i b
    using that by (intro frame) (rule apply_same_requests)
  show "overtime_ok (db\<lparr>sd_heads := hs\<rparr>)" if "list_all2 head_moved (sd_heads db) hs" for hs
    by (rule overtime_ok_moved [OF that ok])
  show "overtime_ok db'" if "position_submit operator d p now suffix db = Inr (x, db')" for operator d p now suffix x
  proof (rule position_submit_Inr [OF that])
    fix input db1 c
    assume "hr_createRequestHead now suffix input db = Inr (x, db1)" and db': "db' = db1\<lparr>hd_changes := hd_changes db1 @ [c]\<rparr>"
    then have "overtime_ok db1" using overtime_ok_created ok by (cases x) blast
    then show ?thesis by (rule overtime_ok_same [rotated]) (simp add: db' same_hr_requests_def)
  qed
  show "overtime_ok db'" if "overtime_run dir operator ds dto userIds canProxy holiday now suffix db = Inr (x, db')"
    and users: "set userIds = set (ov_userIds dto)" for dir operator ds dto userIds canProxy holiday now suffix x
  proof (rule overtime_run_Inr [OF that(1)])
    fix input db1
    assume free: "assertNoOverlapInTransaction dto db = Inr ()"
      and head: "hr_createRequestHead now suffix input db = Inr (x, db1)"
      and items: "foldR (createOvertime dir dto holiday now (fst x)) userIds db1 = Inr db'"
    obtain i no where x: "x = (i, no)" by (cases x)
    have "overtime_ok db1 \<and> fits dto i db1 \<and> i < hd_seq db1 HRequests"
      using overtime_ok_created [OF head [unfolded x] ok] fits_checked [OF free head [unfolded x]]
        createHead_Inr(6) [OF head [unfolded x]] by simp
    then have "overtime_ok db' \<and> fits dto i db' \<and> i < hd_seq db' HRequests"
      by (rule foldR_invariant [where I = "\<lambda>d. overtime_ok d \<and> fits dto i d \<and> i < hd_seq d HRequests",
            OF items [unfolded x fst_conv]])
        (use overtime_ok_item users in fastforce)
    then show ?thesis by blast
  qed
qed

section \<open>A day has 1440 minutes\<close>

text \<open>Ranges that are pairwise apart add up to the size of their union.\<close>

lemma sum_apart:
  assumes "distinct (map f rs)" and "\<And>r. r \<in> set rs \<Longrightarrow> 0 \<le> oi_startMinute r \<and> oi_startMinute r < oi_endMinute r \<and> oi_endMinute r \<le> 1440"
    and "\<And>r q. r \<in> set rs \<Longrightarrow> q \<in> set rs \<Longrightarrow> f r \<noteq> f q \<Longrightarrow> apart r q"
  shows "sum_list (map oi_minutes rs) \<le> 1440"
proof -
  let ?S = "\<lambda>r. {oi_startMinute r..<oi_endMinute r}"
  have rs: "distinct rs" "inj_on f (set rs)" using assms(1) by (simp_all add: distinct_map)
  have disj: "?S r \<inter> ?S q = {}" if "r \<in> set rs" "q \<in> set rs" "r \<noteq> q" for r q
  proof -
    have "f r \<noteq> f q" using rs(2) that by (auto dest: inj_onD)
    then show ?thesis using assms(3) [OF that(1,2)] by (auto simp: apart_def overlaps_def)
  qed
  have "sum_list (map oi_minutes rs) = (\<Sum>r \<in> set rs. oi_minutes r)" using rs(1) by (rule sum_list_distinct_conv_sum_set)
  also have "\<dots> = (\<Sum>r \<in> set rs. int (card (?S r)))"
    using assms(2) by (intro sum.cong) (simp_all add: oi_minutes_def less_imp_le)
  also have "\<dots> = int (card (\<Union> r \<in> set rs. ?S r))"
    using disj by (subst card_UN_disjoint) (auto simp: of_nat_sum)
  also have "\<dots> \<le> int (card {0..<1440::int})"
    using assms(2) by (intro of_nat_mono card_mono) fastforce+
  finally show ?thesis by simp
qed

section \<open>Statistics\<close>

text \<open>
  The items of a month that are summed: of one user and of approved requests. The minutes of a day
  are those of ranges that are pairwise apart.
\<close>

lemma day_minutes:
  assumes ok: "overtime_ok db" and sub: "\<And>r. r \<in> set rs \<Longrightarrow> r \<in> set (hd_overtime db) \<and> oi_userId r = u
      \<and> oi_overtimeDate r = d \<and> counts db (oi_requestId r)" and "distinct (map overtime_key rs)"
  shows "sum_list (map oi_minutes rs) \<le> 1440"
proof (rule sum_apart [where f = overtime_key])
  show "apart r q" if "r \<in> set rs" "q \<in> set rs" "overtime_key r \<noteq> overtime_key q" for r q
  proof (rule all_apartD)
    show "all_apart (counts db) (hd_overtime db)" using ok by (simp add: overtime_ok_def)
    show "same_slot r q" using sub [OF that(1)] sub [OF that(2)] that(3) by (auto simp: same_slot_def overtime_key_def)
  qed (use sub that in blast)+
qed (use assms in \<open>auto simp: overtime_ok_def overtime_item_ok_def\<close>)

lemma sum_by_day:
  assumes "\<And>d. d \<in> set (map f rs) \<Longrightarrow> sum_where (\<lambda>r. f r = d) g rs \<le> k"
  shows "sum_where (\<lambda>r. True) g rs \<le> k * int (length (remdups (map f rs)))"
proof -
  have "sum_where (\<lambda>r. True) g rs = (\<Sum>d \<in> set (map f rs). sum_where (\<lambda>r. f r = d) g rs)"
    using sum_where_group [of "set (map f rs)" rs "\<lambda>d. True" f "\<lambda>r. True" g] by simp
  also have "\<dots> \<le> (\<Sum>d \<in> set (map f rs). k)" using assms by (rule sum_mono)
  also have "\<dots> = k * int (length (remdups (map f rs)))" by (simp add: length_remdups_card_conv)
  finally show ?thesis .
qed

end
