(* ===== verification/HrSample.thy ===== *)
theory HrSample
  imports HrOvertime Sample
begin

text \<open>
  A run of the \<open>hr\<close> service from its empty tables: two departments, a position, an employee who
  changes into the second department, and an evening of overtime.
\<close>

definition hr_fresh :: hr_db where
  "hr_fresh =
     \<lparr>sd_heads = [], sd_acts = [], hd_departments = [], hd_leaders = [], hd_positions = [], hd_positionDepartments = [],
      hd_userDepartments = [], hd_userPositions = [], hd_overtime = [], hd_changes = [], hd_compat = [], hd_orgMeta = None,
      hd_logs = [], hd_seq = (\<lambda>t. 1)\<rparr>"

lemma hr_fresh_ok: "org_inv hr_fresh" "hr_heads_ok hr_fresh" "overtime_ok hr_fresh"
  by (simp_all add: hr_fresh_def org_inv_def keyed_below_def forest_def child_rel_def parentOf_def org_linked_def
      compatible_def hr_heads_ok_def one_pending_def overtime_ok_def all_apart_def acyclic_def)

lemma hr_reach_ok:
  assumes "hr_reach hr_fresh db"
  shows "org_inv db" "hr_heads_ok db" "overtime_ok db"
  by (rule org_keeps.reach [OF assms hr_fresh_ok(1)] heads_keeps.reach [OF assms hr_fresh_ok(2)]
      overtime_keeps.reach [OF assms hr_fresh_ok(3)])+

type_synonym hr_action = "hr_db \<Rightarrow> err + (json \<times> hr_db)"

fun hr_play :: "hr_action list \<Rightarrow> hr_db \<Rightarrow> hr_db option" where
  "hr_play [] db = Some db"
| "hr_play (f # fs) db = (case f db of Inl e \<Rightarrow> None | Inr (r, d) \<Rightarrow> hr_play fs d)"

definition hr_sound :: "hr_action \<Rightarrow> bool" where
  "hr_sound f \<longleftrightarrow> (\<forall>db r db'. f db = Inr (r, db') \<longrightarrow> hr_step db db')"

lemma hr_play_reach:
  assumes "hr_play fs db = Some db'" and "\<forall>f \<in> set fs. hr_sound f"
  shows "hr_reach db db'"
  using assms
proof (induction fs arbitrary: db)
  case (Cons f fs)
  then obtain r d where d: "f db = Inr (r, d)" "hr_play fs d = Some db'" by (auto split: sum.splits)
  then have "hr_step db d" "hr_reach d db'" using Cons by (auto simp: hr_sound_def)
  then show ?case unfolding hr_reach_def by (rule converse_rtranclp_into_rtranclp)
qed (simp add: hr_reach_def)

definition hr_dir :: directory where
  "hr_dir = sample_dir
     \<lparr>dir_functions := map (\<lambda>c. \<lparr>fn_code = c, fn_systemCode = ''hr'', fn_systemName = ''people'', fn_productStatus = ''OPEN''\<rparr>)
        [OVERTIME_APPLY_FUNCTION_CODE, PROXY_OVERTIME_FUNCTION_CODE, OVERTIME_APPROVAL_FUNCTION_CODE, ORG_STRUCTURE_FUNCTION_CODE],
      dir_grants :=
        [\<lparr>gr_userId = 2, gr_functionCode = OVERTIME_APPLY_FUNCTION_CODE, gr_dataScope = SELF\<rparr>]\<rparr>"

definition sample_hr_call :: "operator \<Rightarrow> string \<Rightarrow> hr_call" where
  "sample_hr_call operator key =
     \<lparr>hc_operator = operator, hc_feature = ORG_STRUCTURE_FUNCTION_CODE, hc_scope = ''hr.org'', hc_key = Some key, hc_fingerprint = key\<rparr>"

definition sample_organise :: "string \<Rightarrow> org_command \<Rightarrow> hr_action" where
  "sample_organise key command =
     organise_service hr_dir (\<lambda>i. Inr ()) (sample_hr_call (1, ''admin'') key) (\<lambda>u. hr_void key) command"

definition sample_department :: "string \<Rightarrow> int option \<Rightarrow> org_command" where
  "sample_department name parent =
     DepartmentCreate \<lparr>dn_name = name, dn_parentId = parent, dn_sort = None, dn_leaders = None\<rparr>"

definition sample_position :: org_command where
  "sample_position = PositionCreate
     \<lparr>pn_name = ''clerk'', pn_description = None, pn_status = None, pn_sort = None, pn_allowSelfApply = Some True,
      pn_departmentIds = Some [1, 2]\<rparr>"

definition sample_apply :: hr_action where
  "sample_apply = position_service (sample_hr_call (2, ''ann'') ''k6'') (\<lambda>h. hr_void ''applied'') 2 1 1000 7"

definition sample_approve :: "int \<Rightarrow> hr_action" where
  "sample_approve i = hr_process (\<lambda>j. ''f'') hr_dir 2000 i process_action.APPROVE 1 (Some ''fine'') None"

text \<open>An evening of 15 January 1970, asked for a day earlier.\<close>

definition sample_dto :: "int \<Rightarrow> int \<Rightarrow> overtime_dto" where
  "sample_dto s e = \<lparr>ov_userIds = [2], ov_overtimeDate = ''1970-01-15'', ov_startMinute = s, ov_endMinute = e, ov_reason = ''stocktaking''\<rparr>"

definition sample_env :: overtime_env where
  "sample_env = \<lparr>oe_advanceDays = 30, oe_backfillDays = 7, oe_holiday = (\<lambda>d. Inr (JObj [(''dateType'', JStr ''WORKDAY'')]))\<rparr>"

definition sample_overtime :: "int \<Rightarrow> int \<Rightarrow> nat \<Rightarrow> hr_action" where
  "sample_overtime s e suffix =
     overtime_submit (\<lambda>dto. ''f'') sample_env hr_dir (2, ''ann'') [(2, ''stores'')] (sample_dto s e) None 1123200000 suffix"

definition sample_org_actions :: "hr_action list" where
  "sample_org_actions =
     [sample_organise ''k1'' (sample_department ''goods'' None), sample_organise ''k2'' (sample_department ''stores'' (Some 1)),
      sample_organise ''k3'' sample_position, sample_organise ''k4'' (AssignDepartments 2 [1]),
      sample_organise ''k5'' (AssignPosition 1 2 1)]"

definition sample_actions :: "hr_action list" where
  "sample_actions = [sample_apply, sample_approve 1, sample_overtime 1080 1200 8, sample_approve 2, sample_overtime 1200 1260 9]"

lemma sample_actions_sound: "\<forall>f \<in> set (sample_org_actions @ sample_actions). hr_sound f"
  by (auto simp: sample_org_actions_def sample_actions_def hr_sound_def sample_organise_def sample_apply_def sample_approve_def
      sample_overtime_def intro: hr_step.intros)

definition sample_org :: hr_db where
  "sample_org = (case hr_play sample_org_actions hr_fresh of None \<Rightarrow> hr_fresh | Some db \<Rightarrow> db)"

definition sample_worked :: hr_db where
  "sample_worked = (case hr_play (sample_org_actions @ sample_actions) hr_fresh of None \<Rightarrow> hr_fresh | Some db \<Rightarrow> db)"

text \<open>What the run leaves, as far as the examples look at it.\<close>

definition shown :: "hr_db \<Rightarrow> (int \<times> int option) list \<times> (int \<times> int) list \<times> (int \<times> int option) list
    \<times> (int \<times> approval_status) list \<times> (int \<times> int \<times> int \<times> int \<times> int) list" where
  "shown db =
     (map (\<lambda>d. (de_id d, de_parentId d)) (hd_departments db), hd_userDepartments db,
      map (\<lambda>p. (up_userId p, up_positionId p)) (hd_userPositions db),
      map (\<lambda>h. (ah_id h, ah_status h)) (sd_heads db),
      map (\<lambda>r. (oi_requestId r, oi_userId r, oi_overtimeDate r, oi_startMinute r, oi_endMinute r)) (hd_overtime db))"

lemma sample_org_shown:
  "case hr_play sample_org_actions hr_fresh of None \<Rightarrow> False
   | Some db \<Rightarrow> shown db = ([(1, None), (2, Some 1)], [(2, 1)], [(2, Some 1)], [], [])"
  by code_simp

lemma sample_worked_shown:
  "case hr_play (sample_org_actions @ sample_actions) hr_fresh of None \<Rightarrow> False
   | Some db \<Rightarrow> shown db = ([(1, None), (2, Some 1)], [(2, 2)], [(2, Some 1)], [(1, APPROVED), (2, APPROVED), (3, PENDING)],
       [(2, 2, 14, 1080, 1200), (3, 2, 14, 1200, 1260)])
     \<and> map (\<lambda>r. (oi_overtimeDate r, oi_minutes r)) (filter (\<lambda>o'. oi_userId o' = 2 \<and> 0 \<le> oi_overtimeDate o' \<and> oi_overtimeDate o' < 31
       \<and> (\<exists>h \<in> set (sd_heads db). ah_id h = oi_requestId o' \<and> ah_status h = APPROVED)) (hd_overtime db)) = [(14, 120)]"
  by code_simp

lemma sample_org_play: "hr_play sample_org_actions hr_fresh = Some sample_org"
  using sample_org_shown by (simp add: sample_org_def split: option.splits)

lemma sample_worked_play: "hr_play (sample_org_actions @ sample_actions) hr_fresh = Some sample_worked"
  using sample_worked_shown by (simp add: sample_worked_def split: option.splits)

lemma sample_org_reach: "hr_reach hr_fresh sample_org"
  by (rule hr_play_reach [OF sample_org_play]) (use sample_actions_sound in simp)

lemma sample_worked_reach: "hr_reach hr_fresh sample_worked"
  by (rule hr_play_reach [OF sample_worked_play]) (rule sample_actions_sound)

lemma sample_shown:
  "shown sample_org = ([(1, None), (2, Some 1)], [(2, 1)], [(2, Some 1)], [], [])"
  "shown sample_worked = ([(1, None), (2, Some 1)], [(2, 2)], [(2, Some 1)], [(1, APPROVED), (2, APPROVED), (3, PENDING)],
       [(2, 2, 14, 1080, 1200), (3, 2, 14, 1200, 1260)])"
  using sample_org_shown sample_worked_shown by (simp_all add: sample_org_play sample_worked_play)

end
