(* ===== verification/Holiday.thy ===== *)
theory Holiday
  imports Overtime
begin

text \<open>
  The kind of a day (\<open>apps/hr/src/modules/holiday\<close>): the check of the provider's answer, the cached
  result with its fallbacks, and the semaphore in front of the provider.
\<close>

section \<open>The provider's answer\<close>

record normalized_holiday =
  nh_dateType :: holiday_type
  nh_weekday :: int
  nh_source :: string
  nh_digest :: string
  nh_fetchedAt :: int

text \<open>\<open>getUTCDay\<close>, Sunday as 7; day 0 of the epoch is a Thursday.\<close>

definition realWeekday :: "string \<Rightarrow> int" where
  "realWeekday date = (let weekday = (toDbDate date + 4) mod 7 in if weekday = 0 then 7 else weekday)"

text \<open>The members of a value; a member of something that is no object is \<open>undefined\<close>.\<close>

definition member :: "string \<Rightarrow> json \<Rightarrow> json" where
  "member k v = (case v of JObj ps \<Rightarrow> jget k ps | _ \<Rightarrow> JUndef)"

definition json_int :: "json \<Rightarrow> int option" where
  "json_int v = (case v of JNum q \<Rightarrow> if of_int \<lfloor>q\<rfloor> = q then Some \<lfloor>q\<rfloor> else None | _ \<Rightarrow> None)"

definition is_object :: "json \<Rightarrow> bool" where
  "is_object v = (case v of JObj ps \<Rightarrow> True | JArr es \<Rightarrow> True | _ \<Rightarrow> False)"

definition classify :: "int \<Rightarrow> int \<Rightarrow> json \<Rightarrow> holiday_type option" where
  "classify typeValue weekday holiday =
     (let rest = member ''holiday'' holiday; wage = json_int (member ''wage'' holiday) in
      if typeValue = 1 then
        (if rest = JBool True \<and> wage = Some 2 \<and> (weekday = 6 \<or> weekday = 7) then Some WEEKEND else None)
      else if typeValue = 2 then
        (if rest = JBool True \<and> (wage = Some 2 \<or> wage = Some 3)
         then Some (if wage = Some 3 then HOLIDAY else ADJUSTED_HOLIDAY) else None)
      else if rest = JBool False \<and> wage = Some 1 \<and> (weekday = 6 \<or> weekday = 7) then Some ADJUSTED_WORKDAY
      else None)"

text \<open>
  \<open>JSON.parse\<close> (\<open>None\<close> when it throws) and SHA-256 are arguments; the result is \<open>None\<close> where the
  code answers that the check failed.
\<close>

definition validateHolidayResponse ::
    "(string \<Rightarrow> json option) \<Rightarrow> (string \<Rightarrow> string) \<Rightarrow> string \<Rightarrow> string \<Rightarrow> string \<Rightarrow> int \<Rightarrow> normalized_holiday option" where
  "validateHolidayResponse parse sha256hex raw requestedDate source fetchedAt =
     (case parse raw of
        None \<Rightarrow> None
      | Some parsed \<Rightarrow>
          if json_int (member ''code'' parsed) \<noteq> Some 0 then None
          else (case (json_int (member ''type'' (member ''type'' parsed)), json_int (member ''week'' (member ''type'' parsed))) of
              (Some typeValue, Some weekday) \<Rightarrow>
                let answer = (\<lambda>t. \<lparr>nh_dateType = t, nh_weekday = weekday, nh_source = source,
                        nh_digest = sha256hex raw, nh_fetchedAt = fetchedAt\<rparr>);
                    holiday = member ''holiday'' parsed in
                if typeValue < 0 \<or> typeValue > 4 \<or> weekday < 1 \<or> weekday > 7 then None
                else if weekday \<noteq> realWeekday requestedDate then None
                else if typeValue = 0 then (if nullish holiday then Some (answer WORKDAY) else None)
                else if \<not> is_object holiday then None
                else if member ''date'' holiday \<noteq> JStr requestedDate then None
                else map_option answer (classify typeValue weekday holiday)
            | _ \<Rightarrow> None))"

section \<open>The cache\<close>

record holiday_row =
  hl_day :: int
  hl_dateType :: holiday_type
  hl_weekday :: int
  hl_providerId :: string
  hl_normalized :: normalized_holiday

definition HOLIDAY_CACHE_TTL_MS :: int where "HOLIDAY_CACHE_TTL_MS = 24 * 60 * 60 * 1000"
definition HOLIDAY_PROVIDER_ID :: string where "HOLIDAY_PROVIDER_ID = ''ailcc''"
definition HOLIDAY_OFFLINE_VERSION :: string where "HOLIDAY_OFFLINE_VERSION = ''offline-2026''"

definition normalizeRow :: "holiday_row \<Rightarrow> normalized_holiday" where
  "normalizeRow r =
     \<lparr>nh_dateType = hl_dateType r, nh_weekday = hl_weekday r, nh_source = hl_providerId r,
      nh_digest = nh_digest (hl_normalized r), nh_fetchedAt = nh_fetchedAt (hl_normalized r)\<rparr>"

definition findAnySaved :: "string \<Rightarrow> holiday_row list \<Rightarrow> normalized_holiday option" where
  "findAnySaved date rows = map_option normalizeRow (find (\<lambda>r. hl_day r = toDbDate date) rows)"

definition findFreshCached :: "int \<Rightarrow> string \<Rightarrow> holiday_row list \<Rightarrow> normalized_holiday option" where
  "findFreshCached now date rows =
     (case find (\<lambda>r. hl_day r = toDbDate date) rows of
        None \<Rightarrow> None
      | Some r \<Rightarrow> if nh_fetchedAt (hl_normalized r) < now - HOLIDAY_CACHE_TTL_MS then None else Some (normalizeRow r))"

definition upsertCached :: "string \<Rightarrow> normalized_holiday \<Rightarrow> holiday_row list \<Rightarrow> holiday_row list" where
  "upsertCached date n rows =
     (let r = \<lparr>hl_day = toDbDate date, hl_dateType = nh_dateType n, hl_weekday = nh_weekday n,
               hl_providerId = HOLIDAY_PROVIDER_ID, hl_normalized = n\<rparr>
      in if \<exists>x \<in> set rows. hl_day x = toDbDate date
         then update_where (\<lambda>x. hl_day x = toDbDate date) (\<lambda>x. r) rows else rows @ [r])"

definition lookupOffline :: "(string \<times> holiday_type) list \<Rightarrow> int \<Rightarrow> string \<Rightarrow> normalized_holiday option" where
  "lookupOffline offline now date =
     map_option (\<lambda>t. \<lparr>nh_dateType = t, nh_weekday = realWeekday date, nh_source = HOLIDAY_OFFLINE_VERSION,
       nh_digest = HOLIDAY_OFFLINE_VERSION, nh_fetchedAt = now\<rparr>) (map_of offline date)"

text \<open>
  The answer of the gateway is an argument: \<open>None\<close> for its error, else the text. The days of the
  built-in calendar are \<open>offline\<close>.
\<close>

definition resolveOnce ::
    "(string \<Rightarrow> json option) \<Rightarrow> (string \<Rightarrow> string) \<Rightarrow> (string \<times> holiday_type) list \<Rightarrow> (string \<Rightarrow> string option) \<Rightarrow> int \<Rightarrow> string
      \<Rightarrow> holiday_row list \<Rightarrow> (err + normalized_holiday) \<times> holiday_row list" where
  "resolveOnce parse sha256hex offline gateway now date rows =
     (case findFreshCached now date rows of
        Some cached \<Rightarrow> (Inr cached, rows)
      | None \<Rightarrow>
          (case (case gateway date of
                   None \<Rightarrow> None
                 | Some raw \<Rightarrow> validateHolidayResponse parse sha256hex raw date HOLIDAY_PROVIDER_ID now) of
             Some n \<Rightarrow> (Inr n, upsertCached date n rows)
           | None \<Rightarrow>
               (case findAnySaved date rows of
                  Some saved \<Rightarrow> (Inr saved, rows)
                | None \<Rightarrow>
                    (case lookupOffline offline now date of
                       Some n \<Rightarrow> (Inr n, rows)
                     | None \<Rightarrow> (Inl (Biz HOLIDAY_API_UNAVAILABLE), rows)))))"

section \<open>The semaphore\<close>

text \<open>
  \<open>acquire\<close> takes a free token at once or waits; \<open>release\<close> gives its token back and wakes the first
  waiter, which takes its token when it runs again, later than \<open>release\<close> returns.
\<close>

record semaphore =
  sm_active :: int
  sm_waiters :: "nat list"
  sm_woken :: "nat list"

definition sem_acquire :: "int \<Rightarrow> nat \<Rightarrow> semaphore \<Rightarrow> semaphore" where
  "sem_acquire maxConcurrent w s =
     (if sm_active s < maxConcurrent then s\<lparr>sm_active := sm_active s + 1\<rparr>
      else s\<lparr>sm_waiters := sm_waiters s @ [w]\<rparr>)"

definition sem_release :: "semaphore \<Rightarrow> semaphore" where
  "sem_release s =
     (case sm_waiters s of
        [] \<Rightarrow> s\<lparr>sm_active := sm_active s - 1\<rparr>
      | w # ws \<Rightarrow> s\<lparr>sm_active := sm_active s - 1, sm_waiters := ws, sm_woken := sm_woken s @ [w]\<rparr>)"

definition sem_resume :: "nat \<Rightarrow> semaphore \<Rightarrow> semaphore" where
  "sem_resume w s = s\<lparr>sm_active := sm_active s + 1, sm_woken := remove1 w (sm_woken s)\<rparr>"

text \<open>
  What the callers of the semaphore do, one after another: a call of \<open>acquire\<close>, a release by one of
  the holders, and the continuation of a waiter that was woken. Other code may run between a release
  and that continuation.
\<close>

datatype sem_op = SemAcquire nat | SemRelease | SemResume nat

fun sem_exec :: "int \<Rightarrow> sem_op \<Rightarrow> semaphore \<Rightarrow> semaphore option" where
  "sem_exec m (SemAcquire w) s = Some (sem_acquire m w s)"
| "sem_exec m SemRelease s = (if 0 < sm_active s then Some (sem_release s) else None)"
| "sem_exec m (SemResume w) s = (if w \<in> set (sm_woken s) then Some (sem_resume w s) else None)"

fun sem_run :: "int \<Rightarrow> sem_op list \<Rightarrow> semaphore \<Rightarrow> semaphore option" where
  "sem_run m [] s = Some s"
| "sem_run m (p # ps) s = (case sem_exec m p s of None \<Rightarrow> None | Some s' \<Rightarrow> sem_run m ps s')"

definition sem_start :: semaphore where
  "sem_start = \<lparr>sm_active = 0, sm_waiters = [], sm_woken = []\<rparr>"

lemma sem_run_append:
  "sem_run m (ps @ qs) s = (case sem_run m ps s of None \<Rightarrow> None | Some s' \<Rightarrow> sem_run m qs s')"
  by (induction ps arbitrary: s) (auto split: option.split)

text \<open>Tokens held and promised: while someone waits, at least the limit is held or promised.\<close>

definition sem_inv :: "int \<Rightarrow> semaphore \<Rightarrow> bool" where
  "sem_inv m s \<longleftrightarrow> 0 \<le> sm_active s
     \<and> (sm_waiters s \<noteq> [] \<longrightarrow> m \<le> sm_active s + int (length (sm_woken s)))"

lemma sem_exec_inv: "sem_exec m p s = Some s' \<Longrightarrow> sem_inv m s \<Longrightarrow> sem_inv m s'"
  by (cases p)
    (auto simp: sem_inv_def sem_acquire_def sem_release_def sem_resume_def length_remove1
      split: list.splits if_splits dest: length_pos_if_in_set)

lemma sem_run_inv: "sem_run m ps s = Some s' \<Longrightarrow> sem_inv m s \<Longrightarrow> sem_inv m s'"
  by (induction ps arbitrary: s) (auto split: option.splits dest: sem_exec_inv)

lemma sem_start_inv: "sem_inv m sem_start"
  by (simp add: sem_inv_def sem_start_def)

text \<open>A woken waiter stays woken until it runs; a waiter moves up by one place with each release.\<close>

lemma sem_woken_stays:
  "sem_run m ps s = Some s' \<Longrightarrow> w \<in> set (sm_woken s) \<Longrightarrow> w \<in> set (sm_woken s') \<or> SemResume w \<in> set ps"
proof (induction ps arbitrary: s)
  case (Cons p ps)
  then obtain s1 where s1: "sem_exec m p s = Some s1" "sem_run m ps s1 = Some s'" by (auto split: option.splits)
  show ?case
  proof (cases "p = SemResume w")
    case False
    then have "w \<in> set (sm_woken s1)"
      using s1(1) Cons.prems(2)
      by (cases p) (auto simp: sem_acquire_def sem_release_def sem_resume_def in_set_remove1 split: list.splits if_splits)
    then show ?thesis using Cons.IH s1(2) by auto
  qed simp
qed simp

abbreviation releases :: "sem_op list \<Rightarrow> nat" where
  "releases ps \<equiv> length (filter (\<lambda>p. p = SemRelease) ps)"

lemma sem_run_waiter:
  assumes "sem_run m ps s = Some s'" and "k < length (sm_waiters s)"
  shows "if releases ps \<le> k
    then k - releases ps < length (sm_waiters s') \<and> sm_waiters s' ! (k - releases ps) = sm_waiters s ! k
    else sm_waiters s ! k \<in> set (sm_woken s') \<or> SemResume (sm_waiters s ! k) \<in> set ps"
  using assms
proof (induction ps arbitrary: s k)
  case (Cons p ps)
  then obtain s1 where s1: "sem_exec m p s = Some s1" "sem_run m ps s1 = Some s'" by (auto split: option.splits)
  show ?case
  proof (cases p)
    case (SemAcquire w)
    then have "k < length (sm_waiters s1)" "sm_waiters s1 ! k = sm_waiters s ! k"
      using s1(1) Cons.prems(2) by (auto simp: sem_acquire_def nth_append)
    then show ?thesis using Cons.IH [OF s1(2), of k] SemAcquire by (auto split: if_splits)
  next
    case (SemResume w)
    then have "sm_waiters s1 = sm_waiters s" using s1(1) by (auto simp: sem_resume_def split: if_splits)
    then show ?thesis using Cons.IH [OF s1(2), of k] Cons.prems(2) SemResume by (auto split: if_splits)
  next
    case SemRelease
    from Cons.prems(2) obtain v vs where v: "sm_waiters s = v # vs" by (cases "sm_waiters s") auto
    then have w: "sm_waiters s1 = vs" "v \<in> set (sm_woken s1)"
      using s1(1) SemRelease by (auto simp: sem_release_def split: if_splits)
    show ?thesis
    proof (cases k)
      case 0
      then show ?thesis using sem_woken_stays [OF s1(2) w(2)] SemRelease v by auto
    next
      case (Suc j)
      then show ?thesis using Cons.IH [OF s1(2), of j] Cons.prems(2) SemRelease v w(1) by auto
    qed
  qed
qed simp

text \<open>The limit is not kept: newcomers take the tokens that woken waiters will count as theirs.\<close>

lemma sem_run_fill:
  "a + int n \<le> m \<Longrightarrow> sem_run m (replicate n (SemAcquire w)) \<lparr>sm_active = a, sm_waiters = [], sm_woken = []\<rparr>
    = Some \<lparr>sm_active = a + int n, sm_waiters = [], sm_woken = []\<rparr>"
  by (induction n arbitrary: a) (simp_all add: sem_acquire_def add.assoc)

lemma sem_run_wait:
  "sem_run m (replicate n (SemAcquire w)) \<lparr>sm_active = m, sm_waiters = ws, sm_woken = []\<rparr>
    = Some \<lparr>sm_active = m, sm_waiters = ws @ replicate n w, sm_woken = []\<rparr>"
  by (induction n arbitrary: ws) (simp_all add: sem_acquire_def)

lemma sem_run_overtake:
  "1 \<le> m \<Longrightarrow> sem_run m (concat (replicate n [SemRelease, SemAcquire v]))
      \<lparr>sm_active = m, sm_waiters = replicate n w, sm_woken = ws\<rparr>
    = Some \<lparr>sm_active = m, sm_waiters = [], sm_woken = ws @ replicate n w\<rparr>"
  by (induction n arbitrary: ws) (simp_all add: sem_acquire_def sem_release_def)

lemma sem_run_resume:
  "sem_run m (replicate n (SemResume w)) \<lparr>sm_active = a, sm_waiters = [], sm_woken = replicate n w\<rparr>
    = Some \<lparr>sm_active = a + int n, sm_waiters = [], sm_woken = []\<rparr>"
  by (induction n arbitrary: a) (simp_all add: sem_resume_def add.assoc)

lemma sem_run_over_limit:
  assumes "1 \<le> m"
  shows "sem_run m (replicate (nat m) (SemAcquire 0) @ replicate n (SemAcquire 1)
      @ concat (replicate n [SemRelease, SemAcquire 2]) @ replicate n (SemResume 1)) sem_start
    = Some \<lparr>sm_active = m + int n, sm_waiters = [], sm_woken = []\<rparr>"
  using sem_run_fill [of 0 "nat m" m 0] sem_run_wait [of m n 1 "[]"] sem_run_overtake [OF assms, of n 2 1 "[]"]
    sem_run_resume [of m n 1 m] assms
  by (simp add: sem_run_append sem_start_def)

end
