(* ===== verification/FinDb.thy ===== *)
theory FinDb
  imports Idempotency JsDate
begin

text \<open>
  The tables of the \<open>fin\<close> schema (\<open>apps/fin/prisma/fin.prisma\<close>) that projects, their amounts and the
  import read or write, the formats of names and amounts (\<open>shared/name-normalize.ts\<close>,
  \<open>packages/contracts/src/money.ts\<close>), and the idempotent execution of
  \<open>shared/fin-operation-log.util.ts\<close>. Amounts are exact decimals, a day is its number since the epoch.
\<close>

section \<open>Rows\<close>

datatype amount_semantic = TENTATIVE | AUDITED
datatype project_action = CREATE | EDIT | DELETE | IMPORT_CREATE | IMPORT_OVERWRITE | IMPORT_SKIP
datatype fin_dict_type = PROGRESS | COMPLETENESS | BIZ_CATEGORY | REGION
datatype detail_kind = Invoice | Receipt | SubcontractPayment

record project_row =
  pr_id :: int
  pr_name :: string
  pr_year :: int
  pr_businessKey :: string
  pr_completenessDocs :: "(int \<times> string) list option"
  pr_regionId :: "int option"
  pr_regionName :: "string option"
  pr_progressId :: "int option"
  pr_progressName :: "string option"
  pr_progressSemantic :: "amount_semantic option"
  pr_bizCategoryId :: "int option"
  pr_bizCategoryName :: "string option"
  pr_partyA :: "string option"
  pr_generalContractor :: "string option"
  pr_managementFee :: "string option"
  pr_subcontractors :: "string list"
  pr_contractStartDate :: "int option"
  pr_contractEndDate :: "int option"
  pr_contractAmount :: "rat option"
  pr_paymentNode :: "string option"
  pr_tentativeAuditedAmount :: "rat option"
  pr_settlement :: "rat option"
  pr_miscExpense :: "rat option"
  pr_remark :: "string option"
  pr_dataRevision :: int
  pr_createdBy :: "int option"
  pr_updatedBy :: "int option"
  pr_deletedBy :: "int option"
  pr_deletedAt :: "int option"

record detail_row =
  ad_id :: int
  ad_projectId :: int
  ad_amount :: rat
  ad_occurredDate :: "int option"
  ad_remark :: "string option"

record operation_row =
  jo_projectId :: int
  jo_operatorId :: int
  jo_operatorName :: string
  jo_action :: project_action
  jo_field :: "string option"
  jo_before :: json
  jo_after :: json

record fin_dict_item =
  dx_id :: int
  dx_dictType :: fin_dict_type
  dx_name :: string
  dx_semantic :: "amount_semantic option"
  dx_sort :: int
  dx_status :: dict_status

datatype fin_table = FProjects | FDetails detail_kind | FDicts

record fin_db =
  fd_projects :: "project_row list"
  fd_details :: "detail_kind \<Rightarrow> detail_row list"
  fd_operations :: "operation_row list"
  fd_dicts :: "fin_dict_item list"
  fd_logs :: "log_row list"
  fd_seq :: "fin_table \<Rightarrow> int"

section \<open>Names and amounts\<close>

text \<open>
  What the runtime and its libraries give: \<open>String.normalize\<close> and \<open>toLocaleLowerCase\<close> on texts beyond
  ASCII, the engine's reading of a text as a date (a day such as 31 February is the engine's to
  accept or refuse), and the sum, difference and quotient of decimal.js, which rounds to its precision
  of twenty significant digits.
\<close>

record fin_env =
  fe_nfc :: "string \<Rightarrow> string"
  fe_lower :: "string \<Rightarrow> string"
  fe_date :: "string \<Rightarrow> int option"
  fe_plus :: "rat \<Rightarrow> rat \<Rightarrow> rat"
  fe_minus :: "rat \<Rightarrow> rat \<Rightarrow> rat"
  fe_div :: "rat \<Rightarrow> rat \<Rightarrow> rat"

function collapse_space :: "string \<Rightarrow> string" where
  "collapse_space [] = []"
| "collapse_space (c # cs) =
     (if js_space c then CHR '' '' # collapse_space (dropWhile js_space cs) else c # collapse_space cs)"
  by pat_completeness auto
termination by (relation "measure length") (auto simp: le_imp_less_Suc length_dropWhile_le)

definition normalizeProjectName :: "fin_env \<Rightarrow> string \<Rightarrow> string" where
  "normalizeProjectName e name = fe_lower e (collapse_space (js_trim (fe_nfc e name)))"

text \<open>The reserved name is Chinese text; it is an argument.\<close>

definition isUnclassifiedReservedName :: "fin_env \<Rightarrow> string \<Rightarrow> string \<Rightarrow> bool" where
  "isUnclassifiedReservedName e unclassified name \<longleftrightarrow> normalizeProjectName e name = normalizeProjectName e unclassified"

definition is_digit :: "char \<Rightarrow> bool" where
  "is_digit c \<longleftrightarrow> c \<in> set ''0123456789''"

definition isNonNegativeAmount :: "string \<Rightarrow> bool" where
  "isNonNegativeAmount s =
     (let whole = takeWhile is_digit s; rest = dropWhile is_digit s
      in whole \<noteq> [] \<and> (whole = ''0'' \<or> hd whole \<noteq> CHR ''0'')
         \<and> (rest = [] \<or> (hd rest = CHR ''.'' \<and> length (tl rest) \<in> {1, 2} \<and> list_all is_digit (tl rest))))"

definition digits_val :: "string \<Rightarrow> int" where
  "digits_val s = int (str_val 0 s)"

text \<open>\<open>new Prisma.Decimal\<close> of a text that passed the check of amounts.\<close>

definition decimal_of :: "string \<Rightarrow> rat" where
  "decimal_of s =
     (let frac = tl (dropWhile is_digit s)
      in of_int (digits_val (takeWhile is_digit s)) + of_int (digits_val frac) / of_int (10 ^ length frac))"

text \<open>Half is rounded away from zero.\<close>

definition cents :: "rat \<Rightarrow> int" where
  "cents r = (if r < 0 then - \<lfloor>- r * 100 + 1 / 2\<rfloor> else \<lfloor>r * 100 + 1 / 2\<rfloor>)"

definition toFixed2 :: "rat \<Rightarrow> string" where
  "toFixed2 r =
     (let c = \<bar>cents r\<bar>
      in (if r < 0 then ''-'' else []) @ int_str (c div 100) @ ''.'' @ padStart 2 (CHR ''0'') (int_str (c mod 100)))"

text \<open>\<open>Decimal(18, 2)\<close> keeps two places and refuses what has more than sixteen before the point.\<close>

definition numeric2 :: "rat \<Rightarrow> rat" where
  "numeric2 r = of_int (cents r) / 100"

definition two_places :: "rat \<Rightarrow> bool" where
  "two_places r \<longleftrightarrow> r * 100 = of_int \<lfloor>r * 100\<rfloor>"

lemma two_places_cents: "two_places (of_int c / 100)"
  by (simp add: two_places_def)

lemma two_places_iff: "two_places r \<longleftrightarrow> (\<exists>c. r = of_int c / 100)"
proof
  assume "two_places r"
  then have "r = of_int \<lfloor>r * 100\<rfloor> / 100" by (simp add: two_places_def)
  then show "\<exists>c. r = of_int c / 100" ..
qed (metis two_places_cents)

lemma numeric2_two_places [simp]: "two_places (numeric2 r)"
  by (simp add: numeric2_def two_places_cents)

lemma two_places_plus: "two_places a \<Longrightarrow> two_places b \<Longrightarrow> two_places (a + b)"
  unfolding two_places_iff by (metis add_divide_distrib of_int_add)

lemma two_places_zero [simp]: "two_places 0"
  by (simp add: two_places_def)

text \<open>The type of the column, with the check that the amount is not negative.\<close>

definition amount_ok :: "rat \<Rightarrow> bool" where
  "amount_ok r \<longleftrightarrow> 0 \<le> r \<and> r < 10 ^ 16 \<and> two_places r"

text \<open>
  What is documented of the sums and differences of the decimal library: they are rounded to twenty
  significant digits, so that one with two places and fewer than nineteen digits before the point is exact.
\<close>

definition decimal_exact :: "fin_env \<Rightarrow> bool" where
  "decimal_exact e \<longleftrightarrow> (\<forall>a b. two_places a \<and> two_places b \<longrightarrow>
     (\<bar>a + b\<bar> < 10 ^ 18 \<longrightarrow> fe_plus e a b = a + b) \<and> (\<bar>a - b\<bar> < 10 ^ 18 \<longrightarrow> fe_minus e a b = a - b))"

definition opt_amount_ok :: "rat option \<Rightarrow> bool" where
  "opt_amount_ok r \<longleftrightarrow> (case r of None \<Rightarrow> True | Some a \<Rightarrow> amount_ok a)"

definition formatCalendarDate :: "int \<Rightarrow> string" where
  "formatCalendarDate d =
     (case civil_from_days d of (y, m, day) \<Rightarrow>
        int_str y @ ''-'' @ padStart 2 (CHR ''0'') (int_str m) @ ''-'' @ padStart 2 (CHR ''0'') (int_str day))"

section \<open>Statements\<close>

definition fin_nextval :: "fin_table \<Rightarrow> fin_db \<Rightarrow> int \<times> fin_db" where
  "fin_nextval t db = (fd_seq db t, db\<lparr>fd_seq := (fd_seq db)(t := fd_seq db t + 1)\<rparr>)"

text \<open>The checks of the table: a year of four digits, no negative amount, a revision of 32 bits;
  \<open>(business_key, year)\<close> is unique, deleted rows included.\<close>

definition project_ok :: "project_row \<Rightarrow> bool" where
  "project_ok p \<longleftrightarrow> 1000 \<le> pr_year p \<and> pr_year p \<le> 9999 \<and> opt_amount_ok (pr_contractAmount p)
     \<and> opt_amount_ok (pr_tentativeAuditedAmount p) \<and> opt_amount_ok (pr_settlement p) \<and> opt_amount_ok (pr_miscExpense p)
     \<and> int4 (pr_dataRevision p)"

definition project_clash :: "project_row \<Rightarrow> project_row \<Rightarrow> bool" where
  "project_clash p q \<longleftrightarrow> pr_businessKey p = pr_businessKey q \<and> pr_year p = pr_year q"

definition insertProject :: "project_row \<Rightarrow> fin_db \<Rightarrow> err + (project_row \<times> fin_db)" where
  "insertProject p db =
     (let (i, db1) = fin_nextval FProjects db; row = p\<lparr>pr_id := i\<rparr>
      in bindR (insert_row project_ok project_clash [''business_key'', ''year''] row (fd_projects db1))
           (\<lambda>ps. Inr (row, db1\<lparr>fd_projects := ps\<rparr>)))"

definition findProject :: "int \<Rightarrow> fin_db \<Rightarrow> project_row option" where
  "findProject i db = find (\<lambda>p. pr_id p = i) (fd_projects db)"

definition updateProject :: "int \<Rightarrow> (project_row \<Rightarrow> project_row) \<Rightarrow> fin_db \<Rightarrow> err + fin_db" where
  "updateProject i f db =
     (case findProject i db of
        None \<Rightarrow> Inl RecordNotFound
      | Some p \<Rightarrow>
          if \<not> project_ok (f p) then Inl CheckViolation
          else if \<exists>q \<in> set (fd_projects db). pr_id q \<noteq> i \<and> project_clash (f p) q
          then Inl (UniqueViolation [''business_key'', ''year''])
          else Inr (db\<lparr>fd_projects := update_where (\<lambda>p. pr_id p = i) f (fd_projects db)\<rparr>))"

definition set_details :: "detail_kind \<Rightarrow> detail_row list \<Rightarrow> fin_db \<Rightarrow> fin_db" where
  "set_details k rs db = db\<lparr>fd_details := (fd_details db)(k := rs)\<rparr>"

definition insertDetail :: "detail_kind \<Rightarrow> detail_row \<Rightarrow> fin_db \<Rightarrow> err + (detail_row \<times> fin_db)" where
  "insertDetail k r db =
     (let (i, db1) = fin_nextval (FDetails k) db; row = r\<lparr>ad_id := i\<rparr>
      in if findProject (ad_projectId r) db = None then Inl ForeignKeyViolation
         else if \<not> amount_ok (ad_amount r) then Inl CheckViolation
         else Inr (row, set_details k (fd_details db1 k @ [row]) db1))"

definition projectDetails :: "detail_kind \<Rightarrow> int \<Rightarrow> fin_db \<Rightarrow> detail_row list" where
  "projectDetails k i db = filter (\<lambda>r. ad_projectId r = i) (fd_details db k)"

section \<open>Idempotent execution\<close>

definition loadFinOperationLogOperator :: "directory \<Rightarrow> int \<Rightarrow> err + (operator \<times> (int \<times> string) list)" where
  "loadFinOperationLogOperator dir operatorId =
     (case loadSessionUser operatorId dir of
        None \<Rightarrow> Inl (Biz UNAUTHORIZED)
      | Some user \<Rightarrow> Inr ((operatorId, loadUserName operatorId dir), loadOperatorDepartments dir operatorId))"

definition writeFinOperationLog :: "log_row \<Rightarrow> fin_db \<Rightarrow> err + fin_db" where
  "writeFinOperationLog entry db =
     bindR (insert_row (\<lambda>r. True) log_clash [''idempotency_scope'', ''idempotency_key''] entry (fd_logs db))
       (\<lambda>ls. Inr (db\<lparr>fd_logs := ls\<rparr>))"

definition findFinRecord :: "int \<Rightarrow> string \<Rightarrow> string \<Rightarrow> fin_db \<Rightarrow> log_row option" where
  "findFinRecord operatorId scope key db =
     find (\<lambda>l. lo_operatorId l = Some operatorId \<and> lo_system l = ''FIN'' \<and> lo_scope l = Some scope \<and> lo_key l = Some key)
       (fd_logs db)"

text \<open>\<open>fo_beforeCommit\<close> is the check just before the log is written, which may throw.\<close>

record fin_options =
  fo_operator :: operator
  fo_feature :: string
  fo_scope :: string
  fo_key :: "string option"
  fo_fingerprint :: string
  fo_beforeCommit :: "err + unit"
  fo_run :: "fin_db \<Rightarrow> err + (json outcome \<times> fin_db)"

definition fin_log :: "fin_options \<Rightarrow> string option \<Rightarrow> json outcome \<Rightarrow> log_row" where
  "fin_log opts key out =
     \<lparr>lo_operatorId = Some (fst (fo_operator opts)), lo_operatorName = Some (snd (fo_operator opts)),
      lo_system = ''FIN'', lo_feature = fo_feature opts, lo_action = oc_action out, lo_summary = oc_summary out,
      lo_scope = (if key = None then None else Some (fo_scope opts)), lo_key = key,
      lo_fingerprint = (if key = None then None else Some (fo_fingerprint opts)),
      lo_result = (if key = None then JNull else column_json (oc_result out))\<rparr>"

definition fin_run_logged :: "fin_options \<Rightarrow> string option \<Rightarrow> fin_db \<Rightarrow> err + (json \<times> fin_db)" where
  "fin_run_logged opts key db =
     bindR (fo_run opts db) (\<lambda>(out, db1).
     bindR (fo_beforeCommit opts) (\<lambda>u.
     bindR (writeFinOperationLog (fin_log opts key out) db1) (\<lambda>db2. Inr (oc_result out, db2))))"

definition fin_commit :: "fin_options \<Rightarrow> fin_db \<Rightarrow> err + (json \<times> fin_db)" where
  "fin_commit opts db =
     (case fo_key opts of
        Some (c # cs) \<Rightarrow>
          (case fin_run_logged opts (Some (c # cs)) db of
             Inr r \<Rightarrow> Inr r
           | Inl e \<Rightarrow>
               if isPrismaUniqueViolation e then
                 (case findFinRecord (fst (fo_operator opts)) (fo_scope opts) (c # cs) db of
                    Some concurrent \<Rightarrow> bindR (replayIdempotencyRecord concurrent (fo_fingerprint opts)) (\<lambda>r. Inr (r, db))
                  | None \<Rightarrow> Inl e)
               else Inl e)
      | _ \<Rightarrow> fin_run_logged opts None db)"

definition fin_execute :: "fin_options \<Rightarrow> fin_db \<Rightarrow> err + (json \<times> fin_db)" where
  "fin_execute opts db =
     (case fo_key opts of
        Some (c # cs) \<Rightarrow>
          (case findFinRecord (fst (fo_operator opts)) (fo_scope opts) (c # cs) db of
             Some existing \<Rightarrow> bindR (replayIdempotencyRecord existing (fo_fingerprint opts)) (\<lambda>r. Inr (r, db))
           | None \<Rightarrow> fin_commit opts db)
      | _ \<Rightarrow> fin_commit opts db)"

lemma fin_execute_cases:
  assumes "fin_execute opts db = Inr (r, db')"
  shows "db' = db \<or> (\<exists>out d ls. fo_run opts db = Inr (out, d) \<and> db' = d\<lparr>fd_logs := ls\<rparr> \<and> r = oc_result out)"
proof -
  have logged: "\<exists>out d ls. fo_run opts db = Inr (out, d) \<and> db' = d\<lparr>fd_logs := ls\<rparr> \<and> x = oc_result out"
    if "fin_run_logged opts key db = Inr (x, db')" for key x
    using that by (auto simp: fin_run_logged_def writeFinOperationLog_def bindR_Inr_iff)
  have commit: "db' = db \<or> (\<exists>key. fin_run_logged opts key db = Inr (x, db'))" if "fin_commit opts db = Inr (x, db')" for x
    using that by (auto simp: fin_commit_def bindR_Inr_iff split: option.splits list.splits sum.splits if_splits)
  have "db' = db \<or> fin_commit opts db = Inr (r, db')"
    using assms by (auto simp: fin_execute_def bindR_Inr_iff split: option.splits list.splits)
  then show ?thesis using commit logged by blast
qed

end
