(* ===== verification/FinProject.thy ===== *)
theory FinProject
  imports FinDb
begin

text \<open>
  Projects and their amounts: \<open>modules/project/project.service.ts\<close> (create, update, delete, restore,
  the difference that is journaled), \<open>modules/project/detail.service.ts\<close> (one amount at a time) and
  the automatic figures of \<open>shared/project-calc.ts\<close>.
\<close>

section \<open>Comparable values\<close>

definition json_opt :: "('a \<Rightarrow> json) \<Rightarrow> 'a option \<Rightarrow> json" where
  "json_opt f v = (case v of None \<Rightarrow> JNull | Some x \<Rightarrow> f x)"

definition doc_json :: "int \<times> string \<Rightarrow> json" where
  "doc_json d = JObj [(''id'', JNum (of_int (fst d))), (''name'', JStr (snd d))]"

definition text_json :: "string option \<Rightarrow> json" where "text_json = json_opt JStr"
definition id_json :: "int option \<Rightarrow> json" where "id_json = json_opt (\<lambda>i. JNum (of_int i))"
definition money_json :: "rat option \<Rightarrow> json" where "money_json = json_opt (\<lambda>r. JStr (toFixed2 r))"
definition date_json :: "int option \<Rightarrow> json" where "date_json = json_opt (\<lambda>d. JStr (formatCalendarDate d))"

text \<open>\<open>fieldValue\<close> of each of \<open>PROJECT_FIELDS\<close>, in their order.\<close>

definition projectSnapshot :: "project_row \<Rightarrow> (string \<times> json) list" where
  "projectSnapshot p =
     [(''name'', JStr (pr_name p)), (''year'', JNum (of_int (pr_year p))),
      (''completenessDocs'', json_opt (\<lambda>ds. JArr (map doc_json ds)) (pr_completenessDocs p)),
      (''regionId'', id_json (pr_regionId p)), (''progressId'', id_json (pr_progressId p)),
      (''bizCategoryId'', id_json (pr_bizCategoryId p)), (''partyA'', text_json (pr_partyA p)),
      (''generalContractor'', text_json (pr_generalContractor p)), (''managementFee'', text_json (pr_managementFee p)),
      (''subcontractors'', JArr (map JStr (pr_subcontractors p))),
      (''contractStartDate'', date_json (pr_contractStartDate p)), (''contractEndDate'', date_json (pr_contractEndDate p)),
      (''contractAmount'', money_json (pr_contractAmount p)), (''paymentNode'', text_json (pr_paymentNode p)),
      (''tentativeAuditedAmount'', money_json (pr_tentativeAuditedAmount p)),
      (''settlement'', money_json (pr_settlement p)), (''miscExpense'', money_json (pr_miscExpense p)),
      (''remark'', text_json (pr_remark p))]"

section \<open>Input\<close>

record project_dto =
  pd_name :: string
  pd_year :: int
  pd_completenessDocs :: "int list option"
  pd_regionId :: "int option"
  pd_progressId :: "int option"
  pd_bizCategoryId :: "int option"
  pd_partyA :: "string option"
  pd_generalContractor :: "string option"
  pd_managementFee :: "string option"
  pd_subcontractors :: "string list option"
  pd_contractStartDate :: "string option"
  pd_contractEndDate :: "string option"
  pd_contractAmount :: "string option"
  pd_paymentNode :: "string option"
  pd_tentativeAuditedAmount :: "string option"
  pd_settlement :: "string option"
  pd_miscExpense :: "string option"
  pd_remark :: "string option"

text \<open>Arrays that were not sent keep what is stored.\<close>

definition mergeProjectUpdateDto :: "project_dto \<Rightarrow> string list \<Rightarrow> (int \<times> string) list option \<Rightarrow> project_dto" where
  "mergeProjectUpdateDto dto existingSubcontractors existingCompletenessDocs =
     dto\<lparr>pd_subcontractors := Some (case pd_subcontractors dto of Some s \<Rightarrow> s | None \<Rightarrow> existingSubcontractors),
         pd_completenessDocs :=
           (case pd_completenessDocs dto of Some ds \<Rightarrow> Some ds | None \<Rightarrow> map_option (map fst) existingCompletenessDocs)\<rparr>"

record dict_snapshots =
  sp_regionName :: "string option"
  sp_progressName :: "string option"
  sp_progressSemantic :: "amount_semantic option"
  sp_bizCategoryName :: "string option"
  sp_completenessDocs :: "(int \<times> string) list"

definition findDictItem :: "int \<Rightarrow> fin_db \<Rightarrow> fin_dict_item option" where
  "findDictItem i db = find (\<lambda>d. dx_id d = i) (fd_dicts db)"

text \<open>An item that is disabled may only be kept, not chosen. The type of the item is not looked at.\<close>

definition resolve_ref :: "int option \<Rightarrow> int option \<Rightarrow> fin_db \<Rightarrow> err + fin_dict_item option" where
  "resolve_ref ref currentId db =
     (case ref of
        None \<Rightarrow> Inr None
      | Some i \<Rightarrow>
          (case findDictItem i db of
             None \<Rightarrow> Inl (Biz VALIDATION_FAILED)
           | Some item \<Rightarrow>
               if dx_status item = DISABLED \<and> Some (dx_id item) \<noteq> currentId then Inl (Biz VALIDATION_FAILED)
               else Inr (Some item)))"

definition resolve_doc ::
    "int list \<Rightarrow> fin_db \<Rightarrow> int \<Rightarrow> (int \<times> string) list \<Rightarrow> err + (int \<times> string) list" where
  "resolve_doc currentDocIds db i docs =
     (if i \<in> fst ` set docs then Inl (Biz VALIDATION_FAILED)
      else case findDictItem i db of
        None \<Rightarrow> Inl (Biz VALIDATION_FAILED)
      | Some item \<Rightarrow>
          if dx_dictType item \<noteq> COMPLETENESS then Inl (Biz VALIDATION_FAILED)
          else if dx_status item = DISABLED \<and> dx_id item \<notin> set currentDocIds then Inl (Biz VALIDATION_FAILED)
          else Inr (docs @ [(dx_id item, dx_name item)]))"

definition stored_doc_ids :: "project_row option \<Rightarrow> int list" where
  "stored_doc_ids existing =
     (case existing of
        None \<Rightarrow> []
      | Some p \<Rightarrow> (case pr_completenessDocs p of None \<Rightarrow> [] | Some ds \<Rightarrow> map fst ds))"

definition semantic_of :: "fin_dict_item \<Rightarrow> amount_semantic" where
  "semantic_of item = (case dx_semantic item of None \<Rightarrow> TENTATIVE | Some s \<Rightarrow> s)"

definition resolveDictSnapshots :: "project_dto \<Rightarrow> project_row option \<Rightarrow> fin_db \<Rightarrow> err + dict_snapshots" where
  "resolveDictSnapshots dto existing db =
     (let current = (\<lambda>f. case existing of None \<Rightarrow> None | Some p \<Rightarrow> f p) in
      bindR (resolve_ref (pd_regionId dto) (current pr_regionId) db) (\<lambda>region.
      bindR (resolve_ref (pd_progressId dto) (current pr_progressId) db) (\<lambda>progress.
      bindR (resolve_ref (pd_bizCategoryId dto) (current pr_bizCategoryId) db) (\<lambda>category.
      bindR (foldR (resolve_doc (stored_doc_ids existing) db)
               (case pd_completenessDocs dto of None \<Rightarrow> [] | Some ds \<Rightarrow> ds) []) (\<lambda>docs.
      Inr \<lparr>sp_regionName = map_option dx_name region, sp_progressName = map_option dx_name progress,
           sp_progressSemantic = map_option semantic_of progress, sp_bizCategoryName = map_option dx_name category,
           sp_completenessDocs = docs\<rparr>)))))"

section \<open>Writing a project\<close>

text \<open>An empty text is no date and no amount. A text the engine does not read as a date is refused by the client.\<close>

definition parse_date :: "fin_env \<Rightarrow> string option \<Rightarrow> err + int option" where
  "parse_date e s =
     (case s of
        Some (c # cs) \<Rightarrow> (case fe_date e (c # cs) of None \<Rightarrow> Inl PlainError | Some d \<Rightarrow> Inr (Some d))
      | _ \<Rightarrow> Inr None)"

definition parse_money :: "string option \<Rightarrow> rat option" where
  "parse_money s = (case s of Some (c # cs) \<Rightarrow> Some (numeric2 (decimal_of (c # cs))) | _ \<Rightarrow> None)"

definition empty_project :: project_row where
  "empty_project =
     \<lparr>pr_id = 0, pr_name = [], pr_year = 0, pr_businessKey = [], pr_completenessDocs = None, pr_regionId = None,
      pr_regionName = None, pr_progressId = None, pr_progressName = None, pr_progressSemantic = None,
      pr_bizCategoryId = None, pr_bizCategoryName = None, pr_partyA = None, pr_generalContractor = None,
      pr_managementFee = None, pr_subcontractors = [], pr_contractStartDate = None, pr_contractEndDate = None,
      pr_contractAmount = None, pr_paymentNode = None, pr_tentativeAuditedAmount = None, pr_settlement = None,
      pr_miscExpense = None, pr_remark = None, pr_dataRevision = 0, pr_createdBy = None, pr_updatedBy = None,
      pr_deletedBy = None, pr_deletedAt = None\<rparr>"

definition buildProjectData ::
    "fin_env \<Rightarrow> project_dto \<Rightarrow> string \<Rightarrow> dict_snapshots \<Rightarrow> int \<Rightarrow> project_row option
      \<Rightarrow> err + (project_row \<Rightarrow> project_row)" where
  "buildProjectData e dto businessKey sn operatorId existing =
     bindR (parse_date e (pd_contractStartDate dto)) (\<lambda>start.
     bindR (parse_date e (pd_contractEndDate dto)) (\<lambda>end_date.
     Inr (\<lambda>p. p\<lparr>pr_name := pd_name dto, pr_year := pd_year dto, pr_businessKey := businessKey,
       pr_completenessDocs := Some (sp_completenessDocs sn),
       pr_regionId := pd_regionId dto, pr_regionName := sp_regionName sn,
       pr_progressId := pd_progressId dto, pr_progressName := sp_progressName sn,
       pr_progressSemantic := sp_progressSemantic sn,
       pr_bizCategoryId := pd_bizCategoryId dto, pr_bizCategoryName := sp_bizCategoryName sn,
       pr_partyA := pd_partyA dto, pr_generalContractor := pd_generalContractor dto,
       pr_managementFee := pd_managementFee dto,
       pr_subcontractors := (case pd_subcontractors dto of None \<Rightarrow> [] | Some s \<Rightarrow> s),
       pr_contractStartDate := start, pr_contractEndDate := end_date,
       pr_contractAmount := parse_money (pd_contractAmount dto), pr_paymentNode := pd_paymentNode dto,
       pr_tentativeAuditedAmount := parse_money (pd_tentativeAuditedAmount dto),
       pr_settlement := parse_money (pd_settlement dto), pr_miscExpense := parse_money (pd_miscExpense dto),
       pr_remark := pd_remark dto,
       pr_createdBy := (case existing of Some q \<Rightarrow>
           (case pr_createdBy q of Some c \<Rightarrow> Some c | None \<Rightarrow> Some operatorId) | None \<Rightarrow> Some operatorId),
       pr_updatedBy := Some operatorId\<rparr>)))"

section \<open>The difference\<close>

text \<open>The values of the input in the order of the fields; amounts and dates are compared as they were sent.\<close>

definition sent_amount :: "string option \<Rightarrow> json" where
  "sent_amount s = (case s of Some (c # cs) \<Rightarrow> JStr (c # cs) | _ \<Rightarrow> JNull)"

definition dto_values :: "project_dto \<Rightarrow> dict_snapshots \<Rightarrow> (string \<times> json) list" where
  "dto_values dto sn =
     [(''name'', JStr (pd_name dto)), (''year'', JNum (of_int (pd_year dto))),
      (''completenessDocs'', JArr (map doc_json (sp_completenessDocs sn))),
      (''regionId'', id_json (pd_regionId dto)), (''progressId'', id_json (pd_progressId dto)),
      (''bizCategoryId'', id_json (pd_bizCategoryId dto)), (''partyA'', text_json (pd_partyA dto)),
      (''generalContractor'', text_json (pd_generalContractor dto)), (''managementFee'', text_json (pd_managementFee dto)),
      (''subcontractors'', JArr (map JStr (case pd_subcontractors dto of None \<Rightarrow> [] | Some s \<Rightarrow> s))),
      (''contractStartDate'', text_json (pd_contractStartDate dto)), (''contractEndDate'', text_json (pd_contractEndDate dto)),
      (''contractAmount'', sent_amount (pd_contractAmount dto)), (''paymentNode'', text_json (pd_paymentNode dto)),
      (''tentativeAuditedAmount'', sent_amount (pd_tentativeAuditedAmount dto)),
      (''settlement'', sent_amount (pd_settlement dto)), (''miscExpense'', sent_amount (pd_miscExpense dto)),
      (''remark'', text_json (pd_remark dto))]"

definition isEmptyFieldValue :: "json \<Rightarrow> bool" where
  "isEmptyFieldValue v \<longleftrightarrow> v = JNull \<or> v = JArr []"

text \<open>Two values of fields have the same serialisation exactly when they are equal.\<close>

definition fieldValuesEqual :: "json \<Rightarrow> json \<Rightarrow> bool" where
  "fieldValuesEqual old new \<longleftrightarrow> (isEmptyFieldValue old \<and> isEmptyFieldValue new) \<or> old = new"

definition semantic_json :: "amount_semantic option \<Rightarrow> json" where
  "semantic_json s = (case s of Some AUDITED \<Rightarrow> JStr ''AUDITED'' | _ \<Rightarrow> JStr ''TENTATIVE'')"

definition diffProject :: "project_row \<Rightarrow> project_dto \<Rightarrow> dict_snapshots \<Rightarrow> (string \<times> json \<times> json) list" where
  "diffProject existing dto sn =
     map (\<lambda>((k, old), (k', new)). (k, old, new))
       (filter (\<lambda>((k, old), (k', new)). \<not> fieldValuesEqual old new) (zip (projectSnapshot existing) (dto_values dto sn)))
     @ map (\<lambda>(k, old, new). (k, text_json old, text_json new))
         (filter (\<lambda>(k, old, new). old \<noteq> new)
           [(''regionName'', pr_regionName existing, sp_regionName sn),
            (''progressName'', pr_progressName existing, sp_progressName sn),
            (''bizCategoryName'', pr_bizCategoryName existing, sp_bizCategoryName sn)])
     @ (if semantic_json (pr_progressSemantic existing) \<noteq> semantic_json (sp_progressSemantic sn)
        then [(''progressSemantic'', semantic_json (pr_progressSemantic existing), semantic_json (sp_progressSemantic sn))]
        else [])"

definition writeProjectChange :: "operation_row \<Rightarrow> fin_db \<Rightarrow> err + fin_db" where
  "writeProjectChange r db =
     (if findProject (jo_projectId r) db = None then Inl ForeignKeyViolation
      else Inr (db\<lparr>fd_operations := fd_operations db @ [r]\<rparr>))"

definition project_change ::
    "int \<Rightarrow> operator \<Rightarrow> project_action \<Rightarrow> string option \<Rightarrow> json \<Rightarrow> json \<Rightarrow> operation_row" where
  "project_change i opr action field before after =
     \<lparr>jo_projectId = i, jo_operatorId = fst opr, jo_operatorName = snd opr, jo_action = action, jo_field = field,
      jo_before = before, jo_after = after\<rparr>"

section \<open>Operations on projects\<close>

text \<open>A violated unique key of the projects is reported as a conflict of names.\<close>

definition key_conflict :: "err + 'a \<Rightarrow> err + 'a" where
  "key_conflict r = (case r of
     Inl e \<Rightarrow> if isPrismaUniqueViolation e then Inl (Biz (Finance PROJECT_KEY_CONFLICT)) else Inl e | Inr x \<Rightarrow> Inr x)"

definition fin_outcome :: "json \<Rightarrow> log_action \<Rightarrow> string \<Rightarrow> json outcome" where
  "fin_outcome r a s = \<lparr>oc_result = r, oc_action = a, oc_summary = s\<rparr>"

definition project_create :: "fin_env \<Rightarrow> operator \<Rightarrow> project_dto \<Rightarrow> fin_db \<Rightarrow> err + (json outcome \<times> fin_db)" where
  "project_create e opr dto db =
     bindR (resolveDictSnapshots dto None db) (\<lambda>sn.
     let businessKey = normalizeProjectName e (pd_name dto) in
     key_conflict (
       bindR (buildProjectData e dto businessKey sn (fst opr) None) (\<lambda>f.
       bindR (insertProject (f empty_project) db) (\<lambda>(row, db1).
       bindR (writeProjectChange (project_change (pr_id row) opr project_action.CREATE None JNull (JObj (projectSnapshot row))) db1)
         (\<lambda>db2. Inr (fin_outcome (JObj [(''id'', JNum (of_int (pr_id row)))]) log_action.CREATE (pd_name dto), db2))))))"

definition live_project :: "int \<Rightarrow> fin_db \<Rightarrow> err + project_row" where
  "live_project i db =
     (case findProject i db of
        None \<Rightarrow> Inl (Biz RESOURCE_NOT_FOUND)
      | Some p \<Rightarrow> if pr_deletedAt p \<noteq> None then Inl (Biz RESOURCE_NOT_FOUND) else Inr p)"

definition bump_revision :: "project_row \<Rightarrow> project_row" where
  "bump_revision p = p\<lparr>pr_dataRevision := pr_dataRevision p + 1\<rparr>"

definition project_update :: "fin_env \<Rightarrow> operator \<Rightarrow> int \<Rightarrow> project_dto \<Rightarrow> fin_db \<Rightarrow> err + (json outcome \<times> fin_db)" where
  "project_update e opr i dto db =
     bindR (live_project i db) (\<lambda>existing.
     let eff = mergeProjectUpdateDto dto (pr_subcontractors existing) (pr_completenessDocs existing);
         out = (\<lambda>n. fin_outcome (JObj [(''id'', JNum (of_int i))]) UPDATE n) in
     bindR (resolveDictSnapshots eff (Some existing) db) (\<lambda>sn.
     let businessKey = normalizeProjectName e (pd_name eff); diff = diffProject existing eff sn in
     if diff = [] then Inr (out (pd_name dto), db)
     else
       bindR (key_conflict
           (bindR (buildProjectData e eff businessKey sn (fst opr) (Some existing)) (\<lambda>f.
            updateProject i (\<lambda>p. bump_revision (f p)) db))) (\<lambda>db1.
       bindR (writeProjectChange (project_change i opr EDIT None
           (JObj (map (\<lambda>(k, b, a). (k, b)) diff)) (JObj (map (\<lambda>(k, b, a). (k, a)) diff))) db1)
         (\<lambda>db2. Inr (out (pr_name existing), db2)))))"

text \<open>\<open>findMany\<close> of the ids returns each row once; the count is compared with the number of ids sent.\<close>

definition project_batchDelete :: "operator \<Rightarrow> int \<Rightarrow> int list \<Rightarrow> fin_db \<Rightarrow> err + (json outcome \<times> fin_db)" where
  "project_batchDelete opr now ids db =
     (let existing = filter (\<lambda>p. pr_id p \<in> set ids \<and> pr_deletedAt p = None) (fd_projects db) in
      if length existing \<noteq> length ids then Inl (Biz VALIDATION_FAILED)
      else
        bindR (foldR (\<lambda>row. writeProjectChange
             (project_change (pr_id row) opr project_action.DELETE None (JObj (projectSnapshot row)) JNull)) existing
           (db\<lparr>fd_projects := update_where (\<lambda>p. pr_id p \<in> pr_id ` set existing)
                (\<lambda>p. p\<lparr>pr_deletedBy := Some (fst opr), pr_deletedAt := Some now\<rparr>) (fd_projects db)\<rparr>))
          (\<lambda>db1. Inr (fin_outcome (JObj [(''deleted'', JNum (of_nat (length existing)))]) log_action.DELETE ''projects'', db1)))"

definition project_batchRestore :: "(int \<Rightarrow> json) \<Rightarrow> operator \<Rightarrow> int list \<Rightarrow> fin_db \<Rightarrow> err + (json outcome \<times> fin_db)" where
  "project_batchRestore stamp opr ids db =
     (let deleted = filter (\<lambda>p. pr_id p \<in> set ids \<and> pr_deletedAt p \<noteq> None) (fd_projects db) in
      if length deleted \<noteq> length ids then Inl (Biz VALIDATION_FAILED)
      else if \<not> list_all (\<lambda>p. project_ok (bump_revision p)) deleted then Inl CheckViolation
      else
        bindR (foldR (\<lambda>row. writeProjectChange
             (project_change (pr_id row) opr EDIT (Some ''deletedAt'')
               (JObj [(''deletedAt'', json_opt stamp (pr_deletedAt row))]) JNull)) deleted
           (db\<lparr>fd_projects := update_where (\<lambda>p. pr_id p \<in> pr_id ` set deleted)
                (\<lambda>p. bump_revision (p\<lparr>pr_deletedBy := None, pr_deletedAt := None\<rparr>)) (fd_projects db)\<rparr>))
          (\<lambda>db1. Inr (fin_outcome (JObj [(''restored'', JNum (of_nat (length deleted)))]) UPDATE ''projects'', db1)))"

section \<open>Automatic figures\<close>

definition sumAmounts :: "fin_env \<Rightarrow> detail_row list \<Rightarrow> rat" where
  "sumAmounts e rows = foldl (\<lambda>acc r. fe_plus e acc (ad_amount r)) 0 rows"

record project_calc =
  pf_totalInvoiced :: string
  pf_totalReceived :: string
  pf_totalSubcontractPaid :: string
  pf_remainingUninvoiced :: string
  pf_remainingUnreceived :: string
  pf_equity :: string
  pf_grossMargin :: "string option"

text \<open>\<open>toDecimalPlaces(8).toFixed()\<close>: eight places, half away from zero, without the zeros at the end.\<close>

definition places8 :: "rat \<Rightarrow> string" where
  "places8 r =
     (let c = \<lfloor>\<bar>r\<bar> * 100000000 + 1 / 2\<rfloor>;
          frac = rev (dropWhile (\<lambda>d. d = CHR ''0'') (rev (padStart 8 (CHR ''0'') (int_str (c mod 100000000)))))
      in (if r < 0 \<and> c \<noteq> 0 then ''-'' else []) @ int_str (c div 100000000)
         @ (if frac = [] then [] else CHR ''.'' # frac))"

definition or_zero :: "rat option \<Rightarrow> rat" where
  "or_zero r = (case r of None \<Rightarrow> 0 | Some x \<Rightarrow> x)"

definition calcProjectAutoFields ::
    "fin_env \<Rightarrow> project_row \<Rightarrow> detail_row list \<Rightarrow> detail_row list \<Rightarrow> detail_row list \<Rightarrow> project_calc" where
  "calcProjectAutoFields e project invoices receipts payments =
     (let tentativeAmount = or_zero (pr_tentativeAuditedAmount project);
          miscExpense = or_zero (pr_miscExpense project);
          totalInvoiced = sumAmounts e invoices;
          totalReceived = sumAmounts e receipts;
          totalSubcontractPaid = fe_plus e miscExpense (sumAmounts e payments);
          equity = fe_minus e totalReceived totalSubcontractPaid
      in \<lparr>pf_totalInvoiced = toFixed2 totalInvoiced, pf_totalReceived = toFixed2 totalReceived,
          pf_totalSubcontractPaid = toFixed2 totalSubcontractPaid,
          pf_remainingUninvoiced = toFixed2 (fe_minus e tentativeAmount totalInvoiced),
          pf_remainingUnreceived = toFixed2 (fe_minus e tentativeAmount totalReceived),
          pf_equity = toFixed2 equity,
          pf_grossMargin = (if totalReceived = 0 then None else Some (places8 (fe_div e equity totalReceived)))\<rparr>)"

definition recalcAuto :: "fin_env \<Rightarrow> project_row \<Rightarrow> fin_db \<Rightarrow> project_calc" where
  "recalcAuto e p db =
     calcProjectAutoFields e p (projectDetails Invoice (pr_id p) db) (projectDetails Receipt (pr_id p) db)
       (projectDetails SubcontractPayment (pr_id p) db)"

definition calc_json :: "project_calc \<Rightarrow> json" where
  "calc_json c =
     JObj [(''totalInvoiced'', JStr (pf_totalInvoiced c)), (''totalReceived'', JStr (pf_totalReceived c)),
       (''totalSubcontractPaid'', JStr (pf_totalSubcontractPaid c)),
       (''remainingUninvoiced'', JStr (pf_remainingUninvoiced c)),
       (''remainingUnreceived'', JStr (pf_remainingUnreceived c)), (''equity'', JStr (pf_equity c)),
       (''grossMargin'', text_json (pf_grossMargin c))]"

section \<open>One amount\<close>

record detail_input =
  xi_amount :: string
  xi_occurredDate :: "string option"
  xi_remark :: "string option"

definition detailSnapshot :: "detail_row \<Rightarrow> json" where
  "detailSnapshot r =
     JObj [(''id'', JNum (of_int (ad_id r))), (''amount'', JStr (toFixed2 (ad_amount r))),
       (''occurredDate'', date_json (ad_occurredDate r)), (''remark'', text_json (ad_remark r))]"

definition parseDetailItem :: "fin_env \<Rightarrow> detail_input \<Rightarrow> err + (rat \<times> int option \<times> string option)" where
  "parseDetailItem e item =
     bindR (parse_date e (xi_occurredDate item)) (\<lambda>d. Inr (decimal_of (xi_amount item), d, xi_remark item))"

fun detail_field :: "detail_kind \<Rightarrow> string" where
  "detail_field Invoice = ''invoices''"
| "detail_field Receipt = ''receipts''"
| "detail_field SubcontractPayment = ''subcontractPayments''"

definition touch_project :: "operator \<Rightarrow> int \<Rightarrow> fin_db \<Rightarrow> err + fin_db" where
  "touch_project opr i db = updateProject i (\<lambda>p. (bump_revision p)\<lparr>pr_updatedBy := Some (fst opr)\<rparr>) db"

text \<open>The transaction around a change of an amount: what \<open>run\<close> returns says whether the revision is still to be raised.\<close>

definition runDetailChange ::
    "operator \<Rightarrow> int \<Rightarrow> (project_row \<Rightarrow> fin_db \<Rightarrow> err + (json outcome \<times> bool \<times> fin_db)) \<Rightarrow> fin_db
      \<Rightarrow> err + (json outcome \<times> fin_db)" where
  "runDetailChange opr projectId run db =
     bindR (live_project projectId db) (\<lambda>project.
     bindR (run project db) (\<lambda>(out, changed, db1).
     if changed then bindR (touch_project opr projectId db1) (\<lambda>db2. Inr (out, db2)) else Inr (out, db1)))"

definition detail_create ::
    "fin_env \<Rightarrow> operator \<Rightarrow> int \<Rightarrow> detail_kind \<Rightarrow> detail_input \<Rightarrow> fin_db \<Rightarrow> err + (json outcome \<times> fin_db)" where
  "detail_create e opr projectId kind item =
     runDetailChange opr projectId (\<lambda>row db.
       bindR (parseDetailItem e item) (\<lambda>(amount, d, remark).
       bindR (insertDetail kind \<lparr>ad_id = 0, ad_projectId = projectId, ad_amount = numeric2 amount, ad_occurredDate = d,
                ad_remark = remark\<rparr> db) (\<lambda>(created, db1).
       bindR (writeProjectChange (project_change projectId opr EDIT (Some (detail_field kind)) JNull (detailSnapshot created)) db1)
         (\<lambda>db2. Inr (fin_outcome (JObj [(''id'', JNum (of_int (ad_id created)))]) log_action.CREATE (pr_name row), True, db2)))))"

definition findDetail :: "detail_kind \<Rightarrow> int \<Rightarrow> int \<Rightarrow> fin_db \<Rightarrow> detail_row option" where
  "findDetail kind detailId projectId db =
     find (\<lambda>r. ad_id r = detailId \<and> ad_projectId r = projectId) (fd_details db kind)"

definition detail_update ::
    "fin_env \<Rightarrow> operator \<Rightarrow> int \<Rightarrow> detail_kind \<Rightarrow> int \<Rightarrow> detail_input \<Rightarrow> fin_db \<Rightarrow> err + (json outcome \<times> fin_db)" where
  "detail_update e opr projectId kind detailId item =
     runDetailChange opr projectId (\<lambda>row db.
       case findDetail kind detailId projectId db of
         None \<Rightarrow> Inl (Biz RESOURCE_NOT_FOUND)
       | Some existing \<Rightarrow>
           bindR (parseDetailItem e item) (\<lambda>(amount, d, remark).
           let out = fin_outcome (JObj [(''id'', JNum (of_int detailId))]) UPDATE (pr_name row);
               before = detailSnapshot existing;
               after = detailSnapshot (existing\<lparr>ad_amount := amount, ad_occurredDate := d, ad_remark := remark\<rparr>) in
           if before = after then Inr (out, False, db)
           else if \<not> amount_ok (numeric2 amount) then Inl CheckViolation
           else
             let f = (\<lambda>r. r\<lparr>ad_amount := numeric2 amount, ad_occurredDate := d, ad_remark := remark\<rparr>);
                 db1 = set_details kind (update_where (\<lambda>r. ad_id r = detailId) f (fd_details db kind)) db
             in bindR (writeProjectChange (project_change projectId opr EDIT (Some (detail_field kind)) before
                         (detailSnapshot (f existing))) db1)
                  (\<lambda>db2. Inr (out, True, db2))))"

definition detail_remove ::
    "fin_env \<Rightarrow> operator \<Rightarrow> int \<Rightarrow> detail_kind \<Rightarrow> int \<Rightarrow> fin_db \<Rightarrow> err + (json outcome \<times> fin_db)" where
  "detail_remove e opr projectId kind detailId =
     runDetailChange opr projectId (\<lambda>row db.
       case findDetail kind detailId projectId db of
         None \<Rightarrow> Inl (Biz RESOURCE_NOT_FOUND)
       | Some existing \<Rightarrow>
           let db1 = set_details kind (filter (\<lambda>r. ad_id r \<noteq> detailId) (fd_details db kind)) db in
           bindR (writeProjectChange (project_change projectId opr EDIT (Some (detail_field kind)) (detailSnapshot existing) JNull) db1)
             (\<lambda>db2. bindR (touch_project opr projectId db2) (\<lambda>db3.
               let updated = (case findProject projectId db3 of Some p \<Rightarrow> p | None \<Rightarrow> row)
               in Inr (fin_outcome (JObj [(''ok'', JBool True), (''dataRevision'', JNum (of_int (pr_dataRevision updated))),
                         (''auto'', calc_json (recalcAuto e updated db3))]) log_action.DELETE (pr_name row), False, db3))))"

end
