(* ===== verification/FinProfit.thy ===== *)
theory FinProfit
  imports FinProject
begin

text \<open>
  The profit analysis (\<open>modules/profit/profit.service.ts\<close>): the totals of what a filter shows, and the
  saving of a single cell; then the business dictionary of the finance service
  (\<open>modules/dict/dict.service.ts\<close>).
\<close>

section \<open>Totals\<close>

record profit_totals =
  pt_totalReceived :: string
  pt_totalSubcontractPaid :: string
  pt_equity :: string
  pt_grossMargin :: "string option"

text \<open>
  The condition of the query is an argument; deleted projects are always left out. The database sums
  exactly; the decimal library then adds the two sums of the payments and takes the difference.
\<close>

definition shown_projects :: "(project_row \<Rightarrow> bool) \<Rightarrow> fin_db \<Rightarrow> project_row list" where
  "shown_projects shown db = filter (\<lambda>p. pr_deletedAt p = None \<and> shown p) (fd_projects db)"

definition detail_sum :: "detail_kind \<Rightarrow> fin_db \<Rightarrow> project_row \<Rightarrow> rat" where
  "detail_sum k db p = sum_list (map ad_amount (projectDetails k (pr_id p) db))"

definition profit_totals_of :: "fin_env \<Rightarrow> (project_row \<Rightarrow> bool) \<Rightarrow> fin_db \<Rightarrow> profit_totals" where
  "profit_totals_of e shown db =
     (let ps = shown_projects shown db;
          totalReceived = sum_list (map (detail_sum Receipt db) ps);
          totalPaid = fe_plus e (sum_list (map (detail_sum SubcontractPayment db) ps))
            (sum_list (map (\<lambda>p. or_zero (pr_miscExpense p)) ps));
          equity = fe_minus e totalReceived totalPaid
      in \<lparr>pt_totalReceived = toFixed2 totalReceived, pt_totalSubcontractPaid = toFixed2 totalPaid,
          pt_equity = toFixed2 equity,
          pt_grossMargin = (if ps \<noteq> [] \<and> totalReceived \<noteq> 0 then Some (places8 (fe_div e equity totalReceived)) else None)\<rparr>)"

text \<open>Where every sum stays within twenty digits, the library adds what the database adds.\<close>

lemma two_places_sum: "(\<And>x. x \<in> set xs \<Longrightarrow> two_places x) \<Longrightarrow> two_places (sum_list xs)"
  by (induction xs) (simp_all add: two_places_plus)

lemma sumAmounts_from:
  assumes "decimal_exact e" and "\<And>r. r \<in> set rs \<Longrightarrow> amount_ok (ad_amount r)"
    and "two_places a" and "0 \<le> a" and "a + sum_list (map ad_amount rs) < 10 ^ 18"
  shows "foldl (\<lambda>acc r. fe_plus e acc (ad_amount r)) a rs = a + sum_list (map ad_amount rs)"
  using assms(2-)
proof (induction rs arbitrary: a)
  case (Cons r rs)
  have r: "0 \<le> ad_amount r" "two_places (ad_amount r)" using Cons.prems(1) by (simp_all add: amount_ok_def)
  have "0 \<le> sum_list (map ad_amount rs)"
    using Cons.prems(1) by (intro sum_list_nonneg) (auto simp: amount_ok_def)
  then have "a + ad_amount r < 10 ^ 18" using Cons.prems(4) by simp
  then have "fe_plus e a (ad_amount r) = a + ad_amount r"
    using assms(1) r Cons.prems(2,3) by (simp add: decimal_exact_def)
  moreover have "foldl (\<lambda>acc r. fe_plus e acc (ad_amount r)) (a + ad_amount r) rs = a + ad_amount r + sum_list (map ad_amount rs)"
    using Cons.prems r by (intro Cons.IH) (simp_all add: two_places_plus add.assoc)
  ultimately show ?case by simp
qed simp

lemma sumAmounts_exact:
  assumes "decimal_exact e" and "\<And>r. r \<in> set rs \<Longrightarrow> amount_ok (ad_amount r)" and "sum_list (map ad_amount rs) < 10 ^ 18"
  shows "sumAmounts e rs = sum_list (map ad_amount rs)"
  using sumAmounts_from [OF assms(1,2), of rs 0] assms(3) by (simp add: sumAmounts_def)

section \<open>One cell\<close>

datatype cell_type = CellString | CellYear | CellDate | CellMoney | CellStringArray | CellDictId | CellDictRefArray

definition CELL_FIELD_TYPES :: "(string \<times> cell_type) list" where
  "CELL_FIELD_TYPES =
     [(''name'', CellString), (''year'', CellYear), (''partyA'', CellString), (''generalContractor'', CellString),
      (''managementFee'', CellString), (''subcontractors'', CellStringArray), (''contractStartDate'', CellDate),
      (''contractEndDate'', CellDate), (''contractAmount'', CellMoney), (''paymentNode'', CellString),
      (''tentativeAuditedAmount'', CellMoney), (''settlement'', CellMoney), (''miscExpense'', CellMoney),
      (''remark'', CellString), (''completenessDocs'', CellDictRefArray), (''regionId'', CellDictId),
      (''progressId'', CellDictId), (''bizCategoryId'', CellDictId)]"

definition write_text :: "string \<Rightarrow> string option \<Rightarrow> project_row \<Rightarrow> project_row" where
  "write_text field t p =
     (if field = ''partyA'' then p\<lparr>pr_partyA := t\<rparr>
      else if field = ''generalContractor'' then p\<lparr>pr_generalContractor := t\<rparr>
      else if field = ''managementFee'' then p\<lparr>pr_managementFee := t\<rparr>
      else if field = ''paymentNode'' then p\<lparr>pr_paymentNode := t\<rparr>
      else p\<lparr>pr_remark := t\<rparr>)"

definition write_money :: "string \<Rightarrow> rat option \<Rightarrow> project_row \<Rightarrow> project_row" where
  "write_money field a p =
     (if field = ''contractAmount'' then p\<lparr>pr_contractAmount := a\<rparr>
      else if field = ''tentativeAuditedAmount'' then p\<lparr>pr_tentativeAuditedAmount := a\<rparr>
      else if field = ''settlement'' then p\<lparr>pr_settlement := a\<rparr>
      else p\<lparr>pr_miscExpense := a\<rparr>)"

definition write_date :: "string \<Rightarrow> int option \<Rightarrow> project_row \<Rightarrow> project_row" where
  "write_date field d p =
     (if field = ''contractStartDate'' then p\<lparr>pr_contractStartDate := d\<rparr> else p\<lparr>pr_contractEndDate := d\<rparr>)"

definition write_ref :: "string \<Rightarrow> (int \<times> string \<times> amount_semantic) option \<Rightarrow> project_row \<Rightarrow> project_row" where
  "write_ref field r p =
     (let i = map_option fst r; n = map_option (\<lambda>x. fst (snd x)) r in
      if field = ''regionId'' then p\<lparr>pr_regionId := i, pr_regionName := n\<rparr>
      else if field = ''progressId'' then
        (let q = p\<lparr>pr_progressId := i, pr_progressName := n\<rparr>
         in case r of None \<Rightarrow> q | Some (j, m, s) \<Rightarrow> q\<lparr>pr_progressSemantic := Some s\<rparr>)
      else p\<lparr>pr_bizCategoryId := i, pr_bizCategoryName := n\<rparr>)"

definition current_ref :: "string \<Rightarrow> project_row \<Rightarrow> int option" where
  "current_ref field p =
     (if field = ''regionId'' then pr_regionId p else if field = ''progressId'' then pr_progressId p else pr_bizCategoryId p)"

definition assertBusinessKeyFree :: "project_row \<Rightarrow> string \<Rightarrow> int \<Rightarrow> fin_db \<Rightarrow> err + unit" where
  "assertBusinessKeyFree project businessKey targetYear db =
     (if \<exists>q \<in> set (fd_projects db). pr_businessKey q = businessKey \<and> pr_year q = targetYear \<and> pr_id q \<noteq> pr_id project
      then Inl (Biz (Finance PROJECT_KEY_CONFLICT)) else Inr ())"

definition date_shape :: "string \<Rightarrow> bool" where
  "date_shape s \<longleftrightarrow> length s = 10 \<and> s ! 4 = CHR ''-'' \<and> s ! 7 = CHR ''-''
     \<and> list_all (\<lambda>i. is_digit (s ! i)) [0, 1, 2, 3, 5, 6, 8, 9]"

definition year_value :: "json \<Rightarrow> int option" where
  "year_value v =
     (case v of
        JStr s \<Rightarrow> if length s = 4 \<and> list_all is_digit s \<and> 1000 \<le> digits_val s then Some (digits_val s) else None
      | JNum r \<Rightarrow> if r = of_int \<lfloor>r\<rfloor> \<and> 1000 \<le> r \<and> r \<le> 9999 then Some \<lfloor>r\<rfloor> else None
      | _ \<Rightarrow> None)"

fun ref_ids :: "json list \<Rightarrow> rat list option" where
  "ref_ids [] = Some []"
| "ref_ids (JObj ps # vs) =
     (case jget ''id'' ps of JNum r \<Rightarrow> map_option ((#) r) (ref_ids vs) | _ \<Rightarrow> None)"
| "ref_ids (v # vs) = None"

definition text_of :: "json \<Rightarrow> string" where
  "text_of v = (case v of JStr s \<Rightarrow> s | _ \<Rightarrow> [])"

text \<open>
  \<open>resolveCellValue\<close>: what is written and what the client is shown. An id that is no integer is
  refused by the client of the database. The type of a single reference is not looked at.
\<close>

definition cell_string :: "fin_env \<Rightarrow> project_row \<Rightarrow> string \<Rightarrow> json \<Rightarrow> fin_db \<Rightarrow> err + ((project_row \<Rightarrow> project_row) \<times> json)" where
  "cell_string e project field value db =
     (case value of
        JNull \<Rightarrow>
          if field = ''name'' then Inl (Biz VALIDATION_FAILED) else Inr (write_text field None, JNull)
      | JStr s \<Rightarrow>
          if length s > 200 \<and> field \<noteq> ''remark'' \<and> field \<noteq> ''paymentNode'' then Inl (Biz VALIDATION_FAILED)
          else if field = ''name'' then
            if js_trim s = [] then Inl (Biz VALIDATION_FAILED)
            else bindR (assertBusinessKeyFree project (normalizeProjectName e s) (pr_year project) db) (\<lambda>u.
                 Inr (\<lambda>p. p\<lparr>pr_name := s, pr_businessKey := normalizeProjectName e s\<rparr>, JStr s))
          else Inr (write_text field (Some s), JStr s)
      | _ \<Rightarrow> Inl (Biz VALIDATION_FAILED))"

definition cell_docs :: "project_row \<Rightarrow> json \<Rightarrow> fin_db \<Rightarrow> err + ((project_row \<Rightarrow> project_row) \<times> json)" where
  "cell_docs project value db =
     (case value of
        JArr vs \<Rightarrow>
          if length vs > 20 then Inl (Biz VALIDATION_FAILED)
          else (case ref_ids vs of
             None \<Rightarrow> Inl (Biz VALIDATION_FAILED)
           | Some ids \<Rightarrow>
               if \<not> distinct ids then Inl (Biz VALIDATION_FAILED)
               else if \<exists>r \<in> set ids. r \<noteq> of_int \<lfloor>r\<rfloor> then Inl PlainError
               else bindR (foldR (resolve_doc (stored_doc_ids (Some project)) db) (map floor ids) []) (\<lambda>docs.
                    Inr (\<lambda>p. p\<lparr>pr_completenessDocs := Some docs\<rparr>, JArr (map doc_json docs))))
      | _ \<Rightarrow> Inl (Biz VALIDATION_FAILED))"

definition cell_ref :: "project_row \<Rightarrow> string \<Rightarrow> json \<Rightarrow> fin_db \<Rightarrow> err + ((project_row \<Rightarrow> project_row) \<times> json)" where
  "cell_ref project field value db =
     (case value of
        JNull \<Rightarrow> Inr (write_ref field None, JNull)
      | JNum r \<Rightarrow>
          if r \<noteq> of_int \<lfloor>r\<rfloor> \<or> r < 1 then Inl (Biz VALIDATION_FAILED)
          else bindR (resolve_ref (Some \<lfloor>r\<rfloor>) (current_ref field project) db) (\<lambda>item.
               Inr (write_ref field (map_option (\<lambda>d. (dx_id d, dx_name d, semantic_of d)) item), JNum r))
      | _ \<Rightarrow> Inl (Biz VALIDATION_FAILED))"

definition resolveCellValue ::
    "fin_env \<Rightarrow> project_row \<Rightarrow> string \<Rightarrow> cell_type \<Rightarrow> json \<Rightarrow> fin_db \<Rightarrow> err + ((project_row \<Rightarrow> project_row) \<times> json)" where
  "resolveCellValue e project field type value db =
     (case type of
        CellString \<Rightarrow> cell_string e project field value db
      | CellYear \<Rightarrow>
          (case year_value value of
             None \<Rightarrow> Inl (Biz VALIDATION_FAILED)
           | Some year \<Rightarrow>
               bindR (assertBusinessKeyFree project (normalizeProjectName e (pr_name project)) year db) (\<lambda>u.
               Inr (\<lambda>p. p\<lparr>pr_year := year, pr_businessKey := normalizeProjectName e (pr_name project)\<rparr>, JNum (of_int year))))
      | CellDate \<Rightarrow>
          (case value of
             JNull \<Rightarrow> Inr (write_date field None, JNull)
           | JStr s \<Rightarrow>
               if \<not> date_shape s then Inl (Biz VALIDATION_FAILED)
               else (case fe_date e s of None \<Rightarrow> Inl PlainError | Some d \<Rightarrow> Inr (write_date field (Some d), JStr s))
           | _ \<Rightarrow> Inl (Biz VALIDATION_FAILED))
      | CellMoney \<Rightarrow>
          (case value of
             JNull \<Rightarrow> Inr (write_money field None, JNull)
           | JStr s \<Rightarrow>
               if \<not> isNonNegativeAmount s then Inl (Biz VALIDATION_FAILED)
               else Inr (write_money field (Some (numeric2 (decimal_of s))), JStr (toFixed2 (decimal_of s)))
           | _ \<Rightarrow> Inl (Biz VALIDATION_FAILED))
      | CellStringArray \<Rightarrow>
          (case value of
             JArr vs \<Rightarrow>
               if length vs > 50 \<or> list_ex (\<lambda>v. case v of JStr s \<Rightarrow> length s > 200 | _ \<Rightarrow> True) vs
               then Inl (Biz VALIDATION_FAILED)
               else Inr (\<lambda>p. p\<lparr>pr_subcontractors := map text_of vs\<rparr>, value)
           | _ \<Rightarrow> Inl (Biz VALIDATION_FAILED))
      | CellDictRefArray \<Rightarrow> cell_docs project value db
      | CellDictId \<Rightarrow> cell_ref project field value db)"

definition cellFieldValue :: "project_row \<Rightarrow> string \<Rightarrow> json" where
  "cellFieldValue p field = jget field (projectSnapshot p)"

definition cell_result :: "fin_env \<Rightarrow> string \<Rightarrow> json \<Rightarrow> project_row \<Rightarrow> fin_db \<Rightarrow> json" where
  "cell_result e field value p db =
     JObj [(''field'', JStr field), (''value'', value), (''auto'', calc_json (recalcAuto e p db)),
       (''dataRevision'', JNum (of_int (pr_dataRevision p)))]"

definition cellSave ::
    "fin_env \<Rightarrow> operator \<Rightarrow> int \<Rightarrow> string \<Rightarrow> json \<Rightarrow> fin_db \<Rightarrow> err + (json outcome \<times> fin_db)" where
  "cellSave e opr projectId field value db =
     (case map_of CELL_FIELD_TYPES field of
        None \<Rightarrow> Inl (Biz (Finance CELL_FIELD_NOT_ALLOWED))
      | Some type \<Rightarrow>
          bindR (live_project projectId db) (\<lambda>project.
          bindR (resolveCellValue e project field type value db) (\<lambda>(write, displayValue).
          let before = cellFieldValue project field in
          if before = displayValue
          then Inr (fin_outcome (cell_result e field displayValue project db) UPDATE (pr_name project), db)
          else
            bindR (key_conflict (updateProject projectId
                (\<lambda>p. (bump_revision (write p))\<lparr>pr_updatedBy := Some (fst opr)\<rparr>) db)) (\<lambda>db1.
            bindR (writeProjectChange (project_change projectId opr EDIT (Some field) before displayValue) db1) (\<lambda>db2.
            let updated = (case findProject projectId db2 of Some p \<Rightarrow> p | None \<Rightarrow> project)
            in Inr (fin_outcome (cell_result e field displayValue updated db2) UPDATE (pr_name project), db2))))))"

section \<open>The dictionary\<close>

definition dict_ok :: "fin_dict_item \<Rightarrow> bool" where
  "dict_ok d \<longleftrightarrow> dx_dictType d \<noteq> PROGRESS \<or> dx_semantic d \<noteq> None"

definition dict_clash :: "fin_dict_item \<Rightarrow> fin_dict_item \<Rightarrow> bool" where
  "dict_clash a b \<longleftrightarrow> dx_dictType a = dx_dictType b \<and> dx_name a = dx_name b"

definition dict_name_free :: "err + 'a \<Rightarrow> err + 'a" where
  "dict_name_free r = (case r of
     Inl e \<Rightarrow> if isPrismaUniqueViolation e then Inl (Biz VALIDATION_FAILED) else Inl e | Inr x \<Rightarrow> Inr x)"

definition fin_dict_create ::
    "fin_env \<Rightarrow> string \<Rightarrow> fin_dict_type \<Rightarrow> string \<Rightarrow> amount_semantic option \<Rightarrow> int option \<Rightarrow> fin_db
      \<Rightarrow> err + (json outcome \<times> fin_db)" where
  "fin_dict_create e unclassified type name semantic order db =
     (if type = PROGRESS \<and> semantic = None then Inl (Biz VALIDATION_FAILED)
      else if type = BIZ_CATEGORY \<and> isUnclassifiedReservedName e unclassified name
      then Inl (Biz (Finance UNCLASSIFIED_NAME_CONFLICT))
      else
        let (i, db1) = fin_nextval FDicts db;
            row = \<lparr>dx_id = i, dx_dictType = type, dx_name = name, dx_semantic = semantic,
                   dx_sort = (case order of None \<Rightarrow> 0 | Some s \<Rightarrow> s), dx_status = ACTIVE\<rparr>
        in bindR (dict_name_free (insert_row dict_ok dict_clash [''dict_type'', ''name''] row (fd_dicts db1))) (\<lambda>ds.
           Inr (fin_outcome (JObj [(''id'', JNum (of_int i))]) log_action.CREATE name, db1\<lparr>fd_dicts := ds\<rparr>)))"

text \<open>How many projects use one of the ids, deleted projects included.\<close>

definition countProjectRefs :: "int list \<Rightarrow> fin_db \<Rightarrow> nat \<times> nat \<times> nat" where
  "countProjectRefs ids db =
     (let used = (\<lambda>f. length (filter (\<lambda>p. case f p of None \<Rightarrow> False | Some i \<Rightarrow> i \<in> set ids) (fd_projects db)))
      in (used pr_regionId, used pr_progressId, used pr_bizCategoryId))"

definition fin_dict_update ::
    "fin_env \<Rightarrow> string \<Rightarrow> int \<Rightarrow> string \<Rightarrow> amount_semantic option \<Rightarrow> int option \<Rightarrow> dict_status option \<Rightarrow> fin_db
      \<Rightarrow> err + (json outcome \<times> fin_db)" where
  "fin_dict_update e unclassified i name semantic order status db =
     (case findDictItem i db of
        None \<Rightarrow> Inl (Biz RESOURCE_NOT_FOUND)
      | Some existing \<Rightarrow>
          if dx_dictType existing = PROGRESS \<and> semantic = None \<and> dx_semantic existing = None then Inl (Biz VALIDATION_FAILED)
          else if dx_dictType existing = BIZ_CATEGORY \<and> isUnclassifiedReservedName e unclassified name
          then Inl (Biz (Finance UNCLASSIFIED_NAME_CONFLICT))
          else if dx_dictType existing = PROGRESS \<and> semantic \<noteq> None \<and> semantic \<noteq> dx_semantic existing
            \<and> fst (snd (countProjectRefs [i] db)) > 0
          then Inl (Biz (Finance DICT_SEMANTIC_LOCKED))
          else
            let f = (\<lambda>d. d\<lparr>dx_name := name,
                  dx_semantic := (if dx_dictType existing = PROGRESS
                    then (case semantic of Some s \<Rightarrow> Some s | None \<Rightarrow> dx_semantic existing) else None),
                  dx_sort := (case order of None \<Rightarrow> dx_sort d | Some s \<Rightarrow> s),
                  dx_status := (case status of None \<Rightarrow> dx_status d | Some s \<Rightarrow> s)\<rparr>)
            in if \<not> dict_ok (f existing) then Inl CheckViolation
               else if \<exists>d \<in> set (fd_dicts db). dx_id d \<noteq> i \<and> dict_clash (f existing) d then Inl (Biz VALIDATION_FAILED)
               else Inr (fin_outcome (JObj [(''ok'', JBool True)]) UPDATE (dx_name existing),
                 db\<lparr>fd_dicts := update_where (\<lambda>d. dx_id d = i) f (fd_dicts db)\<rparr>))"

text \<open>How often each item is used: the four ways a project refers to one.\<close>

definition dict_deletePreview :: "int list \<Rightarrow> fin_db \<Rightarrow> err + (int \<times> nat) list" where
  "dict_deletePreview ids db =
     (if length (filter (\<lambda>d. dx_id d \<in> set ids) (fd_dicts db)) \<noteq> length ids then Inl (Biz RESOURCE_NOT_FOUND)
      else Inr (map (\<lambda>i. (i,
        length (filter (\<lambda>p. pr_regionId p = Some i) (fd_projects db))
        + length (filter (\<lambda>p. pr_progressId p = Some i) (fd_projects db))
        + length (filter (\<lambda>p. pr_bizCategoryId p = Some i) (fd_projects db))
        + length (filter (\<lambda>p. case pr_completenessDocs p of None \<Rightarrow> False | Some ds \<Rightarrow> i \<in> fst ` set ds) (fd_projects db)))) ids))"

definition fin_dict_batchDelete :: "int list \<Rightarrow> fin_db \<Rightarrow> err + (json outcome \<times> fin_db)" where
  "fin_dict_batchDelete ids db =
     (let rows = filter (\<lambda>d. dx_id d \<in> set ids) (fd_dicts db) in
      if length rows \<noteq> length ids then Inl (Biz RESOURCE_NOT_FOUND)
      else Inr (fin_outcome (JObj [(''deleted'', JNum (of_nat (length rows)))]) log_action.DELETE ''dict'',
        db\<lparr>fd_dicts := filter (\<lambda>d. dx_id d \<notin> set ids) (fd_dicts db)\<rparr>))"

end
