(* ===== verification/FinImport.thy ===== *)
theory FinImport
  imports FinProfit
begin

text \<open>
  The import of the profit analysis (\<open>modules/excel/import.service.ts\<close>): the rows of a parsed sheet, how
  they match projects, the preview, and the confirmation that writes all or nothing. The sheet is
  parsed in a worker (\<open>import-parser.ts\<close>); its rows, with texts trimmed and lists split, are arguments,
  and so are the checks of time and cancellation, which may end the run at any point without effect.
\<close>

section \<open>Rows of the sheet\<close>

record row_input =
  ri_rowNumber :: int
  ri_name :: string
  ri_year :: "int option"
  ri_groupName :: "string option"
  ri_completenessDocs :: "string list"
  ri_regionName :: "string option"
  ri_progressName :: "string option"
  ri_partyA :: "string option"
  ri_generalContractor :: "string option"
  ri_managementFee :: "string option"
  ri_subcontractors :: "string list"
  ri_contractStartDate :: "string option"
  ri_contractEndDate :: "string option"
  ri_contractAmount :: "string option"
  ri_paymentNode :: "string option"
  ri_tentativeAuditedAmount :: "string option"
  ri_amounts :: "detail_kind \<Rightarrow> string list"
  ri_remark :: "string option"
  ri_settlement :: "string option"
  ri_miscExpense :: "string option"

datatype parsed_row = GroupRow int string | DataRow row_input | OtherRow int

definition emptyRowInput :: "int \<Rightarrow> string \<Rightarrow> row_input" where
  "emptyRowInput rowNumber name =
     \<lparr>ri_rowNumber = rowNumber, ri_name = name, ri_year = None, ri_groupName = None, ri_completenessDocs = [],
      ri_regionName = None, ri_progressName = None, ri_partyA = None, ri_generalContractor = None,
      ri_managementFee = None, ri_subcontractors = [], ri_contractStartDate = None, ri_contractEndDate = None,
      ri_contractAmount = None, ri_paymentNode = None, ri_tentativeAuditedAmount = None, ri_amounts = (\<lambda>k. []),
      ri_remark = None, ri_settlement = None, ri_miscExpense = None\<rparr>"

text \<open>
  A group row sets the category of the rows below it; one whose name is no category is a project
  of which only the name is given. \<open>unclassified\<close> is the name of the group without category.
\<close>

fun buildRowInputs :: "fin_env \<Rightarrow> string \<Rightarrow> string set \<Rightarrow> string option \<Rightarrow> parsed_row list \<Rightarrow> row_input list" where
  "buildRowInputs e unclassified groups context [] = []"
| "buildRowInputs e unclassified groups context (GroupRow n g # rows) =
     (if g = unclassified then buildRowInputs e unclassified groups None rows
      else if normalizeProjectName e g \<in> groups then buildRowInputs e unclassified groups (Some g) rows
      else emptyRowInput n g # buildRowInputs e unclassified groups context rows)"
| "buildRowInputs e unclassified groups context (DataRow r # rows) =
     r\<lparr>ri_groupName := context\<rparr> # buildRowInputs e unclassified groups context rows"
| "buildRowInputs e unclassified groups context (OtherRow n # rows) = buildRowInputs e unclassified groups context rows"

definition buildRowInputsWithGroups :: "fin_env \<Rightarrow> string \<Rightarrow> parsed_row list \<Rightarrow> fin_db \<Rightarrow> row_input list" where
  "buildRowInputsWithGroups e unclassified rows db =
     buildRowInputs e unclassified
       (insert (normalizeProjectName e unclassified)
         ((\<lambda>d. normalizeProjectName e (dx_name d)) ` set (filter (\<lambda>d. dx_dictType d = BIZ_CATEGORY) (fd_dicts db))))
       None rows"

section \<open>Matching\<close>

datatype match_status = NEW | CHOICE | DELETED | AMBIGUOUS | DUPLICATE | YEAR_REQUIRED

record matched_row =
  mr_input :: row_input
  mr_status :: match_status
  mr_target :: "project_row option"

text \<open>The match of one row before the targets seen so far are looked at.\<close>

definition match_row :: "fin_env \<Rightarrow> (string \<times> int) list \<Rightarrow> fin_db \<Rightarrow> row_input \<Rightarrow> match_status \<times> project_row option" where
  "match_row e seenKeys db input =
     (let businessKey = normalizeProjectName e (ri_name input) in
      case ri_year input of
        Some year \<Rightarrow>
          let candidates = filter (\<lambda>p. pr_businessKey p = businessKey \<and> pr_year p = year) (fd_projects db) in
          (case find (\<lambda>p. pr_deletedAt p = None) candidates of
             Some p \<Rightarrow> (CHOICE, Some p)
           | None \<Rightarrow> if candidates \<noteq> [] then (DELETED, None)
                     else if (businessKey, year) \<in> set seenKeys then (DUPLICATE, None) else (NEW, None))
      | None \<Rightarrow>
          let candidates = filter (\<lambda>p. pr_businessKey p = businessKey) (fd_projects db);
              active = filter (\<lambda>p. pr_deletedAt p = None) candidates;
              deleted = filter (\<lambda>p. pr_deletedAt p \<noteq> None) candidates
          in if length active = 1 \<and> deleted = [] then (CHOICE, Some (hd active))
             else if active = [] \<and> deleted = [] then (YEAR_REQUIRED, None)
             else if length active > 1 then (AMBIGUOUS, None)
             else (DELETED, None))"

fun match_loop ::
    "fin_env \<Rightarrow> fin_db \<Rightarrow> int list \<Rightarrow> (string \<times> int) list \<Rightarrow> row_input list \<Rightarrow> matched_row list" where
  "match_loop e db seenProjectIds seenKeys [] = []"
| "match_loop e db seenProjectIds seenKeys (input # inputs) =
     (case match_row e seenKeys db input of (status, target) \<Rightarrow>
        let keys = (case ri_year input of None \<Rightarrow> seenKeys
                    | Some year \<Rightarrow> (normalizeProjectName e (ri_name input), year) # seenKeys)
        in case target of
             None \<Rightarrow> \<lparr>mr_input = input, mr_status = status, mr_target = None\<rparr> # match_loop e db seenProjectIds keys inputs
           | Some p \<Rightarrow>
               \<lparr>mr_input = input, mr_status = (if pr_id p \<in> set seenProjectIds then DUPLICATE else status), mr_target = target\<rparr>
                 # match_loop e db (pr_id p # seenProjectIds) keys inputs)"

section \<open>Preview\<close>

record pending_choice =
  pc_rowNumber :: int
  pc_projectId :: int
  pc_dataRevision :: int
  pc_dataLossWarning :: bool

record import_preview =
  pv_created :: "int list"
  pv_pendingChoice :: "pending_choice list"
  pv_conflicts :: "(int \<times> match_status) list"
  pv_errors :: "int list"

text \<open>A project some amount of which has a day or a remark would lose it.\<close>

definition lossy :: "int \<Rightarrow> fin_db \<Rightarrow> bool" where
  "lossy i db \<longleftrightarrow>
     (\<exists>k \<in> set [Invoice, Receipt, SubcontractPayment].
        \<exists>r \<in> set (projectDetails k i db). ad_occurredDate r \<noteq> None \<or> ad_remark r \<noteq> None)"

definition pending_of :: "fin_db \<Rightarrow> matched_row \<Rightarrow> pending_choice list" where
  "pending_of db m =
     (case mr_target m of
        None \<Rightarrow> []
      | Some p \<Rightarrow> [\<lparr>pc_rowNumber = ri_rowNumber (mr_input m), pc_projectId = pr_id p, pc_dataRevision = pr_dataRevision p,
                     pc_dataLossWarning = lossy (pr_id p) db\<rparr>])"

definition buildPreview :: "int list \<Rightarrow> fin_db \<Rightarrow> matched_row list \<Rightarrow> import_preview" where
  "buildPreview errorRows db matched =
     (let row = (\<lambda>m. ri_rowNumber (mr_input m)); clean = (\<lambda>m. row m \<notin> set errorRows) in
      \<lparr>pv_created = map row (filter (\<lambda>m. mr_status m = NEW \<and> clean m) matched),
       pv_pendingChoice = concat (map (pending_of db) (filter (\<lambda>m. mr_status m = CHOICE \<and> clean m) matched)),
       pv_conflicts = map (\<lambda>m. (row m, mr_status m)) (filter (\<lambda>m. mr_status m \<noteq> NEW \<and> mr_status m \<noteq> CHOICE) matched),
       pv_errors = map row (filter (\<lambda>m. \<not> clean m) matched)\<rparr>)"

definition matchRows :: "fin_env \<Rightarrow> int list \<Rightarrow> row_input list \<Rightarrow> fin_db \<Rightarrow> import_preview" where
  "matchRows e errorRows inputs db =
     (if inputs = [] then \<lparr>pv_created = [], pv_pendingChoice = [], pv_conflicts = [], pv_errors = errorRows\<rparr>
      else buildPreview errorRows db (match_loop e db [] [] inputs))"

section \<open>Data of a row\<close>

text \<open>The last item of a type with the normalized name; the order of the table is the order of the query.\<close>

definition named_item :: "fin_env \<Rightarrow> fin_dict_type \<Rightarrow> string \<Rightarrow> fin_db \<Rightarrow> fin_dict_item option" where
  "named_item e type name db =
     find (\<lambda>d. dx_dictType d = type \<and> normalizeProjectName e (dx_name d) = normalizeProjectName e name) (rev (fd_dicts db))"

definition resolveDictRef ::
    "fin_env \<Rightarrow> fin_dict_type \<Rightarrow> string option \<Rightarrow> int option \<Rightarrow> bool \<Rightarrow> fin_db \<Rightarrow> err + fin_dict_item option" where
  "resolveDictRef e type name currentId allowDisabledRetention db =
     (case name of
        None \<Rightarrow> Inr None
      | Some n \<Rightarrow>
          (case named_item e type n db of
             None \<Rightarrow> Inl (Biz VALIDATION_FAILED)
           | Some item \<Rightarrow>
               if dx_status item = DISABLED \<and> \<not> (allowDisabledRetention \<and> Some (dx_id item) = currentId)
               then Inl (Biz VALIDATION_FAILED) else Inr (Some item)))"

definition import_doc ::
    "fin_env \<Rightarrow> int list \<Rightarrow> fin_db \<Rightarrow> string \<Rightarrow> (int \<times> string) list \<Rightarrow> err + (int \<times> string) list" where
  "import_doc e currentDocIds db name docs =
     (case named_item e COMPLETENESS name db of
        None \<Rightarrow> Inl (Biz VALIDATION_FAILED)
      | Some item \<Rightarrow>
          if dx_name item \<in> snd ` set docs then Inl (Biz VALIDATION_FAILED)
          else if dx_status item = DISABLED \<and> dx_id item \<notin> set currentDocIds then Inl (Biz VALIDATION_FAILED)
          else Inr (docs @ [(dx_id item, dx_name item)]))"

definition buildProjectDataFromInput ::
    "fin_env \<Rightarrow> row_input \<Rightarrow> project_row option \<Rightarrow> fin_db \<Rightarrow> err + (project_row \<Rightarrow> project_row)" where
  "buildProjectDataFromInput e input existing db =
     (let current = (\<lambda>f. case existing of None \<Rightarrow> None | Some p \<Rightarrow> f p); keep = (existing \<noteq> None) in
      bindR (foldR (import_doc e (stored_doc_ids existing) db) (ri_completenessDocs input) []) (\<lambda>docs.
      bindR (resolveDictRef e REGION (ri_regionName input) (current pr_regionId) keep db) (\<lambda>region.
      bindR (resolveDictRef e PROGRESS (ri_progressName input) (current pr_progressId) keep db) (\<lambda>progress.
      bindR (resolveDictRef e BIZ_CATEGORY (ri_groupName input) (current pr_bizCategoryId) keep db) (\<lambda>category.
      bindR (parse_date e (ri_contractStartDate input)) (\<lambda>start.
      bindR (parse_date e (ri_contractEndDate input)) (\<lambda>end_date.
      Inr (\<lambda>p. p\<lparr>pr_name := ri_name input,
        pr_year := (case ri_year input of Some y \<Rightarrow> y | None \<Rightarrow> (case existing of Some q \<Rightarrow> pr_year q | None \<Rightarrow> pr_year p)),
        pr_businessKey := normalizeProjectName e (ri_name input), pr_completenessDocs := Some docs,
        pr_regionId := map_option dx_id region, pr_regionName := map_option dx_name region,
        pr_progressId := map_option dx_id progress, pr_progressName := map_option dx_name progress,
        pr_progressSemantic := Some (case progress of None \<Rightarrow> TENTATIVE | Some d \<Rightarrow> semantic_of d),
        pr_bizCategoryId := map_option dx_id category, pr_bizCategoryName := map_option dx_name category,
        pr_partyA := ri_partyA input, pr_generalContractor := ri_generalContractor input,
        pr_managementFee := ri_managementFee input, pr_subcontractors := ri_subcontractors input,
        pr_contractStartDate := start, pr_contractEndDate := end_date,
        pr_contractAmount := parse_money (ri_contractAmount input), pr_paymentNode := ri_paymentNode input,
        pr_tentativeAuditedAmount := parse_money (ri_tentativeAuditedAmount input),
        pr_settlement := parse_money (ri_settlement input), pr_miscExpense := parse_money (ri_miscExpense input),
        pr_remark := ri_remark input\<rparr>))))))))"

section \<open>Confirmation\<close>

datatype import_decision = OVERWRITE | SKIP

record import_choice =
  ic_rowNumber :: int
  ic_decision :: import_decision
  ic_projectId :: "int option"
  ic_dataRevision :: "int option"
  ic_confirmDataLossWarning :: bool

text \<open>A map built from the list: the last choice of a row counts.\<close>

definition choice_of :: "import_choice list \<Rightarrow> int \<Rightarrow> import_choice option" where
  "choice_of choices n = find (\<lambda>c. ic_rowNumber c = n) (rev choices)"

record overwrite =
  ow_input :: row_input
  ow_targetId :: int
  ow_dataRevision :: int
  ow_confirmed :: bool

record import_plan =
  ip_create :: "row_input list"
  ip_overwrite :: "overwrite list"
  ip_skipped :: nat

definition pending_row :: "import_preview \<Rightarrow> int \<Rightarrow> pending_choice option" where
  "pending_row preview n = find (\<lambda>c. pc_rowNumber c = n) (rev (pv_pendingChoice preview))"

definition plan_row :: "import_preview \<Rightarrow> import_choice list \<Rightarrow> row_input \<Rightarrow> import_plan \<Rightarrow> err + import_plan" where
  "plan_row preview choices input plan =
     (let n = ri_rowNumber input; choice = choice_of choices n in
      if n \<in> set (pv_created preview) then
        (case choice of
           None \<Rightarrow> Inr (plan\<lparr>ip_create := ip_create plan @ [input]\<rparr>)
         | Some c \<Rightarrow> (case ic_decision c of
             OVERWRITE \<Rightarrow> Inl (Biz (Finance IMPORT_PREVIEW_STALE))
           | SKIP \<Rightarrow> Inr (plan\<lparr>ip_skipped := ip_skipped plan + 1\<rparr>)))
      else case pending_row preview n of
        None \<Rightarrow> Inr plan
      | Some pending \<Rightarrow>
          (case choice of
             None \<Rightarrow> Inr (plan\<lparr>ip_skipped := ip_skipped plan + 1\<rparr>)
           | Some c \<Rightarrow>
               if ic_decision c = SKIP then Inr (plan\<lparr>ip_skipped := ip_skipped plan + 1\<rparr>)
               else case (ic_projectId c, ic_dataRevision c) of
                 (Some i, Some v) \<Rightarrow>
                   if i \<noteq> pc_projectId pending then Inl (Biz (Finance IMPORT_CONFIRM_MISMATCH))
                   else if pc_dataLossWarning pending \<and> \<not> ic_confirmDataLossWarning c
                   then Inl (Biz (Finance IMPORT_CONFIRM_MISMATCH))
                   else Inr (plan\<lparr>ip_overwrite := ip_overwrite plan @
                     [\<lparr>ow_input = input, ow_targetId = i, ow_dataRevision = v, ow_confirmed = pc_dataLossWarning pending\<rparr>]\<rparr>)
               | _ \<Rightarrow> Inl (Biz (Finance IMPORT_CONFIRM_MISMATCH))))"

text \<open>The data of all rows is built before the first of them is written.\<close>

definition create_data :: "fin_env \<Rightarrow> operator \<Rightarrow> fin_db \<Rightarrow> row_input \<Rightarrow> project_row list \<Rightarrow> err + project_row list" where
  "create_data e opr db input rows =
     (case ri_year input of
        None \<Rightarrow> Inl (Biz (Finance IMPORT_YEAR_REQUIRED_FOR_NEW))
      | Some year \<Rightarrow>
          bindR (buildProjectDataFromInput e input None db) (\<lambda>f.
          Inr (rows @ [(f empty_project)\<lparr>pr_year := year, pr_createdBy := Some (fst opr), pr_updatedBy := Some (fst opr)\<rparr>])))"

definition create_row :: "project_row \<Rightarrow> int list \<times> fin_db \<Rightarrow> err + (int list \<times> fin_db)" where
  "create_row data acc = bindR (insertProject data (snd acc)) (\<lambda>(row, db'). Inr (fst acc @ [pr_id row], db'))"

definition stale_key :: "err + 'a \<Rightarrow> err + 'a" where
  "stale_key r = (case r of
     Inl e \<Rightarrow> if isPrismaUniqueViolation e then Inl (Biz (Finance IMPORT_PREVIEW_STALE)) else Inl e | Inr x \<Rightarrow> Inr x)"

definition import_creates :: "fin_env \<Rightarrow> operator \<Rightarrow> row_input list \<Rightarrow> fin_db \<Rightarrow> err + (int list \<times> fin_db)" where
  "import_creates e opr inputs db =
     (if \<exists>input \<in> set inputs. \<exists>p \<in> set (fd_projects db).
          pr_businessKey p = normalizeProjectName e (ri_name input) \<and> Some (pr_year p) = ri_year input
      then Inl (Biz (Finance IMPORT_PREVIEW_STALE))
      else bindR (foldR (create_data e opr db) inputs []) (\<lambda>rows. stale_key (foldR create_row rows ([], db))))"

text \<open>\<open>projects\<close> is what was read of the targets before the first of them was written.\<close>

definition overwrite_row ::
    "fin_env \<Rightarrow> operator \<Rightarrow> project_row list \<Rightarrow> overwrite \<Rightarrow> fin_db \<Rightarrow> err + fin_db" where
  "overwrite_row e opr projects w db =
     bindR (buildProjectDataFromInput e (ow_input w) (find (\<lambda>p. pr_id p = ow_targetId w) projects) db) (\<lambda>f.
     if (case findProject (ow_targetId w) db of None \<Rightarrow> True | Some p \<Rightarrow> pr_dataRevision p \<noteq> ow_dataRevision w)
     then Inl (Biz (Finance IMPORT_PREVIEW_STALE))
     else updateProject (ow_targetId w) (\<lambda>p. (bump_revision (f p))\<lparr>pr_updatedBy := Some (fst opr)\<rparr>) db)"

definition target_stale :: "fin_db \<Rightarrow> overwrite \<Rightarrow> bool" where
  "target_stale db w \<longleftrightarrow>
     (case findProject (ow_targetId w) db of
        None \<Rightarrow> True | Some p \<Rightarrow> pr_deletedAt p \<noteq> None \<or> pr_dataRevision p \<noteq> ow_dataRevision w)"

definition rebuild_kind :: "overwrite list \<Rightarrow> detail_kind \<Rightarrow> fin_db \<Rightarrow> err + fin_db" where
  "rebuild_kind ws k db =
     foldR (\<lambda>(i, amount) d. bindR (insertDetail k
              \<lparr>ad_id = 0, ad_projectId = i, ad_amount = numeric2 (decimal_of amount), ad_occurredDate = None, ad_remark = None\<rparr> d)
              (\<lambda>(r, d'). Inr d'))
       (concat (map (\<lambda>w. map (\<lambda>a. (ow_targetId w, a)) (ri_amounts (ow_input w) k)) ws)) db"

definition delete_details :: "int list \<Rightarrow> fin_db \<Rightarrow> fin_db" where
  "delete_details ids db = db\<lparr>fd_details := (\<lambda>k. filter (\<lambda>r. ad_projectId r \<notin> set ids) (fd_details db k))\<rparr>"

definition import_overwrites :: "fin_env \<Rightarrow> operator \<Rightarrow> overwrite list \<Rightarrow> fin_db \<Rightarrow> err + fin_db" where
  "import_overwrites e opr ws db =
     (if \<exists>w \<in> set ws. target_stale db w then Inl (Biz (Finance IMPORT_PREVIEW_STALE))
      else bindR (foldR (overwrite_row e opr (fd_projects db)) ws db) (\<lambda>db1.
           bindR (rebuild_kind ws Invoice (delete_details (map ow_targetId ws) db1)) (\<lambda>db2.
           bindR (rebuild_kind ws Receipt db2) (\<lambda>db3. rebuild_kind ws SubcontractPayment db3))))"

definition detail_snapshots :: "int \<Rightarrow> fin_db \<Rightarrow> (string \<times> json) list" where
  "detail_snapshots i db =
     map (\<lambda>k. (detail_field k, JArr (map (\<lambda>r.
        JObj [(''amount'', JStr (toFixed2 (ad_amount r))), (''occurredDate'', date_json (ad_occurredDate r)),
              (''remark'', text_json (ad_remark r))]) (projectDetails k i db))))
       [Invoice, Receipt, SubcontractPayment]"

text \<open>
  The journal: one row for every project created, overwritten or pending and not chosen to be
  overwritten. \<open>createMany\<close> writes them in one statement.
\<close>

definition import_journal ::
    "operator \<Rightarrow> import_preview \<Rightarrow> import_choice list \<Rightarrow> row_input list \<Rightarrow> int list \<Rightarrow> overwrite list \<Rightarrow> fin_db \<Rightarrow> fin_db
      \<Rightarrow> operation_row list" where
  "import_journal opr preview choices inputs createdIds ws before after =
     map (\<lambda>i. project_change i opr IMPORT_CREATE None JNull (JObj [(''source'', JStr ''Excel'')])) createdIds
     @ map (\<lambda>w. project_change (ow_targetId w) opr IMPORT_OVERWRITE None (JObj (detail_snapshots (ow_targetId w) before))
         (JObj (detail_snapshots (ow_targetId w) after @ [(''dataLossWarningConfirmed'', JBool (ow_confirmed w))]))) ws
     @ concat (map (\<lambda>input. case pending_row preview (ri_rowNumber input) of
           None \<Rightarrow> []
         | Some pending \<Rightarrow>
             if (case choice_of choices (ri_rowNumber input) of Some c \<Rightarrow> ic_decision c = OVERWRITE | None \<Rightarrow> False) then []
             else [project_change (pc_projectId pending) opr IMPORT_SKIP None JNull (JObj [(''source'', JStr ''Excel'')])]) inputs)"

definition applyImport ::
    "fin_env \<Rightarrow> operator \<Rightarrow> row_input list \<Rightarrow> import_preview \<Rightarrow> import_choice list \<Rightarrow> fin_db
      \<Rightarrow> err + ((nat \<times> nat \<times> nat) \<times> fin_db)" where
  "applyImport e opr inputs preview choices db =
     (if inputs = [] then Inr ((0, 0, 0), db)
      else if \<exists>c \<in> set choices. ic_rowNumber c \<notin> ri_rowNumber ` set inputs
      then Inl (Biz (Finance IMPORT_CONFIRM_MISMATCH))
      else
        bindR (foldR (plan_row preview choices) inputs \<lparr>ip_create = [], ip_overwrite = [], ip_skipped = 0\<rparr>) (\<lambda>plan.
        bindR (import_creates e opr (ip_create plan) db) (\<lambda>(createdIds, db1).
        bindR (import_overwrites e opr (ip_overwrite plan) db1) (\<lambda>db2.
        bindR (foldR writeProjectChange
            (import_journal opr preview choices inputs createdIds (ip_overwrite plan) db1 db2) db2) (\<lambda>db3.
        Inr ((length createdIds, length (ip_overwrite plan), ip_skipped plan), db3))))))"

text \<open>
  The preview is computed anew from the file, on the state \<open>seen\<close>, and the rows are built once more, on
  the state \<open>seen'\<close>, both before the transaction begins. \<open>interrupted\<close> is what the checks of time and
  cancellation threw, if they did.
\<close>

definition import_run ::
    "fin_env \<Rightarrow> operator \<Rightarrow> string \<Rightarrow> parsed_row list \<Rightarrow> int list \<Rightarrow> import_choice list \<Rightarrow> fin_db \<Rightarrow> fin_db \<Rightarrow> err + unit
      \<Rightarrow> fin_db \<Rightarrow> err + (json outcome \<times> fin_db)" where
  "import_run e opr unclassified rows errorRows choices seen seen' interrupted db =
     (let preview = matchRows e errorRows (buildRowInputsWithGroups e unclassified rows seen) seen;
          inputs = buildRowInputsWithGroups e unclassified rows seen'
      in bindR (applyImport e opr inputs preview choices db) (\<lambda>((created, overwritten, skipped), db').
         bindR interrupted (\<lambda>u.
         Inr (fin_outcome (JObj [(''created'', JNum (of_nat created)), (''overwritten'', JNum (of_nat overwritten)),
           (''skipped'', JNum (of_nat skipped))]) UPDATE ''import'', db'))))"

end
