(* ===== verification/FinInvariant.thy ===== *)
theory FinInvariant
  imports FinImport
begin

text \<open>
  What the finance service keeps: the invariant of its tables, and the relation between a state and
  a later one that ties every change of a project to a journal row and to a higher revision.
\<close>

section \<open>The invariant\<close>

definition project_key :: "project_row \<Rightarrow> string \<times> int" where
  "project_key p = (pr_businessKey p, pr_year p)"

definition projects_ok :: "fin_env \<Rightarrow> int \<Rightarrow> project_row list \<Rightarrow> bool" where
  "projects_ok e n ps \<longleftrightarrow> distinct (map pr_id ps) \<and> distinct (map project_key ps)
     \<and> (\<forall>p \<in> set ps. pr_id p < n \<and> project_ok p \<and> pr_businessKey p = normalizeProjectName e (pr_name p))"

definition details_ok :: "int \<Rightarrow> int set \<Rightarrow> detail_row list \<Rightarrow> bool" where
  "details_ok n ids rs \<longleftrightarrow> distinct (map ad_id rs)
     \<and> (\<forall>r \<in> set rs. ad_id r < n \<and> amount_ok (ad_amount r) \<and> ad_projectId r \<in> ids)"

definition fin_ok :: "fin_env \<Rightarrow> fin_db \<Rightarrow> bool" where
  "fin_ok e db \<longleftrightarrow> projects_ok e (fd_seq db FProjects) (fd_projects db)
     \<and> (\<forall>k. details_ok (fd_seq db (FDetails k)) (pr_id ` set (fd_projects db)) (fd_details db k))"

lemma fin_ok_cong:
  "fd_projects db' = fd_projects db \<Longrightarrow> fd_details db' = fd_details db \<Longrightarrow> fd_seq db' FProjects = fd_seq db FProjects
    \<Longrightarrow> (\<And>k. fd_seq db' (FDetails k) = fd_seq db (FDetails k)) \<Longrightarrow> fin_ok e db \<Longrightarrow> fin_ok e db'"
  by (simp add: fin_ok_def)

lemma findProject_Some: "findProject i db = Some p \<Longrightarrow> p \<in> set (fd_projects db) \<and> pr_id p = i"
  by (auto simp: findProject_def find_Some_iff)

lemma findProject_mem: "findProject i db \<noteq> None \<longleftrightarrow> i \<in> pr_id ` set (fd_projects db)"
  by (auto simp: findProject_def find_None_iff)

lemma insertProject_ok:
  assumes "insertProject p db = Inr (row, db')" and "pr_businessKey p = normalizeProjectName e (pr_name p)" and "fin_ok e db"
  shows "fin_ok e db'"
proof -
  have db': "db' = db\<lparr>fd_seq := (fd_seq db)(FProjects := fd_seq db FProjects + 1), fd_projects := fd_projects db @ [row]\<rparr>"
    and row: "row = p\<lparr>pr_id := fd_seq db FProjects\<rparr>" "project_ok row" "\<And>q. q \<in> set (fd_projects db) \<Longrightarrow> \<not> project_clash row q"
    using assms(1) by (auto simp: insertProject_def fin_nextval_def Let_def bindR_Inr_iff insert_row_Inr_iff)
  have "project_key row \<notin> project_key ` set (fd_projects db)"
    using row(3) by (auto simp: project_key_def project_clash_def)
  then show ?thesis using assms(2,3) row(1,2)
    by (auto simp: db' fin_ok_def projects_ok_def details_ok_def project_key_def)
qed

lemma updateProject_Inr:
  "updateProject i f db = Inr db' \<longleftrightarrow> (\<exists>p. findProject i db = Some p \<and> project_ok (f p)
     \<and> (\<forall>q \<in> set (fd_projects db). pr_id q \<noteq> i \<longrightarrow> \<not> project_clash (f p) q)
     \<and> db' = db\<lparr>fd_projects := update_where (\<lambda>p. pr_id p = i) f (fd_projects db)\<rparr>)"
  by (auto simp: updateProject_def split: option.splits)

lemma update_where_id:
  assumes "distinct (map pr_id ps)" and "p \<in> set ps"
  shows "q \<in> set (update_where (\<lambda>x. pr_id x = pr_id p) f ps) \<longleftrightarrow> q = f p \<or> (q \<in> set ps \<and> pr_id q \<noteq> pr_id p)"
proof -
  have "x \<in> set ps \<Longrightarrow> pr_id x = pr_id p \<Longrightarrow> x = p" for x
    using assms by (metis distinct_map inj_onD)
  then show ?thesis using assms(2) by (auto simp: update_where_def)
qed

lemma update_distinct:
  assumes "distinct (map g ps)" and "distinct (map pr_id ps)" and "p \<in> set ps" and "\<And>q. pr_id (f q) = pr_id q"
    and "\<And>q. q \<in> set ps \<Longrightarrow> pr_id q \<noteq> pr_id p \<Longrightarrow> g (f p) \<noteq> g q"
  shows "distinct (map g (update_where (\<lambda>x. pr_id x = pr_id p) f ps))"
  using assms(1,2,3,5)
proof (induction ps)
  case (Cons a ps)
  show ?case
  proof (cases "pr_id a = pr_id p")
    case True
    then have ap: "a = p" using Cons.prems by auto
    then have n: "pr_id p \<notin> pr_id ` set ps" using Cons.prems(2) by simp
    then have rest: "update_where (\<lambda>x. pr_id x = pr_id p) f ps = ps"
      by (intro update_where_none) (metis imageI)
    have "g (f p) \<noteq> g q" if "q \<in> set ps" for q
      using Cons.prems(4) [of q] that n by (metis imageI list.set_intros(2))
    then have "g (f p) \<notin> g ` set ps" by blast
    then show ?thesis using Cons.prems(1) rest by (simp add: update_where_Cons ap)
  next
    case False
    then have p: "p \<in> set ps" using Cons.prems(3) by auto
    have "distinct (map g (update_where (\<lambda>x. pr_id x = pr_id p) f ps))"
      using Cons.prems p by (intro Cons.IH) auto
    moreover have "g a \<notin> g ` set (update_where (\<lambda>x. pr_id x = pr_id p) f ps)"
      using update_where_id [OF _ p, of _ f] Cons.prems False by fastforce
    ultimately show ?thesis using False by (simp add: update_where_Cons)
  qed
qed simp

lemma updateProject_ok:
  assumes "updateProject i f db = Inr db'" and f: "\<And>p. pr_id (f p) = pr_id p"
    and key: "\<And>p. findProject i db = Some p \<Longrightarrow> pr_businessKey (f p) = normalizeProjectName e (pr_name (f p))"
    and ok: "fin_ok e db"
  shows "fin_ok e db'"
proof -
  let ?ps = "update_where (\<lambda>p. pr_id p = i) f (fd_projects db)"
  obtain p where p: "findProject i db = Some p" "project_ok (f p)" "\<And>q. q \<in> set (fd_projects db) \<Longrightarrow> pr_id q \<noteq> i \<Longrightarrow> \<not> project_clash (f p) q"
    and db': "db' = db\<lparr>fd_projects := ?ps\<rparr>"
    using assms(1) by (auto simp: updateProject_Inr)
  have m: "p \<in> set (fd_projects db)" "pr_id p = i" using findProject_Some [OF p(1)] by simp_all
  have d: "distinct (map pr_id (fd_projects db))" "distinct (map project_key (fd_projects db))"
    using ok by (simp_all add: fin_ok_def projects_ok_def)
  have ids: "map pr_id ?ps = map pr_id (fd_projects db)" by (rule map_update_where) (rule f)
  have "distinct (map project_key ?ps)"
    unfolding m(2) [symmetric] using p(3) m by (intro update_distinct d f) (auto simp: project_key_def project_clash_def)
  moreover have "q \<in> set ?ps \<longleftrightarrow> q = f p \<or> (q \<in> set (fd_projects db) \<and> pr_id q \<noteq> i)" for q
    using update_where_id [OF d(1) m(1), of q f] m(2) by simp
  ultimately have "projects_ok e (fd_seq db FProjects) ?ps"
    using ok ids p(2) key [OF p(1)] m f by (auto simp: fin_ok_def projects_ok_def)
  moreover have "pr_id ` set ?ps = pr_id ` set (fd_projects db)" using arg_cong [OF ids, of set] by simp
  ultimately show ?thesis using ok by (simp add: db' fin_ok_def)
qed

lemma insertDetail_Inr:
  "insertDetail k r db = Inr (row, db') \<longleftrightarrow> findProject (ad_projectId r) db \<noteq> None \<and> amount_ok (ad_amount r)
     \<and> row = r\<lparr>ad_id := fd_seq db (FDetails k)\<rparr>
     \<and> db' = db\<lparr>fd_seq := (fd_seq db)(FDetails k := fd_seq db (FDetails k) + 1),
                fd_details := (fd_details db)(k := fd_details db k @ [row])\<rparr>"
  by (auto simp: insertDetail_def fin_nextval_def set_details_def Let_def)

lemma insertDetail_ok:
  assumes "insertDetail k r db = Inr (row, db')" and "fin_ok e db"
  shows "fin_ok e db'"
proof -
  have "details_ok (fd_seq db (FDetails k)) (pr_id ` set (fd_projects db)) (fd_details db k)"
    using assms(2) by (simp add: fin_ok_def)
  moreover have "ad_projectId row \<in> pr_id ` set (fd_projects db)" "amount_ok (ad_amount row)" "ad_id row = fd_seq db (FDetails k)"
    using assms(1) by (auto simp: insertDetail_Inr simp flip: findProject_mem)
  ultimately have "details_ok (fd_seq db (FDetails k) + 1) (pr_id ` set (fd_projects db)) (fd_details db k @ [row])"
    by (auto simp: details_ok_def)
  then show ?thesis using assms by (auto simp: insertDetail_Inr fin_ok_def)
qed

lemma set_details_ok:
  assumes "fin_ok e db" and "details_ok (fd_seq db (FDetails k)) (pr_id ` set (fd_projects db)) (fd_details db k)
      \<Longrightarrow> details_ok (fd_seq db (FDetails k)) (pr_id ` set (fd_projects db)) rs"
  shows "fin_ok e (set_details k rs db)"
  using assms by (simp add: fin_ok_def set_details_def)

lemma details_ok_filter: "details_ok n ids rs \<Longrightarrow> details_ok n ids (filter P rs)"
  by (auto simp: details_ok_def intro: distinct_map_filter)

lemma details_ok_update:
  assumes "details_ok n ids rs" and "\<And>r. ad_id (f r) = ad_id r" "\<And>r. ad_projectId (f r) = ad_projectId r" "\<And>r. amount_ok (ad_amount (f r))"
  shows "details_ok n ids (update_where P f rs)"
  using assms by (auto simp: details_ok_def map_update_where set_update_where)

lemma writeProjectChange_Inr:
  "writeProjectChange r db = Inr db' \<longleftrightarrow> findProject (jo_projectId r) db \<noteq> None \<and> db' = db\<lparr>fd_operations := fd_operations db @ [r]\<rparr>"
  by (auto simp: writeProjectChange_def)

lemma writes_Inr:
  "foldR (\<lambda>x. writeProjectChange (g x)) xs db = Inr db' \<Longrightarrow> db' = db\<lparr>fd_operations := fd_operations db @ map g xs\<rparr>"
proof (induction xs arbitrary: db)
  case (Cons x xs)
  then have "foldR (\<lambda>x. writeProjectChange (g x)) xs (db\<lparr>fd_operations := fd_operations db @ [g x]\<rparr>) = Inr db'"
    by (auto simp: bindR_Inr_iff writeProjectChange_Inr)
  from Cons.IH [OF this] show ?case by simp
qed simp

lemma marks_ok:
  assumes "fin_ok e db" and "\<And>p. pr_id (f p) = pr_id p" "\<And>p. project_key (f p) = project_key p" "\<And>p. p \<in> set (fd_projects db) \<Longrightarrow> P p \<Longrightarrow> project_ok (f p)"
    "\<And>p. pr_name (f p) = pr_name p"
  shows "fin_ok e (db\<lparr>fd_projects := update_where P f (fd_projects db)\<rparr>)"
proof -
  have i: "map pr_id (update_where P f (fd_projects db)) = map pr_id (fd_projects db)"
    "map project_key (update_where P f (fd_projects db)) = map project_key (fd_projects db)"
    by (rule map_update_where, rule assms)+
  have b: "pr_businessKey (f p) = pr_businessKey p" for p using assms(3) [of p] by (simp add: project_key_def)
  have "projects_ok e (fd_seq db FProjects) (update_where P f (fd_projects db))"
    using assms i b by (auto simp: fin_ok_def projects_ok_def set_update_where)
  moreover have "pr_id ` set (update_where P f (fd_projects db)) = pr_id ` set (fd_projects db)"
    using arg_cong [OF i(1), of set] by simp
  ultimately show ?thesis using assms(1) by (simp add: fin_ok_def)
qed

section \<open>Changes\<close>

definition same_project :: "fin_db \<Rightarrow> fin_db \<Rightarrow> int \<Rightarrow> bool" where
  "same_project db db' i \<longleftrightarrow> findProject i db' = findProject i db \<and> (\<forall>k. projectDetails k i db' = projectDetails k i db)"

text \<open>
  What may become of a project while its revision stands: nothing, or the deletion of a live project,
  which marks the row and changes no other column.
\<close>

definition stands :: "project_row \<Rightarrow> project_row \<Rightarrow> bool" where
  "stands p p' \<longleftrightarrow> p' = p \<or> (pr_deletedAt p = None \<and> pr_deletedAt p' \<noteq> None
     \<and> p' = p\<lparr>pr_deletedBy := pr_deletedBy p', pr_deletedAt := pr_deletedAt p'\<rparr>)"

definition outgrows :: "fin_db \<Rightarrow> fin_db \<Rightarrow> int \<Rightarrow> bool" where
  "outgrows db db' i \<longleftrightarrow>
     (\<forall>p. findProject i db = Some p \<longrightarrow> (\<exists>p'. findProject i db' = Some p'
        \<and> (pr_dataRevision p < pr_dataRevision p'
           \<or> (stands p p' \<and> (\<forall>k. projectDetails k i db' = projectDetails k i db)))))"

definition advances :: "fin_db \<Rightarrow> fin_db \<Rightarrow> bool" where
  "advances db db' \<longleftrightarrow> (\<exists>new. fd_operations db' = fd_operations db @ new
     \<and> (\<forall>i. same_project db db' i \<or> (i \<in> jo_projectId ` set new \<and> outgrows db db' i)))"

lemma same_project_refl [simp]: "same_project db db i"
  by (simp add: same_project_def)

lemma same_project_trans: "same_project a b i \<Longrightarrow> same_project b c i \<Longrightarrow> same_project a c i"
  by (simp add: same_project_def)

lemma stands_refl [simp]: "stands p p"
  by (simp add: stands_def)

lemma stands_revision: "stands p p' \<Longrightarrow> pr_dataRevision p' = pr_dataRevision p"
  unfolding stands_def by (metis project_row.select_convs project_row.surjective project_row.update_convs)

lemma stands_trans: "stands p q \<Longrightarrow> stands q r \<Longrightarrow> stands p r"
  by (auto simp: stands_def)

lemma same_outgrows: "same_project db db' i \<Longrightarrow> outgrows db db' i"
  by (auto simp: same_project_def outgrows_def)

lemma outgrows_trans:
  assumes "outgrows a b i" and "outgrows b c i"
  shows "outgrows a c i"
  unfolding outgrows_def
proof (intro allI impI)
  fix p assume "findProject i a = Some p"
  then obtain p' where p': "findProject i b = Some p'" and ab: "pr_dataRevision p < pr_dataRevision p'
      \<or> (stands p p' \<and> (\<forall>k. projectDetails k i b = projectDetails k i a))"
    using assms(1) by (auto simp: outgrows_def)
  then obtain p'' where p'': "findProject i c = Some p''" and bc: "pr_dataRevision p' < pr_dataRevision p''
      \<or> (stands p' p'' \<and> (\<forall>k. projectDetails k i c = projectDetails k i b))"
    using assms(2) by (auto simp: outgrows_def)
  have "pr_dataRevision p < pr_dataRevision p'' \<or> (stands p p'' \<and> (\<forall>k. projectDetails k i c = projectDetails k i a))"
    using ab bc by (auto dest: stands_revision intro: stands_trans)
  then show "\<exists>p'. findProject i c = Some p' \<and> (pr_dataRevision p < pr_dataRevision p'
      \<or> (stands p p' \<and> (\<forall>k. projectDetails k i c = projectDetails k i a)))" using p'' by blast
qed

lemma advances_refl [simp]: "advances db db"
  by (auto simp: advances_def)

lemma advances_trans:
  assumes "advances a b" and "advances b c"
  shows "advances a c"
proof -
  obtain n1 n2 where n: "fd_operations b = fd_operations a @ n1" "fd_operations c = fd_operations b @ n2"
    and ab: "\<And>i. same_project a b i \<or> (i \<in> jo_projectId ` set n1 \<and> outgrows a b i)"
    and bc: "\<And>i. same_project b c i \<or> (i \<in> jo_projectId ` set n2 \<and> outgrows b c i)"
    using assms unfolding advances_def by blast
  have "same_project a c i \<or> (i \<in> jo_projectId ` set (n1 @ n2) \<and> outgrows a c i)" for i
    using ab [of i] bc [of i] same_project_trans [of a b i c] outgrows_trans [of a b i c]
      same_outgrows [of a b i] same_outgrows [of b c i] by auto
  then show ?thesis using n unfolding advances_def by (intro exI [of _ "n1 @ n2"]) simp
qed

text \<open>Statements that leave projects and amounts alone, and those that only concern the projects of a set.\<close>

lemma same_projectI:
  "fd_projects db' = fd_projects db \<Longrightarrow> fd_details db' = fd_details db \<Longrightarrow> same_project db db' i"
  by (simp add: same_project_def findProject_def projectDetails_def)

definition confined :: "int set \<Rightarrow> fin_db \<Rightarrow> fin_db \<Rightarrow> bool" where
  "confined S db db' \<longleftrightarrow> (\<forall>i. i \<notin> S \<longrightarrow> same_project db db' i)"

lemma confined_trans: "confined S a b \<Longrightarrow> confined S b c \<Longrightarrow> confined S a c"
  by (auto simp: confined_def intro: same_project_trans)

lemma confined_mono: "confined S a b \<Longrightarrow> S \<subseteq> T \<Longrightarrow> confined T a b"
  by (auto simp: confined_def)

lemma confinedI: "fd_projects db' = fd_projects db \<Longrightarrow> fd_details db' = fd_details db \<Longrightarrow> confined S db db'"
  by (simp add: confined_def same_projectI)

lemma advancesI:
  assumes "confined S db db'" and "fd_operations db' = fd_operations db @ new" and "S \<subseteq> jo_projectId ` set new"
    and "\<And>i. i \<in> S \<Longrightarrow> outgrows db db' i"
  shows "advances db db'"
  unfolding advances_def
proof (intro exI [of _ new] conjI allI)
  fix i
  show "same_project db db' i \<or> (i \<in> jo_projectId ` set new \<and> outgrows db db' i)"
    using assms by (cases "i \<in> S") (auto simp: confined_def)
qed (rule assms)

lemma find_update_project:
  assumes "\<And>p. pr_id (f p) = pr_id p"
  shows "find (\<lambda>p. pr_id p = j) (update_where (\<lambda>p. pr_id p = i) f ps)
    = (if j = i then map_option f (find (\<lambda>p. pr_id p = j) ps) else find (\<lambda>p. pr_id p = j) ps)"
  by (induction ps) (auto simp: update_where_Cons assms)

lemma updateProject_confined:
  assumes "updateProject i f db = Inr db'" and "\<And>p. pr_id (f p) = pr_id p"
  shows "confined {i} db db'" and "\<And>p. findProject i db = Some p \<Longrightarrow> findProject i db' = Some (f p)"
    and "\<And>k j. projectDetails k j db' = projectDetails k j db" and "fd_operations db' = fd_operations db"
proof -
  have db': "db' = db\<lparr>fd_projects := update_where (\<lambda>p. pr_id p = i) f (fd_projects db)\<rparr>"
    using assms(1) by (auto simp: updateProject_Inr)
  have f: "findProject j db' = (if j = i then map_option f (findProject j db) else findProject j db)" for j
    by (simp add: db' findProject_def find_update_project [OF assms(2)])
  show d: "projectDetails k j db' = projectDetails k j db" for k j by (simp add: db' projectDetails_def)
  show "confined {i} db db'" using f d by (simp add: confined_def same_project_def)
  show "\<And>p. findProject i db = Some p \<Longrightarrow> findProject i db' = Some (f p)" using f by simp
  show "fd_operations db' = fd_operations db" by (simp add: db')
qed

lemma insertDetail_confined:
  assumes "insertDetail k r db = Inr (row, db')"
  shows "confined {ad_projectId r} db db'" and "\<And>i. findProject i db' = findProject i db"
    and "fd_operations db' = fd_operations db"
  using assms by (auto simp: insertDetail_Inr confined_def same_project_def findProject_def projectDetails_def)

end
