(* ===== verification/FinOperations.thy ===== *)
theory FinOperations
  imports FinInvariant
begin

text \<open>
  Every operation of the finance service keeps the invariant and advances the projects it changes;
  then the service as a step relation.
\<close>

section \<open>Operations on projects\<close>

definition sound_run :: "fin_env \<Rightarrow> (fin_db \<Rightarrow> err + (json outcome \<times> fin_db)) \<Rightarrow> bool" where
  "sound_run e run \<longleftrightarrow>
     (\<forall>db out db'. run db = Inr (out, db') \<longrightarrow> fin_ok e db \<longrightarrow> fin_ok e db' \<and> advances db db')"

lemma sound_runI:
  "(\<And>db out db'. run db = Inr (out, db') \<Longrightarrow> fin_ok e db \<Longrightarrow> fin_ok e db' \<and> advances db db') \<Longrightarrow> sound_run e run"
  by (auto simp: sound_run_def)

lemma key_conflict_Inr [simp]: "key_conflict r = Inr x \<longleftrightarrow> r = Inr x"
  by (auto simp: key_conflict_def split: sum.splits)

lemma fin_ok_operations [simp]: "fin_ok e (db\<lparr>fd_operations := ops\<rparr>) = fin_ok e db"
  by (simp add: fin_ok_def)

lemma fin_ok_logs [simp]: "fin_ok e (db\<lparr>fd_logs := ls\<rparr>) = fin_ok e db"
  by (simp add: fin_ok_def)

lemma fresh_project: "fin_ok e db \<Longrightarrow> fd_seq db FProjects \<le> i \<Longrightarrow> findProject i db = None"
  by (fastforce simp: fin_ok_def projects_ok_def findProject_def find_None_iff)

lemma live_project_Inr: "live_project i db = Inr p \<longleftrightarrow> findProject i db = Some p \<and> pr_deletedAt p = None"
  by (auto simp: live_project_def split: option.splits)

lemma live_key: "fin_ok e db \<Longrightarrow> findProject i db = Some p \<Longrightarrow> pr_businessKey p = normalizeProjectName e (pr_name p)"
  by (auto dest!: findProject_Some simp: fin_ok_def projects_ok_def)

lemma insertProject_facts:
  assumes "insertProject p db = Inr (row, db')" and "fin_ok e db"
  shows "findProject (pr_id row) db = None" and "confined {pr_id row} db db'" and "fd_operations db' = fd_operations db"
    and "fd_details db' = fd_details db" and "fd_seq db FProjects \<le> pr_id row" and "fd_seq db' FProjects = pr_id row + 1"
proof -
  have db': "db' = db\<lparr>fd_seq := (fd_seq db)(FProjects := fd_seq db FProjects + 1), fd_projects := fd_projects db @ [row]\<rparr>"
    and row: "pr_id row = fd_seq db FProjects"
    using assms(1) by (auto simp: insertProject_def fin_nextval_def Let_def bindR_Inr_iff insert_row_Inr_iff)
  show "findProject (pr_id row) db = None" using fresh_project [OF assms(2)] row by simp
  have "find (\<lambda>p. pr_id p = i) (ps @ [row]) = find (\<lambda>p. pr_id p = i) ps" if "i \<noteq> pr_id row" for i ps
    using that by (induction ps) auto
  then show "confined {pr_id row} db db'"
    by (simp add: confined_def same_project_def db' findProject_def projectDetails_def)
qed (use assms(1) in \<open>auto simp: insertProject_def fin_nextval_def Let_def bindR_Inr_iff insert_row_Inr_iff\<close>)

lemma buildProjectData_facts:
  assumes "buildProjectData e dto key sn opr existing = Inr f"
  shows "pr_id (f p) = pr_id p" and "pr_dataRevision (f p) = pr_dataRevision p" and "pr_name (f p) = pd_name dto"
    and "pr_businessKey (f p) = key"
  using assms by (auto simp: buildProjectData_def bindR_Inr_iff)

lemma project_create_sound: "sound_run e (project_create e opr dto)"
proof (rule sound_runI)
  fix db out db'
  assume run: "project_create e opr dto db = Inr (out, db')" and ok: "fin_ok e db"
  obtain f row db1 sn where f: "buildProjectData e dto (normalizeProjectName e (pd_name dto)) sn (fst opr) None = Inr f"
    and ins: "insertProject (f empty_project) db = Inr (row, db1)"
    and w: "writeProjectChange (project_change (pr_id row) opr project_action.CREATE None JNull (JObj (projectSnapshot row))) db1 = Inr db'"
    using run by (auto simp: project_create_def Let_def bindR_Inr_iff)
  note facts = insertProject_facts [OF ins ok]
  have db': "db' = db1\<lparr>fd_operations := fd_operations db @ [project_change (pr_id row) opr project_action.CREATE None JNull (JObj (projectSnapshot row))]\<rparr>"
    using w facts(3) by (simp add: writeProjectChange_Inr)
  have "fin_ok e db1" by (rule insertProject_ok [OF ins _ ok]) (simp add: buildProjectData_facts [OF f])
  moreover have "advances db db'"
  proof (rule advancesI)
    show "confined {pr_id row} db db'" by (rule confined_trans [OF facts(2)]) (simp add: confinedI db')
    show "outgrows db db' i" if "i \<in> {pr_id row}" for i using that facts(1) by (simp add: outgrows_def)
    show "fd_operations db' = fd_operations db @ [project_change (pr_id row) opr project_action.CREATE None JNull (JObj (projectSnapshot row))]"
      by (simp add: db')
  qed (simp add: project_change_def)
  ultimately show "fin_ok e db' \<and> advances db db'" by (simp add: db')
qed

text \<open>An update of one project that raises its revision, with a journal row for it.\<close>

lemma raised:
  assumes up: "updateProject i f db1 = Inr db2" and f: "\<And>p. pr_id (f p) = pr_id p" "\<And>p. pr_dataRevision (f p) = pr_dataRevision p + 1"
    and pre: "confined {i} db db1" "\<And>p. findProject i db = Some p \<Longrightarrow> findProject i db1 = Some p"
    and post: "fd_projects db' = fd_projects db2" "fd_details db' = fd_details db2"
    and ops: "fd_operations db' = fd_operations db @ new" "i \<in> jo_projectId ` set new"
  shows "advances db db'"
proof (rule advancesI [where S = "{i}"])
  note u = updateProject_confined [OF up f(1)]
  have "confined {i} db2 db'" using post by (rule confinedI)
  then show "confined {i} db db'" using confined_trans [OF pre(1)] confined_trans [OF u(1)] by blast
  have "findProject i db' = findProject i db2" using post(1) by (simp add: findProject_def)
  then show "outgrows db db' j" if "j \<in> {i}" for j
    using that pre(2) u(2) f(2) by (auto simp: outgrows_def)
qed (use ops in auto)

lemma project_update_sound: "sound_run e (project_update e opr i dto)"
proof (rule sound_runI)
  fix db out db'
  assume run: "project_update e opr i dto db = Inr (out, db')" and ok: "fin_ok e db"
  show "fin_ok e db' \<and> advances db db'"
  proof (cases "db' = db")
    case False
    then obtain existing eff key sn f b a db1 where ex: "findProject i db = Some existing"
      and key: "key = normalizeProjectName e (pd_name eff)"
      and f: "buildProjectData e eff key sn (fst opr) (Some existing) = Inr f"
      and up: "updateProject i (\<lambda>p. bump_revision (f p)) db = Inr db1"
      and w: "writeProjectChange (project_change i opr EDIT None b a) db1 = Inr db'"
      using run by (auto simp: project_update_def Let_def bindR_Inr_iff live_project_Inr split: if_splits)
    note facts = buildProjectData_facts [OF f]
    have "fin_ok e db1"
      by (rule updateProject_ok [OF up _ _ ok]) (simp_all add: bump_revision_def facts key)
    moreover have "advances db db'"
      by (rule raised [OF up, where new = "[project_change i opr EDIT None b a]"])
         (use w updateProject_confined(4) [OF up] facts in
           \<open>simp_all add: bump_revision_def writeProjectChange_Inr project_change_def confinedI\<close>)
    ultimately show ?thesis using w by (auto simp: writeProjectChange_Inr)
  qed (use ok in simp)
qed

lemma find_marked:
  assumes "\<And>p. pr_id (f p) = pr_id p"
  shows "find (\<lambda>p. pr_id p = j) (update_where (\<lambda>p. pr_id p \<in> S) f ps)
    = (if j \<in> S then map_option f (find (\<lambda>p. pr_id p = j) ps) else find (\<lambda>p. pr_id p = j) ps)"
  by (induction ps) (auto simp: update_where_Cons assms)

lemma marked:
  assumes db': "db' = db\<lparr>fd_projects := update_where (\<lambda>p. pr_id p \<in> S) f (fd_projects db),
      fd_operations := fd_operations db @ new\<rparr>"
    and f: "\<And>p. pr_id (f p) = pr_id p"
      "\<And>p. p \<in> set (fd_projects db) \<Longrightarrow> pr_id p \<in> S \<Longrightarrow> pr_dataRevision p < pr_dataRevision (f p) \<or> stands p (f p)"
    and S: "S \<subseteq> jo_projectId ` set new"
  shows "advances db db'"
proof (rule advancesI [where S = S])
  have find: "findProject j db' = (if j \<in> S then map_option f (findProject j db) else findProject j db)"
    and details: "projectDetails k j db' = projectDetails k j db" for j k
    by (simp_all add: db' findProject_def find_marked [OF f(1)] projectDetails_def)
  show "confined S db db'" by (simp add: confined_def same_project_def find details)
  show "outgrows db db' i" if "i \<in> S" for i
    using that f(2) by (auto simp: outgrows_def find details dest!: findProject_Some)
  show "fd_operations db' = fd_operations db @ new" by (simp add: db')
qed (rule S)

lemma project_batchDelete_sound: "sound_run e (project_batchDelete opr now ids)"
proof (rule sound_runI)
  fix db out db'
  assume run: "project_batchDelete opr now ids db = Inr (out, db')" and ok: "fin_ok e db"
  let ?S = "pr_id ` set (filter (\<lambda>p. pr_id p \<in> set ids \<and> pr_deletedAt p = None) (fd_projects db))"
  let ?f = "\<lambda>p. p\<lparr>pr_deletedBy := Some (fst opr), pr_deletedAt := Some now\<rparr>"
  let ?new = "map (\<lambda>row. project_change (pr_id row) opr project_action.DELETE None (JObj (projectSnapshot row)) JNull)
    (filter (\<lambda>p. pr_id p \<in> set ids \<and> pr_deletedAt p = None) (fd_projects db))"
  have db': "db' = db\<lparr>fd_projects := update_where (\<lambda>p. pr_id p \<in> ?S) ?f (fd_projects db), fd_operations := fd_operations db @ ?new\<rparr>"
    using run by (auto simp: project_batchDelete_def Let_def bindR_Inr_iff dest!: writes_Inr split: if_splits)
  have live: "pr_deletedAt p = None" if "p \<in> set (fd_projects db)" "pr_id p \<in> ?S" for p
  proof -
    have "distinct (map pr_id (fd_projects db))" using ok by (simp add: fin_ok_def projects_ok_def)
    then show ?thesis using that by (auto simp: distinct_map dest: inj_onD)
  qed
  have "advances db db'"
  proof (rule marked [OF db'])
    show "pr_dataRevision p < pr_dataRevision (?f p) \<or> stands p (?f p)" if "p \<in> set (fd_projects db)" "pr_id p \<in> ?S" for p
      using live [OF that] by (simp add: stands_def)
  qed (auto simp: project_change_def image_image)
  moreover have "fin_ok e (db\<lparr>fd_projects := update_where (\<lambda>p. pr_id p \<in> ?S) ?f (fd_projects db)\<rparr>)"
    by (rule marks_ok [OF ok]) (use ok in \<open>simp_all add: project_key_def project_ok_def fin_ok_def projects_ok_def\<close>)
  then have "fin_ok e db'" unfolding db' by (simp add: fin_ok_def)
  ultimately show "fin_ok e db' \<and> advances db db'" by simp
qed

lemma project_batchRestore_sound: "sound_run e (project_batchRestore stamp opr ids)"
proof (rule sound_runI)
  fix db out db'
  assume run: "project_batchRestore stamp opr ids db = Inr (out, db')" and ok: "fin_ok e db"
  let ?ps = "filter (\<lambda>p. pr_id p \<in> set ids \<and> pr_deletedAt p \<noteq> None) (fd_projects db)"
  let ?S = "pr_id ` set ?ps"
  let ?f = "\<lambda>p. bump_revision (p\<lparr>pr_deletedBy := None, pr_deletedAt := None\<rparr>)"
  let ?new = "map (\<lambda>row. project_change (pr_id row) opr EDIT (Some ''deletedAt'')
      (JObj [(''deletedAt'', json_opt stamp (pr_deletedAt row))]) JNull) ?ps"
  have db': "db' = db\<lparr>fd_projects := update_where (\<lambda>p. pr_id p \<in> ?S) ?f (fd_projects db), fd_operations := fd_operations db @ ?new\<rparr>"
    and checked: "list_all (\<lambda>p. project_ok (bump_revision p)) ?ps"
    using run by (auto simp: project_batchRestore_def Let_def bindR_Inr_iff dest!: writes_Inr split: if_splits)
  have "advances db db'" by (rule marked [OF db']) (auto simp: bump_revision_def project_change_def image_image)
  moreover have "fin_ok e (db\<lparr>fd_projects := update_where (\<lambda>p. pr_id p \<in> ?S) ?f (fd_projects db)\<rparr>)"
  proof (rule marks_ok [OF ok])
    show "project_ok (?f p)" if "p \<in> set (fd_projects db)" "pr_id p \<in> ?S" for p
    proof -
      have "distinct (map pr_id (fd_projects db))" using ok by (simp add: fin_ok_def projects_ok_def)
      then have "p \<in> set ?ps" using that by (auto simp: distinct_map dest: inj_onD)
      then have "project_ok (bump_revision p)" using checked by (simp add: list_all_iff)
      then show ?thesis by (simp add: project_ok_def bump_revision_def)
    qed
  qed (simp_all add: project_key_def bump_revision_def)
  then have "fin_ok e db'" unfolding db' by (simp add: fin_ok_def)
  ultimately show "fin_ok e db' \<and> advances db db'" by simp
qed

section \<open>Operations on amounts\<close>

lemma touch_project_facts:
  "touch_project opr i db = Inr db' \<Longrightarrow> updateProject i (\<lambda>p. (bump_revision p)\<lparr>pr_updatedBy := Some (fst opr)\<rparr>) db = Inr db'"
  by (simp add: touch_project_def)

lemma touch_ok:
  assumes "touch_project opr i db = Inr db'" and "fin_ok e db"
  shows "fin_ok e db'"
  by (rule updateProject_ok [OF touch_project_facts [OF assms(1)] _ _ assms(2)])
     (simp_all add: bump_revision_def live_key [OF assms(2)])

text \<open>A change of the amounts of one project, journaled, and followed by the rise of its revision.\<close>

lemma detail_change_sound:
  assumes ok: "fin_ok e db1" and change: "confined {i} db db1" "\<And>j. findProject j db1 = findProject j db"
      "fd_operations db1 = fd_operations db"
    and w: "writeProjectChange (project_change i opr EDIT field b a) db1 = Inr db2" and touch: "touch_project opr i db2 = Inr db'"
  shows "fin_ok e db' \<and> advances db db'"
proof
  have db2: "db2 = db1\<lparr>fd_operations := fd_operations db @ [project_change i opr EDIT field b a]\<rparr>"
    using w change(3) by (simp add: writeProjectChange_Inr)
  have "fin_ok e db2" using ok by (simp add: db2)
  then show "fin_ok e db'" by (rule touch_ok [OF touch])
  have "confined {i} db db2" by (rule confined_trans [OF change(1)]) (simp add: confinedI db2)
  moreover have "findProject i db2 = findProject i db" using change(2) [of i] by (simp add: db2 findProject_def)
  ultimately show "advances db db'"
    by (intro raised [OF touch_project_facts [OF touch], where new = "[project_change i opr EDIT field b a]"])
       (use updateProject_confined(4) [OF touch_project_facts [OF touch]] in
         \<open>simp_all add: bump_revision_def project_change_def db2\<close>)
qed

lemma detail_create_sound: "sound_run e (detail_create e opr i kind item)"
proof (rule sound_runI)
  fix db out db'
  assume run: "detail_create e opr i kind item db = Inr (out, db')" and ok: "fin_ok e db"
  obtain amount d remark created db1 db2 where
    ins: "insertDetail kind \<lparr>ad_id = 0, ad_projectId = i, ad_amount = numeric2 amount, ad_occurredDate = d, ad_remark = remark\<rparr> db
      = Inr (created, db1)"
    and w: "writeProjectChange (project_change i opr EDIT (Some (detail_field kind)) JNull (detailSnapshot created)) db1 = Inr db2"
    and t: "touch_project opr i db2 = Inr db'"
    using run by (auto simp: detail_create_def runDetailChange_def bindR_Inr_iff)
  show "fin_ok e db' \<and> advances db db'"
    using insertDetail_confined [OF ins] by (intro detail_change_sound [OF insertDetail_ok [OF ins ok] _ _ _ w t]) simp_all
qed

lemma set_details_confined:
  assumes "\<And>j. j \<noteq> i \<Longrightarrow> filter (\<lambda>r. ad_projectId r = j) rs = filter (\<lambda>r. ad_projectId r = j) (fd_details db k)"
  shows "confined {i} db (set_details k rs db)"
  using assms by (auto simp: confined_def same_project_def set_details_def findProject_def projectDetails_def)

lemma findDetail_facts:
  assumes "findDetail kind detailId i db = Some r" and "fin_ok e db"
  shows "ad_projectId r = i" and "r' \<in> set (fd_details db kind) \<Longrightarrow> ad_id r' = detailId \<Longrightarrow> r' = r"
proof -
  have r: "r \<in> set (fd_details db kind)" "ad_id r = detailId" "ad_projectId r = i"
    using assms(1) by (auto simp: findDetail_def find_Some_iff)
  show "ad_projectId r = i" by (fact r(3))
  have "distinct (map ad_id (fd_details db kind))" using assms(2) by (simp add: fin_ok_def details_ok_def)
  then show "r' \<in> set (fd_details db kind) \<Longrightarrow> ad_id r' = detailId \<Longrightarrow> r' = r"
    using r by (metis distinct_map inj_onD)
qed

lemma detail_update_sound: "sound_run e (detail_update e opr i kind detailId item)"
proof (rule sound_runI)
  fix db out db'
  assume run: "detail_update e opr i kind detailId item db = Inr (out, db')" and ok: "fin_ok e db"
  show "fin_ok e db' \<and> advances db db'"
  proof (cases "db' = db")
    case False
    then obtain r amount d remark db2 f where r: "findDetail kind detailId i db = Some r" and am: "amount_ok (numeric2 amount)"
      and f: "f = (\<lambda>r. r\<lparr>ad_amount := numeric2 amount, ad_occurredDate := d, ad_remark := remark\<rparr>)"
      and w: "writeProjectChange (project_change i opr EDIT (Some (detail_field kind)) (detailSnapshot r) (detailSnapshot (f r)))
        (set_details kind (update_where (\<lambda>r. ad_id r = detailId) f (fd_details db kind)) db) = Inr db2"
      and t: "touch_project opr i db2 = Inr db'"
      using run by (auto simp: detail_update_def runDetailChange_def bindR_Inr_iff Let_def split: option.splits if_splits)
    note rf = findDetail_facts [OF r ok]
    have "filter (\<lambda>r. ad_projectId r = j) (update_where (\<lambda>r. ad_id r = detailId) f rs) = filter (\<lambda>r. ad_projectId r = j) rs"
      if "j \<noteq> i" "set rs \<subseteq> set (fd_details db kind)" for j rs
      using that(2) rf that(1) by (induction rs) (auto simp: update_where_Cons f)
    then have "confined {i} db (set_details kind (update_where (\<lambda>r. ad_id r = detailId) f (fd_details db kind)) db)"
      by (intro set_details_confined) simp
    moreover have "fin_ok e (set_details kind (update_where (\<lambda>r. ad_id r = detailId) f (fd_details db kind)) db)"
      by (intro set_details_ok [OF ok] details_ok_update) (simp_all add: f am)
    ultimately show ?thesis
      by (intro detail_change_sound [OF _ _ _ _ w t]) (simp_all add: set_details_def findProject_def)
  qed (use ok in simp)
qed

lemma detail_remove_sound: "sound_run e (detail_remove e opr i kind detailId)"
proof (rule sound_runI)
  fix db out db'
  assume run: "detail_remove e opr i kind detailId db = Inr (out, db')" and ok: "fin_ok e db"
  obtain r db2 where r: "findDetail kind detailId i db = Some r"
    and w: "writeProjectChange (project_change i opr EDIT (Some (detail_field kind)) (detailSnapshot r) JNull)
      (set_details kind (filter (\<lambda>r. ad_id r \<noteq> detailId) (fd_details db kind)) db) = Inr db2"
    and t: "touch_project opr i db2 = Inr db'"
    using run by (auto simp: detail_remove_def runDetailChange_def bindR_Inr_iff Let_def split: option.splits)
  note rf = findDetail_facts [OF r ok]
  have "filter (\<lambda>r. ad_projectId r = j) (filter (\<lambda>r. ad_id r \<noteq> detailId) (fd_details db kind))
      = filter (\<lambda>r. ad_projectId r = j) (fd_details db kind)" if "j \<noteq> i" for j
    unfolding filter_filter using that rf by (intro filter_cong) auto
  then have "confined {i} db (set_details kind (filter (\<lambda>r. ad_id r \<noteq> detailId) (fd_details db kind)) db)"
    by (intro set_details_confined)
  moreover have "fin_ok e (set_details kind (filter (\<lambda>r. ad_id r \<noteq> detailId) (fd_details db kind)) db)"
    by (intro set_details_ok [OF ok] details_ok_filter)
  ultimately show "fin_ok e db' \<and> advances db db'"
    by (intro detail_change_sound [OF _ _ _ _ w t]) (simp_all add: set_details_def findProject_def)
qed

section \<open>Cells and the dictionary\<close>

lemma write_facts [simp]:
  "pr_id (write_text x t p) = pr_id p" "pr_id (write_money x m p) = pr_id p" "pr_id (write_date x d p) = pr_id p" "pr_id (write_ref x r p) = pr_id p"
  "pr_dataRevision (write_text x t p) = pr_dataRevision p" "pr_dataRevision (write_money x m p) = pr_dataRevision p"
  "pr_dataRevision (write_date x d p) = pr_dataRevision p" "pr_dataRevision (write_ref x r p) = pr_dataRevision p"
  "pr_name (write_text x t p) = pr_name p" "pr_name (write_money x m p) = pr_name p" "pr_name (write_date x d p) = pr_name p" "pr_name (write_ref x r p) = pr_name p"
  "pr_businessKey (write_text x t p) = pr_businessKey p" "pr_businessKey (write_money x m p) = pr_businessKey p"
  "pr_businessKey (write_date x d p) = pr_businessKey p" "pr_businessKey (write_ref x r p) = pr_businessKey p"
  by (simp_all add: write_text_def write_money_def write_date_def write_ref_def Let_def split: option.splits)

lemma resolveCellValue_facts:
  assumes "resolveCellValue e project field type value db = Inr (w, v)"
  shows "pr_id (w p) = pr_id p \<and> pr_dataRevision (w p) = pr_dataRevision p
    \<and> (pr_businessKey project = normalizeProjectName e (pr_name project)
        \<longrightarrow> pr_businessKey (w project) = normalizeProjectName e (pr_name (w project)))"
  using assms
  by (auto simp: resolveCellValue_def cell_string_def cell_docs_def cell_ref_def bindR_Inr_iff
      split: cell_type.splits json.splits option.splits if_splits)

lemma cellSave_sound: "sound_run e (cellSave e opr i field value)"
proof (rule sound_runI)
  fix db out db'
  assume run: "cellSave e opr i field value db = Inr (out, db')" and ok: "fin_ok e db"
  show "fin_ok e db' \<and> advances db db'"
  proof (cases "db' = db")
    case False
    then obtain type project w v b db1 where p: "findProject i db = Some project"
      and res: "resolveCellValue e project field type value db = Inr (w, v)"
      and up: "updateProject i (\<lambda>p. (bump_revision (w p))\<lparr>pr_updatedBy := Some (fst opr)\<rparr>) db = Inr db1"
      and j: "writeProjectChange (project_change i opr EDIT (Some field) b v) db1 = Inr db'"
      using run by (auto simp: cellSave_def Let_def bindR_Inr_iff live_project_Inr split: option.splits if_splits)
    note wf = resolveCellValue_facts [OF res]
    have "fin_ok e db1"
      by (rule updateProject_ok [OF up _ _ ok]) (use wf live_key [OF ok p] p in \<open>simp_all add: bump_revision_def\<close>)
    moreover have "advances db db'"
      by (rule raised [OF up, where new = "[project_change i opr EDIT (Some field) b v]"])
         (use j updateProject_confined(4) [OF up] wf in
           \<open>simp_all add: bump_revision_def writeProjectChange_Inr project_change_def confinedI\<close>)
    ultimately show ?thesis using j by (auto simp: writeProjectChange_Inr)
  qed (use ok in simp)
qed

lemma dict_frame_sound:
  assumes "\<And>db out db'. run db = Inr (out, db') \<Longrightarrow> fd_projects db' = fd_projects db \<and> fd_details db' = fd_details db
      \<and> fd_operations db' = fd_operations db \<and> fd_seq db' FProjects = fd_seq db FProjects \<and> (\<forall>k. fd_seq db' (FDetails k) = fd_seq db (FDetails k))"
  shows "sound_run e run"
proof (rule sound_runI)
  fix db out db'
  assume run: "run db = Inr (out, db')" and ok: "fin_ok e db"
  note same = assms [OF run]
  have "same_project db db' i" for i using same by (intro same_projectI) simp_all
  then have "advances db db'" using same by (auto simp: advances_def)
  moreover have "fin_ok e db'" by (rule fin_ok_cong [OF _ _ _ _ ok]) (use same in simp_all)
  ultimately show "fin_ok e db' \<and> advances db db'" by simp
qed

lemma dict_sound:
  "sound_run e (fin_dict_create e unclassified type name semantic order)"
  "sound_run e (fin_dict_update e unclassified i name semantic order status)"
  "sound_run e (fin_dict_batchDelete ids)"
  by (rule dict_frame_sound,
      auto simp: fin_dict_create_def fin_dict_update_def fin_dict_batchDelete_def fin_nextval_def Let_def bindR_Inr_iff
        split: option.splits if_splits)+

end
