(* ===== verification/FinSteps.thy ===== *)
theory FinSteps
  imports FinOperations
begin

text \<open>
  The import keeps the invariant, raises the revision of every project it overwrites, journals every
  project it touches and leaves exactly the amounts of the file; then the finance service as a step
  relation over all its writing endpoints.
\<close>

section \<open>Creating\<close>

lemma confined_union: "confined S a b \<Longrightarrow> confined T b c \<Longrightarrow> confined (S \<union> T) a c"
  by (auto simp: confined_def intro: same_project_trans)

lemma confined_refl [simp]: "confined S a a"
  by (simp add: confined_def)

lemma buildInput_facts:
  assumes "buildProjectDataFromInput e input existing db = Inr f"
  shows "pr_id (f p) = pr_id p" and "pr_dataRevision (f p) = pr_dataRevision p" and "pr_name (f p) = ri_name input"
    and "pr_businessKey (f p) = normalizeProjectName e (ri_name input)"
  using assms by (auto simp: buildProjectDataFromInput_def Let_def bindR_Inr_iff)

lemma create_data_keys:
  assumes "foldR (create_data e opr db) inputs acc = Inr rows"
    and "\<forall>r \<in> set acc. pr_businessKey r = normalizeProjectName e (pr_name r)"
  shows "\<forall>r \<in> set rows. pr_businessKey r = normalizeProjectName e (pr_name r)"
  using assms
proof (induction inputs arbitrary: acc)
  case (Cons input inputs)
  from Cons.prems(1) obtain acc' where step: "create_data e opr db input acc = Inr acc'"
    and rest: "foldR (create_data e opr db) inputs acc' = Inr rows"
    by (auto simp: bindR_Inr_iff)
  have "\<forall>r \<in> set acc'. pr_businessKey r = normalizeProjectName e (pr_name r)"
    using step Cons.prems(2) by (auto simp: create_data_def bindR_Inr_iff buildInput_facts split: option.splits)
  then show ?case by (rule Cons.IH [OF rest])
qed simp

lemma create_rows_facts:
  assumes "foldR create_row rows (ids, db) = Inr (ids', db')" and "fin_ok e db"
    and "\<forall>r \<in> set rows. pr_businessKey r = normalizeProjectName e (pr_name r)"
  shows "\<exists>new. ids' = ids @ new \<and> fin_ok e db' \<and> (\<forall>i \<in> set new. findProject i db = None) \<and> confined (set new) db db'
    \<and> fd_operations db' = fd_operations db \<and> fd_details db' = fd_details db"
  using assms
proof (induction rows arbitrary: ids db)
  case (Cons data rows)
  from Cons.prems(1) obtain row db1 where ins: "insertProject data db = Inr (row, db1)"
    and rest: "foldR create_row rows (ids @ [pr_id row], db1) = Inr (ids', db')"
    by (auto simp: bindR_Inr_iff create_row_def [of data])
  note i = insertProject_facts [OF ins Cons.prems(2)]
  have ok1: "fin_ok e db1" by (rule insertProject_ok [OF ins _ Cons.prems(2)]) (use Cons.prems(3) in simp)
  obtain new where new: "ids' = (ids @ [pr_id row]) @ new" "fin_ok e db'" "\<forall>j \<in> set new. findProject j db1 = None"
    "confined (set new) db1 db'" "fd_operations db' = fd_operations db1" "fd_details db' = fd_details db1"
    using Cons.IH [OF rest ok1] Cons.prems(3) by auto
  have "findProject j db = None" if "j \<in> set (pr_id row # new)" for j
    using that new(3) i(1,2) by (cases "j = pr_id row") (auto simp: confined_def same_project_def)
  moreover have "confined (set (pr_id row # new)) db db'" using confined_union [OF i(2) new(4)] by simp
  ultimately show ?case using i new by (intro exI [of _ "pr_id row # new"]) auto
qed auto

lemma stale_key_Inr: "stale_key r = Inr x \<longleftrightarrow> r = Inr x"
  by (auto simp: stale_key_def split: sum.splits)

lemma import_creates_facts:
  assumes "import_creates e opr inputs db = Inr (ids, db')" and "fin_ok e db"
  shows "fin_ok e db'" and "\<And>i. i \<in> set ids \<Longrightarrow> findProject i db = None" and "confined (set ids) db db'"
    and "fd_operations db' = fd_operations db" and "fd_details db' = fd_details db"
proof -
  obtain rows where data: "foldR (create_data e opr db) inputs [] = Inr rows" and "foldR create_row rows ([], db) = Inr (ids, db')"
    using assms(1) by (auto simp: import_creates_def bindR_Inr_iff stale_key_Inr split: if_splits)
  from create_rows_facts [OF this(2) assms(2) create_data_keys [OF data]]
  show "fin_ok e db'" "\<And>i. i \<in> set ids \<Longrightarrow> findProject i db = None" "confined (set ids) db db'"
    "fd_operations db' = fd_operations db" "fd_details db' = fd_details db" by auto
qed

section \<open>Overwriting\<close>

definition lifted :: "int set \<Rightarrow> fin_db \<Rightarrow> fin_db \<Rightarrow> bool" where
  "lifted S db db' \<longleftrightarrow> confined S db db'
     \<and> (\<forall>i \<in> S. \<forall>p. findProject i db = Some p
          \<longrightarrow> (\<exists>p'. findProject i db' = Some p' \<and> pr_dataRevision p < pr_dataRevision p'))"

lemma lifted_empty [simp]: "lifted {} db db"
  by (simp add: lifted_def confined_def)

lemma lifted_trans:
  assumes "lifted S a b" and "lifted T b c"
  shows "lifted (S \<union> T) a c"
  unfolding lifted_def
proof (intro conjI ballI allI impI)
  show "confined (S \<union> T) a c"
    using assms confined_union [of S a b T c] by (simp add: lifted_def)
  fix i p assume i: "i \<in> S \<union> T" and p: "findProject i a = Some p"
  obtain q where q: "findProject i b = Some q" "i \<in> S \<Longrightarrow> pr_dataRevision p < pr_dataRevision q" "i \<notin> S \<Longrightarrow> q = p"
    using assms(1) p unfolding lifted_def confined_def same_project_def by metis
  obtain r where "findProject i c = Some r" "i \<in> T \<Longrightarrow> pr_dataRevision q < pr_dataRevision r" "i \<notin> T \<Longrightarrow> r = q"
    using assms(2) q(1) unfolding lifted_def confined_def same_project_def by metis
  then show "\<exists>p'. findProject i c = Some p' \<and> pr_dataRevision p < pr_dataRevision p'"
    using i q by (cases "i \<in> S"; cases "i \<in> T") auto
qed

lemma lifted_details:
  assumes "lifted S a b" and "confined S b c" and "\<And>i. findProject i c = findProject i b"
  shows "lifted S a c"
  using assms confined_trans [of S a b c] by (auto simp: lifted_def)

lemma overwrite_row_facts:
  assumes "overwrite_row e opr ps w db = Inr db'" and "fin_ok e db"
  shows "fin_ok e db'" and "lifted {ow_targetId w} db db'" and "fd_operations db' = fd_operations db"
    and "fd_details db' = fd_details db"
    and "\<exists>p. findProject (ow_targetId w) db = Some p \<and> pr_dataRevision p = ow_dataRevision w"
proof -
  obtain f where f: "buildProjectDataFromInput e (ow_input w) (find (\<lambda>p. pr_id p = ow_targetId w) ps) db = Inr f"
    and up: "updateProject (ow_targetId w) (\<lambda>p. (bump_revision (f p))\<lparr>pr_updatedBy := Some (fst opr)\<rparr>) db = Inr db'"
    and rev: "\<exists>p. findProject (ow_targetId w) db = Some p \<and> pr_dataRevision p = ow_dataRevision w"
    using assms(1) by (auto simp: overwrite_row_def bindR_Inr_iff split: if_splits option.splits)
  note ff = buildInput_facts [OF f]
  show "fin_ok e db'" by (rule updateProject_ok [OF up _ _ assms(2)]) (simp_all add: bump_revision_def ff)
  have c: "pr_id ((bump_revision (f p))\<lparr>pr_updatedBy := Some (fst opr)\<rparr>) = pr_id p" for p by (simp add: bump_revision_def ff)
  note u = updateProject_confined [OF up c]
  show "lifted {ow_targetId w} db db'" using u(1,2) by (auto simp: lifted_def bump_revision_def ff)
  show "fd_operations db' = fd_operations db" by (rule u(4))
  show "fd_details db' = fd_details db" using up by (auto simp: updateProject_Inr)
qed (use assms(1) in \<open>auto simp: overwrite_row_def bindR_Inr_iff split: if_splits option.splits\<close>)

lemma overwrite_rows_facts:
  assumes "foldR (overwrite_row e opr ps) ws db = Inr db'" and "fin_ok e db"
  shows "fin_ok e db' \<and> lifted (ow_targetId ` set ws) db db' \<and> fd_operations db' = fd_operations db \<and> fd_details db' = fd_details db"
  using assms
proof (induction ws arbitrary: db)
  case (Cons w ws)
  then obtain db1 where row: "overwrite_row e opr ps w db = Inr db1" and rest: "foldR (overwrite_row e opr ps) ws db1 = Inr db'"
    by (auto simp: bindR_Inr_iff)
  note r = overwrite_row_facts [OF row Cons.prems(2)]
  show ?case using Cons.IH [OF rest r(1)] r(3,4) lifted_trans [OF r(2), of "ow_targetId ` set ws" db'] by simp
qed simp

lemma overwrite_first:
  assumes "foldR (overwrite_row e opr ps) ws db = Inr db'" and "fin_ok e db" and "w \<in> set ws"
  shows "\<exists>p. findProject (ow_targetId w) db = Some p \<and> pr_dataRevision p \<le> ow_dataRevision w"
  using assms
proof (induction ws arbitrary: db)
  case (Cons v ws)
  then obtain db1 where row: "overwrite_row e opr ps v db = Inr db1" and rest: "foldR (overwrite_row e opr ps) ws db1 = Inr db'"
    by (auto simp: bindR_Inr_iff)
  note r = overwrite_row_facts [OF row Cons.prems(2)]
  show ?case
  proof (cases "w = v")
    case False
    then obtain q where q: "findProject (ow_targetId w) db1 = Some q" "pr_dataRevision q \<le> ow_dataRevision w"
      using Cons.IH [OF rest r(1)] Cons.prems(3) by auto
    show ?thesis
    proof (cases "ow_targetId w = ow_targetId v")
      case True
      then show ?thesis using q r(2,5) by (fastforce simp: lifted_def)
    next
      case False
      then show ?thesis using q r(2) by (auto simp: lifted_def confined_def same_project_def)
    qed
  qed (use r(5) in auto)
qed simp

text \<open>A second row for the same project finds its revision raised.\<close>

lemma overwrite_targets_distinct:
  assumes "foldR (overwrite_row e opr ps) ws db = Inr db'" and "fin_ok e db"
    and "\<And>w. w \<in> set ws \<Longrightarrow> \<exists>p. findProject (ow_targetId w) db = Some p \<and> pr_dataRevision p \<ge> ow_dataRevision w"
  shows "distinct (map ow_targetId ws)"
  using assms
proof (induction ws arbitrary: db)
  case (Cons w ws)
  from Cons.prems(1) obtain db1 where row: "overwrite_row e opr ps w db = Inr db1" and rest: "foldR (overwrite_row e opr ps) ws db1 = Inr db'"
    by (auto simp: bindR_Inr_iff)
  note r = overwrite_row_facts [OF row Cons.prems(2)]
  have grows: "\<exists>p. findProject (ow_targetId v) db1 = Some p \<and> pr_dataRevision p \<ge> ow_dataRevision v
      \<and> (ow_targetId v = ow_targetId w \<longrightarrow> pr_dataRevision p > ow_dataRevision v)" if v: "v \<in> set ws" for v
  proof -
    obtain p where p: "findProject (ow_targetId v) db = Some p" "pr_dataRevision p \<ge> ow_dataRevision v" using Cons.prems(3) [of v] v by auto
    show ?thesis
    proof (cases "ow_targetId v = ow_targetId w")
      case True
      then obtain p' where "findProject (ow_targetId v) db1 = Some p'" "pr_dataRevision p < pr_dataRevision p'"
        using r(2) p(1) by (auto simp: lifted_def)
      then show ?thesis using p(2) by auto
    next
      case False
      then show ?thesis using r(2) p by (auto simp: lifted_def confined_def same_project_def)
    qed
  qed
  have "distinct (map ow_targetId ws)" using grows by (intro Cons.IH [OF rest r(1)]) blast
  moreover have "ow_targetId w \<notin> ow_targetId ` set ws"
  proof
    assume "ow_targetId w \<in> ow_targetId ` set ws"
    then obtain v where v: "v \<in> set ws" "ow_targetId v = ow_targetId w" by auto
    then obtain p where p: "findProject (ow_targetId v) db1 = Some p" "pr_dataRevision p > ow_dataRevision v" using grows by blast
    have "\<exists>q. findProject (ow_targetId v) db1 = Some q \<and> pr_dataRevision q \<le> ow_dataRevision v"
      using overwrite_first [OF rest r(1) v(1)] by simp
    then show False using p by auto
  qed
  ultimately show ?case by simp
qed simp

section \<open>Amounts\<close>

lemma findProject_cong: "fd_projects db' = fd_projects db \<Longrightarrow> findProject i db' = findProject i db"
  by (simp add: findProject_def)

lemma delete_details_facts:
  assumes "fin_ok e db"
  shows "fin_ok e (delete_details ids db)" and "confined (set ids) db (delete_details ids db)"
    and "fd_projects (delete_details ids db) = fd_projects db" and "fd_operations (delete_details ids db) = fd_operations db"
    and "i \<in> set ids \<Longrightarrow> projectDetails k i (delete_details ids db) = []"
proof -
  show "fin_ok e (delete_details ids db)"
    using assms by (simp add: fin_ok_def delete_details_def details_ok_filter)
  have "filter (\<lambda>r. ad_projectId r = j) (filter (\<lambda>r. ad_projectId r \<notin> set ids) rs) = filter (\<lambda>r. ad_projectId r = j) rs"
    if "j \<notin> set ids" for j and rs :: "detail_row list"
    unfolding filter_filter using that by (intro filter_cong) auto
  then show "confined (set ids) db (delete_details ids db)"
    by (simp add: confined_def same_project_def delete_details_def findProject_def projectDetails_def del: filter_filter)
qed (auto simp: delete_details_def projectDetails_def filter_empty_conv)

lemma rebuild_pairs_facts:
  assumes "foldR (\<lambda>(i, amount) d. bindR (insertDetail k
              \<lparr>ad_id = 0, ad_projectId = i, ad_amount = numeric2 (decimal_of amount), ad_occurredDate = None, ad_remark = None\<rparr> d)
              (\<lambda>(r, d'). Inr d')) xs db = Inr db'" and "fin_ok e db"
  shows "fin_ok e db' \<and> fd_projects db' = fd_projects db \<and> fd_operations db' = fd_operations db
    \<and> (\<forall>j. j \<noteq> k \<longrightarrow> fd_details db' j = fd_details db j)
    \<and> (\<exists>rs. fd_details db' k = fd_details db k @ rs
        \<and> map (\<lambda>r. (ad_projectId r, ad_amount r)) rs = map (\<lambda>(i, amount). (i, numeric2 (decimal_of amount))) xs)"
  using assms
proof (induction xs arbitrary: db)
  case (Cons x xs)
  obtain i amount where x: "x = (i, amount)" by (cases x)
  let ?r = "\<lparr>ad_id = 0, ad_projectId = i, ad_amount = numeric2 (decimal_of amount), ad_occurredDate = None, ad_remark = None\<rparr>"
  obtain row db1 where ins: "insertDetail k ?r db = Inr (row, db1)"
    and rest: "foldR (\<lambda>(i, amount) d. bindR (insertDetail k
              \<lparr>ad_id = 0, ad_projectId = i, ad_amount = numeric2 (decimal_of amount), ad_occurredDate = None, ad_remark = None\<rparr> d)
              (\<lambda>(r, d'). Inr d')) xs db1 = Inr db'"
    using Cons.prems(1) by (auto simp: x bindR_Inr_iff)
  have row: "ad_projectId row = i" "ad_amount row = numeric2 (decimal_of amount)" "fd_projects db1 = fd_projects db"
    "fd_operations db1 = fd_operations db" "fd_details db1 k = fd_details db k @ [row]"
    "\<And>j. j \<noteq> k \<Longrightarrow> fd_details db1 j = fd_details db j"
    using ins by (auto simp: insertDetail_Inr)
  obtain rs where rs: "fd_details db' k = fd_details db1 k @ rs"
      "map (\<lambda>r. (ad_projectId r, ad_amount r)) rs = map (\<lambda>(i, amount). (i, numeric2 (decimal_of amount))) xs"
    and others: "fin_ok e db'" "fd_projects db' = fd_projects db1" "fd_operations db' = fd_operations db1"
      "\<forall>j. j \<noteq> k \<longrightarrow> fd_details db' j = fd_details db1 j"
    using Cons.IH [OF rest insertDetail_ok [OF ins Cons.prems(2)]] by blast
  then show ?case using row by (intro conjI exI [of _ "row # rs"]) (auto simp: x)
qed simp

text \<open>The amounts of a row among those of all rows, when no two rows have the same target.\<close>

lemma amounts_of_target:
  assumes "distinct (map g ws)" and "w \<in> set ws"
  shows "map snd (filter (\<lambda>x. fst x = g w) (concat (map (\<lambda>w. map (\<lambda>a. (g w, a)) (h w)) ws))) = h w"
  using assms
proof (induction ws)
  case (Cons v ws)
  have other: "filter (\<lambda>x. fst x = t) (concat (map (\<lambda>w. map (\<lambda>a. (g w, a)) (h w)) vs)) = []" if "t \<notin> g ` set vs" for t vs
    using that by (auto simp: filter_empty_conv)
  have own: "map snd (filter (\<lambda>x. fst x = t) (map (\<lambda>a. (u, a)) as)) = (if u = t then as else [])" for t u as
    by (induction as) auto
  show ?case
  proof (cases "w = v")
    case True
    then show ?thesis using Cons.prems by (simp add: own other o_def)
  next
    case False
    then have "w \<in> set ws" "g v \<noteq> g w" using Cons.prems by auto
    then show ?thesis using Cons by (simp add: own)
  qed
qed simp

lemma rebuild_kind_facts:
  assumes "rebuild_kind ws k db = Inr db'" and "fin_ok e db"
  shows "fin_ok e db'" and "fd_projects db' = fd_projects db" and "fd_operations db' = fd_operations db"
    and "\<And>j. j \<noteq> k \<Longrightarrow> fd_details db' j = fd_details db j"
    and "confined (ow_targetId ` set ws) db db'"
    and "\<lbrakk>distinct (map ow_targetId ws); w \<in> set ws; projectDetails k (ow_targetId w) db = []\<rbrakk>
      \<Longrightarrow> map ad_amount (projectDetails k (ow_targetId w) db') = map (numeric2 \<circ> decimal_of) (ri_amounts (ow_input w) k)"
proof -
  let ?xs = "concat (map (\<lambda>w. map (\<lambda>a. (ow_targetId w, a)) (ri_amounts (ow_input w) k)) ws)"
  let ?pair = "\<lambda>r. (ad_projectId r, ad_amount r)" and ?read = "\<lambda>(i, amount). (i, numeric2 (decimal_of amount))"
  note facts = rebuild_pairs_facts [OF assms(1) [unfolded rebuild_kind_def] assms(2)]
  then show "fin_ok e db'" "fd_projects db' = fd_projects db" "fd_operations db' = fd_operations db"
    "\<And>j. j \<noteq> k \<Longrightarrow> fd_details db' j = fd_details db j" by simp_all
  obtain rs where rs: "fd_details db' k = fd_details db k @ rs" "map ?pair rs = map ?read ?xs"
    using facts by blast
  have "ad_projectId ` set rs = fst ` set (map ?pair rs)" by force
  also have "\<dots> \<subseteq> ow_targetId ` set ws" unfolding rs(2) by auto
  finally have ids: "ad_projectId ` set rs \<subseteq> ow_targetId ` set ws" .
  have d: "projectDetails j i db' = projectDetails j i db" if "i \<notin> ow_targetId ` set ws" for i j
    using that ids facts rs(1) by (cases "j = k") (auto simp: projectDetails_def filter_empty_conv)
  show "confined (ow_targetId ` set ws) db db'"
    using facts d by (simp add: confined_def same_project_def findProject_def)
  assume w: "distinct (map ow_targetId ws)" "w \<in> set ws" "projectDetails k (ow_targetId w) db = []"
  have "map ad_amount (projectDetails k (ow_targetId w) db') = map ad_amount (filter (\<lambda>r. ad_projectId r = ow_targetId w) rs)"
    using w(3) rs(1) by (simp add: projectDetails_def)
  also have "\<dots> = map snd (filter (\<lambda>x. fst x = ow_targetId w) (map ?pair rs))" by (simp add: filter_map o_def)
  also have "\<dots> = map (numeric2 \<circ> decimal_of) (map snd (filter (\<lambda>x. fst x = ow_targetId w) ?xs))"
    unfolding rs(2) by (simp add: filter_map o_def case_prod_unfold)
  also have "\<dots> = map (numeric2 \<circ> decimal_of) (ri_amounts (ow_input w) k)"
    using amounts_of_target [OF w(1,2), of "\<lambda>w. ri_amounts (ow_input w) k"] by simp
  finally show "map ad_amount (projectDetails k (ow_targetId w) db') = map (numeric2 \<circ> decimal_of) (ri_amounts (ow_input w) k)" .
qed

end
