(* ===== verification/FinService.thy ===== *)
theory FinService
  imports FinSteps
begin

text \<open>
  The transaction of the import as a whole, and the finance service: every writing endpoint runs
  through the idempotent execution; one step is one such request.
\<close>

section \<open>The transaction of the import\<close>

lemma target_live:
  "\<not> target_stale db w \<longleftrightarrow>
     (\<exists>p. findProject (ow_targetId w) db = Some p \<and> pr_deletedAt p = None \<and> pr_dataRevision p = ow_dataRevision w)"
  by (auto simp: target_stale_def split: option.splits)

lemma import_overwrites_facts:
  assumes "import_overwrites e opr ws db = Inr db'" and ok: "fin_ok e db"
  shows "fin_ok e db'" and "lifted (ow_targetId ` set ws) db db'" and "fd_operations db' = fd_operations db"
    and "w \<in> set ws \<Longrightarrow> \<not> target_stale db w"
    and "w \<in> set ws \<Longrightarrow> map ad_amount (projectDetails k (ow_targetId w) db') = map (numeric2 \<circ> decimal_of) (ri_amounts (ow_input w) k)"
proof -
  obtain db1 db2 db3 where live: "\<And>w. w \<in> set ws \<Longrightarrow> \<not> target_stale db w"
    and r0: "foldR (overwrite_row e opr (fd_projects db)) ws db = Inr db1"
    and r1: "rebuild_kind ws Invoice (delete_details (map ow_targetId ws) db1) = Inr db2"
    and r2: "rebuild_kind ws Receipt db2 = Inr db3" and r3: "rebuild_kind ws SubcontractPayment db3 = Inr db'"
    using assms(1) by (auto simp: import_overwrites_def bindR_Inr_iff split: if_splits)
  show "w \<in> set ws \<Longrightarrow> \<not> target_stale db w" by (rule live)
  have f0: "fin_ok e db1" "lifted (ow_targetId ` set ws) db db1" "fd_operations db1 = fd_operations db"
    using overwrite_rows_facts [OF r0 ok] by simp_all
  note fd = delete_details_facts [where ids = "map ow_targetId ws", OF f0(1)]
  note f1 = rebuild_kind_facts [OF r1 fd(1)]
  note f2 = rebuild_kind_facts [OF r2 f1(1)]
  note f3 = rebuild_kind_facts [OF r3 f2(1)]
  show "fin_ok e db'" by (rule f3(1))
  show "fd_operations db' = fd_operations db" using f0(3) fd(4) f1(3) f2(3) f3(3) by simp
  have "confined (ow_targetId ` set ws) db1 db'"
    using confined_union [OF confined_union [OF confined_union [OF fd(2) f1(5)] f2(5)] f3(5)] by simp
  moreover have "findProject i db' = findProject i db1" for i
    using fd(3) f1(2) f2(2) f3(2) by (intro findProject_cong) simp
  ultimately show "lifted (ow_targetId ` set ws) db db'" by (rule lifted_details [OF f0(2)])
  have dist: "distinct (map ow_targetId ws)"
    using live by (intro overwrite_targets_distinct [OF r0 ok]) (fastforce simp: target_live)
  assume w: "w \<in> set ws"
  have empty: "projectDetails j (ow_targetId w) (delete_details (map ow_targetId ws) db1) = []" for j
    using w by (intro fd(5)) simp
  have keep: "projectDetails j i b = projectDetails j i a" if "fd_details b j = fd_details a j" for i j a b
    using that by (simp add: projectDetails_def)
  show "map ad_amount (projectDetails k (ow_targetId w) db') = map (numeric2 \<circ> decimal_of) (ri_amounts (ow_input w) k)"
  proof (cases k)
    case Invoice
    then show ?thesis using f1(6) [OF dist w empty] keep [OF f2(4) [of Invoice]] keep [OF f3(4) [of Invoice]] by simp
  next
    case Receipt
    then show ?thesis using f2(6) [OF dist w] empty keep [OF f1(4) [of Receipt]] keep [OF f3(4) [of Receipt]] by simp
  next
    case SubcontractPayment
    then show ?thesis
      using f3(6) [OF dist w] empty keep [OF f1(4) [of SubcontractPayment]] keep [OF f2(4) [of SubcontractPayment]] by simp
  qed
qed

lemma applyImport_Inr:
  assumes "applyImport e opr inputs preview choices db = Inr (counts, db')" and "inputs \<noteq> []"
  obtains plan ids db1 db2 where
    "foldR (plan_row preview choices) inputs \<lparr>ip_create = [], ip_overwrite = [], ip_skipped = 0\<rparr> = Inr plan"
    and "import_creates e opr (ip_create plan) db = Inr (ids, db1)"
    and "import_overwrites e opr (ip_overwrite plan) db1 = Inr db2"
    and "db' = db2\<lparr>fd_operations := fd_operations db2 @ import_journal opr preview choices inputs ids (ip_overwrite plan) db1 db2\<rparr>"
    and "counts = (length ids, length (ip_overwrite plan), ip_skipped plan)"
  using assms by (auto simp: applyImport_def bindR_Inr_iff dest!: writes_Inr [where g = "\<lambda>x. x"] split: if_splits)

lemma applyImport_sound:
  assumes "applyImport e opr inputs preview choices db = Inr (counts, db')" and ok: "fin_ok e db"
  shows "fin_ok e db' \<and> advances db db'"
proof (cases "inputs = []")
  case True
  then show ?thesis using assms by (simp add: applyImport_def)
next
  case False
  obtain plan ids db1 db2 where
    "foldR (plan_row preview choices) inputs \<lparr>ip_create = [], ip_overwrite = [], ip_skipped = 0\<rparr> = Inr plan"
    and c: "import_creates e opr (ip_create plan) db = Inr (ids, db1)"
    and o: "import_overwrites e opr (ip_overwrite plan) db1 = Inr db2"
    and db': "db' = db2\<lparr>fd_operations := fd_operations db2 @ import_journal opr preview choices inputs ids (ip_overwrite plan) db1 db2\<rparr>"
    and "counts = (length ids, length (ip_overwrite plan), ip_skipped plan)"
    by (rule applyImport_Inr [OF assms(1) False])
  let ?T = "ow_targetId ` set (ip_overwrite plan)"
  note cf = import_creates_facts [OF c ok]
  note of = import_overwrites_facts [OF o cf(1)]
  have l: "confined ?T db1 db2" using of(2) by (simp add: lifted_def)
  have "advances db db'"
  proof (rule advancesI)
    show "confined (set ids \<union> ?T) db db'"
      using confined_union [OF confined_union [OF cf(3) l], of "{}" db'] by (simp add: confinedI db')
    show "fd_operations db' = fd_operations db @ import_journal opr preview choices inputs ids (ip_overwrite plan) db1 db2"
      using cf(4) of(3) by (simp add: db')
    show "set ids \<union> ?T \<subseteq> jo_projectId ` set (import_journal opr preview choices inputs ids (ip_overwrite plan) db1 db2)"
      by (auto simp: import_journal_def project_change_def image_Un image_image)
    fix i assume i: "i \<in> set ids \<union> ?T"
    show "outgrows db db' i"
    proof (cases "i \<in> set ids")
      case True
      then show ?thesis using cf(2) by (simp add: outgrows_def)
    next
      case False
      then have "i \<in> ?T" "findProject i db1 = findProject i db" using i cf(3) by (auto simp: confined_def same_project_def)
      then show ?thesis using of(2) by (fastforce simp: outgrows_def lifted_def db' findProject_def)
    qed
  qed
  then show ?thesis using of(1) by (simp add: db')
qed

lemma import_run_sound: "sound_run e (import_run e opr unclassified rows errorRows choices seen seen' interrupted)"
  by (rule sound_runI) (auto simp: import_run_def Let_def bindR_Inr_iff dest: applyImport_sound)

text \<open>A row chosen to be overwritten is in the plan.\<close>

lemma plan_keeps:
  assumes "foldR (plan_row preview choices) inputs plan = Inr plan'" and "w \<in> set (ip_overwrite plan)"
  shows "w \<in> set (ip_overwrite plan')"
proof -
  have "set (ip_overwrite p) \<subseteq> set (ip_overwrite p')" if "plan_row preview choices i p = Inr p'" for i p p'
    using that by (auto simp: plan_row_def Let_def split: if_splits option.splits import_decision.splits)
  then show ?thesis using assms
    by (induction inputs arbitrary: plan) (fastforce simp: bindR_Inr_iff)+
qed

lemma plan_overwrites:
  assumes "foldR (plan_row preview choices) inputs plan = Inr plan'" and "input \<in> set inputs"
    and "ri_rowNumber input \<notin> set (pv_created preview)" "pending_row preview (ri_rowNumber input) = Some pending"
    and "choice_of choices (ri_rowNumber input) = Some c" "ic_decision c = OVERWRITE"
  shows "\<exists>w \<in> set (ip_overwrite plan'). ow_input w = input \<and> ow_targetId w = pc_projectId pending
    \<and> ic_dataRevision c = Some (ow_dataRevision w) \<and> (pc_dataLossWarning pending \<longrightarrow> ic_confirmDataLossWarning c)"
  using assms(1,2)
proof (induction inputs arbitrary: plan)
  case (Cons i inputs)
  then obtain p1 where p1: "plan_row preview choices i plan = Inr p1" and rest: "foldR (plan_row preview choices) inputs p1 = Inr plan'"
    by (auto simp: bindR_Inr_iff)
  show ?case
  proof (cases "i = input")
    case True
    let ?w = "\<lambda>v. \<lparr>ow_input = input, ow_targetId = pc_projectId pending, ow_dataRevision = v, ow_confirmed = pc_dataLossWarning pending\<rparr>"
    obtain v where "p1 = plan\<lparr>ip_overwrite := ip_overwrite plan @ [?w v]\<rparr>" "ic_dataRevision c = Some v"
      and warned: "pc_dataLossWarning pending \<longrightarrow> ic_confirmDataLossWarning c"
      using p1 True assms(3-6) by (auto simp: plan_row_def Let_def split: if_splits option.splits)
    then have "?w v \<in> set (ip_overwrite plan')" "ic_dataRevision c = Some (ow_dataRevision (?w v))"
      by (auto intro: plan_keeps [OF rest])
    then show ?thesis using warned by (intro bexI [of _ "?w v"]) simp_all
  qed (use Cons.IH [OF rest] Cons.prems(2) in simp)
qed simp

section \<open>The service\<close>

text \<open>Every writing endpoint, with whatever was asked of it.\<close>

inductive fin_service :: "fin_env \<Rightarrow> (fin_db \<Rightarrow> err + (json outcome \<times> fin_db)) \<Rightarrow> bool" for e where
  Create: "fin_service e (project_create e opr dto)"
| Update: "fin_service e (project_update e opr i dto)"
| BatchDelete: "fin_service e (project_batchDelete opr now ids)"
| BatchRestore: "fin_service e (project_batchRestore stamp opr ids)"
| DetailCreate: "fin_service e (detail_create e opr i kind item)"
| DetailUpdate: "fin_service e (detail_update e opr i kind d item)"
| DetailRemove: "fin_service e (detail_remove e opr i kind d)"
| Cell: "fin_service e (cellSave e opr i field value)"
| Import: "fin_service e (import_run e opr unclassified rows errorRows choices seen seen' interrupted)"
| DictCreate: "fin_service e (fin_dict_create e unclassified type name semantic order)"
| DictUpdate: "fin_service e (fin_dict_update e unclassified i name semantic order status)"
| DictDelete: "fin_service e (fin_dict_batchDelete ids)"

inductive fin_step :: "fin_env \<Rightarrow> fin_db \<Rightarrow> fin_db \<Rightarrow> bool" for e where
  Request: "fin_service e (fo_run opts) \<Longrightarrow> fin_execute opts db = Inr (r, db') \<Longrightarrow> fin_step e db db'"

inductive fin_steps :: "fin_env \<Rightarrow> fin_db \<Rightarrow> fin_db \<Rightarrow> bool" for e where
  Refl: "fin_steps e db db"
| Step: "fin_steps e db db' \<Longrightarrow> fin_step e db' db'' \<Longrightarrow> fin_steps e db db''"

inductive_cases fin_stepE: "fin_step e db db'"

text \<open>The tables as the migrations leave them.\<close>

definition fin_initial :: fin_db where
  "fin_initial =
     \<lparr>fd_projects = [], fd_details = (\<lambda>k. []), fd_operations = [], fd_dicts = [], fd_logs = [], fd_seq = (\<lambda>t. 1)\<rparr>"

lemma fin_initial_ok: "fin_ok e fin_initial"
  by (simp add: fin_ok_def fin_initial_def projects_ok_def details_ok_def)

lemma fin_service_sound: "fin_service e run \<Longrightarrow> sound_run e run"
  by (induction rule: fin_service.induct)
     (simp_all add: project_create_sound project_update_sound project_batchDelete_sound project_batchRestore_sound
       detail_create_sound detail_update_sound detail_remove_sound cellSave_sound import_run_sound dict_sound)

lemma advances_logs: "advances db (d\<lparr>fd_logs := ls\<rparr>) = advances db d"
  by (simp add: advances_def same_project_def outgrows_def findProject_def projectDetails_def)

lemma fin_step_sound:
  assumes "fin_step e db db'" and "fin_ok e db"
  shows "fin_ok e db' \<and> advances db db'"
proof -
  obtain opts r where run: "fin_service e (fo_run opts)" "fin_execute opts db = Inr (r, db')"
    using assms(1) by (auto elim: fin_stepE)
  show ?thesis
    using fin_service_sound [OF run(1)] fin_execute_cases [OF run(2)] assms(2) by (auto simp: sound_run_def advances_logs)
qed

lemma fin_steps_sound: "fin_steps e db db' \<Longrightarrow> fin_ok e db \<Longrightarrow> fin_ok e db' \<and> advances db db'"
  by (induction rule: fin_steps.induct) (auto dest: fin_step_sound intro: advances_trans)

lemma advances_outgrows: "advances db db' \<Longrightarrow> outgrows db db' i"
  by (auto simp: advances_def intro: same_outgrows)

end
