(* ===== verification/FinSample.thy ===== *)
theory FinSample
  imports FinService
begin

text \<open>
  A run of the finance service from its empty tables: a project, an invoice entered by hand, and an
  import that overwrites the project with the amounts of a file.
\<close>

text \<open>Rounding to twenty significant digits, half away from zero, for numbers with two places.\<close>

definition digits20 :: "rat \<Rightarrow> rat" where
  "digits20 r =
     (if \<bar>r\<bar> < 10 ^ 18 then r
      else let unit = 10 ^ (length (int_str \<lfloor>\<bar>r\<bar>\<rfloor>) - 18) / 100; q = of_int \<lfloor>\<bar>r\<bar> / unit + 1 / 2\<rfloor> * unit
           in if r < 0 then - q else q)"

definition sample_fin_env :: fin_env where
  "sample_fin_env = \<lparr>fe_nfc = (\<lambda>s. s), fe_lower = (\<lambda>s. s), fe_date = (\<lambda>s. None), fe_plus = (\<lambda>a b. digits20 (a + b)),
     fe_minus = (\<lambda>a b. digits20 (a - b)), fe_div = (\<lambda>a b. a / b)\<rparr>"

lemma sample_decimal_exact: "decimal_exact sample_fin_env"
  by (simp add: decimal_exact_def sample_fin_env_def digits20_def)

definition sample_accountant :: operator where
  "sample_accountant = (5, ''eve'')"

definition sample_project :: project_dto where
  "sample_project =
     \<lparr>pd_name = ''bridge'', pd_year = 2024, pd_completenessDocs = None, pd_regionId = None, pd_progressId = None,
      pd_bizCategoryId = None, pd_partyA = None, pd_generalContractor = None, pd_managementFee = None,
      pd_subcontractors = None, pd_contractStartDate = None, pd_contractEndDate = None,
      pd_contractAmount = Some ''900.00'', pd_paymentNode = None, pd_tentativeAuditedAmount = None,
      pd_settlement = None, pd_miscExpense = Some ''40'', pd_remark = None\<rparr>"

definition sample_invoice :: detail_input where
  "sample_invoice = \<lparr>xi_amount = ''100.50'', xi_occurredDate = None, xi_remark = None\<rparr>"

definition sample_sheet :: "parsed_row list" where
  "sample_sheet =
     [OtherRow 1, DataRow ((emptyRowInput 2 ''bridge'')\<lparr>ri_year := Some 2024,
        ri_amounts := (\<lambda>k. if k = Receipt then [''300'', ''20.5''] else if k = Invoice then [''7''] else [])\<rparr>)]"

definition sample_choices :: "import_choice list" where
  "sample_choices =
     [\<lparr>ic_rowNumber = 2, ic_decision = OVERWRITE, ic_projectId = Some 1, ic_dataRevision = Some 1, ic_confirmDataLossWarning = False\<rparr>]"

definition sample_fin_call :: "(fin_db \<Rightarrow> err + (json outcome \<times> fin_db)) \<Rightarrow> fin_options" where
  "sample_fin_call run =
     \<lparr>fo_operator = sample_accountant, fo_feature = ''projects'', fo_scope = ''fin'', fo_key = None, fo_fingerprint = [],
      fo_beforeCommit = Inr (), fo_run = run\<rparr>"

definition fin_after :: "(fin_db \<Rightarrow> err + (json outcome \<times> fin_db)) \<Rightarrow> fin_db \<Rightarrow> fin_db" where
  "fin_after run db = (case fin_execute (sample_fin_call run) db of Inl e \<Rightarrow> db | Inr (r, db') \<Rightarrow> db')"

definition sample_fin1 :: fin_db where
  "sample_fin1 = fin_after (project_create sample_fin_env sample_accountant sample_project) fin_initial"

definition sample_fin2 :: fin_db where
  "sample_fin2 = fin_after (detail_create sample_fin_env sample_accountant 1 Invoice sample_invoice) sample_fin1"

text \<open>The names of the template are Chinese; the group without category is not in the sample.\<close>

definition sample_import :: "fin_db \<Rightarrow> fin_db \<Rightarrow> err + (json outcome \<times> fin_db)" where
  "sample_import seen =
     import_run sample_fin_env sample_accountant ''none'' sample_sheet [] sample_choices seen seen (Inr ())"

definition sample_fin3 :: fin_db where
  "sample_fin3 = fin_after (sample_import sample_fin2) sample_fin2"

lemma fin_after_steps: "fin_service e run \<Longrightarrow> fin_steps e db (fin_after run db)"
  using fin_step.Request [of e "sample_fin_call run" db]
  by (auto simp: fin_after_def sample_fin_call_def intro: fin_steps.Refl fin_steps.Step [OF fin_steps.Refl] split: sum.splits)

lemma fin_steps_trans: "fin_steps e b c \<Longrightarrow> fin_steps e a b \<Longrightarrow> fin_steps e a c"
  by (induction rule: fin_steps.induct) (auto intro: fin_steps.intros)

lemma sample_fin1_steps: "fin_steps sample_fin_env fin_initial sample_fin1"
  unfolding sample_fin1_def by (intro fin_after_steps fin_service.intros)

lemma sample_fin2_step: "fin_steps sample_fin_env sample_fin1 sample_fin2"
  unfolding sample_fin2_def by (intro fin_after_steps fin_service.intros)

lemma sample_fin3_step: "fin_steps sample_fin_env sample_fin2 sample_fin3"
  unfolding sample_fin3_def sample_import_def by (intro fin_after_steps fin_service.intros)

lemmas sample_fin2_steps = fin_steps_trans [OF sample_fin2_step sample_fin1_steps]
lemmas sample_fin3_steps = fin_steps_trans [OF sample_fin3_step sample_fin2_steps]

text \<open>What the states hold, each evaluated once.\<close>

definition sample_inputs :: "fin_db \<Rightarrow> row_input list" where
  "sample_inputs seen = buildRowInputsWithGroups sample_fin_env ''none'' sample_sheet seen"

definition sample_preview :: "fin_db \<Rightarrow> import_preview" where
  "sample_preview seen = matchRows sample_fin_env [] (sample_inputs seen) seen"

definition sample_pending :: pending_choice where
  "sample_pending = \<lparr>pc_rowNumber = 2, pc_projectId = 1, pc_dataRevision = 1, pc_dataLossWarning = False\<rparr>"

definition standing :: "fin_db \<Rightarrow> (int \<times> int option \<times> nat) list" where
  "standing db = map (\<lambda>p. (pr_dataRevision p, pr_deletedAt p, length (projectDetails Receipt 1 db)))
     (case findProject 1 db of None \<Rightarrow> [] | Some p \<Rightarrow> [p])"

definition money :: "fin_db \<Rightarrow> (rat option \<times> rat list \<times> rat list) list" where
  "money db = map (\<lambda>p. (pr_miscExpense p, map ad_amount (projectDetails Receipt 1 db),
       map ad_amount (projectDetails SubcontractPayment 1 db)))
     (case findProject 1 db of None \<Rightarrow> [] | Some p \<Rightarrow> [p])"

lemma sample_fin1_standing: "standing sample_fin1 = [(0, None, 0)]"
  by code_simp

lemma sample_fin2_evaluated:
  "case Some sample_fin2 of None \<Rightarrow> False
   | Some d \<Rightarrow> standing d = [(1, None, 0)] \<and> map ri_rowNumber (sample_inputs d) = [2]
       \<and> map (\<lambda>r. ri_amounts r Receipt) (sample_inputs d) = [[''300'', ''20.5'']]
       \<and> pv_created (sample_preview d) = [] \<and> pending_row (sample_preview d) 2 = Some sample_pending
       \<and> (case fin_execute (sample_fin_call (sample_import d)) d of
            Inl e \<Rightarrow> False
          | Inr (r, d') \<Rightarrow> standing d' = [(2, None, 2)] \<and> money d' = [(None, [300, 41 / 2], [])])"
  by code_simp

lemma sample_fin2_standing: "standing sample_fin2 = [(1, None, 0)]"
  using sample_fin2_evaluated by simp

lemma sample_fin3_standing: "standing sample_fin3 = [(2, None, 2)]"
  using sample_fin2_evaluated by (auto simp: sample_fin3_def fin_after_def split: sum.splits)

lemma sample_fin3_money: "money sample_fin3 = [(None, [300, 41 / 2], [])]"
  using sample_fin2_evaluated by (auto simp: sample_fin3_def fin_after_def split: sum.splits)

lemma fin_execute_refused: "fo_key opts = None \<Longrightarrow> fo_run opts db = Inl e \<Longrightarrow> fin_execute opts db = Inl e"
  by (simp add: fin_execute_def fin_commit_def fin_run_logged_def)

lemma sample_import_accepted: "\<exists>out db'. sample_import sample_fin2 sample_fin2 = Inr (out, db')"
proof (cases "sample_import sample_fin2 sample_fin2")
  case (Inl e)
  then have "fin_execute (sample_fin_call (sample_import sample_fin2)) sample_fin2 = Inl e"
    by (intro fin_execute_refused) (simp_all add: sample_fin_call_def)
  then show ?thesis using sample_fin2_evaluated by simp
next
  case (Inr r)
  then show ?thesis by (cases r) simp
qed

lemma standing_found: "standing db = [(v, d, n)] \<Longrightarrow>
    \<exists>p. findProject 1 db = Some p \<and> pr_dataRevision p = v \<and> pr_deletedAt p = d \<and> length (projectDetails Receipt 1 db) = n"
  by (auto simp: standing_def split: option.splits)

end
