(* ===== verification/Spec2Isabelle.thy ===== *)
theory Spec2Isabelle
  imports TaskScheduler Sample Replay Refinement HrSample Holiday FinSample
begin

text \<open>
A verification library for the business services of the WBME platform (TypeScript, NestJS,
  Prisma, PostgreSQL, BullMQ). It models the background tasks, the approval engine, the inventory
  side of the asset service, the organisation, overtime and lifecycle side of the hr service and
  the projects of the finance service, and proves what makes them correct. Paths below are relative to \<open>src/\<close>.

  \<^bold>\<open>The program and its parts.\<close> Every request arrives at a controller of a service
  (\<open>apps/asset\<close>, \<open>apps/hr\<close>, \<open>apps/fin\<close>), which checks function access, loads the operator and runs the
  operation idempotently in one database transaction with a line of the operation log. Operations
  that need a decision create a head in the approval tables of their schema (\<open>packages/approval\<close>);
  deciding, cancelling or timing out a head runs the side effect of its type. The worker
  (\<open>apps/worker\<close>) schedules tasks from the outbox table (\<open>packages/tasks\<close>), delivers them to the
  queue and runs them under leases; one of them is the nightly scan that cancels overdue heads of
  all schemas and releases what they reserved.

  \<^bold>\<open>How code becomes definitions.\<close> A table is the list of its rows, a schema a record of tables with the
  next value of each sequence. A method is a function from its arguments and the database to
  \<open>err + (result * database)\<close>: \<open>Inl\<close> is what is thrown (a business exception with its catalog entry, a
  violated constraint or an error of the runtime), \<open>Inr\<close> what is returned. A thrown error rolls the
  transaction back, so the database of an \<open>Inl\<close> is the one before. Constraints of the schema (CHECK,
  UNIQUE, partial unique indexes, the 32 bits of \<open>integer\<close> columns) are conditions of the inserting
  and updating statements. Row locks and advisory locks make the transactions that use them
  serial; the model takes transactions as atomic steps in any order. What the source calls but
  does not define is an argument: SHA-256 and \<open>JSON.stringify\<close> (in the fingerprints), \<open>JSON.parse\<close>,
  \<open>localeCompare\<close> (only in sorting the keys), the order PostgreSQL gives merged snapshots, the
  queue, the holiday gateway, settings, clocks and random suffixes. Hypotheses on them are stated
  where they are needed and discharged on concrete functions in the witnesses.

  \<^bold>\<open>Shared theories.\<close> \<open>Prelude\<close>: results, folds that may fail, sums and updates over tables. \<open>JsDate\<close>:
  calendar, padding and number formatting of JavaScript. \<open>Contracts\<close>: \<open>packages/contracts\<close>, the
  enumerations, the error catalog and the filter of error details. \<open>ApplicationNo\<close>:
  \<open>packages/approval/src/application-no.ts\<close>.

  \<^bold>\<open>Tasks.\<close> \<open>TaskOutbox\<close>: each statement of \<open>packages/tasks/src/outbox.ts\<close>, \<open>task-writer.ts\<close>,
  \<open>status-transitions.ts\<close> and \<open>stable-task-uuid.ts\<close> as a function on the rows. \<open>TaskLease\<close>: the table as a
  state machine; well-formed leases and terminal rows are invariants of every interleaving of the
  operations. \<open>TaskScheduler\<close>: \<open>apps/worker/src/outbox-scheduler.ts\<close> (the daily tasks and the tick) and the
  claim, processing and outcome of \<open>worker-runtime.service.ts\<close>.

  \<^bold>\<open>Approval.\<close> \<open>ApprovalKernel\<close>: the status machine, scopes and conditional updates of
  \<open>packages/approval/src\<close>. \<open>ApprovalTimeout\<close>: the scan of \<open>timeout.ts\<close> with the locale \<open>release_hook\<close> for what a
  schema does when a head is cancelled. \<open>TimeoutRelease\<close>: the hook of the asset schema
  (\<open>apps/worker/src/processors\<close>), an interpretation of that locale.

  \<^bold>\<open>Stock of the asset service.\<close> \<open>AssetDb\<close>: the tables and their statements; the locale \<open>qty_row\<close> is
  interpreted for each quantity column. \<open>InventoryCore\<close>: \<open>shared/inventory-core.ts\<close>. \<open>StockInvariant\<close>: every
  statement as a shift of the book, reserved, batch and ledger quantities. \<open>AssetRequests\<close>: heads and
  lines of requests. \<open>Directory\<close>: sessions, function access and department closures.
  \<open>Claims\<close>, \<open>AgentClaims\<close>, \<open>StockRequests\<close>, \<open>Borrowing\<close>, \<open>Disposal\<close>, \<open>Transfers\<close>: the services of
  \<open>apps/asset/src/modules\<close> of these names, each with submission, approval and release. \<open>ClaimInvariant\<close> and
  \<open>RequestEffects\<close>: the effect of approval and release, proved once in the locale \<open>issuing_lines\<close>.
  \<open>Submissions\<close>, \<open>Movements\<close>, \<open>Decisions\<close>: submissions, movements and decisions keep the stock in order.
  \<open>Idempotency\<close>, \<open>Replay\<close>: the operation log, replay and the canonical fingerprint. \<open>AssetApproval\<close>: deciding,
  cancelling, and what an approver is shown. \<open>Handlers\<close>, \<open>Links\<close>: the locale \<open>statement_inv\<close>: an
  invariant every statement keeps is kept by every handler. \<open>Operations\<close>: the endpoints and the step
  relation \<open>asset_step\<close> with its reachable states. \<open>Withdrawal\<close>: timeout and cancellation agree. \<open>Refinement\<close>:
  the abstract machine of stock and held quantities that the service implements. \<open>Sample\<close>: a
  concrete run for the examples.

  \<^bold>\<open>The hr service.\<close> \<open>HrDb\<close>: tables, versions of the organisation and the idempotent execution of
  \<open>apps/hr/src/shared\<close>. \<open>HrOrg\<close>: departments, positions and memberships (\<open>modules/org\<close>), with the cascades of the
  foreign keys. \<open>HrApproval\<close>: changes of position and the approval centre (\<open>modules/approval\<close>). \<open>Overtime\<close>,
  \<open>Holiday\<close>: overtime requests, their statistics, and the kind of a day with its cache and the
  semaphore (\<open>modules/overtime\<close>, \<open>modules/holiday\<close>). \<open>HrLifecycle\<close>: deactivation and restoration
  (\<open>modules/lifecycle\<close>). \<open>HrInvariant\<close>, \<open>HrSteps\<close>: what each operation keeps of the organisation.
  \<open>HrOperations\<close>: the steps of the service and the locale \<open>hr_invariant\<close>: an invariant that a list of
  named changes keeps holds in every reachable state. \<open>HrRequests\<close> and \<open>HrOvertime\<close> interpret it for the
  organisation, the heads and the overtime. \<open>HrSample\<close>: a concrete run.

  \<^bold>\<open>The finance service.\<close> \<open>FinDb\<close>: tables, names and amounts, and the idempotent execution of
  \<open>apps/fin/src/shared\<close>. \<open>FinProject\<close>: projects, the journaled difference, amounts and automatic figures
  (\<open>modules/project\<close>, \<open>shared/project-calc.ts\<close>). \<open>FinProfit\<close>: totals, the saving of a cell, the dictionary
  (\<open>modules/profit\<close>, \<open>modules/dict\<close>). \<open>FinImport\<close>: matching, preview and confirmation of an import
  (\<open>modules/excel/import.service.ts\<close>). \<open>FinInvariant\<close>: the invariant of the tables and the relation
  \<open>advances\<close> that ties a change to a journal row and a higher revision. \<open>FinOperations\<close>, \<open>FinSteps\<close>: every
  operation and the import keep the one and satisfy the other. \<open>FinService\<close>: the step relation over all writing
  endpoints. \<open>FinSample\<close>: a concrete run. Stored amounts are exact decimals with two places; the sums,
  differences and quotients of decimal.js, Unicode normalization, lower case and the reading of days are
  arguments. Of the sums and differences \<open>decimal_exact\<close> states what the library documents: they are
  rounded to twenty significant digits, so those with two places and less than \<open>10 ^ 18\<close> are exact.

  \<^bold>\<open>What the theorems show.\<close> Tasks: a lease is exclusive, a terminal row stays, a crashed task is taken
  over, a tick sends only what is due and what the queue accepts, a lost lease writes nothing. Approval: one
  winner of a race, the scope of a departmental approver, the timeout. Stock: in every reachable state
  book, batches and ledger of an item agree and reservations are exactly what pending requests
  hold; the service refines an abstract machine; a pending claim can always be approved and a
  pending request always be withdrawn; issues are first in first out; transfers, returns,
  settlements and replays do exactly what they say, down to the batches the goods leave and return to. Organisation: departments form a forest, a
  person's position applies to every department of the person, a move is decided. Overtime: what
  counts never overlaps, and the totals of a month are bounded. Restoration is idempotent. Finance:
  names and years are unique, a revision vouches for the content it was shown with, every change is
  journaled, an import leaves exactly the amounts of the file, and the two ways to add up agree to the cent. Where
  the code falls short of its comments the theorem states what it does (the list of an approver,
  the backoff of a refused delivery, the limit of the semaphore).

  \<^bold>\<open>Bounds.\<close> The walk to the root of the warehouses stops after 64 rounds because the code does; the
  theorem on paths says what is left out. The walk over parents of departments takes as many rounds
  as there are rows, and it is proved to decide the reflexive transitive closure. Integers of the
  database are kept within 32 bits by the conditions of the statements; numbers of the runtime are
  unbounded integers, or rationals where the code divides.

  \<^bold>\<open>Left out of the modelled parts.\<close> Columns that only say who created or changed a row and when are
  dropped where nothing reads them (in the hr schema), message texts are constants. Listings,
  details and exports are queries for the client without effect on the state; of them only the
  conditions that decide who sees what are modelled. The operations of the organisation (creating, moving
  and deleting departments and positions, and assigning people to them) take no lock in the code; the model
  takes them one at a time, so the theorems on the organisation say nothing of two of them that overlap. Rows outside the asset tables
  (accounts, grants) are arguments that may change between steps.

  \<^bold>\<open>Not modelled.\<close> Master data (warehouses, consumables, catalog, titles, settings): the steps change
  them freely within the references in use. The reading and writing of workbooks and the lock of an
  import in Redis. Fixed assets, repairs and QR codes; accounts,
  login and permission administration of \<open>apps/platform-core\<close>: components of their own that share
  no state with the modelled ones beyond the directory. Backups, clean-ups, the recovery executor and the
  migration runner drive programs and files outside \<open>src/\<close>. The packages \<open>server\<close>, \<open>files\<close> and \<open>logging\<close> are
  glue around Redis, HTTP and the file system. The web front end is presentation, and the data
  transfer objects are decorators of an external validator; the bounds the services rely on are
  arguments of the steps.
\<close>

section \<open>Background tasks\<close>

definition demo_input :: create_input where
  "demo_input = \<lparr>ci_uuid = ''u'', ci_type = ''SCHEDULED_BACKUP'', ci_module = ''backstage'',
     ci_initiatorId = None, ci_initiatorType = SCHEDULER, ci_ref = None\<rparr>"

definition demo_task :: task_row where
  "demo_task = (new_task demo_input 0 0)\<lparr>t_status := RUNNING, t_leaseOwner := Some ''worker:a'',
     t_leaseExpiresAt := Some 600003, t_startedAt := Some 3, t_attempts := 1, t_nextRetryAt := None,
     t_timeoutAt := Some 1200003\<rparr>"

definition demo_run :: "(int \<times> task_op) list" where
  "demo_run = [(0, OpInsert demo_input 0),
     (1, OpClaimBatch ''scheduler:a'' SAFELY_REPLAYABLE_TASK_TYPES {} 50),
     (2, OpMarkQueued ''u'' ''scheduler:a''), (3, OpClaim ''u'' ''worker:a'')]"

lemma demo_steps:
  "exec_op (OpInsert demo_input 0) 0 [] = [new_task demo_input 0 0]"
  "exec_op (OpClaimBatch ''scheduler:a'' SAFELY_REPLAYABLE_TASK_TYPES {} 50) 1 [new_task demo_input 0 0]
    = [(new_task demo_input 0 0)\<lparr>t_leaseOwner := Some ''scheduler:a'', t_leaseExpiresAt := Some 120001\<rparr>]"
  "exec_op (OpMarkQueued ''u'' ''scheduler:a'') 2
      [(new_task demo_input 0 0)\<lparr>t_leaseOwner := Some ''scheduler:a'', t_leaseExpiresAt := Some 120001\<rparr>]
    = [(new_task demo_input 0 0)\<lparr>t_status := QUEUED, t_nextRetryAt := None\<rparr>]"
  "exec_op (OpClaim ''u'' ''worker:a'') 3 [(new_task demo_input 0 0)\<lparr>t_status := QUEUED, t_nextRetryAt := None\<rparr>]
    = [demo_task]"
  by (simp_all add: insertPendingTaskSql_def claimOutboxBatch_def claimable_def null_or_le_def new_task_def
      demo_input_def markQueued_def guarded_update_def claimRunning_def demo_task_def Let_def
      TASK_ENQUEUE_LEASE_SECONDS_def TASK_RUNNING_LEASE_SECONDS_def)

lemma demo_reach: "task_reach 3 [demo_task]"
proof -
  have "task_reach 0 (exec_op (OpInsert demo_input 0) 0 [])"
    by (rule task_reach.step [OF task_reach.start [of 0]]) simp_all
  then have "task_reach 1 (exec_op (OpClaimBatch ''scheduler:a'' SAFELY_REPLAYABLE_TASK_TYPES {} 50) 1 [new_task demo_input 0 0])"
    unfolding demo_steps(1) by (rule task_reach.step) (simp_all add: is_scheduler_id_def)
  then have "task_reach 2 (exec_op (OpMarkQueued ''u'' ''scheduler:a'') 2
      [(new_task demo_input 0 0)\<lparr>t_leaseOwner := Some ''scheduler:a'', t_leaseExpiresAt := Some 120001\<rparr>])"
    unfolding demo_steps(2) by (rule task_reach.step) (simp_all add: is_scheduler_id_def)
  then have "task_reach 3 (exec_op (OpClaim ''u'' ''worker:a'') 3
      [(new_task demo_input 0 0)\<lparr>t_status := QUEUED, t_nextRetryAt := None\<rparr>])"
    unfolding demo_steps(3) by (rule task_reach.step) (simp_all add: is_worker_id_def)
  then show ?thesis unfolding demo_steps(4) .
qed

text \<open>C2: While a worker's lease on a task has not expired, no operation issued by anyone else (claims,
  deliveries, timeouts, renewals, completions, cancellations, in any number and order) changes the row,
  with one exception: a cancellation of that very task which names no owner or that worker. It makes the
  row cancelled, at the moment of the cancellation, and nothing afterwards changes it again.\<close>

theorem worker_lease_exclusive:
  assumes "task_reach now ts" and "t \<in> set ts" and "holds_lease w fin t"
    and "\<forall>(now', p) \<in> set ps. now' \<le> fin \<and> op_wf p \<and> \<not> issued_by w p"
  shows "t \<in> set (exec_ops ps ts)
    \<or> (\<exists>now' ow. (now', OpCancel (t_uuid t) ow) \<in> set ps \<and> (ow = None \<or> ow = Some w)
        \<and> t\<lparr>t_status := CANCELLED, t_finishedAt := Some now', t_leaseOwner := None, t_leaseExpiresAt := None\<rparr>
            \<in> set (exec_ops ps ts))"
  by (rule exec_ops_held [OF task_reach_inv [OF assms(1)] assms(2,3), unfolded cancelled_row_def])
    (use assms(4) in blast)

theorem worker_lease_exclusive_witness:
  "demo_task \<in> set (exec_ops [(4, OpClaim ''u'' ''worker:b''), (5, OpFailTimedOut), (6, OpSucceed ''u'' ''worker:b''),
      (6, OpCancel ''u'' (Some ''worker:b'')), (7, OpCancel ''v'' None)] [demo_task])"
  using worker_lease_exclusive [OF demo_reach, of demo_task "''worker:a''" 7 "[(4, OpClaim ''u'' ''worker:b''),
      (5, OpFailTimedOut), (6, OpSucceed ''u'' ''worker:b''), (6, OpCancel ''u'' (Some ''worker:b'')), (7, OpCancel ''v'' None)]"]
  by (simp add: demo_task_def new_task_def demo_input_def holds_lease_def is_worker_id_def)

text \<open>C6: A task that succeeded, failed or was cancelled is never changed again, whatever is
  executed on the table afterwards.\<close>

theorem terminal_tasks_stay:
  assumes "task_reach now ts" and "t \<in> set ts" and "isTerminalTaskStatus (t_status t)"
  shows "t \<in> set (exec_ops ps ts)"
  by (rule exec_ops_terminal [OF assms(2) task_reach_uuids [OF assms(1)] assms(3)])

theorem terminal_tasks_stay_witness:
  "demo_task\<lparr>t_status := CANCELLED, t_finishedAt := Some 4, t_leaseOwner := None, t_leaseExpiresAt := None\<rparr>
    \<in> set (exec_ops [(5, OpClaim ''u'' ''worker:b'')]
        [demo_task\<lparr>t_status := CANCELLED, t_finishedAt := Some 4, t_leaseOwner := None, t_leaseExpiresAt := None\<rparr>])"
proof (rule terminal_tasks_stay [where now = 4])
  have "exec_op (OpCancel ''u'' None) 4 [demo_task] =
    [demo_task\<lparr>t_status := CANCELLED, t_finishedAt := Some 4, t_leaseOwner := None, t_leaseExpiresAt := None\<rparr>]"
    by (simp add: markCancelled_def guarded_update_def demo_task_def new_task_def demo_input_def)
  then show "task_reach 4
    [demo_task\<lparr>t_status := CANCELLED, t_finishedAt := Some 4, t_leaseOwner := None, t_leaseExpiresAt := None\<rparr>]"
    using task_reach.step [OF demo_reach, of 4 "OpCancel ''u'' None"] by simp
qed (simp_all add: isTerminalTaskStatus_def TERMINAL_TASK_STATUSES_def)

text \<open>C18: A task whose worker is gone is recovered: once its running lease has expired, the next
  delivery claims it, the queue gets it again, and another worker then holds the lease.\<close>

theorem crashed_task_recovered:
  assumes "t \<in> set ts" and "t_status t = RUNNING" and "some_le (t_leaseExpiresAt t) now"
    and "t_type t \<in> set replayable" and "count_where (claimable replayable now) ts \<le> n" and "is_worker_id w"
  shows "(t_uuid t, t_type t, RUNNING) \<in> set (fst (claimOutboxBatch s replayable {} now n ts))
    \<and> fst (markQueued (t_uuid t) s (snd (claimOutboxBatch s replayable {} now n ts)))
    \<and> (\<exists>t' \<in> set (snd (claimRunning (t_uuid t) w now
            (snd (markQueued (t_uuid t) s (snd (claimOutboxBatch s replayable {} now n ts)))))).
          t_uuid t' = t_uuid t \<and> holds_lease w now t' \<and> t_attempts t' = t_attempts t + 1)"
proof (intro conjI)
  have c: "claimable replayable now t" using assms(2,3,4) by (simp add: claimable_def)
  note hit = claimOutboxBatch_hit [OF assms(1) c assms(5), of s]
  show "(t_uuid t, t_type t, RUNNING) \<in> set (fst (claimOutboxBatch s replayable {} now n ts))"
    using hit(1) assms(2) by simp
  note q = markQueued_hit [OF hit(2), of s, simplified, OF assms(2) [THEN disjI2 [THEN disjI2]]]
  show "fst (markQueued (t_uuid t) s (snd (claimOutboxBatch s replayable {} now n ts)))" by (rule q(1))
  show "\<exists>t' \<in> set (snd (claimRunning (t_uuid t) w now
            (snd (markQueued (t_uuid t) s (snd (claimOutboxBatch s replayable {} now n ts)))))).
          t_uuid t' = t_uuid t \<and> holds_lease w now t' \<and> t_attempts t' = t_attempts t + 1"
    using claimRunning_queued(2) [OF q(2), of w now] assms(6) by simp
qed

theorem crashed_task_recovered_witness:
  "\<exists>t' \<in> set (snd (claimRunning ''u'' ''worker:b'' 600003
      (snd (markQueued ''u'' ''scheduler:a'' (snd (claimOutboxBatch ''scheduler:a''
        SAFELY_REPLAYABLE_TASK_TYPES {} 600003 50 [demo_task])))))).
      t_uuid t' = ''u'' \<and> holds_lease ''worker:b'' 600003 t' \<and> t_attempts t' = 2"
  using crashed_task_recovered [of demo_task "[demo_task]" 600003 SAFELY_REPLAYABLE_TASK_TYPES 50 "''worker:b''" "''scheduler:a''"]
  by (simp add: demo_task_def new_task_def demo_input_def some_le_def SAFELY_REPLAYABLE_TASK_TYPES_def
      count_where_def is_worker_id_def)

section \<open>Approval\<close>

text \<open>C8: When several handlers have read a pending request at the same version and each writes its
  decision through the conditional update, exactly the first one wins (one row), all others see no
  row and report a conflict, and the request holds the first decision.\<close>

theorem race_one_winner:
  assumes "distinct (map ah_id hs)" and "h \<in> set hs" and "pending_at i v h"
  shows "race i v (f # fs) hs =
    (1 # replicate (length fs) 0,
     map (\<lambda>g. if ah_id g = i then (f g)\<lparr>ah_version := ah_version g + 1\<rparr> else g) hs)
    \<and> map throwIfTransitionLost (fst (race i v (f # fs) hs)) = Inr () # replicate (length fs) (Inl (Biz STATUS_CONFLICT))"
proof -
  have "g \<in> set hs \<Longrightarrow> pending_at i v g \<longleftrightarrow> ah_id g = i" for g
    using assms by (metis pending_at_def distinct_map inj_onD)
  then have "update_where (pending_at i v) (\<lambda>g. (f g)\<lparr>ah_version := ah_version g + 1\<rparr>) hs
      = map (\<lambda>g. if ah_id g = i then (f g)\<lparr>ah_version := ah_version g + 1\<rparr> else g) hs"
    by (simp add: update_where_def)
  moreover have "count_where (pending_at i v) hs = 1" using assms by (auto simp: count_pending_at)
  ultimately show ?thesis unfolding race_first by (simp add: cas_head_def throwIfTransitionLost_def)
qed

definition demo_head :: approval_head where
  "demo_head = \<lparr>ah_id = 1, ah_status = PENDING, ah_version = 1, ah_requestType = ''RETURN'',
     ah_applicantId = 7, ah_proxyId = None, ah_departmentSnapshot = JNull, ah_submittedAt = Some 0,
     ah_cancelledAt = None, ah_cancelSource = None, ah_updatedAt = 0\<rparr>"

theorem race_one_winner_witness:
  "fst (race 1 1 [ah_status_update (\<lambda>s. APPROVED), ah_status_update (\<lambda>s. REJECTED)] [demo_head]) = [1, 0]"
  using race_one_winner [of "[demo_head]" demo_head 1 1 "ah_status_update (\<lambda>s. APPROVED)"
      "[ah_status_update (\<lambda>s. REJECTED)]"]
  by (simp add: demo_head_def pending_at_def del: race.simps)

text \<open>C29: An approver with departmental scope may decide a request exactly when it names at least one
  object department, every one of them is known and within the approver's departments, and the
  type is not reserved to company scope.\<close>

theorem department_scope_decides:
  "assertScopeCoversAll (toApproverScope (Some DEPARTMENT) ids) ds (Some t) = Inr () \<longleftrightarrow>
    ds \<noteq> [] \<and> (\<forall>d \<in> set ds. \<exists>i \<in> ids. d = Some i) \<and> \<not> isCompanyOnlyRequestType t"
  by (auto simp: assertScopeCoversAll_def toApproverScope_def scopeCoversAll_department)

lemma no_hook_returns: "\<exists>n. fst (scan_rows has_tx no_hook now rs c db) = Inr n"
proof (induction rs arbitrary: c db)
  case (Cons r rs)
  have "\<exists>ok db1. autoCancelOverdueRow has_tx no_hook now r db = (Inr ok, db1)"
    by (auto simp: autoCancelOverdueRow_def cancel_row_def no_hook_def case_prod_beta Let_def)
  then show ?case using Cons.IH by (auto split: prod.splits)
qed simp

lemma listed_pending_at:
  assumes "r \<in> set (listOverduePending cutoff n db)"
  shows "\<exists>h \<in> set (sd_heads db). pending_at (or_id r) (or_version r) h"
  using assms by (auto elim!: listOverduePending_mem simp: row_of_def pending_at_def is_overdue_def)

theorem department_scope_decides_witness:
  "assertScopeCoversAll (toApproverScope (Some DEPARTMENT) {1, 2}) [Some 2, Some 1] (Some ''RETURN'') = Inr ()"
  by (simp add: department_scope_decides isCompanyOnlyRequestType_def ASSET_COMPANY_ONLY_REQUEST_TYPES_def)

text \<open>C31: The timeout scan of a schema without business hook cancels exactly the overdue pending
  requests it listed, each once, journals one automatic cancellation for each and returns their
  number; every other request keeps its state and version.\<close>

theorem timeout_scan_cancels_listed:
  assumes "distinct (map ah_id (sd_heads db))"
  shows "\<exists>db'. scan_rows True no_hook now (listOverduePending cutoff n db) 0 db
        = (Inr (length (listOverduePending cutoff n db)), db')
    \<and> sd_heads db' = cancel_ids now (or_id ` set (listOverduePending cutoff n db)) (sd_heads db)
    \<and> sd_acts db' = sd_acts db @ map (auto_cancel_action now) (listOverduePending cutoff n db)"
proof -
  let ?rs = "listOverduePending cutoff n db"
  obtain res db' where s: "scan_rows True no_hook now ?rs 0 db = (res, db')"
    by (cases "scan_rows True no_hook now ?rs 0 db")
  obtain m where m: "res = Inr m" using no_hook_returns [of True now ?rs 0 db] s by auto
  show ?thesis
    using nohk.scan_rows_prefix [OF assms listOverduePending_distinct [OF assms] listed_pending_at s] s m
    by auto
qed

theorem timeout_scan_cancels_listed_witness:
  "sd_heads (snd (scan_rows True no_hook 5 (listOverduePending 3 200
      \<lparr>sd_heads = [demo_head], sd_acts = []\<rparr>) 0 \<lparr>sd_heads = [demo_head], sd_acts = []\<rparr>))
    = [(cancelled_overdue 5 demo_head)\<lparr>ah_version := 2\<rparr>]"
  using timeout_scan_cancels_listed [of "\<lparr>sd_heads = [demo_head], sd_acts = []\<rparr>" 5 3 200]
  by (auto simp: listOverduePending_def is_overdue_def demo_head_def row_of_def cancel_ids_def)

section \<open>Numbers, identifiers and errors\<close>

text \<open>Two application numbers with the same prefix are equal only if they were made at the same
  date and time of day, to the millisecond, with the same random suffix.\<close>

lemma application_number_inject:
  assumes "calendar_ok t" and "calendar_ok t'"
    and "generateApplicationNo prefix t r = generateApplicationNo prefix t' r'"
  shows "utc_date t = utc_date t' \<and> utc_hour t = utc_hour t' \<and> utc_minute t = utc_minute t'
    \<and> utc_second t = utc_second t' \<and> utc_milli t = utc_milli t' \<and> r = r'"
  by (rule generateApplicationNo_fields [OF assms])

lemma application_number_differs:
  "generateApplicationNo ''SI'' 1786000000000 123 \<noteq> generateApplicationNo ''SI'' 1786000000001 123"
proof
  assume eq: "generateApplicationNo ''SI'' 1786000000000 123 = generateApplicationNo ''SI'' 1786000000001 123"
  have "calendar_ok 1786000000000" "calendar_ok 1786000000001" by code_simp+
  from application_number_inject [OF this eq] show False by (simp add: utc_milli_def)
qed

text \<open>The stable identifier of a business key has the textual form of a version 5 UUID whenever the
  hash has its 64 hexadecimal digits: 36 characters, dashes in place, version digit 5 and a variant
  digit among 8, 9, a and b.\<close>

lemma stable_uuid_form:
  assumes "length (sha key) = 64"
  shows "length (stableTaskUuid sha key) = 36 \<and> stableTaskUuid sha key ! 8 = CHR ''-''
    \<and> stableTaskUuid sha key ! 13 = CHR ''-'' \<and> stableTaskUuid sha key ! 14 = CHR ''5''
    \<and> stableTaskUuid sha key ! 18 = CHR ''-'' \<and> stableTaskUuid sha key ! 19 \<in> set ''89ab''
    \<and> stableTaskUuid sha key ! 23 = CHR ''-''"
proof -
  have "variant_nibble (sha key) < 12" "8 \<le> variant_nibble (sha key)"
    by (auto simp: variant_nibble_def)
  then consider "variant_nibble (sha key) = 8" | "variant_nibble (sha key) = 9"
    | "variant_nibble (sha key) = 10" | "variant_nibble (sha key) = 11" by linarith
  then have d: "\<exists>c. hex_digit (variant_nibble (sha key)) = [c] \<and> c \<in> set ''89ab''"
    by cases (simp_all add: hex_digit_def)
  show ?thesis using d assms by (auto simp: stableTaskUuid_def Let_def slice_def nth_append)
qed

lemma stable_uuid_form_example:
  "length (stableTaskUuid (\<lambda>key. replicate 64 (CHR ''e'')) ''SCHEDULED_BACKUP:2026-08-08'') = 36"
  using stable_uuid_form [of "\<lambda>key. replicate 64 (CHR ''e'')" "''SCHEDULED_BACKUP:2026-08-08''"] by simp

section \<open>The scheduler\<close>

text \<open>C16: What a tick of the scheduler hands to the queue: the tick runs neither twice at once nor during
  maintenance, sends at most one batch and no task twice, and a task it sends was due (pending and its
  retry time reached, or replayable with an expired or stalled delivery), was not held by another
  transaction, had its left-over job removed if it had been sent before, was accepted by the queue with
  the attempts of its type, and is queued without a lease afterwards.\<close>

theorem tick_sends_due:
  assumes "distinct (map t_uuid (sch_tasks s))"
    and "(u, n) \<in> set (fst (tick h24 sha rem add sid maintenance dc setting locked now s))"
  shows "\<not> sch_running s \<and> maintenance = Inr False
    \<and> distinct (map fst (fst (tick h24 sha rem add sid maintenance dc setting locked now s)))
    \<and> length (fst (tick h24 sha rem add sid maintenance dc setting locked now s)) \<le> TASK_ENQUEUE_BATCH_SIZE
    \<and> (\<exists>t \<in> set (sch_tasks (before_claim h24 sha dc setting now s)).
          t_uuid t = u \<and> claimable SAFELY_REPLAYABLE_TASK_TYPES now t \<and> u \<notin> locked
        \<and> (t_status t = PENDING_ENQUEUE \<or> (\<exists>k. rem u = Inr (Suc k))) \<and> add u = Inr ()
        \<and> n = job_attempts (t_type t)
        \<and> t\<lparr>t_status := QUEUED, t_leaseOwner := None, t_leaseExpiresAt := None, t_nextRetryAt := None,
              t_lastError := None\<rparr> \<in> set (sch_tasks (snd (tick h24 sha rem add sid maintenance dc setting locked now s))))"
proof -
  let ?s1 = "before_claim h24 sha dc setting now s"
  let ?c = "claimOutboxBatch sid SAFELY_REPLAYABLE_TASK_TYPES locked now TASK_ENQUEUE_BATCH_SIZE (sch_tasks ?s1)"
  let ?f = "fold (deliver_row rem add sid now) (fst ?c) ([], snd ?c)"
  have run: "\<not> sch_running s" "\<not> shouldPauseForMaintenance maintenance"
    using assms(2) by (auto simp: tick_def split: if_splits)
  then have m: "maintenance = Inr False"
    by (auto simp: shouldPauseForMaintenance_def split: sum.splits)
  have tick: "tick h24 sha rem add sid maintenance dc setting locked now s
      = (fst ?f, ?s1\<lparr>sch_tasks := snd ?f, sch_running := False\<rparr>)"
    using run by (simp add: tick_def case_prod_beta Let_def)
  have d: "distinct (map fst (fst ?c))"
    by (intro claimOutboxBatch_distinct before_claim_distinct assms(1))
  have sent: "fst ?f = map (\<lambda>(u, ty, st). (u, job_attempts ty)) (filter (queue_takes rem add) (fst ?c))"
    by (simp add: deliver_fold_sent)
  have "map fst (fst ?f) = map fst (filter (queue_takes rem add) (fst ?c))"
    by (simp add: sent comp_def case_prod_beta)
  then have d': "distinct (map fst (fst ?f))" using d by (simp add: distinct_map_filter)
  have "length (fst ?c) \<le> TASK_ENQUEUE_BATCH_SIZE" by (simp add: claimOutboxBatch_def Let_def)
  then have l: "length (fst ?f) \<le> TASK_ENQUEUE_BATCH_SIZE"
    using order_trans [OF length_filter_le] by (simp add: sent)
  from assms(2) obtain ty st where row: "(u, ty, st) \<in> set (fst ?c)" and q: "queue_takes rem add (u, ty, st)"
    and n: "n = job_attempts ty"
    by (auto simp: tick sent)
  from row obtain t where t: "t \<in> set (sch_tasks ?s1)" "t_uuid t = u" "t_type t = ty" "t_status t = st"
    "claimable SAFELY_REPLAYABLE_TASK_TYPES now t" "u \<notin> locked"
    and leased: "t\<lparr>t_leaseOwner := Some sid, t_leaseExpiresAt := Some (now + TASK_ENQUEUE_LEASE_SECONDS * 1000)\<rparr>
      \<in> set (snd ?c)"
    by (rule claimOutboxBatch_row)
  have "st \<in> {PENDING_ENQUEUE, QUEUED, RUNNING}" using t(4,5) by (auto simp: claimable_def)
  from deliver_fold_queued [OF d _ _ _ _ _, of "t\<lparr>t_leaseOwner := Some sid,
      t_leaseExpiresAt := Some (now + TASK_ENQUEUE_LEASE_SECONDS * 1000)\<rparr>" ty rem add "([], snd ?c)"]
  have "t\<lparr>t_status := QUEUED, t_leaseOwner := None, t_leaseExpiresAt := None, t_nextRetryAt := None,
      t_lastError := None\<rparr> \<in> set (snd ?f)"
    using row q t leased \<open>st \<in> _\<close> by simp
  then have "\<exists>t \<in> set (sch_tasks ?s1). t_uuid t = u \<and> claimable SAFELY_REPLAYABLE_TASK_TYPES now t \<and> u \<notin> locked
        \<and> (t_status t = PENDING_ENQUEUE \<or> (\<exists>k. rem u = Inr (Suc k))) \<and> add u = Inr ()
        \<and> n = job_attempts (t_type t)
        \<and> t\<lparr>t_status := QUEUED, t_leaseOwner := None, t_leaseExpiresAt := None, t_nextRetryAt := None,
              t_lastError := None\<rparr> \<in> set (snd ?f)"
    using t q n by (intro bexI [of _ t]) auto
  with run(1) m d' l show ?thesis unfolding tick fst_conv snd_conv by simp
qed

text \<open>C32: A task that the scheduler must create once a day is created once a day: a second scheduler, or
  the same one after a restart, finds it by its stable identifier and adds nothing.\<close>

theorem daily_backup_created_once:
  assumes "isPastScheduledBackupBoundary h24 now" and "lastScheduledBackupCycleDate s = None"
    and "isPastScheduledBackupBoundary h24 now'" and "beijingDateString now' = beijingDateString now"
    and "sch_tasks s' = sch_tasks (ensureDailyScheduledBackup h24 sha False now s)"
  shows "sch_tasks (ensureDailyScheduledBackup h24 sha diskCritical' now' s') = sch_tasks s'
    \<and> (\<exists>t \<in> set (sch_tasks s'). t_uuid t = stableTaskUuid sha (''SCHEDULED_BACKUP:'' @ beijingDateString now))"
proof -
  have "sch_tasks s' = snd (insertPendingTaskSql (scheduled_input sha ''SCHEDULED_BACKUP'' (beijingDateString now)
      (JObj [(''cycleDate'', JStr (beijingDateString now))])) now now (sch_tasks s))"
    using assms(1,2,5) by (simp add: ensureDailyScheduledBackup_def Let_def)
  then have "\<exists>t \<in> set (sch_tasks s'). t_uuid t = stableTaskUuid sha (''SCHEDULED_BACKUP:'' @ beijingDateString now)"
    using insertPending_uuid [of "scheduled_input sha ''SCHEDULED_BACKUP'' (beijingDateString now)
      (JObj [(''cycleDate'', JStr (beijingDateString now))])" now now "sch_tasks s"]
    by (simp add: scheduled_input_def)
  then show ?thesis using ensureDailyScheduledBackup_again [OF assms(1) _ assms(2-5)] by simp
qed

definition demo_scheduler :: scheduler where
  "demo_scheduler = \<lparr>lastScheduledBackupCycleDate = None, lastImageCleanupCycleDate = None,
     lastApprovalTimeoutCycleDate = None, lastLogCleanupCycleId = None, sch_running = False, sch_tasks = []\<rparr>"

theorem daily_backup_created_once_witness:
  "sch_tasks (ensureDailyScheduledBackup False (\<lambda>k. k) False 36000001
      (ensureDailyScheduledBackup False (\<lambda>k. k) False 36000000 demo_scheduler))
    = sch_tasks (ensureDailyScheduledBackup False (\<lambda>k. k) False 36000000 demo_scheduler)"
proof -
  have "isPastScheduledBackupBoundary False 36000000" "isPastScheduledBackupBoundary False 36000001"
    "beijingDateString 36000001 = beijingDateString 36000000"
    by (simp_all add: isPastScheduledBackupBoundary_def beijingHour_def utc_hour_def BEIJING_OFFSET_def
        beijingDateString_def utc_date_def DAY_MILLIS_def Let_def)
  then show ?thesis
    using daily_backup_created_once [of False 36000000 demo_scheduler 36000001 _ "\<lambda>k. k" False]
    by (simp add: demo_scheduler_def)
qed

definition due_scheduler :: scheduler where
  "due_scheduler = demo_scheduler\<lparr>sch_tasks :=
     [demo_task\<lparr>t_leaseExpiresAt := Some 58000000, t_timeoutAt := Some 59000000\<rparr>,
      (new_task demo_input 0 0)\<lparr>t_uuid := ''p''\<rparr>]\<rparr>"

definition due_tick :: "delivery list \<times> scheduler" where
  "due_tick = tick False (\<lambda>k. k) (\<lambda>u. Inr 1) (\<lambda>u. Inr ()) ''scheduler:a'' (Inr False) False (Some (Some 0)) {''p''}
     58300000 due_scheduler"

lemma due_before_claim:
  "before_claim False (\<lambda>k. k) False (Some (Some 0)) 58300000 due_scheduler = due_scheduler"
  by (simp add: before_claim_def ensureDailyScheduledBackup_def ensureDailyImageCleanup_def
      ensureDailyApprovalTimeoutScan_def ensurePeriodicLogCleanup_def isPastScheduledBackupBoundary_def
      beijingHour_def utc_hour_def BEIJING_OFFSET_def DAY_MILLIS_def Let_def failTimedOutTasks_def
      due_scheduler_def demo_scheduler_def demo_task_def new_task_def demo_input_def some_le_def)

lemma due_claimed:
  "fst (claimOutboxBatch ''scheduler:a'' SAFELY_REPLAYABLE_TASK_TYPES {''p''} 58300000 TASK_ENQUEUE_BATCH_SIZE
      (sch_tasks due_scheduler)) = [(''u'', ''SCHEDULED_BACKUP'', RUNNING)]"
  by (simp add: claimOutboxBatch_def Let_def due_scheduler_def demo_task_def new_task_def demo_input_def
      claimable_def some_le_def null_or_le_def SAFELY_REPLAYABLE_TASK_TYPES_def TASK_ENQUEUE_BATCH_SIZE_def)

lemma due_sent: "fst due_tick = [(''u'', 10)]"
proof -
  have "\<not> sch_running due_scheduler" by (simp add: due_scheduler_def demo_scheduler_def)
  then show ?thesis
    by (simp add: due_tick_def tick_def due_before_claim case_prod_beta Let_def deliver_fold_sent due_claimed
        shouldPauseForMaintenance_def job_attempts_def TASK_MAX_ATTEMPTS_def del: fold_simps)
qed

theorem tick_sends_due_witness:
  "fst due_tick = [(''u'', 10)]
    \<and> (\<exists>t. t \<in> set (sch_tasks (snd due_tick)) \<and> t_uuid t = ''u'' \<and> t_status t = QUEUED \<and> t_leaseOwner t = None)"
proof -
  have "distinct (map t_uuid (sch_tasks due_scheduler))"
    by (simp add: due_scheduler_def demo_task_def new_task_def demo_input_def)
  from tick_sends_due [OF this, of "''u''" 10 False "\<lambda>k. k" "\<lambda>u. Inr 1" "\<lambda>u. Inr ()" "''scheduler:a''" "Inr False" False
      "Some (Some 0)" "{''p''}" 58300000, folded due_tick_def]
  obtain t where t: "t_uuid t = ''u''" "t\<lparr>t_status := QUEUED, t_leaseOwner := None, t_leaseExpiresAt := None,
      t_nextRetryAt := None, t_lastError := None\<rparr> \<in> set (sch_tasks (snd due_tick))"
    by (auto simp: due_sent)
  have "\<exists>t. t \<in> set (sch_tasks (snd due_tick)) \<and> t_uuid t = ''u'' \<and> t_status t = QUEUED \<and> t_leaseOwner t = None"
    by (rule exI, rule conjI, rule t(2)) (simp add: t(1))
  with due_sent show ?thesis by simp
qed

text \<open>C38: A delivery the queue refused leaves the task pending with one more attempt and due again
  after exactly thirty seconds, however many attempts have failed before: the call passes the
  constant 0 for the attempts, so the exponential backoff never grows.\<close>

theorem refused_delivery_retries_in_30s:
  assumes "t \<in> set ts" and "t_status t = PENDING_ENQUEUE" and "t_leaseOwner t = Some sid"
    and "add (t_uuid t) = Inl msg"
  shows "\<exists>ts'. deliver_row rem add sid now (t_uuid t, t_type t, PENDING_ENQUEUE) (sent, ts) = (sent, ts')
    \<and> (\<exists>t' \<in> set ts'. t_uuid t' = t_uuid t \<and> t_status t' = PENDING_ENQUEUE
        \<and> t_attempts t' = t_attempts t + 1 \<and> t_nextRetryAt t' = Some (now + 30000))"
proof -
  obtain sent' ts' where d: "deliver_row rem add sid now (t_uuid t, t_type t, PENDING_ENQUEUE) (sent, ts) = (sent', ts')"
    by (cases "deliver_row rem add sid now (t_uuid t, t_type t, PENDING_ENQUEUE) (sent, ts)")
  show ?thesis
    using deliver_failed_pending [OF assms d] d by (intro exI [of _ ts']) simp
qed

definition refused_task :: task_row where
  "refused_task = \<lparr>t_uuid = ''u'', t_type = ''SCHEDULED_BACKUP'', t_module = ''backstage'', t_initiatorId = None,
      t_initiatorType = SCHEDULER, t_ref = None, t_status = PENDING_ENQUEUE, t_progress = 0,
      t_startedAt = None, t_finishedAt = None, t_attempts = 9, t_nextRetryAt = Some 0,
      t_timeoutAt = None, t_leaseOwner = Some ''scheduler:a'', t_leaseExpiresAt = Some 120000, t_lastError = None,
      t_createdAt = 0\<rparr>"

theorem refused_delivery_retries_in_30s_witness:
  "\<exists>ts'. deliver_row (\<lambda>u. Inr 1) (\<lambda>u. Inl ''queue down'') ''scheduler:a'' 0
      (''u'', ''SCHEDULED_BACKUP'', PENDING_ENQUEUE) ([], [refused_task]) = ([], ts')
    \<and> (\<exists>t' \<in> set ts'. t_attempts t' = 10 \<and> t_nextRetryAt t' = Some 30000)"
  using refused_delivery_retries_in_30s [of refused_task "[refused_task]" "''scheduler:a''"
      "\<lambda>u. Inl ''queue down''" "''queue down''" "\<lambda>u. Inr 1" 0 "[]"]
  by (auto simp: refused_task_def)

text \<open>C17: A worker that has lost its lease by the time its processing ends changes nothing: neither its
  success nor its final failure is written over what another worker or the scheduler did.\<close>

theorem lost_lease_writes_nothing:
  assumes "loadTaskByUuid u ts = Some task" and "\<not> isTerminalTaskStatus (t_status task)"
    and "fst (claimRunning u owner now ts)"
    and "\<forall>t \<in> set (during (snd (claimRunning u owner now ts))). t_uuid t = u \<longrightarrow> t_leaseOwner t \<noteq> Some owner"
  shows "snd (handleJob owner now during outcome later attempts made u ts)
    = during (snd (claimRunning u owner now ts))"
  by (rule handleJob_lost_lease [OF _ assms(1-3)]) (use assms(4) in blast)

theorem lost_lease_writes_nothing_witness:
  "snd (handleJob ''worker:a'' 600003 (\<lambda>ts. snd (claimRunning ''u'' ''worker:b'' 1300000 ts)) (Inr ()) 1300001 None 0
      ''u'' [refused_task\<lparr>t_status := QUEUED, t_leaseOwner := None, t_leaseExpiresAt := None\<rparr>])
    = snd (claimRunning ''u'' ''worker:b'' 1300000 (snd (claimRunning ''u'' ''worker:a'' 600003
        [refused_task\<lparr>t_status := QUEUED, t_leaseOwner := None, t_leaseExpiresAt := None\<rparr>])))"
  by (rule lost_lease_writes_nothing
      [where task = "refused_task\<lparr>t_status := QUEUED, t_leaseOwner := None, t_leaseExpiresAt := None\<rparr>"])
    (simp_all add: refused_task_def loadTaskByUuid_def isTerminalTaskStatus_def TERMINAL_TASK_STATUSES_def
      claimRunning_def guarded_update_def count_where_def some_le_def TASK_RUNNING_LEASE_SECONDS_def Let_def)

section \<open>Stock and reservations\<close>

text \<open>C1: Whatever the endpoints, the decisions and the nightly timeout do, in any order: the booked
  quantity of every item is what its batches hold and what its ledger of flows adds up to, its reserved
  quantity is what the pending requests ask for, and no more is reserved than there is.\<close>

theorem stock_always_consistent:
  assumes "asset_reach db"
  shows "book db k = stock db k \<and> book db k = ledger db k \<and> reserved db k = pend db k
    \<and> 0 \<le> reserved db k \<and> reserved db k \<le> book db k"
proof -
  have inv: "stock_inv db" "reserved db = pend db"
    using asset_reach_inv [OF assms] by (simp_all add: asset_inv_def reserve_inv_def)
  then show ?thesis using reserved_range [of db k] by (simp add: stock_inv_def)
qed

theorem stock_always_consistent_witness:
  "stock sample_claimed 1 = 10 \<and> ledger sample_claimed 1 = 10 \<and> pend sample_claimed 1 = 4"
  using stock_always_consistent [OF sample_reach(3), of 1] sample_quantities by simp

text \<open>C5: The system implements the abstract stock: every step holds goods for a new request, frees or issues
  what one request holds, or adjusts the stock, and what is held is always there.\<close>

theorem stock_refines_machine:
  assumes "asset_reach db" and "asset_step db db'"
  shows "view_step (view db) (view db') \<and> view_ok (view db')"
  using asset_step_view [OF assms(2) asset_reach_inv [OF assms(1)]]
    asset_inv_view_ok [OF asset_reach_inv [OF asset_reach.step [OF assms]]] by simp

theorem stock_refines_machine_witness:
  "view_step (view sample_stocked) (view sample_claimed) \<and> view_ok (view sample_claimed)"
  by (rule stock_refines_machine [OF sample_reach(2) sample_steps(3)])

section \<open>Requests can always be resolved\<close>

lemma execute_plain:
  assumes "io_key opts = None" and "io_run opts db = Inr (out, d)"
  shows "executeIdempotentOperation opts db = Inr (oc_result out, d\<lparr>db_logs := db_logs d @ [plain_log opts out]\<rparr>)"
  using assms
  by (simp add: executeIdempotentOperation_def commitIdempotentOperation_def run_logged_def
      writeAssetOperationLog_def insert_row_def log_clash_def plain_log_def)

lemma access_operator:
  assumes "assertCanAccessRequest p t dir = Inr ()"
  shows "\<exists>x. loadAssetOperationLogOperator dir p = Inr x"
  using assms
  by (auto simp: assertCanAccessRequest_def getFunctionAccess_def Let_def loadAssetOperationLogOperator_def
      split: option.splits if_splits)

text \<open>C7: A pending claim or write-down can be approved at any time by an approver with access and scope:
  the stock, the batches and the columns always suffice, and the request is resolved by it.\<close>

theorem claim_always_approvable:
  assumes "asset_reach db" and "find_head i db = Some h" and "ah_status h = PENDING"
    and "ah_requestType h \<in> set CLAIM_TYPES \<or> ah_requestType h \<in> set CHANGE_TYPES"
    and "assertCanAccessRequest p (ah_requestType h) dir = Inr ()"
    and "assertScopeCovers i (ah_requestType h) p dir db = Inr ()"
  shows "\<exists>r db'. process_op jsort fp dir now i process_action.APPROVE p op None db = Inr (r, db')
    \<and> held db' i = none0"
proof -
  have inv: "reserve_inv db" "links_ok db" "actions_ok db"
    using asset_reach_inv [OF assms(1)] by (simp_all add: asset_inv_def linked_def)
  have i: "ah_id h = i" using assms(2) by (auto simp: find_head_def find_Some_iff)
  obtain out d where d: "process_run jsort dir now i process_action.APPROVE p op db = Inr (out, d)"
    using process_run_total [OF inv(1,2) assms(2-5)] assms(6) i by blast
  obtain h' db1 db2 a where h': "find_head i db = Some h'" and lv: "leaves db db1 h'"
    and res: "resolved db1 db2 h' (req_part db (ah_requestType h') (ah_id h'))" and da: "d = add_action a db2"
    using process_run_resolved [OF d inv] by blast
  have "same_requests db1 db2" using res by (auto simp: resolved_def issued_def released_def balanced_def)
  then have "held db2 i = none0"
    using held_frame [of db1 db2] leaves_held(1) [OF lv inv(1)] h' assms(2) i by simp
  then have "held d i = none0" using view_action [of a db2] da by (simp add: view_def)
  then have "held (d\<lparr>db_logs := ls\<rparr>) i = none0" for ls using view_logs [of ls d] by (simp add: view_def)
  moreover obtain opr deps where "loadAssetOperationLogOperator dir p = Inr (opr, deps)"
    using access_operator [OF assms(5)] by (metis surj_pair)
  ultimately show ?thesis using execute_plain d by (simp add: process_op_def)
qed

theorem claim_always_approvable_witness:
  "\<exists>r db'. process_op (\<lambda>js. js) (\<lambda>j. ''f'') sample_dir 0 2 process_action.APPROVE 3 None None sample_claimed = Inr (r, db')
    \<and> held db' 2 = none0"
proof -
  obtain h where h: "find_head 2 sample_claimed = Some h" "ah_status h = PENDING"
    "ah_requestType h = ''CONSUMABLE_REQUEST''" using sample_facts by blast
  have "ah_requestType h \<in> set CLAIM_TYPES" by (simp add: h(3) CLAIM_TYPES_def)
  moreover have "assertCanAccessRequest 3 ''CONSUMABLE_REQUEST'' sample_dir = Inr ()" by code_simp
  then have "assertCanAccessRequest 3 (ah_requestType h) sample_dir = Inr ()"
    "assertScopeCovers 2 (ah_requestType h) 3 sample_dir sample_claimed = Inr ()"
    using sample_quantities(4) by (simp_all add: h(3))
  ultimately show ?thesis using claim_always_approvable [OF sample_reach(3) h(1,2)] by blast
qed

lemma cancel_op_total:
  assumes "asset_inv db" and "find_head i db = Some h" and "ah_status h = PENDING"
    and "ah_applicantId h = actor \<or> ah_proxyId h = Some actor" and "loadSessionUser actor dir \<noteq> None"
  shows "\<exists>r db'. cancel_op fp dir now i actor None db = Inr (r, db')
    \<and> reserved db' = (\<lambda>k. reserved db k - req_part db (ah_requestType h) i k) \<and> book db' = book db"
proof -
  have inv: "reserve_inv db" "links_ok db" using assms(1) by (simp_all add: asset_inv_def linked_def)
  obtain out d where d: "cancel_run dir now i actor db = Inr (out, d)"
    "reserved d = (\<lambda>k. reserved db k - req_part db (ah_requestType h) i k)" "book d = book db"
    using cancel_run_total [OF inv assms(2-4)] by blast
  obtain x where "loadAssetOperationLogOperator dir actor = Inr x"
    using assms(5) by (auto simp: loadAssetOperationLogOperator_def)
  moreover have "reserved (d\<lparr>db_logs := ls\<rparr>) = reserved d" "book (d\<lparr>db_logs := ls\<rparr>) = book d" for ls
    by (simp_all add: fun_eq_iff reserved_def book_def)
  ultimately show ?thesis using execute_plain d by (cases x) (simp add: cancel_op_def)
qed

text \<open>C12: The applicant or proxy of a pending request can always withdraw it, and exactly what the request
  had reserved is free again.\<close>

theorem cancellation_frees_exactly:
  assumes "asset_reach db" and "find_head i db = Some h" and "ah_status h = PENDING"
    and "ah_applicantId h = actor \<or> ah_proxyId h = Some actor" and "loadSessionUser actor dir \<noteq> None"
  shows "\<exists>r db'. cancel_op fp dir now i actor None db = Inr (r, db')
    \<and> reserved db' = (\<lambda>k. reserved db k - req_part db (ah_requestType h) i k) \<and> book db' = book db"
  by (rule cancel_op_total [OF asset_reach_inv [OF assms(1)] assms(2-5)])

theorem cancellation_frees_exactly_witness:
  "\<exists>r db'. cancel_op (\<lambda>j. ''f'') sample_dir 0 2 2 None sample_claimed = Inr (r, db') \<and> reserved db' 1 = 0"
proof -
  obtain h where h: "find_head 2 sample_claimed = Some h" "ah_status h = PENDING"
    "ah_requestType h = ''CONSUMABLE_REQUEST''" "ah_applicantId h = 2" using sample_facts by blast
  have u: "loadSessionUser 2 sample_dir \<noteq> None" by code_simp
  show ?thesis
    using cancellation_frees_exactly [OF sample_reach(3) h(1,2) disjI1 [OF h(4)] u, of "\<lambda>j. ''f''" 0]
    by (auto simp: h(3) sample_quantities)
qed

text \<open>C19: The nightly timeout of an overdue request does what the applicant's own cancellation would have
  done: up to the journal and the fields that say who cancelled it, the two leave the same database.\<close>

theorem timeout_is_cancellation:
  assumes "asset_reach db" and "find_head i db = Some h" and "ah_status h = PENDING"
    and "ah_applicantId h = actor \<or> ah_proxyId h = Some actor"
    and "or_id row = i" and "or_version row = ah_version h" and "or_requestType row = ah_requestType h"
  shows "\<exists>out db1 db2. cancel_run dir now i actor db = Inr (out, db1)
    \<and> autoCancelOverdueRow tx asset_hook now row db = (Inr True, db2)
    \<and> db2 = db1\<lparr>sd_heads := sd_heads db2, sd_acts := sd_acts db2\<rparr>
    \<and> map (\<lambda>g. (ah_id g, ah_status g, ah_version g)) (sd_heads db2) =
      map (\<lambda>g. (ah_id g, ah_status g, ah_version g)) (sd_heads db1)"
proof -
  have inv: "reserve_inv db" "links_ok db"
    using asset_reach_inv [OF assms(1)] by (simp_all add: asset_inv_def linked_def)
  show ?thesis by (rule timeout_cancel [OF inv assms(2-7)]) (auto simp: relabel_def)
qed

theorem timeout_is_cancellation_witness:
  "\<exists>out db1 db2. cancel_run sample_dir 9 2 2 sample_claimed = Inr (out, db1)
    \<and> autoCancelOverdueRow True asset_hook 9
        \<lparr>or_id = 2, or_version = 1, or_requestType = ''CONSUMABLE_REQUEST''\<rparr> sample_claimed = (Inr True, db2)
    \<and> db2 = db1\<lparr>sd_heads := sd_heads db2, sd_acts := sd_acts db2\<rparr>"
proof -
  obtain g h where "sd_heads sample_claimed = [g, h]" "find_head 2 sample_claimed = Some h" "ah_id h = 2"
    "ah_status h = PENDING" "ah_version h = 1" "ah_requestType h = ''CONSUMABLE_REQUEST''" "ah_applicantId h = 2"
    by (rule sample_facts)
  then show ?thesis
    using timeout_is_cancellation [OF sample_reach(3), of 2 h 2
        "\<lparr>or_id = 2, or_version = 1, or_requestType = ''CONSUMABLE_REQUEST''\<rparr>" sample_dir 9 True]
    by fastforce
qed

section \<open>Submissions\<close>

lemma claim_executed:
  assumes "endpoint dir u CONSUMABLE_APPLY_FUNCTION_CODE (claim_submit c items rd) db = Inr (r, db')" and "db' \<noteq> db"
  obtains deps i no d ls where "claimSubmit (u, loadUserName u dir) deps items rd (ca_now c) (ca_suffix c) db = Inr ((i, no), d)"
    and "db' = d\<lparr>db_logs := ls\<rparr>" and "r = oc_result (head_outcome ''claim '' (i, no))" and "loadSessionUser u dir \<noteq> None"
proof -
  obtain opr where opr: "loadAssetOperationLogOperator dir u = Inr opr" and run: "claim_submit c items rd opr db = Inr (r, db')"
    using assms(1) by (auto simp: endpoint_def bindR_Inr_iff)
  have u: "fst opr = (u, loadUserName u dir)" "loadSessionUser u dir \<noteq> None"
    using opr by (auto simp: loadAssetOperationLogOperator_def split: option.splits)
  obtain out d ls where "with_outcome (head_outcome ''claim '')
      (claimSubmit (fst opr) (departments_json (snd opr)) items rd (ca_now c) (ca_suffix c)) db = Inr (out, d)"
    and db': "db' = d\<lparr>db_logs := ls\<rparr>" "r = oc_result out"
    using execute_cases [OF run [unfolded claim_submit_def idempotent_def]] assms(2) by auto
  then obtain x where "claimSubmit (fst opr) (departments_json (snd opr)) items rd (ca_now c) (ca_suffix c) db = Inr (x, d)"
    and "out = head_outcome ''claim '' x" by (auto simp: with_outcome_def bindR_Inr_iff)
  then show ?thesis using that [of "departments_json (snd opr)" "fst x" "snd x" d ls] u db' by simp
qed

lemma asset_reach_tables: "asset_reach db \<Longrightarrow> tables_ok db"
  by (rule asset_inv_tables [OF asset_reach_inv])

lemma logs_quantities: "reserved (d\<lparr>db_logs := ls\<rparr>) = reserved d" "book (d\<lparr>db_logs := ls\<rparr>) = book d"
  by (simp_all add: fun_eq_iff reserved_def book_def)

text \<open>C25: A claim that is executed, not replayed, reserves exactly the quantities asked for and books nothing.\<close>

theorem claim_reserves_demand:
  assumes "asset_reach db" and "db' \<noteq> db"
    and "endpoint dir u CONSUMABLE_APPLY_FUNCTION_CODE (claim_submit c items rd) db = Inr (r, db')"
  shows "reserved db' k = reserved db k + (\<Sum>m \<leftarrow> items. if cm_inventoryItemId m = k then cm_qty m else 0)
    \<and> book db' k = book db k"
proof -
  obtain deps i no d ls where d: "claimSubmit (u, loadUserName u dir) deps items rd (ca_now c) (ca_suffix c) db = Inr ((i, no), d)"
    and db': "db' = d\<lparr>db_logs := ls\<rparr>" by (rule claim_executed [OF assms(3,2)])
  from claimSubmit_submits [OF d asset_reach_tables [OF assms(1)]]
  have "shifts db d none0 (demand cm_inventoryItemId cm_qty items) none0 none0" by (auto simp: submits_def)
  then show ?thesis by (simp add: db' logs_quantities shifts_def padd_def demand_def none0_def)
qed

lemma sample_claim_call:
  "endpoint sample_dir 2 CONSUMABLE_APPLY_FUNCTION_CODE
     (claim_submit (sample_call ''k2'' ''f2'' 3000) [\<lparr>cm_inventoryItemId = 1, cm_qty = 4, cm_purpose = None\<rparr>] 1) sample_stocked
   = Inr (fst (projr (sample_claim 4 sample_stocked)), sample_claimed)"
  unfolding sample_claim_def [symmetric] sample_claimed_def
  using sample_accepted(3) by (auto simp: accepted_def state_after_def split: sum.splits)

lemma sample_new: "sample_claimed \<noteq> sample_stocked"
  using sample_quantities(2) sample_stocked_quantities(2) by auto

theorem claim_reserves_demand_witness: "reserved sample_claimed 1 = 0 + 4 \<and> book sample_claimed 1 = 10"
  using claim_reserves_demand [OF sample_reach(2) sample_new sample_claim_call, of 1] sample_stocked_quantities by simp

text \<open>C33: A claim that was just submitted can be cancelled by its applicant under the identifier it was
  answered with, and all reserved and booked quantities are what they were before.\<close>

theorem submit_then_cancel:
  assumes "asset_reach db" and "db' \<noteq> db"
    and "endpoint dir u CONSUMABLE_APPLY_FUNCTION_CODE (claim_submit c items rd) db = Inr (r, db')"
  shows "\<exists>i no r' db''. r = oc_result (head_outcome ''claim '' (i, no))
    \<and> cancel_op fp dir now i u None db' = Inr (r', db'') \<and> reserved db'' = reserved db \<and> book db'' = book db"
proof -
  obtain deps i no d ls where d: "claimSubmit (u, loadUserName u dir) deps items rd (ca_now c) (ca_suffix c) db = Inr ((i, no), d)"
    and db': "db' = d\<lparr>db_logs := ls\<rparr>" and r: "r = oc_result (head_outcome ''claim '' (i, no))"
    and u: "loadSessionUser u dir \<noteq> None" by (rule claim_executed [OF assms(3,2)])
  note inv = asset_reach_inv [OF assms(1)]
  have sub: "submits db d i u (demand cm_inventoryItemId cm_qty items)"
    using claimSubmit_submits [OF d asset_reach_tables [OF assms(1)]] by simp
  have req: "requests_ok db" using inv by (simp add: asset_inv_def reserve_inv_def)
  obtain h where h: "find (\<lambda>h. ah_id h = i) (sd_heads d) = Some h" "ah_status h = PENDING" "ah_applicantId h = u"
    and part: "req_part d (ah_requestType h) i = demand cm_inventoryItemId cm_qty items"
    using submits_head [OF req sub] by blast
  have head: "find_head i db' = Some h" using h(1) by (simp add: find_head_def db')
  have inv': "asset_inv db'"
    using submissions_sound(1) [OF inv d] asset_inv_logs by (simp add: db' sound_def)
  obtain r' db'' where c: "cancel_op fp dir now i u None db' = Inr (r', db'')"
    and q: "reserved db'' = (\<lambda>k. reserved db' k - req_part db' (ah_requestType h) i k)" "book db'' = book db'"
    using cancel_op_total [OF inv' head h(2) _ u] h(3) by blast
  have "req_part db' (ah_requestType h) i = demand cm_inventoryItemId cm_qty items"
  proof -
    have "claim_part db' = claim_part d" "change_part db' = change_part d"
      by (simp_all add: db' fun_eq_iff claim_part_def change_part_def)
    then have "req_part db' (ah_requestType h) i = req_part d (ah_requestType h) i" by (intro ext) (simp add: req_part_def)
    then show ?thesis using part by simp
  qed
  moreover have "reserved db' k = reserved db k + demand cm_inventoryItemId cm_qty items k" "book db' k = book db k" for k
    using sub by (simp_all add: db' logs_quantities submits_def shifts_def padd_def none0_def) (auto simp: padd_def none0_def)
  ultimately have "reserved db'' = reserved db" "book db'' = book db" using q by (auto simp: fun_eq_iff)
  then show ?thesis using r c by blast
qed

theorem submit_then_cancel_witness:
  "\<exists>i r' db''. cancel_op (\<lambda>j. ''f'') sample_dir 9 i 2 None sample_claimed = Inr (r', db'') \<and> reserved db'' = reserved sample_stocked"
  using submit_then_cancel [OF sample_reach(2) sample_new sample_claim_call] by blast

section \<open>Idempotency\<close>

text \<open>C9: A call that was executed under a key is answered from the log ever after: a repetition with the
  same payload changes nothing and returns the recorded result, whatever it would have run.\<close>

theorem repeated_call_replays:
  assumes "executeIdempotentOperation opts db = Inr (r, db1)" and "io_key opts = Some key" and "key \<noteq> []"
    and "findIdempotencyRecord (fst (io_operator opts)) (io_scope opts) key db = None"
    and "db_logs db2 = db_logs db1 @ later"
    and "fst (io_operator opts') = fst (io_operator opts)" and "io_scope opts' = io_scope opts"
    and "io_key opts' = io_key opts" and "io_fingerprint opts' = io_fingerprint opts"
  shows "executeIdempotentOperation opts' db2 = Inr (column_json r, db2)"
  using execute_again [OF assms(1-8)] assms(9) by simp

definition noop :: "string \<Rightarrow> idem_options" where
  "noop fp = \<lparr>io_operator = (1, ''admin''), io_feature = ''x'', io_scope = ''s'', io_key = Some ''k'',
     io_fingerprint = fp, io_run = (\<lambda>d. Inr (\<lparr>oc_result = JNum 7, oc_action = log_action.CREATE, oc_summary = []\<rparr>, d))\<rparr>"

lemma noop_facts:
  "executeIdempotentOperation (noop ''f'') sample_start =
     Inr (JNum 7, sample_start\<lparr>db_logs := [keyed_log (noop ''f'') ''k'' \<lparr>oc_result = JNum 7, oc_action = log_action.CREATE, oc_summary = []\<rparr>]\<rparr>)"
  "findIdempotencyRecord 1 ''s'' ''k'' sample_start = None"
  by (simp_all add: noop_def executeIdempotentOperation_def tryReplayIdempotentResult_def findIdempotencyRecord_def
      sample_start_def commitIdempotentOperation_def run_logged_def writeAssetOperationLog_def insert_row_def)

theorem repeated_call_replays_witness:
  "executeIdempotentOperation (noop ''f'')
     (sample_start\<lparr>db_logs := [keyed_log (noop ''f'') ''k'' \<lparr>oc_result = JNum 7, oc_action = log_action.CREATE, oc_summary = []\<rparr>]\<rparr>)
   = Inr (JNum 7, sample_start\<lparr>db_logs := [keyed_log (noop ''f'') ''k'' \<lparr>oc_result = JNum 7, oc_action = log_action.CREATE, oc_summary = []\<rparr>]\<rparr>)"
  using repeated_call_replays [OF noop_facts(1), of "''k''" _ "[]" "noop ''f''"] noop_facts(2)
  by (simp add: noop_def column_json_def)

text \<open>C24: A key that was used for one payload is refused for another one.\<close>

theorem reused_key_rejected:
  assumes "executeIdempotentOperation opts db = Inr (r, db1)" and "io_key opts = Some key" and "key \<noteq> []"
    and "findIdempotencyRecord (fst (io_operator opts)) (io_scope opts) key db = None"
    and "db_logs db2 = db_logs db1 @ later"
    and "fst (io_operator opts') = fst (io_operator opts)" and "io_scope opts' = io_scope opts"
    and "io_key opts' = io_key opts" and "io_fingerprint opts' \<noteq> io_fingerprint opts"
  shows "executeIdempotentOperation opts' db2 = Inl (Biz IDEMPOTENCY_KEY_REUSED)"
  using execute_again [OF assms(1-8)] assms(9) by simp

theorem reused_key_rejected_witness:
  "executeIdempotentOperation (noop ''g'')
     (sample_start\<lparr>db_logs := [keyed_log (noop ''f'') ''k'' \<lparr>oc_result = JNum 7, oc_action = log_action.CREATE, oc_summary = []\<rparr>]\<rparr>)
   = Inl (Biz IDEMPOTENCY_KEY_REUSED)"
  using reused_key_rejected [OF noop_facts(1), of "''k''" _ "[]" "noop ''g''"] noop_facts(2)
  by (simp add: noop_def)

text \<open>C34: The fingerprint of a payload does not depend on the order of the keys of its objects, at any depth,
  when the host's comparison orders these keys.\<close>

theorem fingerprint_ignores_key_order:
  assumes "orders lc K" and "reordered K v w"
  shows "fingerprintPayload lc stringify sha v = fingerprintPayload lc stringify sha w"
  using canonicalize_reordered [OF assms, of stringify] by (simp add: fingerprintPayload_def)

theorem fingerprint_ignores_key_order_witness:
  "fingerprintPayload (\<lambda>a b. int (length a) - int (length b)) (\<lambda>j. case j of JArr [JObj ps] \<Rightarrow> concat (map fst ps) | _ \<Rightarrow> []) (\<lambda>s. s)
     (JArr [JObj [(''a'', JNum 1), (''bb'', JUndef), (''ccc'', JNull)]]) =
   fingerprintPayload (\<lambda>a b. int (length a) - int (length b)) (\<lambda>j. case j of JArr [JObj ps] \<Rightarrow> concat (map fst ps) | _ \<Rightarrow> []) (\<lambda>s. s)
     (JArr [JObj [(''ccc'', JNull), (''a'', JNum 1), (''bb'', JUndef)]])"
proof (rule fingerprint_ignores_key_order [where K = "{''a'', ''bb'', ''ccc''}"])
  show "orders (\<lambda>a b. int (length a) - int (length b)) {''a'', ''bb'', ''ccc''}" by (simp add: orders_def)
  have "reordered K v v" for K v by (rule reordered_refl)
  then show "reordered {''a'', ''bb'', ''ccc''} (JArr [JObj [(''a'', JNum 1), (''bb'', JUndef), (''ccc'', JNull)]])
      (JArr [JObj [(''ccc'', JNull), (''a'', JNum 1), (''bb'', JUndef)]])"
    by (intro reordered_arr list_all2_Cons [THEN iffD2] conjI
        reordered_obj [where rs = "[(''a'', JNum 1), (''bb'', JUndef), (''ccc'', JNull)]"]) simp_all
qed

section \<open>Stock\<close>

text \<open>C11: Batches are allocated first in, first out: an allocation succeeds exactly when the batches of the item
  hold enough, takes what was asked for from a prefix of the batches by time of receipt, and drains every
  batch before it touches the next.\<close>

theorem allocation_first_in_first_out:
  assumes "asset_reach db" and "0 \<le> q"
  shows "(stock db k < q \<longrightarrow> allocateFifoBatches k q db = Inl (Biz INSUFFICIENT_STOCK))
    \<and> (q \<le> stock db k \<longrightarrow> (\<exists>as db'. allocateFifoBatches k q db = Inr (as, db') \<and> sum_list (map snd as) = q
        \<and> stock db' = (stock db)(k := stock db k - q)
        \<and> (\<exists>n. map fst as = map ba_id (take n (fifo_rows k db)))
        \<and> (\<forall>j. Suc j < length as \<longrightarrow> snd (as ! j) = ba_remainingQty (fifo_rows k db ! j))))
    \<and> sorted (map (\<lambda>b. (ba_receivedAt b, ba_id b)) (fifo_rows k db))"
proof -
  have ok: "tables_ok db" by (rule asset_reach_tables [OF assms(1)])
  note eq = allocate_eq [OF ok assms(2), of k]
  have "\<exists>as db'. allocateFifoBatches k q db = Inr (as, db') \<and> sum_list (map snd as) = q
        \<and> stock db' = (stock db)(k := stock db k - q)
        \<and> (\<exists>n. map fst as = map ba_id (take n (fifo_rows k db)))
        \<and> (\<forall>j. Suc j < length as \<longrightarrow> snd (as ! j) = ba_remainingQty (fifo_rows k db ! j))" if "q \<le> stock db k"
  proof -
    obtain as db' where al: "allocateFifoBatches k q db = Inr (as, db')" and as: "as = fifo_plan (fifo_rows k db) q"
      using eq \<open>q \<le> stock db k\<close> by auto
    note s = allocate_shifts [OF al ok assms(2)]
    have "stock db' = (stock db)(k := stock db k - q)"
      using s(1) by (simp add: shifts_def padd_atk)
    then show ?thesis
      using al s(3) fifo_plan_ids [of "fifo_rows k db" q] fifo_plan_greedy [of _ "fifo_rows k db" q] as
      by (auto simp: allocated_def)
  qed
  then show ?thesis using eq by (auto simp: fifo_rows_def)
qed

theorem allocation_first_in_first_out_witness:
  "\<exists>as db'. allocateFifoBatches 1 4 sample_stocked = Inr (as, db') \<and> sum_list (map snd as) = 4"
proof -
  have "stock sample_stocked 1 = 10" using asset_reach_inv [OF sample_reach(2)] sample_stocked_quantities by (simp add: asset_inv_def reserve_inv_def stock_inv_def)
  then show ?thesis using allocation_first_in_first_out [OF sample_reach(2), of 4 1] by auto
qed

text \<open>C26: A transfer takes the quantity from the item it names and adds it to the item of the same consumable
  and specification in the warehouse it names, which is not where the goods were; of every other item the
  stock stays, and no reservation changes. The batches give what the first-in-first-out plan takes from
  them and are otherwise as before, and each gives rise to one new batch of the target item, with the
  quantity taken, which names it as its source and has its supplier, brand, price and day of receipt.\<close>

theorem transfer_moves_quantity:
  assumes "asset_reach db" and "0 < tn_qty dto" and "transfer_create opr dto db = Inr ((t, s, i), db')"
  shows "s = tn_fromInventoryItemId dto \<and> reserved db' = reserved db
    \<and> (\<forall>k. book db' k = book db k + (if k = i then tn_qty dto else 0) - (if k = s then tn_qty dto else 0))
    \<and> (\<exists>source \<in> set (db_items db). \<exists>target \<in> set (db_items db'). it_id source = s \<and> it_id target = i
        \<and> it_warehouseId source \<noteq> Some (tn_toWarehouseId dto) \<and> it_warehouseId target = Some (tn_toWarehouseId dto)
        \<and> it_consumableId target = it_consumableId source \<and> it_spec target = it_spec source)
    \<and> (\<exists>subs. db_batches db' = drain (fifo_plan (fifo_rows s db) (tn_qty dto)) (db_batches db) @ subs
        \<and> list_all2 (split_of i (db_batches db)) (fifo_plan (fifo_rows s db) (tn_qty dto)) subs)"
proof -
  note ok = asset_reach_tables [OF assms(1)]
  note m = transfer_moves [OF assms(3) ok less_imp_le [OF assms(2)]]
  have s: "s = tn_fromInventoryItemId dto" using m(2) by simp
  have "reserved db' = reserved db
    \<and> (\<forall>k. book db' k = book db k + (if k = i then tn_qty dto else 0) - (if k = s then tn_qty dto else 0))"
    using m by (auto simp: moves_def shifts_def padd_def atk_def none0_def)
  moreover obtain source where "source \<in> set (db_items db)" "it_id source = tn_fromInventoryItemId dto"
      "it_warehouseId source \<noteq> Some (tn_toWarehouseId dto)"
      "placed i (it_consumableId source) (it_spec source) (Some (tn_toWarehouseId dto)) db'"
    by (rule transfer_places [OF assms(3) ok less_imp_le [OF assms(2)]])
  then have "\<exists>source \<in> set (db_items db). \<exists>target \<in> set (db_items db'). it_id source = s \<and> it_id target = i
        \<and> it_warehouseId source \<noteq> Some (tn_toWarehouseId dto) \<and> it_warehouseId target = Some (tn_toWarehouseId dto)
        \<and> it_consumableId target = it_consumableId source \<and> it_spec target = it_spec source"
    unfolding s placed_def by blast
  moreover have "\<exists>subs. db_batches db' = drain (fifo_plan (fifo_rows s db) (tn_qty dto)) (db_batches db) @ subs
        \<and> list_all2 (split_of i (db_batches db)) (fifo_plan (fifo_rows s db) (tn_qty dto)) subs"
    unfolding s by (rule transfer_places [OF assms(3) ok less_imp_le [OF assms(2)]])
  ultimately show ?thesis using s by blast
qed

definition sample_rooms :: asset_db where
  "sample_rooms = sample_start\<lparr>db_warehouses := [\<lparr>wh_id = 1, wh_parentId = None, wh_name = ''main'', wh_status = ACTIVE\<rparr>,
     \<lparr>wh_id = 2, wh_parentId = Some 1, wh_name = ''shelf'', wh_status = ACTIVE\<rparr>]\<rparr>"

definition sample_rooms_stocked :: asset_db where
  "sample_rooms_stocked = state_after (sample_decide 1 process_action.APPROVE 1 (state_after (sample_stock_in sample_rooms)))"

definition sample_transfer :: transfer_input where
  "sample_transfer = \<lparr>tn_fromInventoryItemId = 1, tn_toWarehouseId = 2, tn_qty = 3, tn_remark = None\<rparr>"

lemma sample_rooms_evaluated:
  "accepted (sample_stock_in sample_rooms)"
  "case sample_decide 1 process_action.APPROVE 1 (state_after (sample_stock_in sample_rooms)) of Inl e \<Rightarrow> False
   | Inr (r, d) \<Rightarrow> book d 1 = 10 \<and> (case transfer_create (1, ''admin'') sample_transfer d of
       Inl e \<Rightarrow> False | Inr (x, d') \<Rightarrow> x = (1, 1, 2))"
  by code_simp+

lemma sample_rooms_reach: "asset_reach sample_rooms_stocked"
proof -
  let ?s1 = "state_after (sample_stock_in sample_rooms)"
  have s: "asset_reach sample_rooms" by (rule start) (simp add: initial_db_def sample_rooms_def sample_start_def)
  obtain r where "sample_stock_in sample_rooms = Inr (r, ?s1)" using accepted_Inr [OF sample_rooms_evaluated(1)] by blast
  then have "asset_step sample_rooms ?s1"
    unfolding sample_stock_in_def by (rule submit [rotated]) (rule endpoint_step.intros)
  then have s1: "asset_reach ?s1" by (rule step [OF s])
  have "accepted (sample_decide 1 process_action.APPROVE 1 ?s1)"
    using sample_rooms_evaluated(2) by (auto simp: accepted_def split: sum.splits)
  then obtain r where "sample_decide 1 process_action.APPROVE 1 ?s1 = Inr (r, sample_rooms_stocked)"
    using accepted_Inr unfolding sample_rooms_stocked_def by blast
  then have "asset_step ?s1 sample_rooms_stocked" unfolding sample_decide_def by (rule decide)
  then show ?thesis by (rule step [OF s1])
qed

theorem transfer_moves_quantity_witness:
  "\<exists>db'. transfer_create (1, ''admin'') sample_transfer sample_rooms_stocked = Inr ((1, 1, 2), db') \<and> book db' 1 = 7"
proof -
  have e: "book sample_rooms_stocked 1 = 10 \<and> (case transfer_create (1, ''admin'') sample_transfer sample_rooms_stocked of
       Inl e \<Rightarrow> False | Inr (x, d') \<Rightarrow> x = (1, 1, 2))"
    unfolding sample_rooms_stocked_def by (rule evaluated [OF sample_rooms_evaluated(2)])
  then obtain db' where t: "transfer_create (1, ''admin'') sample_transfer sample_rooms_stocked = Inr ((1, 1, 2), db')"
    by (auto split: sum.splits)
  have q: "0 < tn_qty sample_transfer" by (simp add: sample_transfer_def)
  show ?thesis
    using transfer_moves_quantity [OF sample_rooms_reach q t] t e by (auto simp: sample_transfer_def)
qed

text \<open>C27: Goods given back return to the batches they came from: the plan, the latest allocation first, gives
  exactly the quantity to open allocations of the record, each at most what it still has out and each in
  the item of the record; every allocation counts what it got as returned, every batch has what its
  allocations got on top of what it had, and nothing else of them changes. Book, stock and ledger of the
  item grow by the quantity, no reservation changes, and the record counts it as returned.\<close>

theorem return_restores_quantity:
  assumes "asset_reach db" and "0 \<le> q" and "restoreRecord r q rt ri opr db = Inr (ids, db')"
  shows "(\<exists>plan. plan = restore_plan (restore_rows (br_id r) db) q \<and> sum_list (map snd plan) = q
      \<and> (\<forall>(a, t) \<in> set plan. a \<in> set (db_allocs db) \<and> al_recordId a = br_id r \<and> 0 < t \<and> t \<le> al_open a
            \<and> (\<exists>b \<in> set (db_batches db). ba_id b = al_batchId a \<and> ba_itemId b = br_itemId r))
      \<and> db_allocs db' = map (\<lambda>a. a\<lparr>al_returnedQty := al_returnedQty a + given al_id plan (al_id a)\<rparr>) (db_allocs db)
      \<and> db_batches db' = map (\<lambda>b. b\<lparr>ba_remainingQty := ba_remainingQty b + given al_batchId plan (ba_id b)\<rparr>) (db_batches db))
    \<and> book db' = (book db)(br_itemId r := book db (br_itemId r) + q)
    \<and> stock db' = (stock db)(br_itemId r := stock db (br_itemId r) + q)
    \<and> ledger db' = (ledger db)(br_itemId r := ledger db (br_itemId r) + q) \<and> reserved db' = reserved db
    \<and> db_borrows db' = update_where (\<lambda>b. br_id b = br_id r) (\<lambda>b. b\<lparr>br_returnedQty := br_returnedQty b + q\<rparr>) (db_borrows db)"
proof -
  note ok = asset_reach_tables [OF assms(1)]
  note s = restoreRecord_shifts [OF assms(3) ok assms(2)]
  note p = restoreRecord_tables [OF assms(3) ok assms(2) refl, unfolded alloc_add_def batch_add_def]
  have "borrow_add q 0 = (\<lambda>b. b\<lparr>br_returnedQty := br_returnedQty b + q\<rparr>)" by (simp add: fun_eq_iff borrow_add_def)
  moreover have "\<forall>(a, t) \<in> set (restore_plan (restore_rows (br_id r) db) q).
      a \<in> set (db_allocs db) \<and> al_recordId a = br_id r \<and> 0 < t \<and> t \<le> al_open a
      \<and> (\<exists>b \<in> set (db_batches db). ba_id b = al_batchId a \<and> ba_itemId b = br_itemId r)"
    using p(4) by blast
  ultimately show ?thesis using s p(1-3) by (simp add: shifts_def padd_atk)
qed

definition sample_issued :: asset_db where
  "sample_issued = state_after (sample_decide 2 process_action.APPROVE 3 sample_claimed)"

lemma sample_issued_evaluated:
  "case sample_decide 2 process_action.APPROVE 3 sample_claimed of Inl e \<Rightarrow> False
   | Inr (r, d) \<Rightarrow> book d 1 = 6 \<and> (case db_borrows d of [b] \<Rightarrow> br_itemId b = 1 \<and> br_qty b = 4
       \<and> accepted (restoreRecord b 3 ''RETURN'' 9 (3, ''bob'') d) | _ \<Rightarrow> False)"
  by code_simp

lemma sample_issued_reach: "asset_reach sample_issued"
proof -
  have "accepted (sample_decide 2 process_action.APPROVE 3 sample_claimed)"
    using sample_issued_evaluated by (auto simp: accepted_def split: sum.splits)
  then obtain r where "sample_decide 2 process_action.APPROVE 3 sample_claimed = Inr (r, sample_issued)"
    using accepted_Inr unfolding sample_issued_def by blast
  then have "asset_step sample_claimed sample_issued" unfolding sample_decide_def by (rule decide)
  then show ?thesis by (rule step [OF sample_reach(3)])
qed

theorem return_restores_quantity_witness:
  "\<exists>b ids db'. db_borrows sample_issued = [b] \<and> restoreRecord b 3 ''RETURN'' 9 (3, ''bob'') sample_issued = Inr (ids, db')
    \<and> book sample_issued 1 = 6 \<and> book db' 1 = 9"
proof -
  have e: "book sample_issued 1 = 6 \<and> (case db_borrows sample_issued of [b] \<Rightarrow> br_itemId b = 1 \<and> br_qty b = 4
       \<and> accepted (restoreRecord b 3 ''RETURN'' 9 (3, ''bob'') sample_issued) | _ \<Rightarrow> False)"
    unfolding sample_issued_def by (rule evaluated [OF sample_issued_evaluated])
  then obtain b where b: "db_borrows sample_issued = [b]" "br_itemId b = 1" "accepted (restoreRecord b 3 ''RETURN'' 9 (3, ''bob'') sample_issued)"
    by (auto split: list.splits)
  then obtain ids where r: "restoreRecord b 3 ''RETURN'' 9 (3, ''bob'') sample_issued =
      Inr (ids, state_after (restoreRecord b 3 ''RETURN'' 9 (3, ''bob'') sample_issued))"
    using accepted_Inr by blast
  have "book (state_after (restoreRecord b 3 ''RETURN'' 9 (3, ''bob'') sample_issued)) 1 = 9"
    using return_restores_quantity [OF sample_issued_reach _ r] e b(2) by simp
  then show ?thesis using b r e by blast
qed

section \<open>Places, settlements and settings\<close>

text \<open>The names from the root down to a warehouse, along the parents.\<close>

inductive ancestor_path :: "warehouse_row list \<Rightarrow> int \<Rightarrow> string list \<Rightarrow> bool" for ws where
  path_root: "find (\<lambda>w. wh_id w = i) ws = Some w \<Longrightarrow> wh_parentId w = None \<Longrightarrow> ancestor_path ws i [wh_name w]"
| path_below: "find (\<lambda>w. wh_id w = i) ws = Some w \<Longrightarrow> wh_parentId w = Some p \<Longrightarrow> ancestor_path ws p names \<Longrightarrow>
    ancestor_path ws i (names @ [wh_name w])"

lemma path_loop_None [simp]: "path_loop fuel False None acc ws = Some acc"
  by (cases fuel) simp_all

lemma path_loop_ancestors:
  "ancestor_path ws i names \<Longrightarrow> path_loop fuel False (Some i) acc ws = Some (drop (length names - fuel) names @ acc)"
proof (induction arbitrary: fuel acc rule: ancestor_path.induct)
  case (path_root i w)
  then show ?case by (cases fuel) simp_all
next
  case (path_below i w p names)
  show ?case
  proof (cases fuel)
    case (Suc n)
    have "drop (length names - n) names @ wh_name w # acc = drop (length (names @ [wh_name w]) - fuel) (names @ [wh_name w]) @ acc"
      using Suc by simp
    then show ?thesis using path_below Suc by simp
  qed simp
qed

lemma ancestor_path_last: "ancestor_path ws i names \<Longrightarrow> \<exists>w. find (\<lambda>w. wh_id w = i) ws = Some w \<and> last names = wh_name w \<and> names \<noteq> []"
  by (cases rule: ancestor_path.cases) auto

text \<open>C39: The path of a warehouse is the chain of its ancestors' names, of which the bounded walk keeps the
  nearest sixty-four; a warehouse that is not active gives none, one whose ancestors are not does.\<close>

theorem warehouse_path_ancestors:
  assumes "ancestor_path (db_warehouses db) i names"
    and "find (\<lambda>w. wh_id w = i) (db_warehouses db) = Some w"
  shows "loadWarehouseWithPath (Some i) db =
    (if wh_status w = ACTIVE
     then Some \<lparr>wp_id = i, wp_name = wh_name w, wp_path = join_path (drop (length names - 64) names)\<rparr> else None)"
proof -
  let ?ws = "db_warehouses db"
  have start: "path_loop 64 True (Some i) [] ?ws =
      (if wh_status w = ACTIVE then path_loop 64 False (Some i) [] ?ws else None)"
    using assms(2) by (simp add: eval_nat_numeral)
  have n: "last names = wh_name w" "names \<noteq> []" using ancestor_path_last [OF assms(1)] assms(2) by auto
  then have "last (drop (length names - 64) names) = wh_name w" "drop (length names - 64) names \<noteq> []"
    using diff_less [of 64 "length names"] by (cases names; force simp: last_drop)+
  then show ?thesis
    using path_loop_ancestors [OF assms(1), of 64 "[]"] start by (simp add: loadWarehouseWithPath_def)
qed

theorem warehouse_path_ancestors_witness:
  "loadWarehouseWithPath (Some 2) sample_rooms = Some \<lparr>wp_id = 2, wp_name = ''shelf'', wp_path = ''main/shelf''\<rparr>"
proof -
  let ?ws = "db_warehouses sample_rooms"
  have ws: "?ws = [\<lparr>wh_id = 1, wh_parentId = None, wh_name = ''main'', wh_status = ACTIVE\<rparr>,
      \<lparr>wh_id = 2, wh_parentId = Some 1, wh_name = ''shelf'', wh_status = ACTIVE\<rparr>]"
    by (simp add: sample_rooms_def)
  have "ancestor_path ?ws 1 [''main'']" using path_root [of 1 ?ws "hd ?ws"] by (simp add: ws)
  then have "ancestor_path ?ws 2 ([''main''] @ [''shelf''])" using path_below [of 2 ?ws "last ?ws" 1 "[''main'']"] by (simp add: ws)
  then show ?thesis using warehouse_path_ancestors [of sample_rooms 2 _ "last ?ws"] by (simp add: ws)
qed

text \<open>C28: A settlement of an agent's list that is accepted covers exactly what is open of every record of the
  list, and names no other record.\<close>

theorem settlement_covers_list:
  assumes "settlementSubmit opr deps ref items now suffix db = Inr ((i, no), db')"
  shows "\<exists>rs. db_settlementItems db' = db_settlementItems db @ rs \<and> (\<forall>s \<in> set rs. si_requestId s = i)
    \<and> (\<forall>b \<in> set (db_borrows db). br_type b = AGENT \<and> br_agentRequestId b = Some ref \<and> 0 < br_open b \<longrightarrow>
        (\<Sum>s \<leftarrow> rs. if si_recordId s = br_id b then si_qty s else 0) = br_open b)
    \<and> (\<forall>s \<in> set rs. \<exists>b \<in> set (db_borrows db). br_id b = si_recordId s \<and> br_agentRequestId b = Some ref)"
proof -
  obtain db1 where cov: "check_coverage items ref db = Inr ()"
    and head: "createRequestHead now suffix
        \<lparr>rq_requestType = ''AGENT_SETTLEMENT'', rq_applicantId = fst opr, rq_applicantName = snd opr,
         rq_departmentSnapshot = deps, rq_refRequestId = Some ref, rq_proxyId = None, rq_proxyName = None,
         rq_remark = None\<rparr> db = Inr ((i, no), db1)"
    and lin: "foldR (createSettlement i) items db1 = Inr db'"
    using assms by (auto simp: settlementSubmit_def bindR_Inr_iff split: option.splits if_splits)
  obtain n rs where rs: "db' = db1\<lparr>db_seq := (db_seq db1)(TSettlementItems := n), db_settlementItems := db_settlementItems db1 @ rs\<rparr>"
    "\<forall>r \<in> set rs. si_requestId r = i \<and> 0 < si_qty r"
    "\<forall>k. demand si_recordId si_qty rs k = demand se_borrowRecordId se_qty items k"
    using createSettlements_Inr [OF lin] by blast
  have same: "db_settlementItems db1 = db_settlementItems db" by (rule createRequestHead_row(8) [OF head])
  have inside: "\<forall>l \<in> set items. se_borrowRecordId l \<in> br_id ` set (open_records ref db)"
    and exact: "\<forall>b \<in> set (open_records ref db). claimed_of items (br_id b) = Some (br_open b)"
    using cov by (auto simp: check_coverage_def Let_def split: if_splits)
  have opens: "set (open_records ref db) =
      {b \<in> set (db_borrows db). br_type b = AGENT \<and> br_agentRequestId b = Some ref \<and> 0 < br_open b}"
    by (auto simp: open_records_def)
  have sums: "demand se_borrowRecordId se_qty items k = sum_where (\<lambda>l. se_borrowRecordId l = k) se_qty items" for k
    using demand_sum_where [of se_borrowRecordId k True se_qty items] by simp
  have lines: "\<exists>l \<in> set items. se_borrowRecordId l = si_recordId s" if s: "s \<in> set rs" for s
  proof (rule ccontr)
    assume "\<not> (\<exists>l \<in> set items. se_borrowRecordId l = si_recordId s)"
    then have "demand si_recordId si_qty rs (si_recordId s) = 0" using rs(3) by (simp add: sums sum_where_none)
    moreover have "0 < demand si_recordId si_qty rs (si_recordId s)"
    proof -
      have "si_qty s \<le> demand si_recordId si_qty rs (si_recordId s)"
        unfolding demand_def using s rs(2)
        by (intro member_le_sum_list [THEN order_trans [rotated]]) (auto intro: less_imp_le)
      then show ?thesis using s rs(2) by fastforce
    qed
    ultimately show False by simp
  qed
  have "(\<Sum>s \<leftarrow> rs. if si_recordId s = br_id b then si_qty s else 0) = br_open b" if "b \<in> set (open_records ref db)" for b
    using exact that rs(3) sums by (auto simp: demand_def claimed_of_def split: if_splits)
  moreover have "\<exists>b \<in> set (db_borrows db). br_id b = si_recordId s \<and> br_agentRequestId b = Some ref" if "s \<in> set rs" for s
    using lines [OF that] inside opens by fastforce
  ultimately show ?thesis using rs(1,2) same opens by (intro exI [of _ rs]) auto
qed

text \<open>A list of two records: goods an administrator holds for an employee.\<close>

definition sample_record :: "int \<Rightarrow> int \<Rightarrow> borrow_row" where
  "sample_record i q =
     \<lparr>br_id = i, br_type = AGENT, br_userId = None, br_userName = None, br_departmentSnapshot = JArr [],
      br_agentRequestId = Some 2, br_requestId = 2, br_itemId = 1, br_consumableName = ''drill'', br_spec = ''M'',
      br_warehouseName = ''main'', br_warehousePath = ''main'', br_qty = q, br_borrowedAt = 0, br_dueAt = 9,
      br_returnedQty = 0, br_writtenOffQty = 0\<rparr>"

definition sample_agent :: asset_db where
  "sample_agent = sample_start
     \<lparr>sd_heads := [\<lparr>ah_id = 2, ah_status = APPROVED, ah_version = 2, ah_requestType = ''AGENT_REQUEST'', ah_applicantId = 1,
        ah_proxyId = Some 1, ah_departmentSnapshot = JArr [], ah_submittedAt = Some 0, ah_cancelledAt = None,
        ah_cancelSource = None, ah_updatedAt = 0, ar_applicationNo = ''A'', ar_applicantName = ''admin'',
        ar_proxyName = None, ar_refRequestId = None, ar_remark = None, ar_cancelledBy = None, ar_processorId = None,
        ar_processorName = None, ar_processedAt = None, ar_opinion = None, ar_createdBy = None\<rparr>],
      db_borrows := [sample_record 1 4, sample_record 2 1], db_seq := (\<lambda>t. 3)\<rparr>"

definition sample_settle :: "settle_line list" where
  "sample_settle =
     [\<lparr>se_borrowRecordId = 1, se_qty = 3, se_method = settle_method.RETURN, se_writeOffType = None, se_reason = None\<rparr>,
      \<lparr>se_borrowRecordId = 1, se_qty = 1, se_method = settle_method.WRITE_OFF, se_writeOffType = None, se_reason = None\<rparr>,
      \<lparr>se_borrowRecordId = 2, se_qty = 1, se_method = settle_method.RETURN, se_writeOffType = None, se_reason = None\<rparr>]"

theorem settlement_covers_list_witness:
  "\<exists>no db'. settlementSubmit (1, ''admin'') (JArr []) 2 sample_settle 4000 5 sample_agent = Inr ((3, no), db')
    \<and> (\<exists>rs. db_settlementItems db' = rs \<and> (\<Sum>s \<leftarrow> rs. if si_recordId s = 1 then si_qty s else 0) = 4)"
proof -
  have "case settlementSubmit (1, ''admin'') (JArr []) 2 sample_settle 4000 5 sample_agent of
      Inl e \<Rightarrow> False | Inr ((i, no), d) \<Rightarrow> i = 3"
    by code_simp
  then obtain no db' where s: "settlementSubmit (1, ''admin'') (JArr []) 2 sample_settle 4000 5 sample_agent = Inr ((3, no), db')"
    by (auto split: sum.splits prod.splits)
  have "sample_record 1 4 \<in> set (db_borrows sample_agent)" "db_settlementItems sample_agent = []"
    by (simp_all add: sample_agent_def sample_start_def)
  then show ?thesis using settlement_covers_list [OF s] s by (fastforce simp: sample_record_def br_open_def)
qed

text \<open>The number of days after which a request times out lies between one and a year, whatever the
  setting holds.\<close>

lemma timeout_days_in_range: "1 \<le> readTimeoutDays setting \<and> readTimeoutDays setting \<le> 365"
proof (cases setting)
  case (Some d)
  then show ?thesis
    using floor_mono [of 1 d] floor_mono [of d 365] by (auto simp: readTimeoutDays_def DEFAULT_APPROVAL_TIMEOUT_DAYS_def)
qed (simp add: readTimeoutDays_def DEFAULT_APPROVAL_TIMEOUT_DAYS_def)

section \<open>What an approver is shown\<close>

text \<open>
  Where every \<open>id\<close> of a snapshot is missing or a number within the range of an integer, the queries
  cannot fail, and their conditions are plain predicates.
\<close>

definition int4_number :: "json \<Rightarrow> bool" where
  "int4_number j \<longleftrightarrow> (case j of JNum n \<Rightarrow> n = of_int \<lfloor>n\<rfloor> \<and> int4 \<lfloor>n\<rfloor> | _ \<Rightarrow> False)"

definition snapshot_castable :: "json \<Rightarrow> bool" where
  "snapshot_castable s \<longleftrightarrow> list_all (\<lambda>el. case el of
       JObj ps \<Rightarrow> nullish (jget ''id'' ps) \<or> int4_number (jget ''id'' ps) | _ \<Rightarrow> True) (snapshot_elements s)"

definition snapshots_castable :: "asset_db \<Rightarrow> bool" where
  "snapshots_castable db \<longleftrightarrow> list_all (\<lambda>h. snapshot_castable (ah_departmentSnapshot h)) (sd_heads db)
     \<and> list_all (\<lambda>r. snapshot_castable (rc_departmentSnapshot r)) (db_recipients db)
     \<and> list_all (\<lambda>b. snapshot_castable (br_departmentSnapshot b)) (db_borrows db)"

definition id_within :: "rat set \<Rightarrow> json \<Rightarrow> bool" where
  "id_within ids el \<longleftrightarrow> (case el of
     JObj ps \<Rightarrow> (case jget ''id'' ps of JNum n \<Rightarrow> n \<in> ids | _ \<Rightarrow> True) | _ \<Rightarrow> True)"

definition inside :: "rat set \<Rightarrow> json \<Rightarrow> bool" where
  "inside ids s \<longleftrightarrow> snapshot_elements s \<noteq> [] \<and> (\<forall>el \<in> set (snapshot_elements s). id_within ids el)"

definition inside_of_type :: "rat set \<Rightarrow> asset_db \<Rightarrow> string \<Rightarrow> int list" where
  "inside_of_type ids db ty =
     (if ty = ''RETURN'' \<or> ty = ''WRITE_OFF'' then
        remdups (map (\<lambda>(a, b). ai_requestId a) (filter (\<lambda>(a, b). br_departmentSnapshot b \<noteq> JUndef \<and> inside ids (br_departmentSnapshot b))
          (concat (map (\<lambda>a. map (Pair a) (filter (\<lambda>b. br_id b = ai_recordId a) (db_borrows db))) (db_actionItems db)))))
      else if ty = ''AGENT_REQUEST'' then
        remdups (map ah_id (filter (\<lambda>h. \<exists>r \<in> set (filter (\<lambda>r. rc_requestId r = ah_id h) (db_recipients db)). inside ids (rc_departmentSnapshot r))
          (filter (\<lambda>h. ah_requestType h = ''AGENT_REQUEST'') (sd_heads db))))
      else if ty = ''AGENT_SETTLEMENT'' then
        remdups (map ah_id (filter (\<lambda>h. \<exists>r \<in> set (filter (\<lambda>r. ar_refRequestId h = Some (rc_requestId r)) (db_recipients db)). inside ids (rc_departmentSnapshot r))
          (filter (\<lambda>h. ah_requestType h = ''AGENT_SETTLEMENT'') (sd_heads db))))
      else map ah_id (filter (\<lambda>h. ah_departmentSnapshot h \<noteq> JUndef \<and> inside ids (ah_departmentSnapshot h))
          (filter (\<lambda>h. ah_requestType h = ty) (sd_heads db))))"

definition casts_int4 :: "(json \<Rightarrow> err + rat) \<Rightarrow> bool" where
  "casts_int4 cast \<longleftrightarrow> (\<forall>n. int4 n \<longrightarrow> cast (JNum (of_int n)) = Inr (of_int n))"

lemma cast_int4_number: "casts_int4 cast \<Longrightarrow> int4_number j \<Longrightarrow> \<exists>n. j = JNum n \<and> cast j = Inr n"
  by (cases j) (auto simp: int4_number_def casts_int4_def dest!: spec [of _ "\<lfloor>_\<rfloor>"])

lemma snapshot_listed_within:
  assumes "casts_int4 cast" and "snapshot_castable s"
  shows "snapshot_listed cast ids s = Inr (inside ids s)"
proof -
  have "element_outside cast ids el = Inr (\<not> id_within ids el)" if el: "el \<in> set (snapshot_elements s)" for el
  proof (cases el)
    case (JObj ps)
    then have "nullish (jget ''id'' ps) \<or> int4_number (jget ''id'' ps)"
      using assms(2) el by (auto simp: snapshot_castable_def list_all_iff)
    then show ?thesis
    proof
      assume "nullish (jget ''id'' ps)"
      then show ?thesis by (auto simp: JObj element_outside_def element_id_def id_within_def nullish_def split: json.splits)
    next
      assume "int4_number (jget ''id'' ps)"
      then obtain n where n: "jget ''id'' ps = JNum n" "cast (jget ''id'' ps) = Inr n"
        using cast_int4_number [OF assms(1)] by blast
      then show ?thesis by (simp add: JObj element_outside_def element_id_def id_within_def nullish_def)
    qed
  qed (simp_all add: element_outside_def element_id_def id_within_def)
  then have "existsR (element_outside cast ids) (snapshot_elements s) = Inr (\<exists>el \<in> set (snapshot_elements s). \<not> id_within ids el)"
    by (rule existsR_total)
  then show ?thesis by (auto simp: snapshot_listed_def inside_def)
qed

lemma covered_within:
  assumes cast: "casts_int4 cast" and ok: "snapshots_castable db"
  shows "covered_of_type cast ids db ty = Inr (inside_of_type ids db ty)"
proof -
  note ok = ok [unfolded snapshots_castable_def list_all_iff]
  have records: "filterR (\<lambda>(a, b). if br_departmentSnapshot b = JUndef then Inr False
        else snapshot_listed cast ids (br_departmentSnapshot b)) xs
      = Inr (filter (\<lambda>(a, b). br_departmentSnapshot b \<noteq> JUndef \<and> inside ids (br_departmentSnapshot b)) xs)"
    if "snd ` set xs \<subseteq> set (db_borrows db)" for xs :: "(action_item \<times> borrow_row) list"
    using that ok snapshot_listed_within [OF cast] by (intro filterR_total) (auto split: prod.splits)
  have recipients: "existsR (\<lambda>r. snapshot_listed cast ids (rc_departmentSnapshot r)) (filter P (db_recipients db))
      = Inr (\<exists>r \<in> set (filter P (db_recipients db)). inside ids (rc_departmentSnapshot r))" for P
    using ok snapshot_listed_within [OF cast] by (intro existsR_total) auto
  have own: "filterR (\<lambda>h. if ah_departmentSnapshot h = JUndef then Inr False
        else snapshot_listed cast ids (ah_departmentSnapshot h)) (filter P (sd_heads db))
      = Inr (filter (\<lambda>h. ah_departmentSnapshot h \<noteq> JUndef \<and> inside ids (ah_departmentSnapshot h)) (filter P (sd_heads db)))" for P
    using ok snapshot_listed_within [OF cast] by (intro filterR_total) auto
  have total: "filterR (\<lambda>h. Inr (q h)) xs = Inr (filter q xs)" for q :: "approval_request \<Rightarrow> bool" and xs :: "approval_request list"
    by (rule filterR_total) simp
  have sub: "snd ` set (concat (map (\<lambda>a. map (Pair a) (filter (\<lambda>b. br_id b = ai_recordId a) (db_borrows db))) (db_actionItems db)))
      \<subseteq> set (db_borrows db)" by auto
  show ?thesis
    unfolding covered_of_type_def inside_of_type_def recipients total own records [OF sub] bindR_simps by simp
qed

lemma concat_foldR:
  "(\<And>e. e \<in> set es \<Longrightarrow> f e = Inr (g e)) \<Longrightarrow>
    foldR (\<lambda>e ids. bindR (f e) (\<lambda>rows. Inr (ids @ rows))) es acc = Inr (acc @ concat (map g es))"
  by (induction es arbitrary: acc) simp_all

lemma snapshot_covered_within:
  assumes "set (extractDepartmentIdsFromSnapshot s) \<subseteq> Some ` ids" and "extractDepartmentIdsFromSnapshot s \<noteq> []"
  shows "inside ids s"
proof -
  have els: "extractDepartmentIdsFromSnapshot s = map extractDepartmentIdFromSnapshot (snapshot_elements s)"
    by (simp add: extractDepartmentIdsFromSnapshot_def snapshot_elements_def)
  have "id_within ids el" if "el \<in> set (snapshot_elements s)" for el
  proof -
    have "extractDepartmentIdFromSnapshot el \<in> Some ` ids" using assms(1) that unfolding els by auto
    then show ?thesis by (cases el) (auto simp: id_within_def nullish_def split: json.splits)
  qed
  then show ?thesis using assms(2) els by (auto simp: inside_def)
qed

lemma assertScopeCoversAll_department:
  "assertScopeCoversAll (DepartmentScope ids) ds (Some t) = Inr () \<longleftrightarrow>
    ds \<noteq> [] \<and> set ds \<subseteq> Some ` ids \<and> \<not> isCompanyOnlyRequestType t"
  by (auto simp: assertScopeCoversAll_def scopeCoversAll_department)

text \<open>Of several snapshots that are covered together, one that names a department is listed.\<close>

lemma covered_snapshot:
  assumes "concat (map (\<lambda>x. extractDepartmentIdsFromSnapshot (f x)) xs) \<noteq> []"
    and "set (concat (map (\<lambda>x. extractDepartmentIdsFromSnapshot (f x)) xs)) \<subseteq> Some ` ids"
  shows "\<exists>x \<in> set xs. f x \<noteq> JUndef \<and> inside ids (f x)"
proof -
  obtain x where x: "x \<in> set xs" "extractDepartmentIdsFromSnapshot (f x) \<noteq> []" using assms(1) by auto
  then have sub: "set (extractDepartmentIdsFromSnapshot (f x)) \<subseteq> Some ` ids" using assms(2) by fastforce
  then have "f x \<noteq> JUndef" by (auto simp: extractDepartmentIdsFromSnapshot_def)
  then show ?thesis using x snapshot_covered_within [OF sub x(2)] by blast
qed

lemma concat_map_concat: "concat (map g (concat xss)) = concat (map (\<lambda>xs. concat (map g xs)) xss)"
  by (induction xss) simp_all

lemma departments_listed:
  assumes h: "find_head i db = Some h" "ah_requestType h = ty"
    and cov: "request_departments i ty db \<noteq> []" "set (request_departments i ty db) \<subseteq> Some ` ids"
  shows "i \<in> set (inside_of_type ids db ty)"
proof -
  have mem: "h \<in> set (sd_heads db)" "ah_id h = i" using h(1) by (auto simp: find_head_def find_Some_iff)
  have f: "find (\<lambda>h. ah_id h = i) (sd_heads db) = Some h" using h(1) by (simp add: find_head_def)
  let ?agent = "\<lambda>j. filter (\<lambda>r. rc_requestId r = j) (db_recipients db)"
  let ?lines = "concat (map (\<lambda>a. filter (\<lambda>b. br_id b = ai_recordId a) (db_borrows db))
      (filter (\<lambda>a. ai_requestId a = i) (db_actionItems db)))"
  consider (agent) "ty = ''AGENT_REQUEST''" | (settle) "ty = ''AGENT_SETTLEMENT''" | (records) "ty = ''RETURN'' \<or> ty = ''WRITE_OFF''"
    | (own) "ty \<notin> {''AGENT_REQUEST'', ''AGENT_SETTLEMENT'', ''RETURN'', ''WRITE_OFF''}" by blast
  then show ?thesis
  proof cases
    case agent
    then have "\<exists>r \<in> set (?agent i). rc_departmentSnapshot r \<noteq> JUndef \<and> inside ids (rc_departmentSnapshot r)"
      using cov by (intro covered_snapshot) (simp_all add: request_departments_def)
    then show ?thesis using agent mem h(2) by (auto simp: inside_of_type_def image_iff)
  next
    case settle
    then obtain j where j: "ar_refRequestId h = Some j" using cov(1) f by (auto simp: request_departments_def split: option.splits)
    have "\<exists>r \<in> set (?agent j). rc_departmentSnapshot r \<noteq> JUndef \<and> inside ids (rc_departmentSnapshot r)"
      using cov settle f j by (intro covered_snapshot) (simp_all add: request_departments_def)
    then show ?thesis using settle mem h(2) j by (auto simp: inside_of_type_def image_iff)
  next
    case records
    have eq: "request_departments i ty db =
        concat (map (\<lambda>b. extractDepartmentIdsFromSnapshot (br_departmentSnapshot b)) ?lines)"
      using records by (auto simp only: request_departments_def concat_map_concat map_map o_def) simp_all
    have "\<exists>b \<in> set ?lines. br_departmentSnapshot b \<noteq> JUndef \<and> inside ids (br_departmentSnapshot b)"
      using cov unfolding eq by (rule covered_snapshot)
    then show ?thesis using records by (force simp: inside_of_type_def)
  next
    case own
    have "\<exists>g \<in> set [h]. ah_departmentSnapshot g \<noteq> JUndef \<and> inside ids (ah_departmentSnapshot g)"
      using cov own f by (intro covered_snapshot) (simp_all add: request_departments_def)
    then show ?thesis using own mem h(2) by (auto simp: inside_of_type_def)
  qed
qed

lemma visible_departmental:
  assumes "assertCanAccessRequest p ty dir = Inr ()" and "ty \<in> set ALL_ASSET_TYPES"
    and "fa_dataScope (getFunctionAccess True p CONSUMABLE_APPROVAL_FUNCTION_CODE dir) = Some DEPARTMENT"
  shows "(ty, Some DEPARTMENT) \<in> set (resolveVisibleTypes False p dir)" and "\<not> isCompanyOnlyRequestType ty"
proof -
  have "\<not> (case loadSessionUser p dir of None \<Rightarrow> False | Some u \<Rightarrow> ua_isSuperAdmin u)"
    using assms(3) by (auto simp: getFunctionAccess_def Let_def split: option.splits if_splits)
  then show "(ty, Some DEPARTMENT) \<in> set (resolveVisibleTypes False p dir)" "\<not> isCompanyOnlyRequestType ty"
    using assms by (auto simp: assertCanAccessRequest_def resolveVisibleTypes_def Let_def split: if_splits)
qed

text \<open>C30: Whatever a departmental approver is allowed to decide, the list shows him: the queries that
  restrict the list succeed and their ids contain every request of his scope. The cast of an id to an
  integer may fail beyond the range of an integer; of it only what the database documents within that range
  is used, and the snapshots hold such numbers, or no id.\<close>

theorem processable_is_listed:
  assumes "casts_int4 cast" and "snapshots_castable db"
    and "find_head i db = Some h" and "ah_requestType h \<in> set ALL_ASSET_TYPES"
    and "fa_dataScope (getFunctionAccess True p CONSUMABLE_APPROVAL_FUNCTION_CODE dir) = Some DEPARTMENT"
    and "assertCanAccessRequest p (ah_requestType h) dir = Inr ()"
    and "assertScopeCovers i (ah_requestType h) p dir db = Inr ()"
  shows "\<exists>ids. findCoveredRequestIds cast (closureOfUser p dir) (resolveVisibleTypes False p dir) db = Inr ids \<and> i \<in> set ids"
proof -
  let ?ids = "rat_closure (closureOfUser p dir)"
  let ?scoped = "filter (\<lambda>e. snd e = Some DEPARTMENT) (resolveVisibleTypes False p dir)"
  have cov: "request_departments i (ah_requestType h) db \<noteq> []"
    "set (request_departments i (ah_requestType h) db) \<subseteq> Some ` ?ids"
    using assms(5,7) by (auto simp: assertScopeCovers_def toApproverScope_def assertScopeCoversAll_department)
  then have "closureOfUser p dir \<noteq> []" by (cases "request_departments i (ah_requestType h) db") (auto simp: rat_closure_def)
  moreover have m: "(ah_requestType h, Some DEPARTMENT) \<in> set ?scoped"
    using visible_departmental(1) [OF assms(6,4,5)] by simp
  moreover have "foldR (\<lambda>e ids. bindR (covered_of_type cast ?ids db (fst e)) (\<lambda>rows. Inr (ids @ rows))) ?scoped []
      = Inr ([] @ concat (map (\<lambda>e. inside_of_type ?ids db (fst e)) ?scoped))"
    by (rule concat_foldR) (rule covered_within [OF assms(1,2)])
  ultimately have "findCoveredRequestIds cast (closureOfUser p dir) (resolveVisibleTypes False p dir) db
      = Inr (remdups (concat (map (\<lambda>e. inside_of_type ?ids db (fst e)) ?scoped)))"
    by (auto simp: findCoveredRequestIds_def Let_def)
  moreover have "i \<in> set (inside_of_type ?ids db (ah_requestType h))"
    by (rule departments_listed [OF assms(3) refl cov])
  ultimately show ?thesis using m by (intro exI conjI) (assumption, force)
qed

text \<open>Two returned records, borrowed by members of departments 7 and 8; the approver is head of 7.\<close>

definition sample_return :: asset_db where
  "sample_return = sample_start
     \<lparr>sd_heads := [\<lparr>ah_id = 5, ah_status = PENDING, ah_version = 1, ah_requestType = ''RETURN'', ah_applicantId = 2,
        ah_proxyId = None, ah_departmentSnapshot = JArr [], ah_submittedAt = Some 0, ah_cancelledAt = None,
        ah_cancelSource = None, ah_updatedAt = 0, ar_applicationNo = ''A'', ar_applicantName = ''ann'',
        ar_proxyName = None, ar_refRequestId = None, ar_remark = None, ar_cancelledBy = None, ar_processorId = None,
        ar_processorName = None, ar_processedAt = None, ar_opinion = None, ar_createdBy = None\<rparr>],
      db_borrows := [(sample_record 1 4)\<lparr>br_departmentSnapshot := JArr [JObj [(''id'', JNum 7)]]\<rparr>,
                     (sample_record 2 1)\<lparr>br_departmentSnapshot := JArr [JObj [(''id'', JNum 8)]]\<rparr>],
      db_actionItems :=
        [\<lparr>ai_id = 1, ai_requestId = 5, ai_recordId = 1, ai_qty = 1, ai_writeOffType = None, ai_reason = None\<rparr>,
         \<lparr>ai_id = 2, ai_requestId = 5, ai_recordId = 2, ai_qty = 1, ai_writeOffType = None, ai_reason = None\<rparr>]\<rparr>"

text \<open>The cast of the database for numbers: rounded to an integer, and refused beyond the range.\<close>

definition json_number :: "json \<Rightarrow> err + rat" where
  "json_number j =
     (case j of JNum n \<Rightarrow> if int4 (round n) then Inr (of_int (round n)) else Inl PlainError | _ \<Rightarrow> Inl PlainError)"

lemma json_number_casts: "casts_int4 json_number"
  by (simp add: casts_int4_def json_number_def)

lemma sample_castable: "snapshots_castable sample_claimed"
proof -
  have "case sample_claim 4 sample_stocked of Inl e \<Rightarrow> False | Inr (r, d) \<Rightarrow> snapshots_castable d"
    by code_simp
  from evaluated [OF this] show ?thesis by (simp add: sample_claimed_def)
qed

theorem processable_is_listed_witness:
  "\<exists>ids. findCoveredRequestIds json_number (closureOfUser 3 sample_dir) (resolveVisibleTypes False 3 sample_dir) sample_claimed
      = Inr ids \<and> 2 \<in> set ids"
proof -
  obtain g h where h: "find_head 2 sample_claimed = Some h" "ah_requestType h = ''CONSUMABLE_REQUEST''"
    by (rule sample_facts)
  have cov: "assertScopeCovers 2 ''CONSUMABLE_REQUEST'' 3 sample_dir sample_claimed = Inr ()"
    by (rule sample_quantities(4))
  have "fa_dataScope (getFunctionAccess True 3 CONSUMABLE_APPROVAL_FUNCTION_CODE sample_dir) = Some DEPARTMENT"
    "assertCanAccessRequest 3 ''CONSUMABLE_REQUEST'' sample_dir = Inr ()"
    by code_simp+
  then show ?thesis using h cov sample_castable
    by (intro processable_is_listed [of _ _ _ h]) (simp_all add: json_number_casts ALL_ASSET_TYPES_def)
qed

text \<open>The list is wider than what may be decided: a return of two records of which only one belongs to
  the approver's department is listed, and its decision is refused for its scope.\<close>

lemma listed_not_processable:
  "(case findCoveredRequestIds json_number (closureOfUser 3 sample_dir) (resolveVisibleTypes False 3 sample_dir) sample_return of
      Inl e \<Rightarrow> False | Inr ids \<Rightarrow> 5 \<in> set ids)
    \<and> assertScopeCovers 5 ''RETURN'' 3 sample_dir sample_return = Inl (Biz SCOPE_NOT_COVERED)"
  by code_simp

section \<open>The organisation\<close>

text \<open>C4: Whatever the service of the organisation, the requests and the account lifecycle do from empty
  tables on, the departments form a forest, a member's department exists, and the position a person
  holds applies to every department the person belongs to.\<close>

theorem organisation_consistent:
  assumes "hr_reach hr_fresh db"
  shows "acyclic (child_rel (hd_departments db))
    \<and> snd ` set (hd_userDepartments db) \<subseteq> de_id ` set (hd_departments db)
    \<and> (\<forall>h \<in> set (hd_userPositions db). \<forall>p d. up_positionId h = Some p \<and> (up_userId h, d) \<in> set (hd_userDepartments db)
        \<longrightarrow> (p, d) \<in> set (hd_positionDepartments db))"
proof (intro conjI ballI allI impI)
  note inv = hr_reach_ok(1) [OF assms]
  show "acyclic (child_rel (hd_departments db))" using org_invD(5) [OF inv] by (simp add: forest_def)
  show "snd ` set (hd_userDepartments db) \<subseteq> de_id ` set (hd_departments db)"
    using org_invD(6) [OF inv] by (force simp: org_linked_def)
  fix h p d
  assume "h \<in> set (hd_userPositions db)" "up_positionId h = Some p \<and> (up_userId h, d) \<in> set (hd_userDepartments db)"
  then show "(p, d) \<in> set (hd_positionDepartments db)"
    using compatibleD [OF org_invD(7) [OF inv]] by blast
qed

theorem organisation_consistent_witness:
  "acyclic (child_rel (hd_departments sample_worked)) \<and> 2 \<in> de_id ` set (hd_departments sample_worked)
   \<and> (1, 2) \<in> set (hd_positionDepartments sample_worked)"
proof -
  have ud: "(2, 2) \<in> set (hd_userDepartments sample_worked)" using sample_shown(2) by (simp add: shown_def)
  have "map (\<lambda>p. (up_userId p, up_positionId p)) (hd_userPositions sample_worked) = [(2, Some 1)]"
    using sample_shown(2) by (simp add: shown_def)
  then obtain h where "h \<in> set (hd_userPositions sample_worked)" "up_userId h = 2" "up_positionId h = Some 1"
    by (auto simp: map_eq_Cons_conv)
  then show ?thesis
    using organisation_consistent [OF sample_worked_reach] ud by force
qed

text \<open>C20: Moving a department below an active one always ends, even over a table with a cycle in it, and is
  refused as a cycle exactly when the new parent is the department itself or lies below it.\<close>

theorem department_move_decides:
  assumes "findDepartment i db = Some d" and "assertParent p db = Inr ()"
  shows "department_move i (Some p) db =
    (if (p, i) \<in> (child_rel (hd_departments db))\<^sup>* then Inl (Biz ORGANIZATION_CYCLE)
     else Inr (bumpOrgTreeVersion (set_departments (de_parentId_update (\<lambda>q. Some p)) i db)))"
proof -
  have "p = i \<or> isDescendant p i db \<longleftrightarrow> (p, i) \<in> (child_rel (hd_departments db))\<^sup>*" by (auto simp: isDescendant_iff)
  then show ?thesis using assms by (simp add: department_move_def)
qed

lemma sample_org_departments:
  "findDepartment 1 sample_org \<noteq> None" "assertParent 2 sample_org = Inr ()" "(2, 1) \<in> child_rel (hd_departments sample_org)"
proof -
  have e: "case hr_play sample_org_actions hr_fresh of None \<Rightarrow> False
    | Some db \<Rightarrow> findDepartment 1 db \<noteq> None \<and> assertParent 2 db = Inr () \<and> parentOf (hd_departments db) 2 = Some 1"
    by code_simp
  then show "findDepartment 1 sample_org \<noteq> None" "assertParent 2 sample_org = Inr ()"
    "(2, 1) \<in> child_rel (hd_departments sample_org)" by (simp_all add: sample_org_play child_rel_def)
qed

theorem department_move_decides_witness:
  "department_move 1 (Some 2) sample_org = Inl (Biz ORGANIZATION_CYCLE)"
proof -
  obtain d where "findDepartment 1 sample_org = Some d" using sample_org_departments(1) by blast
  from department_move_decides [OF this sample_org_departments(2)] show ?thesis
    using sample_org_departments(3) by (simp add: r_into_rtrancl)
qed

section \<open>Overtime\<close>

text \<open>C3: In no reachable state do two pending or approved overtime items of one person on one day overlap,
  and every item lies within its day.\<close>

theorem overtime_never_overlaps:
  assumes "hr_reach hr_fresh db"
    and "r \<in> set (hd_overtime db)" and "q \<in> set (hd_overtime db)" and "r \<noteq> q"
    and "counts db (oi_requestId r)" and "counts db (oi_requestId q)"
    and "oi_userId r = oi_userId q" and "oi_overtimeDate r = oi_overtimeDate q"
  shows "0 \<le> oi_startMinute r \<and> oi_startMinute r < oi_endMinute r \<and> oi_endMinute r \<le> 1440
    \<and> (oi_endMinute r \<le> oi_startMinute q \<or> oi_endMinute q \<le> oi_startMinute r)"
proof -
  note ok = hr_reach_ok(3) [OF assms(1), unfolded overtime_ok_def]
  note m = assms(2-4) and c = assms(5,6) and s = assms(7,8)
  have range: "0 \<le> oi_startMinute r \<and> oi_startMinute r < oi_endMinute r \<and> oi_endMinute r \<le> 1440"
    using ok m(1) by (simp add: overtime_item_ok_def)
  have "overtime_key r \<noteq> overtime_key q" using ok m by (auto simp: distinct_map dest: inj_onD)
  then have "same_slot r q" using s by (simp add: overtime_key_def same_slot_def)
  then have "apart r q" using ok all_apartD m(1,2) c by blast
  then show ?thesis using range by (auto simp: apart_def overlaps_def)
qed

lemma sample_items:
  obtains r q where "r \<in> set (hd_overtime sample_worked)" "q \<in> set (hd_overtime sample_worked)"
    and "oi_requestId r = 2" "oi_userId r = 2" "oi_overtimeDate r = 14" "oi_startMinute r = 1080" "oi_endMinute r = 1200"
    and "oi_requestId q = 3" "oi_userId q = 2" "oi_overtimeDate q = 14" "oi_startMinute q = 1200" "oi_endMinute q = 1260"
    and "counts sample_worked 2" "counts sample_worked 3"
proof -
  have items: "map (\<lambda>r. (oi_requestId r, oi_userId r, oi_overtimeDate r, oi_startMinute r, oi_endMinute r)) (hd_overtime sample_worked)
      = [(2, 2, 14, 1080, 1200), (3, 2, 14, 1200, 1260)]"
    and heads: "map (\<lambda>h. (ah_id h, ah_status h)) (sd_heads sample_worked) = [(1, APPROVED), (2, APPROVED), (3, PENDING)]"
    using sample_shown(2) by (simp_all add: shown_def)
  have c: "counts sample_worked 2" "counts sample_worked 3" using heads unfolding counts_def by (auto simp: map_eq_Cons_conv)
  obtain r q where rq: "hd_overtime sample_worked = [r, q]" using items by (auto simp: map_eq_Cons_conv)
  show ?thesis by (rule that [of r q]) (use items c in \<open>simp_all add: rq\<close>)
qed

theorem overtime_never_overlaps_witness:
  "\<exists>r \<in> set (hd_overtime sample_worked). \<exists>q \<in> set (hd_overtime sample_worked).
     oi_startMinute r = 1080 \<and> oi_endMinute r \<le> 1440 \<and> oi_endMinute r \<le> oi_startMinute q"
proof (rule sample_items)
  fix r q
  assume m: "r \<in> set (hd_overtime sample_worked)" "q \<in> set (hd_overtime sample_worked)"
    and r: "oi_requestId r = 2" "oi_userId r = 2" "oi_overtimeDate r = 14" "oi_startMinute r = 1080" "oi_endMinute r = 1200"
    and q: "oi_requestId q = 3" "oi_userId q = 2" "oi_overtimeDate q = 14" "oi_startMinute q = 1200" "oi_endMinute q = 1260"
    and c: "counts sample_worked 2" "counts sample_worked 3"
  have "r \<noteq> q" using r(1) q(1) by auto
  then have "oi_endMinute r \<le> 1440 \<and> (oi_endMinute r \<le> oi_startMinute q \<or> oi_endMinute q \<le> oi_startMinute r)"
    using overtime_never_overlaps [OF sample_worked_reach m] c r q by simp
  then show ?thesis using m r q by (intro bexI [of _ r] bexI [of _ q]) simp_all
qed

lemma sum_where_three:
  fixes q :: "'r \<Rightarrow> int"
  assumes "\<And>r. r \<in> set rs \<Longrightarrow> 0 \<le> q r" and "\<And>r. \<not> (P r \<and> Q r)" and "\<And>r. \<not> (P r \<and> R r)" and "\<And>r. \<not> (Q r \<and> R r)"
  shows "sum_where P q rs + sum_where Q q rs + sum_where R q rs \<le> sum_where (\<lambda>r. True) q rs"
  using assms(1)
proof (induction rs)
  case (Cons a rs)
  have "0 \<le> q a" using Cons.prems by simp
  moreover have "sum_where P q rs + sum_where Q q rs + sum_where R q rs \<le> sum_where (\<lambda>r. True) q rs"
    using Cons by simp
  ultimately show ?case using assms(2-4) [of a] by auto
qed simp

lemma date_types_exclusive:
  "\<not> (date_type_in WORKDAY_CODES r \<and> date_type_in REST_DAY_CODES r)"
  "\<not> (date_type_in WORKDAY_CODES r \<and> date_type_in HOLIDAY_CODES r)"
  "\<not> (date_type_in REST_DAY_CODES r \<and> date_type_in HOLIDAY_CODES r)"
  by (auto simp: date_type_in_def WORKDAY_CODES_def REST_DAY_CODES_def HOLIDAY_CODES_def split: json.splits)

lemma hours_rounded: "\<bar>minutesToHours m - of_int m / 60\<bar> \<le> 1 / 200"
proof -
  let ?y = "of_int m / 60 * 100 :: rat"
  have "of_int \<lfloor>?y + 1 / 2\<rfloor> \<le> ?y + 1 / 2" "?y + 1 / 2 < of_int \<lfloor>?y + 1 / 2\<rfloor> + 1" by linarith+
  then have "\<bar>of_int \<lfloor>?y + 1 / 2\<rfloor> - ?y\<bar> \<le> 1 / 2" by linarith
  then show ?thesis unfolding minutesToHours_def by (simp add: field_simps abs_le_iff)
qed

text \<open>C35: The month of a person as the statistics show it: the three kinds of day add up to no more than the
  total, the total is at most 24 hours for each day counted, and the hours are within half a hundredth
  of the minutes.\<close>

theorem month_totals_bounded:
  assumes "hr_reach hr_fresh db" and "summaryMine u month db = Inr s"
  shows "os_workday s + os_restDay s + os_holiday s \<le> os_total s \<and> os_total s \<le> 1440 * int (os_dayCount s)
    \<and> \<bar>os_totalHours s - of_int (os_total s) / 60\<bar> \<le> 1 / 200"
proof (intro conjI)
  note ok = hr_reach_ok(3) [OF assms(1)]
  obtain first_day next_month rs where rs: "rs = filter (\<lambda>o'. oi_userId o' = u \<and> first_day \<le> oi_overtimeDate o' \<and> oi_overtimeDate o' < next_month
             \<and> (\<exists>h \<in> set (sd_heads db). ah_id h = oi_requestId o' \<and> ah_status h = APPROVED)) (hd_overtime db)"
    and s: "os_workday s = sum_where (date_type_in WORKDAY_CODES) oi_minutes rs"
      "os_restDay s = sum_where (date_type_in REST_DAY_CODES) oi_minutes rs"
      "os_holiday s = sum_where (date_type_in HOLIDAY_CODES) oi_minutes rs"
      "os_total s = sum_where (\<lambda>r. True) oi_minutes rs" "os_dayCount s = length (remdups (map oi_overtimeDate rs))"
      "os_totalHours s = minutesToHours (os_total s)"
    using assms(2) by (auto simp: summaryMine_def bindR_Inr_iff Let_def)
  have "0 \<le> oi_minutes r" if "r \<in> set rs" for r
    using ok that by (auto simp: rs overtime_ok_def overtime_item_ok_def oi_minutes_def)
  then show "os_workday s + os_restDay s + os_holiday s \<le> os_total s"
    unfolding s by (rule sum_where_three) (assumption | rule date_types_exclusive)+
  have "sum_where (\<lambda>r. oi_overtimeDate r = d) oi_minutes rs \<le> 1440" for d
  proof -
    let ?rs = "filter (\<lambda>r. oi_overtimeDate r = d) rs"
    have "distinct (map overtime_key (hd_overtime db))" using ok by (simp add: overtime_ok_def)
    then have "distinct (map overtime_key ?rs)" unfolding rs by (intro distinct_map_filter)
    then have "sum_list (map oi_minutes ?rs) \<le> 1440"
      by (intro day_minutes [OF ok, where u = u and d = d]) (auto simp: rs counts_def)
    then show ?thesis by (simp add: sum_where_def)
  qed
  then show "os_total s \<le> 1440 * int (os_dayCount s)" unfolding s by (intro sum_by_day) simp
  show "\<bar>os_totalHours s - of_int (os_total s) / 60\<bar> \<le> 1 / 200" unfolding s(6) by (rule hours_rounded)
qed

lemma sample_month_range: "monthRange ''1970-01'' = Inr (0, 31)"
  by code_simp

lemma sample_month:
  obtains s where "summaryMine 2 ''1970-01'' sample_worked = Inr s" "os_dayCount s = 1" "os_total s = 120"
proof -
  obtain r where "filter (\<lambda>o'. oi_userId o' = 2 \<and> 0 \<le> oi_overtimeDate o' \<and> oi_overtimeDate o' < 31
       \<and> (\<exists>h \<in> set (sd_heads sample_worked). ah_id h = oi_requestId o' \<and> ah_status h = APPROVED)) (hd_overtime sample_worked) = [r]"
    "oi_minutes r = 120"
    using sample_worked_shown by (auto simp: sample_worked_play map_eq_Cons_conv)
  then show ?thesis
    using that by (simp add: summaryMine_def sample_month_range Let_def sum_where_def)
qed

theorem month_totals_bounded_witness:
  "\<exists>s. summaryMine 2 ''1970-01'' sample_worked = Inr s \<and> os_total s = 120 \<and> os_total s \<le> 1440 * int (os_dayCount s)
    \<and> os_workday s + os_restDay s + os_holiday s \<le> os_total s \<and> \<bar>os_totalHours s - 2\<bar> \<le> 1 / 200"
proof (rule sample_month)
  fix s
  assume s: "summaryMine 2 ''1970-01'' sample_worked = Inr s" and t: "os_total s = 120"
  show ?thesis using month_totals_bounded [OF sample_worked_reach s] s t by auto
qed

section \<open>The account lifecycle\<close>

lemma restored_insert:
  "insertCompat r db = Inr db' \<Longrightarrow> restored_users rid db' =
     (if ct_restoreRequestId r = rid then insert (ct_userId r) (restored_users rid db) else restored_users rid db)"
  by (auto simp: insertCompat_def bindR_Inr_iff insert_row_Inr_iff restored_users_def)

lemma restored_cong: "hd_compat db = hd_compat db' \<Longrightarrow> restored_users rid db = restored_users rid db'"
  by (simp add: restored_users_def)

lemma restored_step:
  assumes "restore_target_step dir version now rid com t db = Inr db'"
  shows "restored_users rid db' = insert (re_userId t) (restored_users rid db)"
proof -
  define db1 where "db1 = apply_compatibility (re_userId t) (computeCompatibility (re_userId t) com)
    (snd (cancelPendingPositionApplications dir now (re_userId t) (re_deactivatedAt t) db))"
  obtain r db2 where ins: "insertCompat r db1 = Inr db2" and db': "db' = bumpUserOrgVersion db2"
    and r: "ct_restoreRequestId r = rid" "ct_userId r = re_userId t"
    using assms by (auto simp: restore_target_step_def Let_def bindR_Inr_iff db1_def split: option.splits)
  have "restored_users rid db1 = restored_users rid db"
    by (rule restored_cong) (simp add: db1_def apply_compatibility_def cancelPendingPositionApplications_def Let_def)
  moreover have "restored_users rid db' = restored_users rid db2"
    by (rule restored_cong) (simp add: db' bumpUserOrgVersion_def)
  ultimately show ?thesis using restored_insert [OF ins, of rid] r by simp
qed

lemma restored_fold:
  "foldR (restore_target_step dir version now rid com) ts db = Inr db'
    \<Longrightarrow> restored_users rid db' = restored_users rid db \<union> re_userId ` set ts"
  by (induction ts arbitrary: db) (auto simp: bindR_Inr_iff restored_step)

text \<open>C23: A restoration that was applied is recorded: a repetition with the same targets succeeds and changes
  nothing, whatever the versions and the clock are by then, and one with other targets is refused.\<close>

theorem restore_idempotent:
  assumes run: "restoreApply dir version now rid targets db = Inr db'" and "targets \<noteq> []"
  shows "restoreApply dir' version' now' rid targets' db' =
    (if re_userId ` set targets' = re_userId ` set targets then Inr db' else Inl (Biz RESTORE_TARGET_STALE))"
proof -
  have ne: "re_userId ` set targets \<noteq> {}" using assms(2) by simp
  have "restored_users rid db' = re_userId ` set targets"
  proof (cases "restored_users rid db = {}")
    case True
    show ?thesis
    proof (cases "foldR (restore_target_step dir version now rid db) targets db")
      case (Inr d)
      then show ?thesis using run True restored_fold [OF Inr] by (simp add: restoreApply_def Let_def)
    next
      case (Inl e)
      then show ?thesis using run True ne by (auto simp: restoreApply_def Let_def split: if_splits)
    qed
  next
    case False
    then show ?thesis using run by (simp add: restoreApply_def Let_def split: if_splits)
  qed
  then show ?thesis using ne by (auto simp: restoreApply_def Let_def)
qed

text \<open>Restoring the employee of the example: the applications and the memberships are checked and recorded.\<close>

definition sample_target :: restore_target where
  "sample_target = \<lparr>re_userId = 2, re_lifecycleVersion = 1, re_deactivatedAt = 5000\<rparr>"

theorem restore_idempotent_witness:
  "\<exists>db. restoreApply hr_dir (\<lambda>u. Some 1) 9000 ''rid'' [sample_target] sample_org = Inr db
     \<and> restoreApply hr_dir (\<lambda>u. None) 9001 ''rid'' [sample_target] db = Inr db
     \<and> restoreApply hr_dir (\<lambda>u. Some 1) 9001 ''rid'' [sample_target\<lparr>re_userId := 3\<rparr>] db = Inl (Biz RESTORE_TARGET_STALE)"
proof -
  have "case hr_play sample_org_actions hr_fresh of None \<Rightarrow> False
    | Some db \<Rightarrow> (case restoreApply hr_dir (\<lambda>u. Some 1) 9000 ''rid'' [sample_target] db of Inl e \<Rightarrow> False | Inr d \<Rightarrow> True)"
    by code_simp
  then obtain db where "restoreApply hr_dir (\<lambda>u. Some 1) 9000 ''rid'' [sample_target] sample_org = Inr db"
    by (auto simp: sample_org_play split: sum.splits)
  then show ?thesis using restore_idempotent [of hr_dir "\<lambda>u. Some 1" 9000 "''rid''" "[sample_target]" sample_org db]
    by (auto simp: sample_target_def)
qed

section \<open>The kind of a day\<close>

text \<open>C40: An accepted answer of the provider has the true weekday of the day and the digest of the text, and the
  kinds tied to a weekend fall on one.\<close>

theorem holiday_answer_consistent:
  assumes "validateHolidayResponse parse sha256hex raw date source t = Some n"
  shows "nh_weekday n = realWeekday date \<and> nh_digest n = sha256hex raw \<and> nh_source n = source
    \<and> (nh_dateType n \<in> {WEEKEND, ADJUSTED_WORKDAY} \<longrightarrow> realWeekday date \<in> {6, 7})"
  using assms
  by (auto simp: validateHolidayResponse_def Let_def classify_def split: option.splits if_splits)

definition sample_answer :: "int \<Rightarrow> json" where
  "sample_answer k = JObj
     [(''code'', JNum 0), (''type'', JObj [(''type'', JNum (of_int k)), (''week'', JNum 7)]),
      (''holiday'', JObj [(''holiday'', JBool False), (''wage'', JNum 1), (''date'', JStr ''2026-02-15'')])]"

lemma sample_answer_valid:
  "validateHolidayResponse (\<lambda>s. Some (sample_answer 4)) (\<lambda>s. s) ''raw'' ''2026-02-15'' ''ailcc'' 0
    = Some \<lparr>nh_dateType = ADJUSTED_WORKDAY, nh_weekday = 7, nh_source = ''ailcc'', nh_digest = ''raw'', nh_fetchedAt = 0\<rparr>"
  by code_simp

text \<open>The kind 3, which the comment on the provider's kinds says is refused, is taken for a moved working day.\<close>

lemma type_three_accepted:
  "validateHolidayResponse (\<lambda>s. Some (sample_answer 3)) (\<lambda>s. s) ''raw'' ''2026-02-15'' ''ailcc'' 0
    = Some \<lparr>nh_dateType = ADJUSTED_WORKDAY, nh_weekday = 7, nh_source = ''ailcc'', nh_digest = ''raw'', nh_fetchedAt = 0\<rparr>"
  by code_simp

theorem holiday_answer_consistent_witness: "realWeekday ''2026-02-15'' = 7"
  using holiday_answer_consistent [OF sample_answer_valid] by simp

text \<open>C36: The semaphore serves in the order of arrival and forgets nobody: whatever its callers do, each
  release moves a waiter up by one place and never past another; with the first release beyond its place
  it is woken, and stays so until it runs. While it waits, someone holds a token or was woken and will.\<close>

theorem semaphore_serves_in_order:
  assumes "1 \<le> m" and "sem_run m before sem_start = Some s" and "k < length (sm_waiters s)"
    and "sem_run m ps s = Some s'"
  shows "if length (filter (\<lambda>p. p = SemRelease) ps) \<le> k
    then k - length (filter (\<lambda>p. p = SemRelease) ps) < length (sm_waiters s')
      \<and> sm_waiters s' ! (k - length (filter (\<lambda>p. p = SemRelease) ps)) = sm_waiters s ! k
      \<and> (0 < sm_active s' \<or> sm_woken s' \<noteq> [])
    else sm_waiters s ! k \<in> set (sm_woken s') \<or> SemResume (sm_waiters s ! k) \<in> set ps"
proof -
  have "sem_inv m s'" using sem_run_inv [OF assms(4) sem_run_inv [OF assms(2) sem_start_inv]] .
  then have "sm_waiters s' \<noteq> [] \<Longrightarrow> 0 < sm_active s' \<or> sm_woken s' \<noteq> []"
    using assms(1) by (auto simp: sem_inv_def)
  moreover note sem_run_waiter [OF assms(4,3)]
  ultimately show ?thesis by (cases "sm_waiters s' = []") (simp_all split: if_splits)
qed

theorem semaphore_serves_in_order_witness:
  "\<exists>s'. sem_run 1 [SemRelease, SemAcquire 4, SemRelease] \<lparr>sm_active = 1, sm_waiters = [2, 3], sm_woken = []\<rparr> = Some s'
    \<and> 3 \<in> set (sm_woken s')"
proof -
  let ?s = "\<lparr>sm_active = 1, sm_waiters = [2, 3], sm_woken = []\<rparr>"
  have s: "sem_run 1 [SemAcquire 1, SemAcquire 2, SemAcquire 3] sem_start = Some ?s"
    by (simp add: sem_start_def sem_acquire_def)
  obtain s' where r: "sem_run 1 [SemRelease, SemAcquire 4, SemRelease] ?s = Some s'"
    by (simp add: sem_acquire_def sem_release_def)
  from semaphore_serves_in_order [OF _ s _ r, of 1] r show ?thesis by simp
qed

text \<open>C37: The limit of the semaphore is not kept: a release gives its token back before the waiter it wakes
  counts itself, so that a newcomer in between takes the same token. For every limit and every number
  there is a run of the callers after which the limit is exceeded by that number.\<close>

theorem semaphore_limit_exceeded:
  assumes "1 \<le> m"
  shows "\<exists>ps s. sem_run m ps sem_start = Some s \<and> sm_active s = m + int n"
  using sem_run_over_limit [OF assms, of n] by fastforce

theorem semaphore_limit_exceeded_witness: "\<exists>ps s. sem_run 4 ps sem_start = Some s \<and> sm_active s = 7"
  using semaphore_limit_exceeded [of 4 3] by simp

section \<open>Change of position\<close>

lemma find_user_updated:
  "(\<And>p. up_userId (f p) = up_userId p) \<Longrightarrow>
    find (\<lambda>p. up_userId p = v) (update_where (\<lambda>p. up_userId p = u) f ps)
      = (if v = u then map_option f (find (\<lambda>p. up_userId p = v) ps) else find (\<lambda>p. up_userId p = v) ps)"
  by (induction ps) (auto simp: update_where_def)

lemma find_append: "find P (xs @ ys) = (case find P xs of None \<Rightarrow> find P ys | Some x \<Rightarrow> Some x)"
  by (induction xs) auto

lemma position_after:
  "map_option up_positionId (findUserPosition v (upsertUserPosition u p b db))
     = (if v = u then Some (Some p) else map_option up_positionId (findUserPosition v db))"
  by (auto simp: upsertUserPosition_def findUserPosition_def find_user_updated find_append split: option.splits)

lemma departments_after: "departmentsOf v (setUserDepartments u ds db) = (if v = u then ds else departmentsOf v db)"
  by (auto simp: departmentsOf_def setUserDepartments_def filter_map o_def filter_empty_conv case_prod_unfold
      intro!: arg_cong [where f = "map snd"] filter_cong)

text \<open>C21: An approved change of position moves the applicant, who belonged to one department at most, into the
  target department and position, both of which are active and belong together, and nobody else.\<close>

theorem position_approval_moves:
  assumes run: "hr_processInner dir now i process_action.APPROVE t b opinion db = Inr db'"
    and head: "find_request i db = Some h" "ah_requestType h = ''POSITION_CHANGE''" and c: "findChange i db = Some c"
  shows "length (departmentsOf (pc_userId c) db) \<le> 1
    \<and> (\<exists>d. findDepartment (pc_targetDepartmentId c) db = Some d \<and> de_status d = ACTIVE)
    \<and> (\<exists>p. findPosition (pc_targetPositionId c) db = Some p \<and> po_status p = ACTIVE \<and> po_allowSelfApply p)
    \<and> (pc_targetPositionId c, pc_targetDepartmentId c) \<in> set (hd_positionDepartments db)
    \<and> departmentsOf u db' = (if u = pc_userId c then [pc_targetDepartmentId c] else departmentsOf u db)
    \<and> map_option up_positionId (findUserPosition u db')
      = (if u = pc_userId c then Some (Some (pc_targetPositionId c)) else map_option up_positionId (findUserPosition u db))"
proof (intro conjI)
  obtain d1 d2 where d1: "hr_transition i (ah_version h) (hr_decided (rt_status t) b (loadUserName b dir) now opinion) db = Inr d1"
    and d2: "position_apply i b d1 = Inr d2"
    and db': "hd_userDepartments db' = hd_userDepartments d2" "hd_userPositions db' = hd_userPositions d2"
    using run head by (auto simp: hr_processInner_Inr)
  obtain hs where d1': "d1 = db\<lparr>sd_heads := hs\<rparr>"
    using d1 by (auto simp: hr_transition_def Let_def bindR_Inr_iff case_prod_unfold)
  have views: "departmentsOf v (db\<lparr>sd_heads := hs\<rparr>) = departmentsOf v db" "findChange i (db\<lparr>sd_heads := hs\<rparr>) = findChange i db"
    "findDepartment k (db\<lparr>sd_heads := hs\<rparr>) = findDepartment k db" "findPosition k (db\<lparr>sd_heads := hs\<rparr>) = findPosition k db"
    "findUserPosition v (db\<lparr>sd_heads := hs\<rparr>) = findUserPosition v db" for v k
    by (simp_all add: departmentsOf_def findChange_def findDepartment_def findPosition_def findUserPosition_def)
  have target: "length (departmentsOf (pc_userId c) db) \<le> 1"
    "assertTarget POSITION_APPLY_STALE (pc_targetDepartmentId c) (pc_targetPositionId c) d1 = Inr ()"
    "d2 = bumpUserOrgVersion (upsertUserPosition (pc_userId c) (pc_targetPositionId c) b
       (setUserDepartments (pc_userId c) [pc_targetDepartmentId c] d1))"
    using d2 c by (auto simp: position_apply_iff d1' views)
  show "length (departmentsOf (pc_userId c) db) \<le> 1" by (fact target(1))
  show "\<exists>d. findDepartment (pc_targetDepartmentId c) db = Some d \<and> de_status d = ACTIVE"
    "\<exists>p. findPosition (pc_targetPositionId c) db = Some p \<and> po_status p = ACTIVE \<and> po_allowSelfApply p"
    "(pc_targetPositionId c, pc_targetDepartmentId c) \<in> set (hd_positionDepartments db)"
    using target(2) by (auto simp: assertTarget_iff d1' views)
  have "departmentsOf u db' = departmentsOf u (setUserDepartments (pc_userId c) [pc_targetDepartmentId c] d1)"
    by (simp add: departmentsOf_def db' target(3) bumpUserOrgVersion_def)
  then show "departmentsOf u db' = (if u = pc_userId c then [pc_targetDepartmentId c] else departmentsOf u db)"
    by (simp add: departments_after d1' views)
  have "findUserPosition u db' = findUserPosition u (upsertUserPosition (pc_userId c) (pc_targetPositionId c) b
       (setUserDepartments (pc_userId c) [pc_targetDepartmentId c] d1))"
    by (simp add: findUserPosition_def db' target(3) bumpUserOrgVersion_def)
  then show "map_option up_positionId (findUserPosition u db')
      = (if u = pc_userId c then Some (Some (pc_targetPositionId c)) else map_option up_positionId (findUserPosition u db))"
    by (simp add: position_after d1') (simp add: findUserPosition_def setUserDepartments_def)
qed

definition approve_transition :: resolved_transition where
  "approve_transition = \<lparr>rt_status = APPROVED, rt_action = approval_action.APPROVE, rt_cancelSource = None, rt_requiresOpinion = False\<rparr>"

lemma sample_move:
  "case hr_play (sample_org_actions @ [sample_apply]) hr_fresh of None \<Rightarrow> False
   | Some db \<Rightarrow> (case hr_processInner hr_dir 2000 1 process_action.APPROVE approve_transition 1 None db of
        Inl e \<Rightarrow> False
      | Inr db' \<Rightarrow> departmentsOf 2 db = [1]
          \<and> map_option (\<lambda>c. (pc_userId c, pc_targetDepartmentId c, pc_targetPositionId c)) (findChange 1 db) = Some (2, 2, 1)
          \<and> map_option ah_requestType (find_request 1 db) = Some ''POSITION_CHANGE'')"
  by code_simp

theorem position_approval_moves_witness:
  "\<exists>db db'. hr_processInner hr_dir 2000 1 process_action.APPROVE approve_transition 1 None db = Inr db'
     \<and> departmentsOf 2 db = [1] \<and> departmentsOf 2 db' = [2]"
proof -
  obtain db db' c h where d: "hr_processInner hr_dir 2000 1 process_action.APPROVE approve_transition 1 None db = Inr db'"
      "departmentsOf 2 db = [1]" "findChange 1 db = Some c" "pc_userId c = 2" "pc_targetDepartmentId c = 2"
      "find_request 1 db = Some h" "ah_requestType h = ''POSITION_CHANGE''"
    using sample_move by (auto split: option.splits sum.splits)
  show ?thesis using position_approval_moves [OF d(1,6,7,3), of 2] d by auto
qed

section \<open>Finance\<close>

lemma fin_reach_ok: "fin_steps e fin_initial db \<Longrightarrow> fin_ok e db"
  by (simp add: fin_steps_sound fin_initial_ok)

text \<open>C15: In every reachable finance database no two projects, deleted ones included, have the same normalized
  name and year, no stored amount is negative, and every amount belongs to a project.\<close>

theorem project_keys_unique:
  assumes "fin_steps e fin_initial db"
  shows "distinct (map (\<lambda>p. (normalizeProjectName e (pr_name p), pr_year p)) (fd_projects db))
    \<and> (\<forall>p \<in> set (fd_projects db). opt_amount_ok (pr_contractAmount p) \<and> opt_amount_ok (pr_miscExpense p))
    \<and> (\<forall>k. \<forall>r \<in> set (fd_details db k). 0 \<le> ad_amount r \<and> findProject (ad_projectId r) db \<noteq> None)"
proof (intro conjI)
  note ok = fin_reach_ok [OF assms, unfolded fin_ok_def projects_ok_def details_ok_def]
  have "map (\<lambda>p. (normalizeProjectName e (pr_name p), pr_year p)) (fd_projects db) = map project_key (fd_projects db)"
    using ok by (intro map_cong) (auto simp: project_key_def)
  then show "distinct (map (\<lambda>p. (normalizeProjectName e (pr_name p), pr_year p)) (fd_projects db))"
    unfolding \<open>map _ _ = _\<close> using ok by blast
  show "\<forall>p \<in> set (fd_projects db). opt_amount_ok (pr_contractAmount p) \<and> opt_amount_ok (pr_miscExpense p)"
    using ok by (simp add: project_ok_def)
  show "\<forall>k. \<forall>r \<in> set (fd_details db k). 0 \<le> ad_amount r \<and> findProject (ad_projectId r) db \<noteq> None"
    using ok unfolding findProject_mem amount_ok_def by blast
qed

theorem project_keys_unique_witness:
  "distinct (map (\<lambda>p. (normalizeProjectName sample_fin_env (pr_name p), pr_year p)) (fd_projects sample_fin3))
    \<and> list_all (\<lambda>p. opt_amount_ok (pr_contractAmount p)) (fd_projects sample_fin3)
    \<and> list_all (\<lambda>r. 0 \<le> ad_amount r \<and> findProject (ad_projectId r) sample_fin3 \<noteq> None) (fd_details sample_fin3 Receipt)"
  using project_keys_unique [OF sample_fin3_steps] by (simp add: list_all_iff)

text \<open>C13: A project is never lost, its revision never falls, and as long as it stands still none of its amounts
  has changed, and its row is the same to the last column, or was deleted in the meantime: then it was
  live, and only the two marks of deletion were set (a deletion is the one change that leaves the revision
  as it is). So a confirmation that names a revision speaks of exactly what was shown.\<close>

theorem revision_guards:
  assumes "fin_steps e fin_initial db" and "fin_steps e db db'" and "findProject i db = Some p"
  shows "\<exists>p'. findProject i db' = Some p' \<and> pr_dataRevision p \<le> pr_dataRevision p'
    \<and> (pr_dataRevision p' = pr_dataRevision p
        \<longrightarrow> (p' = p \<or> (pr_deletedAt p = None \<and> pr_deletedAt p' \<noteq> None
              \<and> p' = p\<lparr>pr_deletedBy := pr_deletedBy p', pr_deletedAt := pr_deletedAt p'\<rparr>))
          \<and> (\<forall>k. projectDetails k i db' = projectDetails k i db))"
proof -
  have "advances db db'" using fin_steps_sound [OF assms(2) fin_reach_ok [OF assms(1)]] by simp
  then have "outgrows db db' i" by (rule advances_outgrows)
  then obtain p' where "findProject i db' = Some p'"
      and "pr_dataRevision p < pr_dataRevision p'
        \<or> (stands p p' \<and> (\<forall>k. projectDetails k i db' = projectDetails k i db))"
    using assms(3) unfolding outgrows_def by blast
  then have "\<exists>p'. findProject i db' = Some p' \<and> pr_dataRevision p \<le> pr_dataRevision p'
      \<and> (pr_dataRevision p' = pr_dataRevision p
          \<longrightarrow> stands p p' \<and> (\<forall>k. projectDetails k i db' = projectDetails k i db))"
    by (auto dest: stands_revision)
  then show ?thesis unfolding stands_def .
qed

theorem revision_guards_witness:
  "\<exists>p p'. findProject 1 sample_fin2 = Some p \<and> findProject 1 sample_fin3 = Some p' \<and> pr_dataRevision p < pr_dataRevision p'"
proof -
  obtain p where p: "findProject 1 sample_fin2 = Some p" "length (projectDetails Receipt 1 sample_fin2) = 0"
    using standing_found [OF sample_fin2_standing] by blast
  obtain p' where "findProject 1 sample_fin3 = Some p'" "pr_dataRevision p \<le> pr_dataRevision p'"
      "pr_dataRevision p' = pr_dataRevision p
        \<longrightarrow> (\<forall>k. projectDetails k 1 sample_fin3 = projectDetails k 1 sample_fin2)"
    using revision_guards [OF sample_fin2_steps sample_fin3_step p(1)] by metis
  moreover have "projectDetails Receipt 1 sample_fin3 \<noteq> projectDetails Receipt 1 sample_fin2"
    using p(2) standing_found [OF sample_fin3_standing] by auto
  ultimately have "pr_dataRevision p' \<noteq> pr_dataRevision p" by blast
  then show ?thesis using p(1) \<open>findProject 1 sample_fin3 = Some p'\<close> \<open>pr_dataRevision p \<le> pr_dataRevision p'\<close> by force
qed

text \<open>C14: The journal only grows, and between any two states it has gained a row of every project of which the
  row or an amount differs.\<close>

theorem changes_journaled:
  assumes "fin_steps e fin_initial db" and "fin_steps e db db'"
    and "findProject i db' \<noteq> findProject i db \<or> projectDetails k i db' \<noteq> projectDetails k i db"
  shows "\<exists>new. fd_operations db' = fd_operations db @ new \<and> i \<in> jo_projectId ` set new"
proof -
  have "advances db db'" using fin_steps_sound [OF assms(2) fin_reach_ok [OF assms(1)]] by simp
  then obtain new where new: "fd_operations db' = fd_operations db @ new"
      and changed: "same_project db db' i \<or> (i \<in> jo_projectId ` set new \<and> outgrows db db' i)"
    unfolding advances_def by blast
  then show ?thesis using assms(3) by (auto simp: same_project_def)
qed

theorem changes_journaled_witness:
  "\<exists>new. fd_operations sample_fin3 = fd_operations sample_fin1 @ new \<and> 1 \<in> jo_projectId ` set new"
proof (rule changes_journaled [OF sample_fin1_steps fin_steps_trans [OF sample_fin3_step sample_fin2_step]])
  show "findProject 1 sample_fin3 \<noteq> findProject 1 sample_fin1
      \<or> projectDetails Invoice 1 sample_fin3 \<noteq> projectDetails Invoice 1 sample_fin1"
    using standing_found [OF sample_fin1_standing] standing_found [OF sample_fin3_standing] by auto
qed

text \<open>The import of the rows of a file, as one condition on what was read before.\<close>

lemma import_run_Inr:
  assumes "import_run e opr unclassified rows errorRows choices seen seen' interrupted db = Inr (out, db')"
  obtains counts where "applyImport e opr (buildRowInputsWithGroups e unclassified rows seen')
      (matchRows e errorRows (buildRowInputsWithGroups e unclassified rows seen) seen) choices db = Inr (counts, db')"
  using assms by (auto simp: import_run_def Let_def bindR_Inr_iff)

text \<open>C10: After an import a row that was chosen to overwrite its project has left exactly the invoices, receipts and
  payments of the file, in their order, and the project it was confirmed for was live and had the revision
  the confirmation named; a project with amounts a confirmation would lose was confirmed expressly.\<close>

theorem import_overwrites_exactly:
  assumes reach: "fin_steps e fin_initial db"
    and run: "import_run e opr unclassified rows errorRows choices seen seen' interrupted db = Inr (out, db')"
    and preview: "preview = matchRows e errorRows (buildRowInputsWithGroups e unclassified rows seen) seen"
    and inputs: "inputs = buildRowInputsWithGroups e unclassified rows seen'" "input \<in> set inputs"
    and pending: "ri_rowNumber input \<notin> set (pv_created preview)" "pending_row preview (ri_rowNumber input) = Some pending"
    and chosen: "choice_of choices (ri_rowNumber input) = Some c" "ic_decision c = OVERWRITE"
    and project: "findProject (pc_projectId pending) db = Some p"
  shows "(\<forall>k. map ad_amount (projectDetails k (pc_projectId pending) db') = map (numeric2 \<circ> decimal_of) (ri_amounts input k))
    \<and> pr_deletedAt p = None \<and> ic_dataRevision c = Some (pr_dataRevision p)
    \<and> (pc_dataLossWarning pending \<longrightarrow> ic_confirmDataLossWarning c)"
proof -
  obtain counts where ap: "applyImport e opr inputs preview choices db = Inr (counts, db')"
    using import_run_Inr [OF run] inputs(1) preview by blast
  have ne: "inputs \<noteq> []" using inputs(2) by auto
  obtain plan ids db1 db2 where
    plan: "foldR (plan_row preview choices) inputs \<lparr>ip_create = [], ip_overwrite = [], ip_skipped = 0\<rparr> = Inr plan"
    and cr: "import_creates e opr (ip_create plan) db = Inr (ids, db1)"
    and ov: "import_overwrites e opr (ip_overwrite plan) db1 = Inr db2"
    and db': "db' = db2\<lparr>fd_operations := fd_operations db2
      @ import_journal opr preview choices inputs ids (ip_overwrite plan) db1 db2\<rparr>"
    and "counts = (length ids, length (ip_overwrite plan), ip_skipped plan)"
    by (rule applyImport_Inr [OF ap ne])
  obtain w where w: "w \<in> set (ip_overwrite plan)" "ow_input w = input" "ow_targetId w = pc_projectId pending"
      "ic_dataRevision c = Some (ow_dataRevision w)" "pc_dataLossWarning pending \<longrightarrow> ic_confirmDataLossWarning c"
    using plan_overwrites [OF plan inputs(2) pending chosen] by auto
  note cf = import_creates_facts [OF cr fin_reach_ok [OF reach]]
  note of = import_overwrites_facts [OF ov cf(1)]
  have "pc_projectId pending \<notin> set ids" using cf(2) project by (metis option.distinct(1))
  then have "findProject (pc_projectId pending) db1 = Some p"
    using cf(3) project by (simp add: confined_def same_project_def)
  then have "pr_deletedAt p = None \<and> ow_dataRevision w = pr_dataRevision p"
    using of(4) [OF w(1)] w(3) by (auto simp: target_live)
  moreover have "projectDetails k i db' = projectDetails k i db2" for k i by (simp add: db' projectDetails_def)
  ultimately show ?thesis using of(5) [OF w(1)] w by simp
qed

theorem import_overwrites_exactly_witness:
  "\<exists>out db'. sample_import sample_fin2 sample_fin2 = Inr (out, db')
    \<and> map ad_amount (projectDetails Receipt 1 db') = map (numeric2 \<circ> decimal_of) [''300'', ''20.5'']"
proof -
  obtain out db' where run: "sample_import sample_fin2 sample_fin2 = Inr (out, db')" using sample_import_accepted by blast
  obtain input where only: "sample_inputs sample_fin2 = [input]"
      and input: "ri_rowNumber input = 2" "ri_amounts input Receipt = [''300'', ''20.5'']"
    using sample_fin2_evaluated by (auto simp: map_eq_Cons_conv)
  have member: "input \<in> set (sample_inputs sample_fin2)" unfolding only by simp
  have pending: "2 \<notin> set (pv_created (sample_preview sample_fin2))" "pending_row (sample_preview sample_fin2) 2 = Some sample_pending"
    using sample_fin2_evaluated by simp_all
  have choice: "choice_of sample_choices 2 = Some (hd sample_choices)" "ic_decision (hd sample_choices) = OVERWRITE"
    by (simp_all add: choice_of_def sample_choices_def)
  obtain p where p: "findProject (pc_projectId sample_pending) sample_fin2 = Some p"
    using standing_found [OF sample_fin2_standing] by (auto simp: sample_pending_def)
  show ?thesis
    using import_overwrites_exactly [OF sample_fin2_steps run [unfolded sample_import_def]
        sample_preview_def [unfolded sample_inputs_def] sample_inputs_def member _ _ _ choice(2) p]
      input pending choice(1) run by (auto simp: sample_pending_def)
qed

lemma filter_key: "distinct (map g xs) \<Longrightarrow> x \<in> set xs \<Longrightarrow> filter (\<lambda>y. g y = g x) xs = [x]"
proof (induction xs)
  case (Cons a xs)
  show ?case
  proof (cases "x = a")
    case True
    then have "g y \<noteq> g x" if "y \<in> set xs" for y using Cons.prems that by (auto simp: image_iff)
    then show ?thesis by (simp add: True filter_empty_conv)
  next
    case False
    then have "g a \<noteq> g x" using Cons.prems by auto
    then show ?thesis using Cons False by simp
  qed
qed simp

text \<open>C22: The totals of a selection that shows a single project are the automatic figures of that project, and
  both are the exact sums to the last cent, although the database sums exactly and the figures are added up
  one by one by a library that rounds to twenty digits: receipts and payments below a million million
  million are far beyond a hundred of the largest amounts the columns hold.\<close>

theorem single_project_totals:
  assumes reach: "fin_steps e fin_initial db" and p: "findProject i db = Some p" "pr_deletedAt p = None"
    and exact: "decimal_exact e"
    and received: "received = sum_list (map ad_amount (projectDetails Receipt i db))" "received < 10 ^ 18"
    and paid: "paid = or_zero (pr_miscExpense p) + sum_list (map ad_amount (projectDetails SubcontractPayment i db))"
      "paid < 10 ^ 18"
  shows "profit_totals_of e (\<lambda>q. pr_id q = i) db =
    \<lparr>pt_totalReceived = pf_totalReceived (recalcAuto e p db),
     pt_totalSubcontractPaid = pf_totalSubcontractPaid (recalcAuto e p db),
     pt_equity = pf_equity (recalcAuto e p db), pt_grossMargin = pf_grossMargin (recalcAuto e p db)\<rparr>
    \<and> pf_totalReceived (recalcAuto e p db) = toFixed2 received
    \<and> pf_totalSubcontractPaid (recalcAuto e p db) = toFixed2 paid
    \<and> pf_equity (recalcAuto e p db) = toFixed2 (received - paid)"
proof -
  have ok: "fin_ok e db" by (rule fin_reach_ok [OF reach])
  have m: "p \<in> set (fd_projects db)" "pr_id p = i" using findProject_Some [OF p(1)] by simp_all
  have "filter (\<lambda>q. pr_id q = i) (fd_projects db) = [p]"
    using filter_key [of pr_id "fd_projects db" p] ok m by (simp add: fin_ok_def projects_ok_def)
  then have "filter (\<lambda>q. pr_deletedAt q = None) (filter (\<lambda>q. pr_id q = i) (fd_projects db)) = [p]" using p(2) by simp
  then have shown: "shown_projects (\<lambda>q. pr_id q = i) db = [p]" by (simp add: shown_projects_def conj_commute)
  let ?rec = "projectDetails Receipt i db" and ?pay = "projectDetails SubcontractPayment i db"
  have am: "amount_ok (ad_amount r)" if "r \<in> set (projectDetails k i db)" for k r
    using ok that by (auto simp: fin_ok_def details_ok_def projectDetails_def)
  then have nn: "0 \<le> sum_list (map ad_amount (projectDetails k i db))" for k
    by (intro sum_list_nonneg) (auto simp: amount_ok_def)
  have tp: "two_places (sum_list (map ad_amount (projectDetails k i db)))" for k
    using am by (intro two_places_sum) (auto simp: amount_ok_def)
  have "opt_amount_ok (pr_miscExpense p)" using ok m(1) by (simp add: fin_ok_def projects_ok_def project_ok_def)
  then have misc: "0 \<le> or_zero (pr_miscExpense p)" "two_places (or_zero (pr_miscExpense p))"
    by (cases "pr_miscExpense p"; simp add: opt_amount_ok_def or_zero_def amount_ok_def)+
  have sums: "sumAmounts e ?rec = received" "sumAmounts e ?pay = sum_list (map ad_amount ?pay)"
    using sumAmounts_exact [OF exact, of ?rec] sumAmounts_exact [OF exact, of ?pay] am received paid misc(1) by auto
  have pay: "fe_plus e (or_zero (pr_miscExpense p)) (sum_list (map ad_amount ?pay)) = paid"
    "fe_plus e (sum_list (map ad_amount ?pay)) (or_zero (pr_miscExpense p)) = paid"
    using exact misc tp [of SubcontractPayment] nn [of SubcontractPayment] paid by (simp_all add: decimal_exact_def add.commute)
  have "\<bar>received - paid\<bar> < 10 ^ 18" using received paid nn [of Receipt] nn [of SubcontractPayment] misc(1) by linarith
  then have equity: "fe_minus e received paid = received - paid"
    using exact tp [of Receipt] two_places_plus [OF misc(2) tp [of SubcontractPayment]] received(1) paid(1)
    by (simp add: decimal_exact_def)
  show ?thesis
    using m(2) by (simp add: profit_totals_of_def Let_def shown recalcAuto_def calcProjectAutoFields_def detail_sum_def
        sums pay equity received(1) [symmetric])
qed

theorem single_project_totals_witness:
  "\<exists>p. findProject 1 sample_fin3 = Some p \<and> pf_totalReceived (recalcAuto sample_fin_env p sample_fin3) = ''320.50''
    \<and> pt_equity (profit_totals_of sample_fin_env (\<lambda>q. pr_id q = 1) sample_fin3) = ''320.50''"
proof -
  obtain p where p: "findProject 1 sample_fin3 = Some p" "pr_deletedAt p = None"
    using standing_found [OF sample_fin3_standing] by auto
  have m: "pr_miscExpense p = None" "map ad_amount (projectDetails Receipt 1 sample_fin3) = [300, 41 / 2]"
    "map ad_amount (projectDetails SubcontractPayment 1 sample_fin3) = []"
    using sample_fin3_money p(1) by (simp_all add: money_def)
  have t: "toFixed2 (641 / 2) = ''320.50''" by code_simp
  from single_project_totals [OF sample_fin3_steps p sample_decimal_exact, of "641 / 2" 0] m t p(1)
  show ?thesis by (simp add: or_zero_def)
qed

end
